(* ===== verification/Prelude.thy ===== *)
theory Prelude
  imports Complex_Main
begin

text \<open>
  Shared vocabulary of the development: Python text as lists of code points, Python
  values, raised exceptions as an error type, the handful of SQL statement shapes that
  the storage layer executes, and the three interfaces the components are proved
  against: a table with a primary key (\<open>keyed_table\<close>), a compare-and-set
  \<open>UPDATE ... WHERE\<close> (\<open>guarded_update\<close>) and a state machine with an invariant
  (\<open>invariant_system\<close>).
\<close>

section \<open>Hint collections\<close>

named_theorems sql_simps "evaluation and lookup laws of the SQL statement shapes"
named_theorems frame_simps "which tables an operation leaves unchanged"

section \<open>Python text and values\<close>

text \<open>
  A Python \<open>str\<close> is a sequence of code points; identifiers (run ids, hashes) are only
  compared, so they are plain \<open>string\<close>s. Time is a number of microseconds: every
  \<open>datetime.now(UTC)\<close> of the code is an argument of the definition that reads it.
\<close>

type_synonym utext = "nat list"
type_synonym time = nat

definition lit :: "string \<Rightarrow> utext" where
  "lit s = map of_char s"

lemma length_lit [simp]: "length (lit s) = length s"
  by (simp add: lit_def)

lemma lit_Nil [simp]: "lit [] = []"
  by (simp add: lit_def)

lemma lit_inject [simp]: "lit s = lit t \<longleftrightarrow> s = t"
  by (auto simp: lit_def intro: map_injective dest: inj_map_eq_map [THEN iffD1, rotated]
      simp: inj_def)

text \<open>JSON-shaped Python values (\<open>dict\<close> keys are strings, insertion ordered).\<close>

datatype pyval =
    VNone
  | VBool bool
  | VInt int
  | VFloat real
  | VStr utext
  | VBytes "nat list"
  | VList "pyval list"
  | VTuple "pyval list"
  | VSet "pyval list"
  | VDict "(utext \<times> pyval) list"

type_synonym pydict = "(utext \<times> pyval) list"

text \<open>Python's truth value of an object.\<close>

fun truthy :: "pyval \<Rightarrow> bool" where
  "truthy VNone = False"
| "truthy (VBool b) = b"
| "truthy (VInt i) = (i \<noteq> 0)"
| "truthy (VFloat x) = (x \<noteq> 0)"
| "truthy (VStr t) = (t \<noteq> [])"
| "truthy (VBytes t) = (t \<noteq> [])"
| "truthy (VList xs) = (xs \<noteq> [])"
| "truthy (VTuple xs) = (xs \<noteq> [])"
| "truthy (VSet xs) = (xs \<noteq> [])"
| "truthy (VDict d) = (d \<noteq> [])"

text \<open>Item assignment on a dict keeps the position of an existing key.\<close>

fun dict_set :: "'k \<Rightarrow> 'v \<Rightarrow> ('k \<times> 'v) list \<Rightarrow> ('k \<times> 'v) list" where
  "dict_set k v [] = [(k, v)]"
| "dict_set k v ((k', v') # kvs) =
     (if k' = k then (k, v) # kvs else (k', v') # dict_set k v kvs)"

definition dict_update :: "('k \<times> 'v) list \<Rightarrow> ('k \<times> 'v) list \<Rightarrow> ('k \<times> 'v) list" where
  "dict_update d patch = fold (\<lambda>(k, v). dict_set k v) patch d"

lemma map_of_dict_set [simp]: "map_of (dict_set k v d) = (map_of d)(k \<mapsto> v)"
  by (induction d) (auto simp: fun_eq_iff)

lemma dom_dict_set: "fst ` set (dict_set k v d) = insert k (fst ` set d)"
  by (simp flip: dom_map_of_conv_image_fst)

lemma distinct_dict_set: "distinct (map fst d) \<Longrightarrow> distinct (map fst (dict_set k v d))"
proof (induction d)
  case (Cons p d)
  then show ?case
    using dom_dict_set [of k v d] by (cases p) (auto simp: image_iff)
qed simp

lemma map_of_dict_update:
  "map_of (dict_update d patch) k =
     (case map_of (rev patch) k of None \<Rightarrow> map_of d k | Some v \<Rightarrow> Some v)"
  by (induction patch arbitrary: d)
    (auto simp: dict_update_def map_add_def split: option.splits)

text \<open>\<open>needle in haystack\<close> on text.\<close>

fun text_in :: "utext \<Rightarrow> utext \<Rightarrow> bool" where
  "text_in needle [] = (needle = [])"
| "text_in needle (c # cs) = (take (length needle) (c # cs) = needle \<or> text_in needle cs)"

lemma text_in_iff: "text_in needle hay \<longleftrightarrow> (\<exists>pre post. hay = pre @ needle @ post)"
proof (induction hay)
  case Nil
  show ?case by auto
next
  case (Cons c cs)
  show ?case
  proof
    assume "text_in needle (c # cs)"
    then consider "take (length needle) (c # cs) = needle" | "text_in needle cs" by auto
    then show "\<exists>pre post. c # cs = pre @ needle @ post"
    proof cases
      case 1
      then have "c # cs = [] @ needle @ drop (length needle) (c # cs)"
        by (metis append_Nil append_take_drop_id)
      then show ?thesis by blast
    next
      case 2
      then obtain pre post where "cs = pre @ needle @ post" using Cons by blast
      then have "c # cs = (c # pre) @ needle @ post" by simp
      then show ?thesis by blast
    qed
  next
    assume "\<exists>pre post. c # cs = pre @ needle @ post"
    then obtain pre post where eq: "c # cs = pre @ needle @ post" by blast
    show "text_in needle (c # cs)"
    proof (cases pre)
      case Nil
      with eq have "take (length needle) (c # cs) = needle" by simp
      then show ?thesis by simp
    next
      case (Cons p pre')
      with eq have "cs = pre' @ needle @ post" by simp
      with Cons.IH show ?thesis by auto
    qed
  qed
qed

section \<open>Exceptions\<close>

datatype py_error =
    ValueError utext
  | RuntimeError utext
  | KeyError string
  | IntegrityError      \<comment> \<open>sqlite3: PRIMARY KEY, UNIQUE or FOREIGN KEY violated\<close>
  | PermissionError utext
  | FileNotFoundError utext
  | ZeroDivisionError
  | OSError utext
  | TypeError utext
  | AssertionError
  | OverflowError       \<comment> \<open>datetime arithmetic out of range\<close>
  | CancelledError

fun err_bind :: "'e + 'a \<Rightarrow> ('a \<Rightarrow> 'e + 'b) \<Rightarrow> 'e + 'b" where
  "err_bind (Inl e) f = Inl e"
| "err_bind (Inr a) f = f a"

lemma err_bind_eq_Inr: "err_bind r f = Inr b \<longleftrightarrow> (\<exists>a. r = Inr a \<and> f a = Inr b)"
  by (cases r) auto

lemma err_bind_eq_Inl: "err_bind r f = Inl e \<longleftrightarrow> r = Inl e \<or> (\<exists>a. r = Inr a \<and> f a = Inl e)"
  by (cases r) auto

text \<open>Clamp combinators \<open>max(lo, x)\<close> and \<open>min(hi, max(lo, x))\<close> keep their bounds.\<close>

lemma clamp_bounds: "(lo::'a::linorder) \<le> hi \<Longrightarrow> lo \<le> min hi (max lo x) \<and> min hi (max lo x) \<le> hi"
  by auto

section \<open>SQL statement shapes\<close>

text \<open>
  A table is the list of its rows in rowid order. The definitions below are the
  statement shapes the repositories execute; \<open>sql_count\<close> of the guard is the
  \<open>cursor.rowcount\<close> of an \<open>UPDATE\<close> or \<open>DELETE\<close>.
\<close>

definition sql_update :: "('r \<Rightarrow> bool) \<Rightarrow> ('r \<Rightarrow> 'r) \<Rightarrow> 'r list \<Rightarrow> 'r list" where
  "sql_update p f rows = map (\<lambda>r. if p r then f r else r) rows"

definition sql_delete :: "('r \<Rightarrow> bool) \<Rightarrow> 'r list \<Rightarrow> 'r list" where
  "sql_delete p rows = filter (\<lambda>r. \<not> p r) rows"

definition sql_count :: "('r \<Rightarrow> bool) \<Rightarrow> 'r list \<Rightarrow> nat" where
  "sql_count p rows = length (filter p rows)"

definition sql_find :: "('r \<Rightarrow> 'k) \<Rightarrow> 'k \<Rightarrow> 'r list \<Rightarrow> 'r option" where
  "sql_find key k rows = find (\<lambda>r. key r = k) rows"

definition sql_has :: "('r \<Rightarrow> 'k) \<Rightarrow> 'k \<Rightarrow> 'r list \<Rightarrow> bool" where
  "sql_has key k rows = list_ex (\<lambda>r. key r = k) rows"

text \<open>\<open>INSERT ... ON CONFLICT(key) DO UPDATE\<close>; \<open>merge old new\<close> is the SET clause.\<close>

definition sql_upsert :: "('r \<Rightarrow> 'k) \<Rightarrow> ('r \<Rightarrow> 'r \<Rightarrow> 'r) \<Rightarrow> 'r \<Rightarrow> 'r list \<Rightarrow> 'r list" where
  "sql_upsert key merge new rows =
     (if sql_has key (key new) rows
      then sql_update (\<lambda>r. key r = key new) (\<lambda>r. merge r new) rows
      else rows @ [new])"

text \<open>\<open>INSERT OR REPLACE\<close>: the conflicting row goes, the new one gets the last rowid.\<close>

definition sql_replace :: "('r \<Rightarrow> 'k) \<Rightarrow> 'r \<Rightarrow> 'r list \<Rightarrow> 'r list" where
  "sql_replace key new rows = sql_delete (\<lambda>r. key r = key new) rows @ [new]"

text \<open>\<open>INSERT OR IGNORE\<close>.\<close>

definition sql_insert_ignore :: "('r \<Rightarrow> 'k) \<Rightarrow> 'r \<Rightarrow> 'r list \<Rightarrow> 'r list" where
  "sql_insert_ignore key new rows =
     (if sql_has key (key new) rows then rows else rows @ [new])"

lemma sql_has_iff [sql_simps]: "sql_has key k rows \<longleftrightarrow> (\<exists>r \<in> set rows. key r = k)"
  by (auto simp: sql_has_def list_ex_iff)

lemma sql_has_image: "sql_has key k rows \<longleftrightarrow> k \<in> key ` set rows"
  by (force simp: sql_has_def list_ex_iff)

lemma sql_find_None_iff: "sql_find key k rows = None \<longleftrightarrow> k \<notin> key ` set rows"
  by (auto simp: sql_find_def find_None_iff)

lemma sql_find_SomeD: "sql_find key k rows = Some r \<Longrightarrow> r \<in> set rows \<and> key r = k"
  by (auto simp: sql_find_def find_Some_iff in_set_conv_nth)

lemma sql_find_unique:
  "distinct (map key rows) \<Longrightarrow> r \<in> set rows \<Longrightarrow> sql_find key (key r) rows = Some r"
  by (induction rows) (auto simp: sql_find_def image_iff)

lemma sql_find_append:
  "sql_find key k (xs @ ys) =
     (case sql_find key k xs of None \<Rightarrow> sql_find key k ys | Some r \<Rightarrow> Some r)"
  by (induction xs) (auto simp: sql_find_def)

lemma set_sql_update [sql_simps]:
  "set (sql_update p f rows) = f ` {r \<in> set rows. p r} \<union> {r \<in> set rows. \<not> p r}"
  by (auto simp: sql_update_def)

lemma set_sql_delete [sql_simps]: "set (sql_delete p rows) = {r \<in> set rows. \<not> p r}"
  by (auto simp: sql_delete_def)

lemma sql_update_id: "(\<And>r. r \<in> set rows \<Longrightarrow> \<not> p r) \<Longrightarrow> sql_update p f rows = rows"
  by (induction rows) (auto simp: sql_update_def)

lemma sql_count_eq_0 [sql_simps]: "sql_count p rows = 0 \<longleftrightarrow> (\<forall>r \<in> set rows. \<not> p r)"
  by (simp add: sql_count_def filter_empty_conv)

lemma map_sql_update:
  "(\<And>r. p r \<Longrightarrow> g (f r) = g r) \<Longrightarrow> map g (sql_update p f rows) = map g rows"
  by (simp add: sql_update_def)

lemma length_sql_update [simp]: "length (sql_update p f rows) = length rows"
  by (simp add: sql_update_def)

lemma sql_update_Nil [simp]: "sql_update p f [] = []"
  by (simp add: sql_update_def)

lemma sql_find_update_same:
  "(\<And>r. p r \<Longrightarrow> key (f r) = key r) \<Longrightarrow>
   sql_find key k (sql_update p f rows) =
     map_option (\<lambda>r. if p r then f r else r) (sql_find key k rows)"
  by (induction rows) (auto simp: sql_find_def sql_update_def)

lemma sql_find_delete:
  "(\<And>r. r \<in> set rows \<Longrightarrow> key r = k \<Longrightarrow> \<not> p r) \<Longrightarrow>
   sql_find key k (sql_delete p rows) = sql_find key k rows"
  by (induction rows) (auto simp: sql_find_def sql_delete_def)

lemma sql_find_delete_keep:
  "sql_find key k rows = Some r \<Longrightarrow> \<not> p r \<Longrightarrow> sql_find key k (sql_delete p rows) = Some r"
  by (induction rows) (auto simp: sql_find_def sql_delete_def split: if_splits)

lemma sql_find_delete_key: "sql_find key k (sql_delete (\<lambda>r. key r = k) rows) = None"
  by (induction rows) (auto simp: sql_find_def sql_delete_def)

lemma distinct_sql_delete: "distinct (map key rows) \<Longrightarrow> distinct (map key (sql_delete p rows))"
  by (simp add: sql_delete_def distinct_map_filter)

lemma distinct_sql_replace:
  "distinct (map key rows) \<Longrightarrow> distinct (map key (sql_replace key new rows))"
  by (auto simp: sql_replace_def distinct_sql_delete sql_simps)

lemma sql_count_le_1:
  assumes "distinct (map key rows)"
  shows "sql_count (\<lambda>r. key r = k \<and> g r) rows \<le> 1"
  using assms
proof (induction rows)
  case (Cons r rows)
  then have IH: "sql_count (\<lambda>r. key r = k \<and> g r) rows \<le> 1" by simp
  show ?case
  proof (cases "key r = k")
    case True
    with Cons.prems have "\<forall>r' \<in> set rows. \<not> (key r' = k \<and> g r')"
      by (auto simp: image_iff)
    then have "sql_count (\<lambda>r. key r = k \<and> g r) rows = 0" by (simp add: sql_count_eq_0)
    then show ?thesis by (simp add: sql_count_def)
  next
    case False
    with IH show ?thesis by (simp add: sql_count_def)
  qed
qed (simp add: sql_count_def)

section \<open>Interface: a table with a primary key\<close>

text \<open>
  What a repository promises about a table it upserts into: the SET clause never
  touches the key. The client facts are the dictionary laws of the table.
\<close>

locale keyed_table =
  fixes key :: "'r \<Rightarrow> 'k"
    and merge :: "'r \<Rightarrow> 'r \<Rightarrow> 'r"
  assumes merge_key: "key r = key n \<Longrightarrow> key (merge r n) = key n"
begin

lemma keys_upsert:
  "map key (sql_upsert key merge n rows) =
     (if key n \<in> key ` set rows then map key rows else map key rows @ [key n])"
proof -
  have "map key (sql_update (\<lambda>r. key r = key n) (\<lambda>r. merge r n) rows) = map key rows"
    by (rule map_sql_update) (simp add: merge_key)
  then show ?thesis by (simp add: sql_upsert_def sql_has_image)
qed

lemma key_set_upsert: "key ` set (sql_upsert key merge n rows) = insert (key n) (key ` set rows)"
proof -
  have "set (map key (sql_upsert key merge n rows)) = insert (key n) (key ` set rows)"
    by (subst keys_upsert) auto
  then show ?thesis by simp
qed

lemma unique_upsert:
  "distinct (map key rows) \<Longrightarrow> distinct (map key (sql_upsert key merge n rows))"
  by (simp add: keys_upsert)

lemma find_upsert:
  "sql_find key k (sql_upsert key merge n rows) =
     (if k = key n
      then Some (case sql_find key k rows of None \<Rightarrow> n | Some r \<Rightarrow> merge r n)
      else sql_find key k rows)"
proof (cases "sql_has key (key n) rows")
  case True
  then have "sql_find key (key n) rows \<noteq> None"
    by (simp add: sql_has_image sql_find_None_iff)
  moreover have "sql_find key k (sql_update (\<lambda>r. key r = key n) (\<lambda>r. merge r n) rows) =
      map_option (\<lambda>r. if key r = key n then merge r n else r) (sql_find key k rows)"
    by (rule sql_find_update_same) (simp add: merge_key)
  ultimately show ?thesis
    using True by (cases "sql_find key k rows") (auto simp: sql_upsert_def dest: sql_find_SomeD)
next
  case False
  then have "sql_find key (key n) rows = None"
    by (simp add: sql_has_image sql_find_None_iff)
  with False show ?thesis
    by (auto simp: sql_upsert_def sql_find_append split: option.splits) (auto simp: sql_find_def)
qed

lemma find_after_upsert_delete:
  "sql_find key (key n) (sql_delete (\<lambda>r. key r = key n) (sql_upsert key merge n rows)) = None"
  by (rule sql_find_delete_key)

lemma find_upsert_other: "k \<noteq> key n \<Longrightarrow> sql_find key k (sql_upsert key merge n rows) = sql_find key k rows"
  by (simp add: find_upsert)

end

section \<open>Interface: compare-and-set on a row\<close>

text \<open>
  Every status change that must happen at most once is an
  \<open>UPDATE ... WHERE key = ? AND <guard>\<close> whose rowcount tells the caller whether it
  won. The law: the SET clause keeps the key and falsifies the guard.
\<close>

definition cas_update ::
  "('r \<Rightarrow> 'k) \<Rightarrow> ('r \<Rightarrow> bool) \<Rightarrow> ('r \<Rightarrow> 'r) \<Rightarrow> 'k \<Rightarrow> 'r list \<Rightarrow> 'r list \<times> bool" where
  "cas_update key guard eff k rows =
     (sql_update (\<lambda>r. key r = k \<and> guard r) eff rows,
      sql_count (\<lambda>r. key r = k \<and> guard r) rows = 1)"

locale guarded_update =
  fixes key :: "'r \<Rightarrow> 'k"
    and guard :: "'r \<Rightarrow> bool"
    and eff :: "'r \<Rightarrow> 'r"
  assumes eff_key: "key (eff r) = key r"
    and eff_guard: "guard r \<Longrightarrow> \<not> guard (eff r)"
begin

lemma unique_cas:
  "distinct (map key rows) \<Longrightarrow> distinct (map key (fst (cas_update key guard eff k rows)))"
  by (simp add: cas_update_def map_sql_update eff_key)

lemma find_cas:
  "sql_find key k' (fst (cas_update key guard eff k rows)) =
     map_option (\<lambda>r. if k' = k \<and> guard r then eff r else r) (sql_find key k' rows)"
proof -
  have "sql_find key k' (sql_update (\<lambda>r. key r = k \<and> guard r) eff rows) =
      map_option (\<lambda>r. if key r = k \<and> guard r then eff r else r) (sql_find key k' rows)"
    by (rule sql_find_update_same) (simp add: eff_key)
  note upd = this
  show ?thesis
  proof (cases "sql_find key k' rows")
    case (Some r)
    with sql_find_SomeD [OF Some] upd show ?thesis by (simp add: cas_update_def)
  qed (simp add: cas_update_def upd)
qed

lemma won_iff:
  assumes "distinct (map key rows)"
  shows "snd (cas_update key guard eff k rows) \<longleftrightarrow>
    (\<exists>r. sql_find key k rows = Some r \<and> guard r)"
proof -
  let ?g = "\<lambda>r. key r = k \<and> guard r"
  have le: "sql_count ?g rows \<le> 1" by (rule sql_count_le_1 [OF assms])
  have "sql_count ?g rows = 0 \<longleftrightarrow> (\<forall>r \<in> set rows. \<not> ?g r)" by (rule sql_count_eq_0)
  moreover have "(\<exists>r \<in> set rows. ?g r) \<longleftrightarrow> (\<exists>r. sql_find key k rows = Some r \<and> guard r)"
  proof
    assume "\<exists>r \<in> set rows. ?g r"
    then obtain r where "r \<in> set rows" "key r = k" "guard r" by blast
    with sql_find_unique [OF assms, of r] show "\<exists>r. sql_find key k rows = Some r \<and> guard r" by auto
  qed (auto dest: sql_find_SomeD)
  moreover have "snd (cas_update key guard eff k rows) \<longleftrightarrow> sql_count ?g rows \<noteq> 0"
    using le by (auto simp: cas_update_def)
  ultimately show ?thesis by blast
qed

lemma wins_once:
  assumes "distinct (map key rows)" and "rows' = fst (cas_update key guard eff k rows)"
  shows "\<not> snd (cas_update key guard eff k rows')"
proof -
  have u: "distinct (map key rows')" using assms by (simp add: unique_cas)
  have "sql_find key k rows' = map_option (\<lambda>r. if guard r then eff r else r) (sql_find key k rows)"
    using assms(2) find_cas [of k k rows] by simp
  then have "\<not> (\<exists>r. sql_find key k rows' = Some r \<and> guard r)"
    using eff_guard by (auto split: if_splits)
  with u show ?thesis by (simp add: won_iff)
qed

lemma lost_unchanged:
  assumes "distinct (map key rows)" and "\<not> snd (cas_update key guard eff k rows)"
  shows "fst (cas_update key guard eff k rows) = rows"
proof -
  have "\<not> (\<exists>r. sql_find key k rows = Some r \<and> guard r)"
    using assms by (simp add: won_iff)
  then have "\<not> (key r = k \<and> guard r)" if "r \<in> set rows" for r
    using sql_find_unique [OF assms(1) that] by auto
  then show ?thesis by (simp add: cas_update_def sql_update_id)
qed

end

section \<open>Interface: a state machine with an invariant\<close>

locale invariant_system =
  fixes init :: "'s \<Rightarrow> bool"
    and step :: "'e \<Rightarrow> 's \<Rightarrow> 's"
    and inv :: "'s \<Rightarrow> bool"
  assumes init_inv: "init s \<Longrightarrow> inv s"
    and step_inv: "inv s \<Longrightarrow> inv (step e s)"
begin

lemma run_inv: "inv s \<Longrightarrow> inv (fold step es s)"
  by (induction es arbitrary: s) (auto intro: step_inv)

lemma reachable_inv: "init s \<Longrightarrow> inv (fold step es s)"
  by (rule run_inv) (rule init_inv)

end

end
