(* ===== verification/Contracts.thy ===== *)
theory Contracts
  imports Prelude
begin

text \<open>
  The domain contracts of \<open>src/src/agentharness/contracts.py\<close>: the string enums as
  datatypes and the Pydantic models the engine and the storage layer exchange as
  records. Field constraints that Pydantic enforces at construction
  (\<open>Field(ge=..., le=...)\<close>) are the \<open>valid_*\<close> predicates; defaults are the
  \<open>default_*\<close> constants. Field names carry a short prefix per record, since HOL
  record fields share one name space.
\<close>

section \<open>Enums\<close>

datatype run_status =
    RS_pending | RS_running | RS_waiting_approval | RS_require_human
  | RS_completed | RS_failed | RS_cancelled | RS_interrupted

text \<open>\<open>RunStatus.value\<close>: the wire form of the enum.\<close>

fun run_status_value :: "run_status \<Rightarrow> string" where
  "run_status_value RS_pending = ''pending''"
| "run_status_value RS_running = ''running''"
| "run_status_value RS_waiting_approval = ''waiting_approval''"
| "run_status_value RS_require_human = ''require_human''"
| "run_status_value RS_completed = ''completed''"
| "run_status_value RS_failed = ''failed''"
| "run_status_value RS_cancelled = ''cancelled''"
| "run_status_value RS_interrupted = ''interrupted''"

datatype effect_kind =
    EK_pure | EK_workspace_read | EK_workspace_write | EK_process | EK_network | EK_destructive

datatype replay_policy = RP_safe | RP_reconcile | RP_never

datatype invocation_status =
    TI_received | TI_validated | TI_waiting_approval | TI_approved | TI_running
  | TI_succeeded | TI_failed | TI_cancelled | TI_indeterminate

datatype approval_mode = AM_ask | AM_auto | AM_never

datatype approval_decision = AD_allow_once | AD_allow_run | AD_deny

datatype message_role = MR_system | MR_user | MR_assistant | MR_tool

datatype event_type =
    ET_run_started | ET_run_status | ET_run_completed | ET_run_failed | ET_run_cancelled
  | ET_run_interrupted | ET_model_turn_start | ET_model_turn_end | ET_context_manifest
  | ET_context_compacted | ET_verification_started | ET_verification_result
  | ET_verification_feedback | ET_text_delta | ET_tool_call_start | ET_tool_call_validated
  | ET_tool_execution_queued | ET_tool_execution_started | ET_tool_retry
  | ET_tool_execution_cancelled | ET_tool_execution_indeterminate
  | ET_tool_recovery_resolved | ET_tool_call_end | ET_tool_result | ET_approval_requested
  | ET_approval_resolved | ET_checkpoint | ET_span_start | ET_span_end
  | ET_child_run_started | ET_child_run_ended | ET_budget_warning | ET_provider_retry
  | ET_error

section \<open>Usage accounting\<close>

record provider_attempt =
  pa_provider :: utext
  pa_model :: "utext option"
  pa_attempt :: int
  pa_completed :: bool
  pa_error_kind :: "string option"
  pa_input_tokens :: int
  pa_output_tokens :: int
  pa_cached_input_tokens :: int
  pa_had_output :: bool
  pa_fallback :: bool
  pa_estimated_cost_usd :: "real option"

record usage =
  u_input_tokens :: int
  u_output_tokens :: int
  u_total_tokens :: int
  u_cached_input_tokens :: int
  u_estimated :: bool
  u_last_input_tokens :: int
  u_last_output_tokens :: int
  u_last_cached_input_tokens :: int
  u_last_local_estimate :: int
  u_model_turns :: int
  u_provider_attempts :: "provider_attempt list"
  u_estimated_cost_usd :: "real option"
  u_cost_estimated :: bool

definition default_usage :: usage where
  "default_usage =
     \<lparr>u_input_tokens = 0, u_output_tokens = 0, u_total_tokens = 0, u_cached_input_tokens = 0,
      u_estimated = False, u_last_input_tokens = 0, u_last_output_tokens = 0,
      u_last_cached_input_tokens = 0, u_last_local_estimate = 0, u_model_turns = 0,
      u_provider_attempts = [], u_estimated_cost_usd = None, u_cost_estimated = False\<rparr>"

text \<open>
  \<open>cache_hit_rate\<close>: \<open>round4\<close> stands for Python's \<open>round(_, 4)\<close> on floats.
\<close>

definition cache_hit_rate :: "(real \<Rightarrow> real) \<Rightarrow> usage \<Rightarrow> real" where
  "cache_hit_rate round4 u =
     (if u_input_tokens u \<le> 0 \<or> u_cached_input_tokens u \<le> 0 then 0
      else round4 (min 1 (real_of_int (u_cached_input_tokens u) / real_of_int (u_input_tokens u))))"

section \<open>Messages, tool calls and results\<close>

datatype call_status = CS_pending | CS_running | CS_completed | CS_failed | CS_skipped

record tool_call =
  tc_id :: string
  tc_invocation_id :: string
  tc_name :: string
  tc_arguments :: pydict
  tc_arguments_raw :: utext
  tc_ordinal :: nat
  tc_status :: call_status

datatype part_type = PT_text | PT_json | PT_image | PT_resource

record tool_content_part =
  cp_type :: part_type
  cp_text :: "utext option"
  cp_data :: pyval
  cp_mime_type :: "string option"
  cp_artifact_id :: "string option"

datatype pause_status = PS_require_human | PS_waiting_approval

record tool_result =
  tr_tool_call_id :: string
  tr_name :: string
  tr_content :: utext
  tr_final_output :: "utext option"
  tr_pause_status :: "pause_status option"
  tr_pause_reason :: "utext option"
  tr_invocation_id :: "string option"
  tr_is_error :: bool
  tr_artifact_id :: "string option"
  tr_parts :: "tool_content_part list"
  tr_duration_ms :: "real option"
  tr_attempts :: nat
  tr_error_code :: "string option"
  tr_error_category :: "string option"
  tr_retryable :: bool
  tr_recovery_hint :: "utext option"

text \<open>The constructor call \<open>ToolResult(tool_call_id=..., name=..., content=...)\<close>.\<close>

definition new_tool_result :: "string \<Rightarrow> string \<Rightarrow> utext \<Rightarrow> tool_result" where
  "new_tool_result call_id name content =
     \<lparr>tr_tool_call_id = call_id, tr_name = name, tr_content = content, tr_final_output = None,
      tr_pause_status = None, tr_pause_reason = None, tr_invocation_id = None,
      tr_is_error = False, tr_artifact_id = None, tr_parts = [], tr_duration_ms = None,
      tr_attempts = 1, tr_error_code = None, tr_error_category = None, tr_retryable = False,
      tr_recovery_hint = None\<rparr>"

record message =
  m_id :: string
  m_role :: message_role
  m_content :: utext
  m_tool_call_id :: "string option"
  m_name :: "string option"
  m_tool_calls :: "tool_call list option"
  m_tool_result :: "tool_result option"
  m_created_at :: time

record tool_spec =
  ts_name :: string
  ts_description :: utext
  ts_parameters :: pydict
  ts_effect :: effect_kind
  ts_requires_approval :: bool
  ts_version :: string
  ts_timeout_s :: real
  ts_max_attempts :: nat
  ts_replay_policy :: "replay_policy option"
  ts_parallel_safe :: "bool option"
  ts_max_result_bytes :: nat

definition valid_tool_spec :: "tool_spec \<Rightarrow> bool" where
  "valid_tool_spec s \<longleftrightarrow>
     0 < ts_timeout_s s \<and> ts_timeout_s s \<le> 3600 \<and>
     1 \<le> ts_max_attempts s \<and> ts_max_attempts s \<le> 5 \<and>
     1 \<le> ts_max_result_bytes s \<and> ts_max_result_bytes s \<le> 16777216"

record tool_invocation =
  ti_id :: string
  ti_run_id :: string
  ti_session_id :: string
  ti_step :: nat
  ti_ordinal :: nat
  ti_provider_call_id :: string
  ti_tool_name :: string
  ti_tool_version :: string
  ti_status :: invocation_status
  ti_effect :: effect_kind
  ti_replay_policy :: replay_policy
  ti_arguments :: pydict
  ti_arguments_sha256 :: string
  ti_approval_id :: "string option"
  ti_attempt_count :: nat
  ti_result :: "tool_result option"
  ti_error_code :: "string option"
  ti_error_category :: "string option"
  ti_created_at :: time
  ti_updated_at :: time
  ti_started_at :: "time option"
  ti_finished_at :: "time option"

section \<open>Budgets, checkpoints, approvals, events\<close>

record budget_config =
  b_max_steps :: int
  b_max_wall_time_s :: real
  b_max_tokens :: int
  b_max_context_tokens :: int
  b_max_output_length :: int
  b_max_delegate_depth :: int
  b_max_concurrent_children :: int
  b_max_cost_usd :: "real option"
  b_max_tool_calls_per_turn :: nat
  b_max_tool_calls :: nat
  b_max_concurrent_tools :: nat
  b_max_tool_argument_bytes :: nat
  b_max_tool_result_bytes :: nat
  b_max_inline_tool_result_bytes :: nat
  b_context_compact_enabled :: bool
  b_context_compact_ratio :: real
  b_context_compact_keep_recent :: nat

definition default_budget :: budget_config where
  "default_budget =
     \<lparr>b_max_steps = 50, b_max_wall_time_s = 600, b_max_tokens = 200000,
      b_max_context_tokens = 100000, b_max_output_length = 500000, b_max_delegate_depth = 3,
      b_max_concurrent_children = 4, b_max_cost_usd = None, b_max_tool_calls_per_turn = 16,
      b_max_tool_calls = 128, b_max_concurrent_tools = 4, b_max_tool_argument_bytes = 262144,
      b_max_tool_result_bytes = 1048576, b_max_inline_tool_result_bytes = 4096,
      b_context_compact_enabled = True, b_context_compact_ratio = 8 / 10,
      b_context_compact_keep_recent = 2\<rparr>"

definition valid_budget :: "budget_config \<Rightarrow> bool" where
  "valid_budget b \<longleftrightarrow>
     (case b_max_cost_usd b of None \<Rightarrow> True | Some c \<Rightarrow> 0 \<le> c) \<and>
     1 \<le> b_max_tool_calls_per_turn b \<and> b_max_tool_calls_per_turn b \<le> 16 \<and>
     1 \<le> b_max_tool_calls b \<and> b_max_tool_calls b \<le> 128 \<and>
     1 \<le> b_max_concurrent_tools b \<and> b_max_concurrent_tools b \<le> 4 \<and>
     1024 \<le> b_max_tool_argument_bytes b \<and> b_max_tool_argument_bytes b \<le> 262144 \<and>
     1024 \<le> b_max_tool_result_bytes b \<and> b_max_tool_result_bytes b \<le> 1048576 \<and>
     256 \<le> b_max_inline_tool_result_bytes b \<and> b_max_inline_tool_result_bytes b \<le> 4096 \<and>
     2 / 10 \<le> b_context_compact_ratio b \<and> b_context_compact_ratio b \<le> 1 \<and>
     b_context_compact_keep_recent b \<le> 16"

lemma valid_default_budget: "valid_budget default_budget"
  by (simp add: valid_budget_def default_budget_def)

datatype checkpoint_phase = CP_model_turn | CP_tool_batch | CP_waiting_approval | CP_terminal

record checkpoint =
  ck_run_id :: string
  ck_phase :: checkpoint_phase
  ck_step :: nat
  ck_messages :: "message list"
  ck_pending_tool_calls :: "tool_call list"
  ck_completed_tool_call_ids :: "string list"
  ck_partial_text :: utext
  ck_usage :: usage
  ck_status :: run_status
  ck_approval_token :: "string option"
  ck_metadata :: pydict
  ck_created_at :: time

record approval_request =
  ar_id :: string
  ar_run_id :: string
  ar_tool_call_id :: string
  ar_tool_name :: string
  ar_invocation_id :: "string option"
  ar_tool_version :: string
  ar_effect :: effect_kind
  ar_arguments_summary :: utext
  ar_arguments_sha256 :: string
  ar_approval_scope :: utext
  ar_requires_confirmation :: bool
  ar_decision :: "approval_decision option"
  ar_created_at :: time

record event_envelope =
  ev_schema_version :: nat
  ev_event_id :: string
  ev_global_seq :: nat
  ev_run_seq :: nat
  ev_session_id :: string
  ev_root_run_id :: string
  ev_run_id :: string
  ev_parent_run_id :: "string option"
  ev_span_id :: "string option"
  ev_parent_span_id :: "string option"
  ev_type :: event_type
  ev_timestamp :: time
  ev_payload :: pydict

section \<open>What a provider is asked and streams\<close>

datatype stream_item_type =
    ST_text_delta | ST_tool_call_start | ST_tool_call_delta | ST_tool_call_end | ST_usage | ST_error | ST_done

record model_stream_item =
  si_type :: stream_item_type
  si_text :: "utext option"
  si_tool_call_id :: "string option"
  si_tool_name :: "string option"
  si_arguments_delta :: "utext option"
  si_arguments :: "pydict option"
  si_usage :: "usage option"
  si_error :: "utext option"
  si_error_kind :: "string option"
  si_retry_after_s :: "real option"

text \<open>The fields the engine fills in; \<open>temperature\<close> and \<open>stop\<close> keep their default \<open>None\<close>.\<close>

record model_request =
  mq_messages :: "message list"
  mq_tools :: "tool_spec list"
  mq_model :: "string option"
  mq_reasoning_effort :: "string option"
  mq_max_tokens :: "int option"
  mq_parallel_tool_calls :: "bool option"
  mq_system :: "utext option"
  mq_metadata :: pydict

section \<open>Context planning models\<close>

record pinned_item =
  pi_section :: string
  pi_source :: utext
  pi_content :: utext
  pi_content_hash :: string
  pi_token_estimate :: nat
  pi_selected :: bool
  pi_reason :: utext
  pi_artifact_id :: "string option"

record context_state =
  cs_schema_version :: nat
  cs_items :: "pinned_item list"
  cs_summarized_message_ids :: "string list"
  cs_compaction_count :: nat

datatype compression_kind = CK_none | CK_summarized | CK_externalized | CK_excluded

record manifest_item =
  mi_section :: string
  mi_source :: utext
  mi_content_hash :: string
  mi_token_estimate :: nat
  mi_included :: bool
  mi_reason :: utext
  mi_compression :: compression_kind
  mi_artifact_id :: "string option"
  mi_preview :: utext

section \<open>Verification models\<close>

datatype check_kind = VK_output | VK_file | VK_command | VK_ai

record verification_failure =
  vf_validator :: string
  vf_error_code :: string
  vf_message :: utext
  vf_evidence :: pydict
  vf_retryable :: bool
  vf_recovery_hint :: "utext option"

record verification_check =
  vc_kind :: check_kind
  vc_assertions :: pydict
  vc_path :: "utext option"
  vc_exists :: bool
  vc_contains :: "utext list"
  vc_command :: "utext option"
  vc_min_score :: real

datatype exhausted_policy = OE_failed | OE_require_human | OE_checkpoint

record verification_policy =
  vp_validators :: "verification_check list"
  vp_max_retries :: nat
  vp_on_exhausted :: exhausted_policy
  vp_evaluator_provider :: "string option"
  vp_evaluator_model :: "string option"

datatype verification_action = VA_pass | VA_retry | VA_require_human | VA_stop

record verification_decision =
  vd_action :: verification_action
  vd_feedback :: "utext option"
  vd_feedback_message :: "message option"
  vd_failures :: "verification_failure list"
  vd_attempt :: nat
  vd_evidence :: pydict

end
