(* ===== verification/Approval_Policy.thy ===== *)
theory Approval_Policy
  imports Contracts
begin

text \<open>
  \<open>src/src/agentharness/security/approval.py\<close>: which tool effects need an interactive
  decision under which approval mode, and which are decided without prompting.
\<close>

definition effect_needs_approval :: "effect_kind \<Rightarrow> approval_mode \<Rightarrow> bool" where
  "effect_needs_approval effect mode =
     (if effect \<in> {EK_pure, EK_workspace_read} then False
      else if effect = EK_destructive then True
      else if mode = AM_auto then False
      else if mode = AM_never then True
      else True)"

definition auto_decision :: "effect_kind \<Rightarrow> approval_mode \<Rightarrow> approval_decision option" where
  "auto_decision effect mode =
     (if effect \<in> {EK_pure, EK_workspace_read} then Some AD_allow_once
      else if effect = EK_destructive then (if mode = AM_never then Some AD_deny else None)
      else if mode = AM_auto then Some AD_allow_run
      else if mode = AM_never then Some AD_deny
      else None)"

definition should_gate :: "tool_spec \<Rightarrow> approval_mode \<Rightarrow> bool" where
  "should_gate spec mode = effect_needs_approval (ts_effect spec) mode"

lemmas approval_defs = effect_needs_approval_def auto_decision_def should_gate_def

lemma auto_decision_allows_iff:
  "(\<exists>d. auto_decision effect mode = Some d \<and> d \<noteq> AD_deny) \<longleftrightarrow>
   \<not> effect_needs_approval effect mode"
  by (cases effect; cases mode) (auto simp: approval_defs)

lemma auto_decision_never_prompts: "auto_decision effect AM_never \<noteq> None"
  by (cases effect) (auto simp: approval_defs)

lemma destructive_never_automatic:
  "auto_decision EK_destructive mode \<in> {None, Some AD_deny}"
  by (cases mode) (auto simp: approval_defs)

end
