(* ===== verification/Redaction.thy ===== *)
theory Redaction
  imports Prelude
begin

text \<open>
  \<open>src/src/agentharness/security/redaction.py\<close>: the redactor every persist, log and
  SSE path goes through. Modelled: the sentinel pass, the order of the passes, the
  recursion over dicts, lists, tuples, sets and bytes, the normalisation of dict keys and
  the table of sensitive keys. The compiled regular expressions are fields of the
  redactor: each is the text function \<open>lambda s: pattern.sub(repl, s)\<close>; \<open>rd_decode\<close> is
  \<open>bytes.decode("utf-8", errors="replace")\<close>.
\<close>

record redactor =
  rd_sentinels :: "utext list"
  rd_patterns :: "(utext \<Rightarrow> utext) list"
  rd_public_patterns :: "(utext \<Rightarrow> utext) list"
  rd_decode :: "nat list \<Rightarrow> utext"

text \<open>\<open>str.replace\<close>: non-overlapping occurrences from the left.\<close>

function text_replace :: "utext \<Rightarrow> utext \<Rightarrow> utext \<Rightarrow> utext" where
  "text_replace old new [] = []"
| "text_replace old new (c # cs) =
     (if old \<noteq> [] \<and> take (length old) (c # cs) = old
      then new @ text_replace old new (drop (length old) (c # cs))
      else c # text_replace old new cs)"
  by pat_completeness auto
termination
  by (relation "measure (\<lambda>(old, new, t). length t)")
    (auto simp: length_greater_0_conv [symmetric] simp del: length_greater_0_conv)

lemma text_replace_absent:
  "old \<noteq> [] \<Longrightarrow> \<not> text_in old t \<Longrightarrow> text_replace old new t = t"
proof (induction old new t rule: text_replace.induct)
  case (2 old new c cs)
  from "2.prems"(2) have "\<not> (take (length old) (c # cs) = old \<or> text_in old cs)"
    by (subst (asm) text_in.simps)
  with "2.IH"(2) "2.prems"(1) show ?case by (subst text_replace.simps) auto
qed simp

definition sentinel_marker :: utext where
  "sentinel_marker = lit ''[REDACTED_SENTINEL]''"

definition redacted_marker :: utext where
  "redacted_marker = lit ''[REDACTED]''"

definition add_sentinel :: "utext \<Rightarrow> redactor \<Rightarrow> redactor" where
  "add_sentinel value rd =
     (if value \<noteq> [] \<and> value \<notin> set (rd_sentinels rd)
      then rd\<lparr>rd_sentinels := rd_sentinels rd @ [value]\<rparr> else rd)"

definition redact_sentinel :: "utext \<Rightarrow> utext \<Rightarrow> utext" where
  "redact_sentinel sentinel out =
     (if sentinel \<noteq> [] \<and> text_in sentinel out
      then text_replace sentinel sentinel_marker out else out)"

definition redact_text :: "redactor \<Rightarrow> utext \<Rightarrow> utext" where
  "redact_text rd t =
     (if t = [] then t
      else fold (\<lambda>sub out. sub out) (rd_patterns rd)
             (fold redact_sentinel (rd_sentinels rd) t))"

definition redact_public_text :: "redactor \<Rightarrow> utext \<Rightarrow> utext" where
  "redact_public_text rd t = fold (\<lambda>sub out. sub out) (rd_public_patterns rd) (redact_text rd t)"

text \<open>
  \<open>re.sub(r"[^a-z0-9]", "", key.lower())\<close>. Beside the ASCII letters, exactly two code
  points lower-case to something with an ASCII letter: U+212A (Kelvin sign) and U+0130.
\<close>

definition normalize_key_char :: "nat \<Rightarrow> utext" where
  "normalize_key_char c =
     (if 97 \<le> c \<and> c \<le> 122 \<or> 48 \<le> c \<and> c \<le> 57 then [c]
      else if 65 \<le> c \<and> c \<le> 90 then [c + 32]
      else if c = 8490 then [107]
      else if c = 304 then [105]
      else [])"

definition normalize_key :: "utext \<Rightarrow> utext" where
  "normalize_key k = concat (map normalize_key_char k)"

definition sensitive_keys :: "utext list" where
  "sensitive_keys = map lit
     [''authorization'', ''proxyauthorization'', ''apikey'', ''xapikey'', ''token'',
      ''accesstoken'', ''refreshtoken'', ''idtoken'', ''password'', ''passwd'', ''secret'',
      ''clientsecret'', ''privatekey'', ''secretaccesskey'', ''cookie'', ''setcookie'']"

definition sensitive_key :: "utext \<Rightarrow> bool" where
  "sensitive_key k \<longleftrightarrow> normalize_key k \<in> set sensitive_keys"

text \<open>
  \<open>_redact_obj\<close>, over the text pass \<open>red\<close> that \<open>public\<close> selects. A set becomes a list, as in the code; two keys that redact
  to the same text collapse to one entry, the later value winning.
\<close>

fun redact_obj_gen :: "(nat list \<Rightarrow> utext) \<Rightarrow> (utext \<Rightarrow> utext) \<Rightarrow> pyval \<Rightarrow> pyval" where
  "redact_obj_gen decode red (VStr t) = VStr (red t)"
| "redact_obj_gen decode red (VBytes b) = VStr (red (decode b))"
| "redact_obj_gen decode red (VDict kvs) =
     VDict (fold (\<lambda>(k, v) acc. dict_set k v acc)
       (map (\<lambda>kv. (red (fst kv),
                    if sensitive_key (fst kv) then VStr redacted_marker
                    else redact_obj_gen decode red (snd kv))) kvs) [])"
| "redact_obj_gen decode red (VList xs) = VList (map (redact_obj_gen decode red) xs)"
| "redact_obj_gen decode red (VTuple xs) = VTuple (map (redact_obj_gen decode red) xs)"
| "redact_obj_gen decode red (VSet xs) = VList (map (redact_obj_gen decode red) xs)"
| "redact_obj_gen decode red v = v"

definition redact_obj :: "redactor \<Rightarrow> pyval \<Rightarrow> pyval" where
  "redact_obj rd = redact_obj_gen (rd_decode rd) (redact_text rd)"

definition redact_public_obj :: "redactor \<Rightarrow> pyval \<Rightarrow> pyval" where
  "redact_public_obj rd = redact_obj_gen (rd_decode rd) (redact_public_text rd)"

text \<open>A dict is redacted to a dict; this is the form the storage layer uses.\<close>

fun dict_items :: "pyval \<Rightarrow> pydict" where
  "dict_items (VDict d) = d"
| "dict_items _ = []"

definition redact_dict :: "redactor \<Rightarrow> pydict \<Rightarrow> pydict" where
  "redact_dict rd d = dict_items (redact_obj rd (VDict d))"

lemma redact_obj_dict: "redact_obj rd (VDict d) = VDict (redact_dict rd d)"
  by (simp add: redact_dict_def redact_obj_def)

section \<open>What redaction guarantees\<close>

text \<open>
  Non-interference: \<open>blank_secrets\<close> blanks every value stored under a sensitive key, at any depth.
  Redaction does not see the difference, so two objects that agree outside sensitive keys
  are redacted to the same object whatever the sentinels and patterns are.
\<close>

fun blank_secrets :: "pyval \<Rightarrow> pyval" where
  "blank_secrets (VDict kvs) =
     VDict (map (\<lambda>kv. (fst kv, if sensitive_key (fst kv) then VNone else blank_secrets (snd kv))) kvs)"
| "blank_secrets (VList xs) = VList (map blank_secrets xs)"
| "blank_secrets (VTuple xs) = VTuple (map blank_secrets xs)"
| "blank_secrets (VSet xs) = VSet (map blank_secrets xs)"
| "blank_secrets v = v"

lemma redact_obj_gen_blank: "redact_obj_gen decode red (blank_secrets v) = redact_obj_gen decode red v"
proof (induction v rule: blank_secrets.induct)
  case (1 kvs)
  have "map (\<lambda>kv. (red (fst kv), if sensitive_key (fst kv) then VStr redacted_marker
          else redact_obj_gen decode red (snd kv)))
        (map (\<lambda>kv. (fst kv, if sensitive_key (fst kv) then VNone else blank_secrets (snd kv))) kvs) =
      map (\<lambda>kv. (red (fst kv), if sensitive_key (fst kv) then VStr redacted_marker
          else redact_obj_gen decode red (snd kv))) kvs"
    by (simp add: "1.IH")
  then show ?case by (simp only: blank_secrets.simps redact_obj_gen.simps)
qed (simp_all cong: map_cong)

text \<open>Every key of a redacted dict is a redacted key, listed once.\<close>

lemma fold_dict_set_keys:
  "fst ` set (fold (\<lambda>(k, v) acc. dict_set k v acc) kvs acc) = fst ` set kvs \<union> fst ` set acc"
proof (induction kvs arbitrary: acc)
  case (Cons p kvs)
  from Cons.IH [of "dict_set (fst p) (snd p) acc"] show ?case
    by (simp add: split_beta dom_dict_set)
qed simp

lemma fold_dict_set_distinct:
  "distinct (map fst acc) \<Longrightarrow> distinct (map fst (fold (\<lambda>(k, v) acc. dict_set k v acc) kvs acc))"
  by (induction kvs arbitrary: acc) (auto simp: distinct_dict_set)

text \<open>A text without any sentinel passes the sentinel stage unchanged.\<close>

lemma redact_sentinels_absent:
  "(\<And>s. s \<in> set ss \<Longrightarrow> s = [] \<or> \<not> text_in s t) \<Longrightarrow> fold redact_sentinel ss t = t"
  by (induction ss) (auto simp: redact_sentinel_def)

text \<open>
  \<open>add_sentinel\<close> keeps the list duplicate free and never stores an empty sentinel.
\<close>

definition sentinels_ok :: "redactor \<Rightarrow> bool" where
  "sentinels_ok rd \<longleftrightarrow> distinct (rd_sentinels rd) \<and> [] \<notin> set (rd_sentinels rd)"

interpretation sentinels: invariant_system "\<lambda>rd. rd_sentinels rd = []" add_sentinel sentinels_ok
  by unfold_locales (auto simp: sentinels_ok_def add_sentinel_def)



text \<open>A redactor with nothing registered, for concrete runs.\<close>

definition demo_redactor :: redactor where
  "demo_redactor = \<lparr>rd_sentinels = [], rd_patterns = [], rd_public_patterns = [], rd_decode = \<lambda>b. b\<rparr>"

end
