(* ===== verification/Storage_Core.thy ===== *)
theory Storage_Core
  imports Contracts Redaction
begin

text \<open>
  The SQLite store behind \<open>src/src/agentharness/storage/\<close>: one record with a list of rows
  per table (the schema of \<open>migrations.py\<close>, the columns the Python code reads or writes),
  the \<open>AUTOINCREMENT\<close> counter of \<open>events\<close> and the single-row \<open>global_seq_counter\<close>.
  A statement that violates a PRIMARY KEY, UNIQUE or FOREIGN KEY constraint raises
  \<open>IntegrityError\<close>; the code's \<open>except: ROLLBACK; raise\<close> means that an operation that
  raises leaves the store as it was, so operations have type \<open>py_error + db\<close> (with a
  result where they return one). The JSON text columns hold the decoded value, or
  \<open>JsonBad\<close> the text that \<open>json.loads\<close> rejects. The writer lock makes each operation
  one atomic step.
\<close>

datatype json_cell = JsonText pyval | JsonBad utext

record session_row =
  se_id :: string
  se_title :: utext
  se_created_at :: time
  se_updated_at :: time

record run_row =
  rn_id :: string
  rn_session_id :: string
  rn_parent_run_id :: "string option"
  rn_root_run_id :: string
  rn_status :: run_status
  rn_provider :: "utext option"
  rn_model :: "utext option"
  rn_approval :: "utext option"
  rn_cwd :: "utext option"
  rn_error :: "utext option"
  rn_output_summary :: "utext option"
  rn_usage :: "usage option"
  rn_steps :: int
  rn_delegate_depth :: int
  rn_allow_write :: bool
  rn_metadata :: json_cell
  rn_created_at :: time
  rn_updated_at :: time
  rn_finished_at :: "time option"

record message_row =
  mr_id :: string
  mr_run_id :: string
  mr_session_id :: string
  mr_role :: message_role
  mr_content :: utext
  mr_tool_call_id :: "string option"
  mr_name :: "string option"
  mr_tool_calls :: "pyval option"
  mr_tool_result :: "pyval option"
  mr_seq :: nat
  mr_created_at :: time

datatype approval_status = AS_pending | AS_resolved | AS_expired

record approval_row =
  ap_id :: string
  ap_run_id :: string
  ap_tool_call_id :: string
  ap_tool_name :: string
  ap_effect :: effect_kind
  ap_arguments_summary :: utext
  ap_requires_confirmation :: bool
  ap_decision :: "approval_decision option"
  ap_created_at :: time
  ap_resolved_at :: "time option"
  ap_invocation_id :: "string option"
  ap_tool_version :: string
  ap_arguments_sha256 :: string
  ap_approval_scope :: utext
  ap_status :: approval_status

record checkpoint_row =
  cr_run_id :: string
  cr_phase :: checkpoint_phase
  cr_step :: nat
  cr_data :: json_cell
  cr_created_at :: time

record stop_row =
  sr_run_id :: string
  sr_mode :: string
  sr_requested_at :: time

record lease_row =
  lr_run_id :: string
  lr_owner_id :: string
  lr_acquired_at :: time
  lr_heartbeat_at :: time
  lr_expires_at :: time

record pin_row =
  pn_run_id :: string
  pn_pinned_at :: time
  pn_note :: "utext option"

text \<open>
  \<open>tool_invocations\<close>: the result column keeps the redacted JSON of the result.
\<close>

record invocation_row =
  ir_id :: string
  ir_run_id :: string
  ir_session_id :: string
  ir_step :: nat
  ir_ordinal :: nat
  ir_provider_call_id :: string
  ir_tool_name :: string
  ir_tool_version :: string
  ir_status :: invocation_status
  ir_effect :: effect_kind
  ir_replay_policy :: replay_policy
  ir_arguments :: pydict
  ir_arguments_sha256 :: string
  ir_approval_id :: "string option"
  ir_attempt_count :: nat
  ir_result :: "pyval option"
  ir_error_code :: "string option"
  ir_error_category :: "string option"
  ir_created_at :: time
  ir_updated_at :: time
  ir_started_at :: "time option"
  ir_finished_at :: "time option"

datatype attempt_status = AT_running | AT_succeeded | AT_failed | AT_indeterminate | AT_interrupted

record attempt_row =
  at_id :: string
  at_invocation_id :: string
  at_attempt :: nat
  at_status :: attempt_status
  at_error_code :: "string option"
  at_error_category :: "string option"
  at_started_at :: time
  at_finished_at :: "time option"
  at_duration_ms :: "real option"

datatype op_status = OS_accepted | OS_executing | OS_completed | OS_failed

record operation_row =
  io_operation_id :: string
  io_payload_sha256 :: string
  io_operation_type :: string
  io_aggregate_id :: string
  io_run_id :: "string option"
  io_status :: op_status
  io_result :: "pyval option"
  io_error :: "utext option"
  io_created_at :: time
  io_updated_at :: time

record artifact_row =
  af_id :: string
  af_sha256 :: string
  af_content_type :: "string option"
  af_size_bytes :: "nat option"
  af_summary :: "utext option"
  af_path :: string
  af_created_at :: time

record db =
  d_sessions :: "session_row list"
  d_runs :: "run_row list"
  d_messages :: "message_row list"
  d_events :: "event_envelope list"
  d_event_seq :: nat
  d_seq_counter :: "nat option"
  d_approvals :: "approval_row list"
  d_checkpoints :: "checkpoint_row list"
  d_stops :: "stop_row list"
  d_leases :: "lease_row list"
  d_pins :: "pin_row list"
  d_invocations :: "invocation_row list"
  d_attempts :: "attempt_row list"
  d_operations :: "operation_row list"
  d_artifacts :: "artifact_row list"

text \<open>
  The freshly migrated store: migration 13 seeds the counter with the (empty) maximum.
\<close>

definition empty_db :: db where
  "empty_db =
     \<lparr>d_sessions = [], d_runs = [], d_messages = [], d_events = [], d_event_seq = 0,
      d_seq_counter = Some 0, d_approvals = [], d_checkpoints = [], d_stops = [],
      d_leases = [], d_pins = [], d_invocations = [], d_attempts = [], d_operations = [],
      d_artifacts = []\<rparr>"

abbreviation has_run :: "db \<Rightarrow> string \<Rightarrow> bool" where
  "has_run db rid \<equiv> sql_has rn_id rid (d_runs db)"

section \<open>Integrity of the store\<close>

text \<open>Primary keys and UNIQUE constraints.\<close>

definition keys_ok :: "db \<Rightarrow> bool" where
  "keys_ok db \<longleftrightarrow>
     distinct (map se_id (d_sessions db)) \<and>
     distinct (map rn_id (d_runs db)) \<and>
     distinct (map mr_id (d_messages db)) \<and>
     distinct (map ap_id (d_approvals db)) \<and>
     distinct (map cr_run_id (d_checkpoints db)) \<and>
     distinct (map sr_run_id (d_stops db)) \<and>
     distinct (map lr_run_id (d_leases db)) \<and>
     distinct (map pn_run_id (d_pins db)) \<and>
     distinct (map ir_id (d_invocations db)) \<and>
     distinct (map (\<lambda>r. (ir_run_id r, ir_step r, ir_ordinal r)) (d_invocations db)) \<and>
     distinct (map at_id (d_attempts db)) \<and>
     distinct (map (\<lambda>r. (at_invocation_id r, at_attempt r)) (d_attempts db)) \<and>
     distinct (map io_operation_id (d_operations db)) \<and>
     distinct (map af_id (d_artifacts db)) \<and>
     distinct (map af_sha256 (d_artifacts db))"

text \<open>Foreign keys.\<close>

definition refs_ok :: "db \<Rightarrow> bool" where
  "refs_ok db \<longleftrightarrow>
     rn_session_id ` set (d_runs db) \<subseteq> se_id ` set (d_sessions db) \<and>
     mr_run_id ` set (d_messages db) \<subseteq> rn_id ` set (d_runs db) \<and>
     ap_run_id ` set (d_approvals db) \<subseteq> rn_id ` set (d_runs db) \<and>
     cr_run_id ` set (d_checkpoints db) \<subseteq> rn_id ` set (d_runs db) \<and>
     sr_run_id ` set (d_stops db) \<subseteq> rn_id ` set (d_runs db) \<and>
     lr_run_id ` set (d_leases db) \<subseteq> rn_id ` set (d_runs db) \<and>
     pn_run_id ` set (d_pins db) \<subseteq> rn_id ` set (d_runs db) \<and>
     ir_run_id ` set (d_invocations db) \<subseteq> rn_id ` set (d_runs db) \<and>
     at_invocation_id ` set (d_attempts db) \<subseteq> ir_id ` set (d_invocations db)"

text \<open>
  The event log: global sequence numbers increase along the log and never exceed the
  \<open>AUTOINCREMENT\<close> counter, the durable watermark is at least every number in the log,
  and event ids are unique.
\<close>

definition log_ok :: "db \<Rightarrow> bool" where
  "log_ok db \<longleftrightarrow>
     sorted_wrt (<) (map ev_global_seq (d_events db)) \<and>
     (\<forall>e \<in> set (d_events db). 0 < ev_global_seq e \<and> ev_global_seq e \<le> d_event_seq db) \<and>
     (\<exists>w. d_seq_counter db = Some w \<and> d_event_seq db \<le> w) \<and>
     distinct (map ev_event_id (d_events db)) \<and>
     (\<forall>e \<in> set (d_events db). 0 < ev_run_seq e) \<and>
     sorted_wrt (\<lambda>e e'. ev_run_id e = ev_run_id e' \<longrightarrow> ev_run_seq e < ev_run_seq e') (d_events db)"

definition db_ok :: "db \<Rightarrow> bool" where
  "db_ok db \<longleftrightarrow> keys_ok db \<and> refs_ok db \<and> log_ok db"

lemmas db_ok_defs = db_ok_def keys_ok_def refs_ok_def log_ok_def

lemma db_ok_empty: "db_ok empty_db"
  by (simp add: db_ok_defs empty_db_def)

lemma db_okD:
  assumes "db_ok db"
  shows "distinct (map rn_id (d_runs db))" "distinct (map mr_id (d_messages db))"
    "distinct (map ap_id (d_approvals db))" "distinct (map cr_run_id (d_checkpoints db))"
    "distinct (map sr_run_id (d_stops db))" "distinct (map lr_run_id (d_leases db))"
    "distinct (map pn_run_id (d_pins db))" "distinct (map ir_id (d_invocations db))"
    "distinct (map at_id (d_attempts db))" "distinct (map io_operation_id (d_operations db))"
    "distinct (map af_id (d_artifacts db))" "distinct (map af_sha256 (d_artifacts db))"
    "mr_run_id ` set (d_messages db) \<subseteq> rn_id ` set (d_runs db)"
    "ap_run_id ` set (d_approvals db) \<subseteq> rn_id ` set (d_runs db)"
    "cr_run_id ` set (d_checkpoints db) \<subseteq> rn_id ` set (d_runs db)"
    "sr_run_id ` set (d_stops db) \<subseteq> rn_id ` set (d_runs db)"
    "lr_run_id ` set (d_leases db) \<subseteq> rn_id ` set (d_runs db)"
    "pn_run_id ` set (d_pins db) \<subseteq> rn_id ` set (d_runs db)"
    "ir_run_id ` set (d_invocations db) \<subseteq> rn_id ` set (d_runs db)"
    "at_invocation_id ` set (d_attempts db) \<subseteq> ir_id ` set (d_invocations db)"
    "rn_session_id ` set (d_runs db) \<subseteq> se_id ` set (d_sessions db)"
    "log_ok db"
  using assms by (simp_all only: db_ok_def keys_ok_def refs_ok_def)

text \<open>Replacing the rows of one table, with that table's part of the invariant.\<close>

lemma db_ok_set_stops:
  "db_ok db \<Longrightarrow> distinct (map sr_run_id rows) \<Longrightarrow> sr_run_id ` set rows \<subseteq> rn_id ` set (d_runs db) \<Longrightarrow>
   db_ok (db\<lparr>d_stops := rows\<rparr>)"
  by (simp add: db_ok_defs)

lemma db_ok_set_pins:
  "db_ok db \<Longrightarrow> distinct (map pn_run_id rows) \<Longrightarrow> pn_run_id ` set rows \<subseteq> rn_id ` set (d_runs db) \<Longrightarrow>
   db_ok (db\<lparr>d_pins := rows\<rparr>)"
  by (simp add: db_ok_defs)

lemma db_ok_set_leases:
  "db_ok db \<Longrightarrow> distinct (map lr_run_id rows) \<Longrightarrow> lr_run_id ` set rows \<subseteq> rn_id ` set (d_runs db) \<Longrightarrow>
   db_ok (db\<lparr>d_leases := rows\<rparr>)"
  by (simp add: db_ok_defs)

lemma db_ok_set_checkpoints:
  "db_ok db \<Longrightarrow> distinct (map cr_run_id rows) \<Longrightarrow> cr_run_id ` set rows \<subseteq> rn_id ` set (d_runs db) \<Longrightarrow>
   db_ok (db\<lparr>d_checkpoints := rows\<rparr>)"
  by (simp add: db_ok_defs)

lemma db_ok_set_approvals:
  "db_ok db \<Longrightarrow> distinct (map ap_id rows) \<Longrightarrow> ap_run_id ` set rows \<subseteq> rn_id ` set (d_runs db) \<Longrightarrow>
   db_ok (db\<lparr>d_approvals := rows\<rparr>)"
  by (simp add: db_ok_defs)

lemma db_ok_set_messages:
  "db_ok db \<Longrightarrow> distinct (map mr_id rows) \<Longrightarrow> mr_run_id ` set rows \<subseteq> rn_id ` set (d_runs db) \<Longrightarrow>
   db_ok (db\<lparr>d_messages := rows\<rparr>)"
  by (simp add: db_ok_defs)

lemma db_ok_set_operations:
  "db_ok db \<Longrightarrow> distinct (map io_operation_id rows) \<Longrightarrow> db_ok (db\<lparr>d_operations := rows\<rparr>)"
  by (simp add: db_ok_defs)

lemma db_ok_set_sessions:
  "db_ok db \<Longrightarrow> distinct (map se_id rows) \<Longrightarrow> rn_session_id ` set (d_runs db) \<subseteq> se_id ` set rows \<Longrightarrow>
   db_ok (db\<lparr>d_sessions := rows\<rparr>)"
  by (simp add: db_ok_defs)

lemma db_ok_set_artifacts:
  "db_ok db \<Longrightarrow> distinct (map af_id rows) \<Longrightarrow> distinct (map af_sha256 rows) \<Longrightarrow>
   db_ok (db\<lparr>d_artifacts := rows\<rparr>)"
  by (simp add: db_ok_defs)

lemma db_ok_set_invocations:
  "db_ok db \<Longrightarrow> distinct (map ir_id rows) \<Longrightarrow>
   distinct (map (\<lambda>r. (ir_run_id r, ir_step r, ir_ordinal r)) rows) \<Longrightarrow>
   ir_run_id ` set rows \<subseteq> rn_id ` set (d_runs db) \<Longrightarrow>
   at_invocation_id ` set (d_attempts db) \<subseteq> ir_id ` set rows \<Longrightarrow>
   db_ok (db\<lparr>d_invocations := rows\<rparr>)"
  by (simp add: db_ok_defs)

lemma db_ok_set_attempts:
  "db_ok db \<Longrightarrow> distinct (map at_id rows) \<Longrightarrow>
   distinct (map (\<lambda>r. (at_invocation_id r, at_attempt r)) rows) \<Longrightarrow>
   at_invocation_id ` set rows \<subseteq> ir_id ` set (d_invocations db) \<Longrightarrow>
   db_ok (db\<lparr>d_attempts := rows\<rparr>)"
  by (simp add: db_ok_defs)

lemma db_ok_compound_keys:
  assumes "db_ok db"
  shows "distinct (map (\<lambda>r. (ir_run_id r, ir_step r, ir_ordinal r)) (d_invocations db))"
    "distinct (map (\<lambda>r. (at_invocation_id r, at_attempt r)) (d_attempts db))"
    "distinct (map se_id (d_sessions db))"
  using assms by (simp_all only: db_ok_def keys_ok_def)

text \<open>
  An UPDATE that touches no key column leaves the keys of the table as they were.
\<close>

lemma image_sql_update:
  "(\<And>r. p r \<Longrightarrow> g (f r) = g r) \<Longrightarrow> g ` set (sql_update p f rows) = g ` set rows"
  using map_sql_update [of p g f rows] by (metis set_map)

lemma image_sql_delete: "g ` set (sql_delete p rows) \<subseteq> g ` set rows"
  by (auto simp: sql_delete_def)

lemma approvals_update_db_ok:
  assumes "db_ok db" and "\<And>r. p r \<Longrightarrow> ap_id (f r) = ap_id r" and "\<And>r. p r \<Longrightarrow> ap_run_id (f r) = ap_run_id r"
  shows "db_ok (db\<lparr>d_approvals := sql_update p f (d_approvals db)\<rparr>)"
  using db_okD [OF assms(1)] assms
  by (intro db_ok_set_approvals) (simp_all add: map_sql_update image_sql_update)

lemma checkpoints_update_db_ok:
  assumes "db_ok db" and "\<And>r. p r \<Longrightarrow> cr_run_id (f r) = cr_run_id r"
  shows "db_ok (db\<lparr>d_checkpoints := sql_update p f (d_checkpoints db)\<rparr>)"
  using db_okD [OF assms(1)] assms
  by (intro db_ok_set_checkpoints) (simp_all add: map_sql_update image_sql_update)

lemma invocations_update_db_ok:
  assumes "db_ok db" and "\<And>r. p r \<Longrightarrow> ir_id (f r) = ir_id r" and "\<And>r. p r \<Longrightarrow> ir_run_id (f r) = ir_run_id r"
    and "\<And>r. p r \<Longrightarrow> ir_step (f r) = ir_step r" and "\<And>r. p r \<Longrightarrow> ir_ordinal (f r) = ir_ordinal r"
  shows "db_ok (db\<lparr>d_invocations := sql_update p f (d_invocations db)\<rparr>)"
proof -
  have "map ir_id (sql_update p f (d_invocations db)) = map ir_id (d_invocations db)"
    by (rule map_sql_update) (rule assms(2))
  moreover have "map (\<lambda>r. (ir_run_id r, ir_step r, ir_ordinal r)) (sql_update p f (d_invocations db)) =
      map (\<lambda>r. (ir_run_id r, ir_step r, ir_ordinal r)) (d_invocations db)"
    by (rule map_sql_update) (simp add: assms(3-5))
  moreover have "ir_id ` set (sql_update p f (d_invocations db)) = ir_id ` set (d_invocations db)"
    by (rule image_sql_update) (rule assms(2))
  moreover have "ir_run_id ` set (sql_update p f (d_invocations db)) = ir_run_id ` set (d_invocations db)"
    by (rule image_sql_update) (rule assms(3))
  ultimately show ?thesis using assms(1) by (simp add: db_ok_defs)
qed

lemma attempts_update_db_ok:
  assumes "db_ok db" and "\<And>r. p r \<Longrightarrow> at_id (f r) = at_id r"
    and "\<And>r. p r \<Longrightarrow> at_invocation_id (f r) = at_invocation_id r" and "\<And>r. p r \<Longrightarrow> at_attempt (f r) = at_attempt r"
  shows "db_ok (db\<lparr>d_attempts := sql_update p f (d_attempts db)\<rparr>)"
proof -
  have "map at_id (sql_update p f (d_attempts db)) = map at_id (d_attempts db)"
    by (rule map_sql_update) (rule assms(2))
  moreover have "map (\<lambda>r. (at_invocation_id r, at_attempt r)) (sql_update p f (d_attempts db)) =
      map (\<lambda>r. (at_invocation_id r, at_attempt r)) (d_attempts db)"
    by (rule map_sql_update) (simp add: assms(3-4))
  moreover have "at_invocation_id ` set (sql_update p f (d_attempts db)) = at_invocation_id ` set (d_attempts db)"
    by (rule image_sql_update) (rule assms(3))
  ultimately show ?thesis using assms(1) by (simp add: db_ok_defs)
qed

lemma db_okI: "keys_ok db \<Longrightarrow> refs_ok db \<Longrightarrow> log_ok db \<Longrightarrow> db_ok db"
  by (simp add: db_ok_def)

text \<open>
  \<open>StorageCore.transaction\<close>: \<open>BEGIN IMMEDIATE\<close>, the body, \<open>COMMIT\<close>; an exception rolls
  back and propagates; a nested transaction is refused. \<open>busy\<close> is \<open>conn.in_transaction\<close>.
\<close>

definition transaction :: "bool \<Rightarrow> (db \<Rightarrow> py_error + db \<times> 'a) \<Rightarrow> db \<Rightarrow> db \<times> (py_error + 'a)" where
  "transaction busy body db =
     (if busy then (db, Inl (RuntimeError (lit ''nested storage transactions are not supported'')))
      else case body db of
             Inl e \<Rightarrow> (db, Inl e)
           | Inr (db', r) \<Rightarrow> (db', Inr r))"

lemma transaction_rollback: "snd (transaction busy body db) = Inl e \<Longrightarrow> fst (transaction busy body db) = db"
  by (auto simp: transaction_def split: if_splits sum.splits)

text \<open>A store with one session and one run, for concrete instances.\<close>

definition demo_run :: "string \<Rightarrow> run_status \<Rightarrow> run_row" where
  "demo_run rid st =
     \<lparr>rn_id = rid, rn_session_id = ''s'', rn_parent_run_id = None, rn_root_run_id = rid,
      rn_status = st, rn_provider = None, rn_model = None, rn_approval = None, rn_cwd = None,
      rn_error = None, rn_output_summary = None, rn_usage = None, rn_steps = 0,
      rn_delegate_depth = 0, rn_allow_write = True, rn_metadata = JsonText (VDict []),
      rn_created_at = 1, rn_updated_at = 1, rn_finished_at = None\<rparr>"

definition demo_db :: db where
  "demo_db = empty_db
     \<lparr>d_sessions := [\<lparr>se_id = ''s'', se_title = [], se_created_at = 0, se_updated_at = 0\<rparr>],
      d_runs := [demo_run ''r'' RS_running]\<rparr>"

lemma demo_db_ok: "db_ok demo_db"
  by (simp add: demo_db_def db_ok_defs empty_db_def demo_run_def)

lemmas demo_eval = demo_db_def empty_db_def demo_run_def demo_redactor_def sql_find_def sql_has_def
  sql_upsert_def sql_update_def sql_delete_def sql_count_def

end
