(* ===== verification/Storage_Events.thy ===== *)
theory Storage_Events
  imports Storage_Core
begin

text \<open>
  \<open>src/src/agentharness/storage/events.py\<close>: the append-only event log. Every append
  assigns the next per-run and global sequence number inside the caller's transaction and
  raises the durable watermark; readers page through the log by \<open>after_global_seq\<close>.
\<close>

section \<open>Operations\<close>

text \<open>\<open>SELECT COALESCE(MAX(run_seq), 0) FROM events WHERE run_id = ?\<close>.\<close>

definition max_run_seq :: "string \<Rightarrow> event_envelope list \<Rightarrow> nat" where
  "max_run_seq rid evs = foldr (\<lambda>e m. if ev_run_id e = rid then max (ev_run_seq e) m else m) evs 0"

definition bump_global_seq_unlocked :: "nat \<Rightarrow> db \<Rightarrow> db" where
  "bump_global_seq_unlocked seq db =
     db\<lparr>d_seq_counter :=
         Some (case d_seq_counter db of None \<Rightarrow> seq | Some w \<Rightarrow> max w seq)\<rparr>"

text \<open>The \<open>for ev in events\<close> loop: one INSERT per event.\<close>

fun append_rows :: "redactor \<Rightarrow> event_envelope list \<Rightarrow> db \<Rightarrow> py_error + db \<times> event_envelope list" where
  "append_rows rd [] db = Inr (db, [])"
| "append_rows rd (ev # evs) db =
     (if sql_has ev_event_id (ev_event_id ev) (d_events db) then Inl IntegrityError
      else let out = ev\<lparr>ev_global_seq := Suc (d_event_seq db),
                         ev_run_seq := Suc (max_run_seq (ev_run_id ev) (d_events db)),
                         ev_payload := redact_dict rd (ev_payload ev)\<rparr>;
               db' = db\<lparr>d_events := d_events db @ [out], d_event_seq := Suc (d_event_seq db)\<rparr>
           in case append_rows rd evs db' of
                Inl e \<Rightarrow> Inl e
              | Inr (db'', outs) \<Rightarrow> Inr (db'', out # outs))"

definition append_unlocked :: "redactor \<Rightarrow> event_envelope list \<Rightarrow> db \<Rightarrow> py_error + db \<times> event_envelope list" where
  "append_unlocked rd evs db =
     (case append_rows rd evs db of
        Inl e \<Rightarrow> Inl e
      | Inr (db', assigned) \<Rightarrow>
          Inr (if assigned = [] then db'
               else bump_global_seq_unlocked (foldr max (map ev_global_seq assigned) 0) db',
               assigned))"

definition append_events :: "redactor \<Rightarrow> event_envelope list \<Rightarrow> db \<Rightarrow> py_error + db \<times> event_envelope list" where
  "append_events = append_unlocked"

text \<open>
  \<open>ORDER BY global_seq\<close> is the order of the log. An empty \<open>run_id\<close> string is falsy, like
  \<open>None\<close>. (A negative SQL LIMIT, never passed, would mean no limit.)
\<close>

definition get_events :: "string option \<Rightarrow> nat \<Rightarrow> nat \<Rightarrow> db \<Rightarrow> event_envelope list" where
  "get_events run_id after limit db =
     take limit
       (filter (\<lambda>e. after < ev_global_seq e \<and>
          (case run_id of None \<Rightarrow> True | Some r \<Rightarrow> r = '''' \<or> ev_run_id e = r))
        (d_events db))"

definition iter_events_after :: "nat \<Rightarrow> db \<Rightarrow> event_envelope list" where
  "iter_events_after after db = get_events None after 10000 db"

definition manifest_of :: "redactor \<Rightarrow> event_envelope \<Rightarrow> pydict option" where
  "manifest_of rd e =
     (if ev_type e \<noteq> ET_context_manifest then None
      else case map_of (ev_payload e) (lit ''manifest'') of
        Some (VDict item) \<Rightarrow>
          Some (redact_dict rd
            (dict_set (lit ''global_seq'') (VInt (int (ev_global_seq e)))
            (dict_set (lit ''event_id'') (VStr (lit (ev_event_id e)))
            (dict_set (lit ''artifact_id'')
              (case map_of (ev_payload e) (lit ''artifact_id'') of None \<Rightarrow> VNone | Some v \<Rightarrow> v) item))))
      | _ \<Rightarrow> None)"

definition get_context_manifests :: "redactor \<Rightarrow> string \<Rightarrow> db \<Rightarrow> pydict list" where
  "get_context_manifests rd rid db =
     List.map_filter (manifest_of rd) (get_events (Some rid) 0 10000 db)"

definition max_event_seq :: "db \<Rightarrow> nat" where
  "max_event_seq db = foldr max (map ev_global_seq (d_events db)) 0"

definition global_seq_watermark :: "db \<Rightarrow> nat" where
  "global_seq_watermark db = (case d_seq_counter db of None \<Rightarrow> 0 | Some w \<Rightarrow> w)"

definition bump_global_seq :: "int \<Rightarrow> db \<Rightarrow> db \<times> nat" where
  "bump_global_seq seq db =
     (let db' = bump_global_seq_unlocked (nat (max 0 seq)) db in (db', global_seq_watermark db'))"

definition max_global_seq :: "db \<Rightarrow> nat" where
  "max_global_seq db = max (max_event_seq db) (global_seq_watermark db)"

section \<open>Lemmas\<close>

lemma bump_frame [frame_simps]:
  "d_events (bump_global_seq_unlocked q db) = d_events db"
  "d_event_seq (bump_global_seq_unlocked q db) = d_event_seq db"
  "keys_ok (bump_global_seq_unlocked q db) = keys_ok db"
  "refs_ok (bump_global_seq_unlocked q db) = refs_ok db"
  by (simp_all add: bump_global_seq_unlocked_def keys_ok_def refs_ok_def)

lemma max_run_seq_ge: "e \<in> set evs \<Longrightarrow> ev_run_id e = rid \<Longrightarrow> ev_run_seq e \<le> max_run_seq rid evs"
  unfolding max_run_seq_def by (induction evs) auto

lemma max_run_seq_append:
  "max_run_seq rid (evs @ [e]) =
     (if ev_run_id e = rid then max (ev_run_seq e) (max_run_seq rid evs) else max_run_seq rid evs)"
  unfolding max_run_seq_def by (induction evs) (auto simp: max.assoc)

lemma foldr_max_ge: "x \<in> set xs \<Longrightarrow> x \<le> foldr max xs (0::nat)"
  by (induction xs) auto

lemma foldr_max_le: "(\<And>x. x \<in> set xs \<Longrightarrow> x \<le> b) \<Longrightarrow> foldr max xs (0::nat) \<le> b"
  by (induction xs) auto

text \<open>The log part of the invariant, without the watermark.\<close>

definition rows_ok :: "db \<Rightarrow> bool" where
  "rows_ok db \<longleftrightarrow>
     sorted_wrt (<) (map ev_global_seq (d_events db)) \<and>
     (\<forall>e \<in> set (d_events db). 0 < ev_global_seq e \<and> ev_global_seq e \<le> d_event_seq db) \<and>
     distinct (map ev_event_id (d_events db)) \<and>
     (\<forall>e \<in> set (d_events db). 0 < ev_run_seq e) \<and>
     sorted_wrt (\<lambda>e e'. ev_run_id e = ev_run_id e' \<longrightarrow> ev_run_seq e < ev_run_seq e') (d_events db)"

lemma log_ok_iff: "log_ok db \<longleftrightarrow> rows_ok db \<and> (\<exists>w. d_seq_counter db = Some w \<and> d_event_seq db \<le> w)"
  by (auto simp: log_ok_def rows_ok_def)

lemma rows_ok_snoc:
  assumes "rows_ok db" and "\<not> sql_has ev_event_id (ev_event_id ev) (d_events db)"
  shows "rows_ok (db\<lparr>d_events := d_events db @ [ev\<lparr>ev_global_seq := Suc (d_event_seq db),
           ev_run_seq := Suc (max_run_seq (ev_run_id ev) (d_events db)), ev_payload := p\<rparr>],
         d_event_seq := Suc (d_event_seq db)\<rparr>)"
  using assms
  by (auto simp: rows_ok_def sql_has_image sorted_wrt_append less_Suc_eq_le le_Suc_eq
      dest: max_run_seq_ge)

text \<open>What one batch of inserts does to the log, for every batch that is accepted.\<close>

lemma append_rows_effect:
  assumes "append_rows rd evs db = Inr (db', outs)"
  shows "db' = db\<lparr>d_events := d_events db @ outs, d_event_seq := d_event_seq db + length evs\<rparr> \<and>
         map ev_global_seq outs = [Suc (d_event_seq db)..<Suc (d_event_seq db + length evs)] \<and>
         map ev_event_id outs = map ev_event_id evs \<and>
         map ev_run_id outs = map ev_run_id evs \<and>
         map ev_type outs = map ev_type evs \<and>
         map ev_payload outs = map (redact_dict rd \<circ> ev_payload) evs"
  using assms
proof (induction rd evs db arbitrary: db' outs rule: append_rows.induct)
  case (2 rd ev evs db)
  let ?out = "ev\<lparr>ev_global_seq := Suc (d_event_seq db),
      ev_run_seq := Suc (max_run_seq (ev_run_id ev) (d_events db)),
      ev_payload := redact_dict rd (ev_payload ev)\<rparr>"
  let ?db = "db\<lparr>d_events := d_events db @ [?out], d_event_seq := Suc (d_event_seq db)\<rparr>"
  from "2.prems" obtain outs' where
    no: "\<not> sql_has ev_event_id (ev_event_id ev) (d_events db)" and
    rest: "append_rows rd evs ?db = Inr (db', outs')" and outs: "outs = ?out # outs'"
    by (auto simp: Let_def split: if_splits sum.splits prod.splits)
  note IH = "2.IH" [OF no refl refl rest]
  have "[Suc (d_event_seq db)..<Suc (d_event_seq db + length (ev # evs))] =
      Suc (d_event_seq db) # [Suc (Suc (d_event_seq db))..<Suc (Suc (d_event_seq db) + length evs)]"
    by (subst upt_rec) (simp del: upt_Suc)
  with IH outs show ?case by (simp del: upt_Suc)
qed auto

lemma append_rows_ok:
  assumes "append_rows rd evs db = Inr (db', outs)" and "rows_ok db"
  shows "rows_ok db'"
  using assms
proof (induction rd evs db arbitrary: db' outs rule: append_rows.induct)
  case (2 rd ev evs db)
  from "2.prems"(1) have no: "\<not> sql_has ev_event_id (ev_event_id ev) (d_events db)"
    by (auto split: if_splits)
  from "2.IH" [OF no refl refl _ rows_ok_snoc [OF "2.prems"(2) no]] "2.prems"(1) no show ?case
    by (auto simp: Let_def split: sum.splits prod.splits)
qed auto

lemma append_keeps_tables:
  assumes "append_unlocked rd evs db = Inr (db', outs)"
  shows "\<exists>w. db' = db\<lparr>d_events := d_events db @ outs, d_event_seq := d_event_seq db + length evs,
                      d_seq_counter := w\<rparr>"
proof -
  from assms obtain db1 where a: "append_rows rd evs db = Inr (db1, outs)"
    and db': "db' = (if outs = [] then db1
               else bump_global_seq_unlocked (foldr max (map ev_global_seq outs) 0) db1)"
    by (auto simp: append_unlocked_def split: sum.splits)
  from append_rows_effect [OF a] have db1: "db1 = db\<lparr>d_events := d_events db @ outs,
      d_event_seq := d_event_seq db + length evs\<rparr>"
    by blast
  show ?thesis
    unfolding db' db1 bump_global_seq_unlocked_def
    by (cases "outs = []") (auto intro: exI [of _ "d_seq_counter db"])
qed

lemma append_keys_ok: "append_unlocked rd evs db = Inr (db', outs) \<Longrightarrow> keys_ok db' = keys_ok db"
  by (drule append_keeps_tables, erule exE) (simp add: keys_ok_def)

lemma append_refs_ok: "append_unlocked rd evs db = Inr (db', outs) \<Longrightarrow> refs_ok db' = refs_ok db"
  by (drule append_keeps_tables, erule exE) (simp add: refs_ok_def)

lemma append_log_ok:
  assumes "append_unlocked rd evs db = Inr (db', outs)" and "log_ok db"
  shows "log_ok db'"
proof -
  from assms(1) obtain db1 where a: "append_rows rd evs db = Inr (db1, outs)"
    and db': "db' = (if outs = [] then db1
               else bump_global_seq_unlocked (foldr max (map ev_global_seq outs) 0) db1)"
    by (auto simp: append_unlocked_def split: sum.splits)
  note eff = append_rows_effect [OF a]
  from assms(2) obtain w where rows: "rows_ok db" and w: "d_seq_counter db = Some w"
    "d_event_seq db \<le> w"
    by (auto simp: log_ok_iff)
  from append_rows_ok [OF a rows] have r1: "rows_ok db1" .
  then have r': "rows_ok db'" by (simp add: db' rows_ok_def frame_simps)
  have c1: "d_seq_counter db1 = Some w" using eff w(1) by simp
  have len: "length outs = length evs" using eff by (metis length_map)
  show ?thesis
  proof (cases "outs = []")
    case True
    with len eff c1 w have "d_event_seq db1 \<le> w" by simp
    with True c1 r' show ?thesis by (auto simp: log_ok_iff db')
  next
    case False
    then have "d_event_seq db1 \<in> set (map ev_global_seq outs)"
      using eff len by (cases evs) (auto simp del: upt_Suc)
    then have "d_event_seq db1 \<le> foldr max (map ev_global_seq outs) 0" by (rule foldr_max_ge)
    then show ?thesis
      using False c1 r' by (auto simp: log_ok_iff db' bump_global_seq_unlocked_def)
  qed
qed

lemma append_db_ok: "append_unlocked rd evs db = Inr (db', outs) \<Longrightarrow> db_ok db \<Longrightarrow> db_ok db'"
  by (auto simp: db_ok_def append_keys_ok append_refs_ok intro: append_log_ok)

lemma bump_db_ok: "db_ok db \<Longrightarrow> db_ok (bump_global_seq_unlocked q db)"
  by (auto simp: db_ok_def log_ok_iff rows_ok_def frame_simps)
    (auto simp: bump_global_seq_unlocked_def)

end
