(* ===== verification/Storage_Runs.thy ===== *)
theory Storage_Runs
  imports Storage_Events
begin

text \<open>
  \<open>src/src/agentharness/storage/runs.py\<close>: run rows, the one-transaction update of a run
  together with the events that explain it, metadata merging, the observability
  projection, stop requests and pins.
\<close>

section \<open>Operations\<close>

text \<open>\<open>redact_text(x or "") or None\<close>.\<close>

definition redact_opt :: "redactor \<Rightarrow> utext option \<Rightarrow> utext option" where
  "redact_opt rd x =
     (let t = redact_text rd (case x of None \<Rightarrow> [] | Some v \<Rightarrow> v) in if t = [] then None else Some t)"

definition create_run ::
  "redactor \<Rightarrow> time \<Rightarrow> string \<Rightarrow> string \<Rightarrow> string \<Rightarrow> string option \<Rightarrow> run_status \<Rightarrow>
   utext option \<Rightarrow> utext option \<Rightarrow> utext option \<Rightarrow> utext option \<Rightarrow> int \<Rightarrow> bool \<Rightarrow> pydict \<Rightarrow>
   db \<Rightarrow> py_error + db" where
  "create_run rd now run_id session_id root_run_id parent_run_id status provider model approval
     cwd delegate_depth allow_write metadata db =
     (if has_run db run_id \<or> \<not> sql_has se_id session_id (d_sessions db) then Inl IntegrityError
      else Inr (db\<lparr>d_runs := d_runs db @
        [\<lparr>rn_id = run_id, rn_session_id = session_id, rn_parent_run_id = parent_run_id,
          rn_root_run_id = root_run_id, rn_status = status,
          rn_provider = redact_opt rd provider, rn_model = redact_opt rd model,
          rn_approval = redact_opt rd approval, rn_cwd = redact_opt rd cwd,
          rn_error = None, rn_output_summary = None, rn_usage = None, rn_steps = 0,
          rn_delegate_depth = delegate_depth, rn_allow_write = allow_write,
          rn_metadata = JsonText (redact_obj rd (VDict metadata)),
          rn_created_at = now, rn_updated_at = now, rn_finished_at = None\<rparr>]\<rparr>))"

text \<open>The keyword arguments of \<open>update_run\<close>.\<close>

record run_update =
  ru_status :: "run_status option"
  ru_error :: "utext option"
  ru_output_summary :: "utext option"
  ru_usage :: "usage option"
  ru_steps :: "int option"
  ru_finished :: bool
  ru_clear_error :: bool
  ru_clear_finished_at :: bool

definition no_update :: run_update where
  "no_update = \<lparr>ru_status = None, ru_error = None, ru_output_summary = None, ru_usage = None,
     ru_steps = None, ru_finished = False, ru_clear_error = False, ru_clear_finished_at = False\<rparr>"

text \<open>
  The SET list. A column named twice (\<open>error = NULL, error = ?\<close>) takes the rightmost value.
\<close>

definition set_run_fields :: "redactor \<Rightarrow> time \<Rightarrow> run_update \<Rightarrow> run_row \<Rightarrow> run_row" where
  "set_run_fields rd now u r = r
     \<lparr>rn_updated_at := now,
      rn_status := (case ru_status u of None \<Rightarrow> rn_status r | Some s \<Rightarrow> s),
      rn_error := (case ru_error u of
                     None \<Rightarrow> if ru_clear_error u then None else rn_error r
                   | Some e \<Rightarrow> Some (redact_text rd e)),
      rn_output_summary := (case ru_output_summary u of
                              None \<Rightarrow> rn_output_summary r
                            | Some s \<Rightarrow> Some (take 2000 (redact_text rd s))),
      rn_usage := (case ru_usage u of None \<Rightarrow> rn_usage r | Some x \<Rightarrow> Some x),
      rn_steps := (case ru_steps u of None \<Rightarrow> rn_steps r | Some n \<Rightarrow> n),
      rn_finished_at := (if ru_finished u then Some now
                         else if ru_clear_finished_at u then None else rn_finished_at r)\<rparr>"

definition update_run ::
  "redactor \<Rightarrow> time \<Rightarrow> string \<Rightarrow> run_update \<Rightarrow> event_envelope list \<Rightarrow> db \<Rightarrow>
   py_error + db \<times> event_envelope list" where
  "update_run rd now run_id u events db =
     (let db' = db\<lparr>d_runs := sql_update (\<lambda>r. rn_id r = run_id) (set_run_fields rd now u) (d_runs db)\<rparr>
      in if events = [] then Inr (db', []) else append_unlocked rd events db')"

fun metadata_dict :: "json_cell \<Rightarrow> pydict" where
  "metadata_dict (JsonText (VDict d)) = d"
| "metadata_dict _ = []"

definition merge_run_metadata :: "redactor \<Rightarrow> time \<Rightarrow> string \<Rightarrow> pydict \<Rightarrow> db \<Rightarrow> db" where
  "merge_run_metadata rd now run_id patch db =
     (if patch = [] then db
      else case sql_find rn_id run_id (d_runs db) of
        None \<Rightarrow> db
      | Some row \<Rightarrow>
          (let meta = dict_update (metadata_dict (rn_metadata row)) patch
           in db\<lparr>d_runs := sql_update (\<lambda>r. rn_id r = run_id)
                  (\<lambda>r. r\<lparr>rn_metadata := JsonText (redact_obj rd (VDict meta)), rn_updated_at := now\<rparr>)
                  (d_runs db)\<rparr>))"

subsection \<open>The enriched projection\<close>

record run_view =
  rv_row :: run_row
  rv_user_summary :: "utext option"
  rv_depth :: int
  rv_child_count :: nat
  rv_actor :: pyval

definition user_summary :: "string \<Rightarrow> db \<Rightarrow> utext option" where
  "user_summary rid db =
     (case sort_key mr_seq (filter (\<lambda>m. mr_run_id m = rid \<and> mr_role m = MR_user) (d_messages db)) of
        [] \<Rightarrow> None
      | m # _ \<Rightarrow> Some (take 500 (mr_content m)))"

definition child_count :: "string \<Rightarrow> db \<Rightarrow> nat" where
  "child_count rid db = sql_count (\<lambda>r. rn_parent_run_id r = Some rid) (d_runs db)"

definition run_actor :: "run_row \<Rightarrow> pyval" where
  "run_actor r =
     (case map_of (metadata_dict (rn_metadata r)) (lit ''actor'') of
        Some a \<Rightarrow> if truthy a then a
                  else if rn_parent_run_id r \<in> {None, Some ''''} then VStr (lit ''user'')
                  else VStr (lit ''delegate'')
      | None \<Rightarrow> if rn_parent_run_id r \<in> {None, Some ''''} then VStr (lit ''user'')
                else VStr (lit ''delegate''))"

definition decorate_run :: "db \<Rightarrow> run_row \<Rightarrow> run_view" where
  "decorate_run db r =
     \<lparr>rv_row = r, rv_user_summary = user_summary (rn_id r) db, rv_depth = rn_delegate_depth r,
      rv_child_count = child_count (rn_id r) db, rv_actor = run_actor r\<rparr>"

definition get_run :: "string \<Rightarrow> db \<Rightarrow> run_view option" where
  "get_run run_id db = map_option (decorate_run db) (sql_find rn_id run_id (d_runs db))"

text \<open>\<open>ORDER BY created_at DESC, rowid DESC LIMIT ? OFFSET ?\<close>.\<close>

definition list_runs :: "string option \<Rightarrow> nat \<Rightarrow> nat \<Rightarrow> db \<Rightarrow> run_view list" where
  "list_runs session_id limit offset db =
     map (decorate_run db)
       (take limit (drop offset (rev (sort_key rn_created_at
         (filter (\<lambda>r. case session_id of None \<Rightarrow> True | Some s \<Rightarrow> s = '''' \<or> rn_session_id r = s)
           (d_runs db))))))"

definition get_run_tree :: "string \<Rightarrow> db \<Rightarrow> run_view list" where
  "get_run_tree run_id db =
     (case sql_find rn_id run_id (d_runs db) of
        None \<Rightarrow> []
      | Some head \<Rightarrow>
          (let root = (if rn_root_run_id head = '''' then run_id else rn_root_run_id head)
           in map (decorate_run db)
                (sort_key rn_created_at (filter (\<lambda>r. rn_root_run_id r = root) (d_runs db)))))"

subsection \<open>Stop requests and pins\<close>

definition set_stop :: "stop_row \<Rightarrow> stop_row \<Rightarrow> stop_row" where
  "set_stop old new = old\<lparr>sr_mode := sr_mode new, sr_requested_at := sr_requested_at new\<rparr>"

definition request_stop :: "time \<Rightarrow> string \<Rightarrow> string \<Rightarrow> db \<Rightarrow> py_error + db" where
  "request_stop now run_id mode db =
     (if \<not> sql_has sr_run_id run_id (d_stops db) \<and> \<not> has_run db run_id then Inl IntegrityError
      else Inr (db\<lparr>d_stops := sql_upsert sr_run_id set_stop
                  \<lparr>sr_run_id = run_id, sr_mode = mode, sr_requested_at = now\<rparr> (d_stops db)\<rparr>))"

definition get_stop_request :: "string \<Rightarrow> db \<Rightarrow> string option" where
  "get_stop_request run_id db = map_option sr_mode (sql_find sr_run_id run_id (d_stops db))"

definition clear_stop_request :: "string \<Rightarrow> db \<Rightarrow> db" where
  "clear_stop_request run_id db = db\<lparr>d_stops := sql_delete (\<lambda>r. sr_run_id r = run_id) (d_stops db)\<rparr>"

definition set_pin :: "pin_row \<Rightarrow> pin_row \<Rightarrow> pin_row" where
  "set_pin old new = old\<lparr>pn_pinned_at := pn_pinned_at new, pn_note := pn_note new\<rparr>"

definition pin_run :: "redactor \<Rightarrow> time \<Rightarrow> string \<Rightarrow> utext option \<Rightarrow> db \<Rightarrow> py_error + db" where
  "pin_run rd now run_id note db =
     (if get_run run_id db = None then Inl (KeyError run_id)
      else Inr (db\<lparr>d_pins := sql_upsert pn_run_id set_pin
                  \<lparr>pn_run_id = run_id, pn_pinned_at = now, pn_note = redact_opt rd note\<rparr> (d_pins db)\<rparr>))"

definition unpin_run :: "string \<Rightarrow> db \<Rightarrow> db \<times> bool" where
  "unpin_run run_id db =
     (db\<lparr>d_pins := sql_delete (\<lambda>r. pn_run_id r = run_id) (d_pins db)\<rparr>,
      sql_count (\<lambda>r. pn_run_id r = run_id) (d_pins db) = 1)"

definition list_pins :: "db \<Rightarrow> pin_row list" where
  "list_pins db = rev (sort_key pn_pinned_at (d_pins db))"

section \<open>Lemmas\<close>

interpretation stops: keyed_table sr_run_id set_stop
  by unfold_locales (simp add: set_stop_def)

interpretation pins: keyed_table pn_run_id set_pin
  by unfold_locales (simp add: set_pin_def)

lemma set_run_fields_keys [simp]:
  "rn_id (set_run_fields rd now u r) = rn_id r"
  "rn_session_id (set_run_fields rd now u r) = rn_session_id r"
  by (simp_all add: set_run_fields_def)

text \<open>Rewriting run rows without touching id and session keeps the store well formed.\<close>

lemma runs_update_db_ok:
  assumes "db_ok db" and "\<And>r. p r \<Longrightarrow> rn_id (f r) = rn_id r"
    and "\<And>r. p r \<Longrightarrow> rn_session_id (f r) = rn_session_id r"
  shows "db_ok (db\<lparr>d_runs := sql_update p f (d_runs db)\<rparr>)"
proof -
  have "map rn_id (sql_update p f (d_runs db)) = map rn_id (d_runs db)"
    by (rule map_sql_update) (rule assms(2))
  moreover have "rn_id ` set (sql_update p f (d_runs db)) = rn_id ` set (d_runs db)"
    by (rule image_sql_update) (rule assms(2))
  moreover have "rn_session_id ` set (sql_update p f (d_runs db)) = rn_session_id ` set (d_runs db)"
    by (rule image_sql_update) (rule assms(3))
  ultimately show ?thesis using assms(1) by (simp add: db_ok_defs)
qed

lemma db_ok_new_run:
  assumes "db_ok db" and "rn_id r \<notin> rn_id ` set (d_runs db)"
    and "rn_session_id r \<in> se_id ` set (d_sessions db)"
  shows "db_ok (db\<lparr>d_runs := d_runs db @ [r]\<rparr>)"
proof -
  have "keys_ok (db\<lparr>d_runs := d_runs db @ [r]\<rparr>)"
    using assms(1,2) by (simp add: db_ok_def keys_ok_def)
  moreover have "refs_ok (db\<lparr>d_runs := d_runs db @ [r]\<rparr>)"
    using assms(1,3) by (simp add: db_ok_def refs_ok_def subset_insertI2)
  moreover have "log_ok (db\<lparr>d_runs := d_runs db @ [r]\<rparr>)"
    using assms(1) by (simp add: db_ok_def log_ok_def)
  ultimately show ?thesis by (rule db_okI)
qed

lemma create_run_db_ok:
  assumes "create_run rd now rid sid rt par st pr mo ap cwd dd aw md db = Inr db'" and "db_ok db"
  shows "db_ok db'"
proof -
  from assms(1) obtain r where "db' = db\<lparr>d_runs := d_runs db @ [r]\<rparr>" "rn_id r = rid"
    "rn_session_id r = sid" "rid \<notin> rn_id ` set (d_runs db)" "sid \<in> se_id ` set (d_sessions db)"
    by (fastforce simp: create_run_def sql_has_image split: if_splits)
  with db_ok_new_run [OF assms(2), of r] show ?thesis by simp
qed

lemma update_run_db_ok:
  assumes "update_run rd now rid u evs db = Inr (db', outs)" and "db_ok db"
  shows "db_ok db'"
proof -
  let ?db = "db\<lparr>d_runs := sql_update (\<lambda>r. rn_id r = rid) (set_run_fields rd now u) (d_runs db)\<rparr>"
  have ok: "db_ok ?db" by (rule runs_update_db_ok [OF assms(2)]) simp_all
  show ?thesis
  proof (cases "evs = []")
    case True
    with assms(1) ok show ?thesis by (simp add: update_run_def)
  next
    case False
    with assms(1) have "append_unlocked rd evs ?db = Inr (db', outs)" by (simp add: update_run_def)
    then show ?thesis using ok by (rule append_db_ok)
  qed
qed

lemma merge_run_metadata_db_ok:
  assumes "db_ok db" shows "db_ok (merge_run_metadata rd now rid patch db)"
proof (cases "sql_find rn_id rid (d_runs db)")
  case (Some row)
  have "db_ok (db\<lparr>d_runs := sql_update (\<lambda>r. rn_id r = rid)
      (\<lambda>r. r\<lparr>rn_metadata := c, rn_updated_at := now\<rparr>) (d_runs db)\<rparr>)" for c
    by (rule runs_update_db_ok [OF assms]) simp_all
  with Some assms show ?thesis by (simp add: merge_run_metadata_def Let_def)
qed (simp add: merge_run_metadata_def assms)

lemma request_stop_db_ok:
  assumes "request_stop now rid mode db = Inr db'" and "db_ok db"
  shows "db_ok db'"
proof -
  from assms(1) have db': "db' = db\<lparr>d_stops := sql_upsert sr_run_id set_stop
      \<lparr>sr_run_id = rid, sr_mode = mode, sr_requested_at = now\<rparr> (d_stops db)\<rparr>"
    and "rid \<in> sr_run_id ` set (d_stops db) \<or> rid \<in> rn_id ` set (d_runs db)"
    by (simp_all add: request_stop_def sql_has_image split: if_splits)
  then have "rid \<in> rn_id ` set (d_runs db)" using db_okD(16) [OF assms(2)] by blast
  then show ?thesis
    unfolding db' by (intro db_ok_set_stops)
      (simp_all add: assms(2) db_okD [OF assms(2)] stops.key_set_upsert stops.unique_upsert)
qed

lemma clear_stop_db_ok:
  assumes "db_ok db" shows "db_ok (clear_stop_request rid db)"
  unfolding clear_stop_request_def
  by (intro db_ok_set_stops)
    (simp_all add: assms db_okD [OF assms] distinct_sql_delete subset_trans [OF image_sql_delete])

lemma pin_run_db_ok:
  assumes "pin_run rd now rid note db = Inr db'" and "db_ok db"
  shows "db_ok db'"
proof -
  from assms(1) have db': "db' = db\<lparr>d_pins := sql_upsert pn_run_id set_pin
      \<lparr>pn_run_id = rid, pn_pinned_at = now, pn_note = redact_opt rd note\<rparr> (d_pins db)\<rparr>"
    and "rid \<in> rn_id ` set (d_runs db)"
    by (auto simp add: pin_run_def get_run_def sql_find_None_iff split: if_splits)
  then show ?thesis
    unfolding db' by (intro db_ok_set_pins)
      (simp_all add: assms(2) db_okD [OF assms(2)] pins.key_set_upsert pins.unique_upsert)
qed

lemma unpin_run_db_ok:
  assumes "db_ok db" shows "db_ok (fst (unpin_run rid db))"
  unfolding unpin_run_def fst_conv
  by (intro db_ok_set_pins)
    (simp_all add: assms db_okD [OF assms] distinct_sql_delete subset_trans [OF image_sql_delete])

text \<open>The last requested mode is the one a watcher reads, until it is cleared.\<close>

lemma get_stop_after_request:
  "request_stop now rid mode db = Inr db' \<Longrightarrow>
   get_stop_request rid' db' = (if rid' = rid then Some mode else get_stop_request rid' db)"
  by (auto simp: request_stop_def get_stop_request_def stops.find_upsert set_stop_def
      split: if_splits option.splits)

lemma get_stop_after_clear:
  "get_stop_request rid' (clear_stop_request rid db) =
     (if rid' = rid then None else get_stop_request rid' db)"
  by (auto simp: get_stop_request_def clear_stop_request_def sql_find_delete_key
      intro!: arg_cong [where f = "map_option sr_mode"] sql_find_delete)

end
