(* ===== verification/Storage_Leases.thy ===== *)
theory Storage_Leases
  imports Storage_Runs
begin

text \<open>
  \<open>src/src/agentharness/storage/leases.py\<close>: single-writer run leases. \<open>now\<close> is the clock
  reading of the call, \<open>ttl\<close> the lease time in microseconds; a lease is expired once
  \<open>expires_at <= now\<close>. \<open>recover_expired_run_leases\<close> marks the active runs behind expired
  leases as process-lost, in one transaction.
\<close>

section \<open>Operations\<close>

definition set_lease :: "lease_row \<Rightarrow> lease_row \<Rightarrow> lease_row" where
  "set_lease old new = old
     \<lparr>lr_owner_id := lr_owner_id new, lr_acquired_at := lr_acquired_at new,
      lr_heartbeat_at := lr_heartbeat_at new, lr_expires_at := lr_expires_at new\<rparr>"

definition acquire_run_lease :: "time \<Rightarrow> string \<Rightarrow> string \<Rightarrow> time \<Rightarrow> db \<Rightarrow> py_error + db \<times> bool" where
  "acquire_run_lease now run_id owner ttl db =
     (let new = \<lparr>lr_run_id = run_id, lr_owner_id = owner, lr_acquired_at = now,
                 lr_heartbeat_at = now, lr_expires_at = now + ttl\<rparr>
      in case sql_find lr_run_id run_id (d_leases db) of
           Some row \<Rightarrow>
             if lr_owner_id row \<noteq> owner \<and> now < lr_expires_at row then Inr (db, False)
             else Inr (db\<lparr>d_leases := sql_upsert lr_run_id set_lease new (d_leases db)\<rparr>, True)
         | None \<Rightarrow>
             if \<not> has_run db run_id then Inl IntegrityError
             else Inr (db\<lparr>d_leases := sql_upsert lr_run_id set_lease new (d_leases db)\<rparr>, True))"

definition heartbeat_run_lease :: "time \<Rightarrow> string \<Rightarrow> string \<Rightarrow> time \<Rightarrow> db \<Rightarrow> db \<times> bool" where
  "heartbeat_run_lease now run_id owner ttl db =
     (let p = (\<lambda>r. lr_run_id r = run_id \<and> lr_owner_id r = owner)
      in (db\<lparr>d_leases := sql_update p
               (\<lambda>r. r\<lparr>lr_heartbeat_at := now, lr_expires_at := now + ttl\<rparr>) (d_leases db)\<rparr>,
          sql_count p (d_leases db) = 1))"

definition release_run_lease :: "string \<Rightarrow> string \<Rightarrow> db \<Rightarrow> db" where
  "release_run_lease run_id owner db =
     db\<lparr>d_leases := sql_delete (\<lambda>r. lr_run_id r = run_id \<and> lr_owner_id r = owner) (d_leases db)\<rparr>"

subsection \<open>Crash recovery\<close>

definition recoverable :: "run_status \<Rightarrow> bool" where
  "recoverable s \<longleftrightarrow> s \<in> {RS_pending, RS_running, RS_waiting_approval}"

text \<open>The JOIN: active runs whose lease has expired.\<close>

definition expired_runs :: "time \<Rightarrow> db \<Rightarrow> run_row list" where
  "expired_runs now db =
     filter (\<lambda>r. recoverable (rn_status r) \<and>
        list_ex (\<lambda>l. lr_run_id l = rn_id r \<and> lr_expires_at l \<le> now) (d_leases db)) (d_runs db)"

definition interrupt_run :: "time \<Rightarrow> run_row \<Rightarrow> run_row" where
  "interrupt_run now r = r\<lparr>rn_status := RS_interrupted, rn_error := Some (lit ''process_lost''),
     rn_updated_at := now, rn_finished_at := Some now\<rparr>"

definition expire_approval :: "time \<Rightarrow> approval_row \<Rightarrow> approval_row" where
  "expire_approval now a = a\<lparr>ap_status := AS_expired, ap_resolved_at := Some now\<rparr>"

definition lost_invocation :: "string \<Rightarrow> invocation_row \<Rightarrow> bool" where
  "lost_invocation rid i \<longleftrightarrow>
     ir_run_id i = rid \<and> ir_status i = TI_running \<and> ir_replay_policy i = RP_never"

definition mark_invocation_lost :: "time \<Rightarrow> invocation_row \<Rightarrow> invocation_row" where
  "mark_invocation_lost now i = i
     \<lparr>ir_status := TI_indeterminate, ir_error_code := Some ''outcome_indeterminate'',
      ir_error_category := Some ''recovery'', ir_updated_at := now, ir_finished_at := Some now\<rparr>"

definition mark_attempt_lost :: "time \<Rightarrow> attempt_row \<Rightarrow> attempt_row" where
  "mark_attempt_lost now a = a
     \<lparr>at_status := AT_indeterminate, at_error_code := Some ''outcome_indeterminate'',
      at_error_category := Some ''recovery'', at_finished_at := Some now\<rparr>"

text \<open>
  The checkpoint patch. Unparsable JSON is treated as an empty object; a JSON value that is
  not an object is left alone.
\<close>

definition patch_checkpoint_dict :: "pydict \<Rightarrow> pydict" where
  "patch_checkpoint_dict payload =
     (let p1 = dict_set (lit ''status'') (VStr (lit (run_status_value RS_interrupted))) payload;
          metadata = (case map_of p1 (lit ''metadata'') of Some (VDict m) \<Rightarrow> m | _ \<Rightarrow> []);
          metadata' = dict_set (lit ''interruption_reason'') (VStr (lit ''process_lost'')) metadata
      in dict_set (lit ''metadata'') (VDict metadata') p1)"

fun patch_checkpoint :: "time \<Rightarrow> checkpoint_row \<Rightarrow> checkpoint_row" where
  "patch_checkpoint now c =
     (case cr_data c of
        JsonBad _ \<Rightarrow> c\<lparr>cr_data := JsonText (VDict (patch_checkpoint_dict [])), cr_created_at := now\<rparr>
      | JsonText (VDict d) \<Rightarrow>
          c\<lparr>cr_data := JsonText (VDict (patch_checkpoint_dict d)), cr_created_at := now\<rparr>
      | JsonText _ \<Rightarrow> c)"

text \<open>
  The body of the loop for one run: five UPDATEs and the event. \<open>eid\<close> supplies the fresh
  event id (\<open>new_id()\<close>) of the run's event.
\<close>

definition lost_event :: "time \<Rightarrow> string \<Rightarrow> run_row \<Rightarrow> event_envelope" where
  "lost_event now event_id r =
     \<lparr>ev_schema_version = 1, ev_event_id = event_id, ev_global_seq = 0, ev_run_seq = 0,
      ev_session_id = rn_session_id r, ev_root_run_id = rn_root_run_id r, ev_run_id = rn_id r,
      ev_parent_run_id = rn_parent_run_id r, ev_span_id = None, ev_parent_span_id = None,
      ev_type = ET_run_interrupted, ev_timestamp = now,
      ev_payload = [(lit ''reason'', VStr (lit ''process_lost''))]\<rparr>"

definition recover_rows :: "time \<Rightarrow> string \<Rightarrow> db \<Rightarrow> db" where
  "recover_rows now rid db = db
     \<lparr>d_runs := sql_update (\<lambda>r. rn_id r = rid) (interrupt_run now) (d_runs db),
      d_approvals := sql_update
        (\<lambda>a. ap_run_id a = rid \<and> ap_status a = AS_pending \<and> ap_decision a = None)
        (expire_approval now) (d_approvals db),
      d_attempts := sql_update
        (\<lambda>a. at_status a = AT_running \<and>
             list_ex (\<lambda>i. ir_id i = at_invocation_id a \<and> lost_invocation rid i) (d_invocations db))
        (mark_attempt_lost now) (d_attempts db),
      d_invocations := sql_update (lost_invocation rid) (mark_invocation_lost now) (d_invocations db),
      d_checkpoints := sql_update (\<lambda>c. cr_run_id c = rid) (patch_checkpoint now) (d_checkpoints db)\<rparr>"

definition recover_one :: "redactor \<Rightarrow> time \<Rightarrow> (string \<Rightarrow> string) \<Rightarrow> run_row \<Rightarrow> db \<Rightarrow> py_error + db" where
  "recover_one rd now eid r db =
     (case append_unlocked rd [lost_event now (eid (rn_id r)) r] (recover_rows now (rn_id r) db) of
        Inl e \<Rightarrow> Inl e
      | Inr (db', _) \<Rightarrow> Inr db')"

fun recover_loop :: "redactor \<Rightarrow> time \<Rightarrow> (string \<Rightarrow> string) \<Rightarrow> run_row list \<Rightarrow> db \<Rightarrow> py_error + db" where
  "recover_loop rd now eid [] db = Inr db"
| "recover_loop rd now eid (r # rs) db =
     (case recover_one rd now eid r db of Inl e \<Rightarrow> Inl e | Inr db' \<Rightarrow> recover_loop rd now eid rs db')"

definition recover_expired_run_leases ::
  "redactor \<Rightarrow> time \<Rightarrow> (string \<Rightarrow> string) \<Rightarrow> db \<Rightarrow> py_error + db \<times> string list" where
  "recover_expired_run_leases rd now eid db =
     (let rows = expired_runs now db
      in case recover_loop rd now eid rows db of
           Inl e \<Rightarrow> Inl e
         | Inr db' \<Rightarrow>
             Inr (db'\<lparr>d_leases := sql_delete (\<lambda>l. lr_expires_at l \<le> now) (d_leases db')\<rparr>,
                  map rn_id rows))"

section \<open>Lemmas on acquire, heartbeat and release\<close>

interpretation leases: keyed_table lr_run_id set_lease
  by unfold_locales (simp add: set_lease_def)

text \<open>Who holds an unexpired lease on a run.\<close>

definition holds_lease :: "time \<Rightarrow> string \<Rightarrow> string \<Rightarrow> db \<Rightarrow> bool" where
  "holds_lease until rid owner db \<longleftrightarrow>
     (\<exists>l. sql_find lr_run_id rid (d_leases db) = Some l \<and> lr_owner_id l = owner \<and> until \<le> lr_expires_at l)"

lemma acquire_gives_lease:
  assumes "acquire_run_lease now rid owner ttl db = Inr (db', True)"
  shows "holds_lease (now + ttl) rid owner db'"
  using assms
  by (auto simp: acquire_run_lease_def holds_lease_def leases.find_upsert set_lease_def Let_def
      split: option.splits if_splits)

lemma acquire_refused_iff:
  "acquire_run_lease now rid owner ttl db = Inr (db', False) \<longleftrightarrow>
     db' = db \<and> (\<exists>other. other \<noteq> owner \<and> holds_lease (Suc now) rid other db)"
  by (auto simp: acquire_run_lease_def holds_lease_def Let_def Suc_le_eq split: option.splits)

lemma acquire_keeps_live_lease:
  assumes "holds_lease until rid owner db" and "now < until"
    and "acquire_run_lease now rid' owner' ttl db = Inr (db', won)" and "owner' \<noteq> owner"
  shows "holds_lease until rid owner db' \<and> (rid' = rid \<longrightarrow> \<not> won)"
  using assms
  by (auto simp: acquire_run_lease_def holds_lease_def leases.find_upsert Let_def
      split: option.splits if_splits)

lemma find_lease_heartbeat:
  "sql_find lr_run_id rid (d_leases (fst (heartbeat_run_lease now rid' owner ttl db))) =
     map_option (\<lambda>l. if lr_run_id l = rid' \<and> lr_owner_id l = owner
                     then l\<lparr>lr_heartbeat_at := now, lr_expires_at := now + ttl\<rparr> else l)
       (sql_find lr_run_id rid (d_leases db))"
proof -
  have "sql_find lr_run_id rid (sql_update (\<lambda>r. lr_run_id r = rid' \<and> lr_owner_id r = owner)
      (\<lambda>r. r\<lparr>lr_heartbeat_at := now, lr_expires_at := now + ttl\<rparr>) (d_leases db)) =
      map_option (\<lambda>l. if lr_run_id l = rid' \<and> lr_owner_id l = owner
                     then l\<lparr>lr_heartbeat_at := now, lr_expires_at := now + ttl\<rparr> else l)
       (sql_find lr_run_id rid (d_leases db))"
    by (rule sql_find_update_same) simp
  then show ?thesis by (simp add: heartbeat_run_lease_def Let_def)
qed

lemma heartbeat_other_keeps_lease:
  "holds_lease until rid owner db \<Longrightarrow> owner' \<noteq> owner \<Longrightarrow>
   holds_lease until rid owner (fst (heartbeat_run_lease now rid' owner' ttl db))"
  by (auto simp: holds_lease_def find_lease_heartbeat)

lemma heartbeat_result:
  assumes "distinct (map lr_run_id (d_leases db))"
  shows "snd (heartbeat_run_lease now rid owner ttl db) \<longleftrightarrow> holds_lease 0 rid owner db"
proof -
  let ?p = "\<lambda>r. lr_run_id r = rid \<and> lr_owner_id r = owner"
  have "sql_count ?p (d_leases db) \<le> 1" by (rule sql_count_le_1 [OF assms])
  moreover have "sql_count ?p (d_leases db) = 0 \<longleftrightarrow> \<not> holds_lease 0 rid owner db"
    using sql_find_unique [OF assms] sql_find_SomeD [of lr_run_id rid "d_leases db"]
    by (force simp: sql_count_eq_0 holds_lease_def)
  ultimately show ?thesis by (auto simp: heartbeat_run_lease_def Let_def)
qed

lemma release_other_keeps_lease:
  assumes "holds_lease until rid owner db" and "owner' \<noteq> owner"
    and u: "distinct (map lr_run_id (d_leases db))"
  shows "holds_lease until rid owner (release_run_lease rid' owner' db)"
proof -
  from assms(1) obtain l where l: "sql_find lr_run_id rid (d_leases db) = Some l"
    "lr_owner_id l = owner" "until \<le> lr_expires_at l"
    by (auto simp: holds_lease_def)
  have "sql_find lr_run_id rid (sql_delete (\<lambda>r. lr_run_id r = rid' \<and> lr_owner_id r = owner') (d_leases db)) =
      sql_find lr_run_id rid (d_leases db)"
    using l assms(2) sql_find_unique [OF u] by (intro sql_find_delete) auto
  with l show ?thesis by (simp add: holds_lease_def release_run_lease_def)
qed

text \<open>The three writers keep the store well formed.\<close>

lemma acquire_db_ok:
  assumes "acquire_run_lease now rid owner ttl db = Inr (db', won)" and "db_ok db"
  shows "db_ok db'"
proof (cases "db' = db")
  case False
  from assms(1) False obtain n where db': "db' = db\<lparr>d_leases := sql_upsert lr_run_id set_lease n (d_leases db)\<rparr>"
    and n: "lr_run_id n = rid" and m: "rid \<in> lr_run_id ` set (d_leases db) \<or> rid \<in> rn_id ` set (d_runs db)"
    using sql_find_SomeD [of lr_run_id rid "d_leases db"]
    by (fastforce simp: acquire_run_lease_def Let_def sql_has_image split: option.splits if_splits)
  from m db_okD(18) [OF assms(2)] db_okD(17) [OF assms(2)] have "rid \<in> rn_id ` set (d_runs db)" by blast
  with n show ?thesis
    unfolding db' by (intro db_ok_set_leases)
      (simp_all add: assms(2) db_okD [OF assms(2)] leases.key_set_upsert leases.unique_upsert)
qed (simp add: assms)

lemma heartbeat_db_ok:
  assumes "db_ok db" shows "db_ok (fst (heartbeat_run_lease now rid owner ttl db))"
  unfolding heartbeat_run_lease_def Let_def fst_conv
  by (intro db_ok_set_leases) (simp_all add: assms db_okD [OF assms] map_sql_update image_sql_update)

lemma release_db_ok:
  assumes "db_ok db" shows "db_ok (release_run_lease rid owner db)"
  unfolding release_run_lease_def
  by (intro db_ok_set_leases)
    (simp_all add: assms db_okD [OF assms] distinct_sql_delete subset_trans [OF image_sql_delete])

end
