(* ===== verification/Lease_Recovery.thy ===== *)
theory Lease_Recovery
  imports Storage_Leases
begin

text \<open>
  What crash recovery does to the store as a whole, and the single-writer guarantee over
  arbitrary interleavings of lease operations of \<open>storage/leases.py\<close>.
\<close>

section \<open>The effect of recovery\<close>

lemma recover_rows_db_ok:
  assumes "db_ok db" shows "db_ok (recover_rows now rid db)"
proof -
  let ?d1 = "db\<lparr>d_runs := sql_update (\<lambda>r. rn_id r = rid) (interrupt_run now) (d_runs db)\<rparr>"
  let ?d2 = "?d1\<lparr>d_approvals := sql_update
      (\<lambda>a. ap_run_id a = rid \<and> ap_status a = AS_pending \<and> ap_decision a = None)
      (expire_approval now) (d_approvals ?d1)\<rparr>"
  let ?d3 = "?d2\<lparr>d_attempts := sql_update
      (\<lambda>a. at_status a = AT_running \<and>
         list_ex (\<lambda>i. ir_id i = at_invocation_id a \<and> lost_invocation rid i) (d_invocations db))
      (mark_attempt_lost now) (d_attempts ?d2)\<rparr>"
  let ?d4 = "?d3\<lparr>d_invocations := sql_update (lost_invocation rid) (mark_invocation_lost now) (d_invocations ?d3)\<rparr>"
  let ?d5 = "?d4\<lparr>d_checkpoints := sql_update (\<lambda>c. cr_run_id c = rid) (patch_checkpoint now) (d_checkpoints ?d4)\<rparr>"
  have "db_ok ?d1" by (rule runs_update_db_ok [OF assms]) (simp_all add: interrupt_run_def)
  then have "db_ok ?d2" by (rule approvals_update_db_ok) (simp_all add: expire_approval_def)
  then have "db_ok ?d3" by (rule attempts_update_db_ok) (simp_all add: mark_attempt_lost_def)
  then have "db_ok ?d4" by (rule invocations_update_db_ok) (simp_all add: mark_invocation_lost_def)
  then have "db_ok ?d5" by (rule checkpoints_update_db_ok) (simp split: json_cell.splits pyval.splits)
  then show ?thesis by (simp add: recover_rows_def)
qed

lemma recover_one_effect:
  assumes "recover_one rd now eid r db = Inr db'"
  shows "\<exists>ev w. ev_run_id ev = rn_id r \<and> ev_type ev = ET_run_interrupted \<and>
     db' = (recover_rows now (rn_id r) db)\<lparr>d_events := d_events db @ [ev],
       d_event_seq := d_event_seq db + 1, d_seq_counter := w\<rparr>"
proof -
  let ?e = "lost_event now (eid (rn_id r)) r" and ?d = "recover_rows now (rn_id r) db"
  from assms obtain outs where a: "append_unlocked rd [?e] ?d = Inr (db', outs)"
    by (auto simp: recover_one_def split: sum.splits)
  then obtain d1 where "append_rows rd [?e] ?d = Inr (d1, outs)"
    by (auto simp: append_unlocked_def split: sum.splits)
  from append_rows_effect [OF this] obtain ev where ev: "outs = [ev]" "ev_run_id ev = rn_id r"
    "ev_type ev = ET_run_interrupted"
    by (auto simp: lost_event_def)
  with append_keeps_tables [OF a] show ?thesis by (auto simp: recover_rows_def)
qed

lemma recover_one_succeeds:
  assumes "\<not> sql_has ev_event_id (eid (rn_id r)) (d_events db)"
  shows "\<exists>db'. recover_one rd now eid r db = Inr db'"
  using assms by (simp add: recover_one_def append_unlocked_def lost_event_def recover_rows_def Let_def)

lemma recover_one_db_ok: "recover_one rd now eid r db = Inr db' \<Longrightarrow> db_ok db \<Longrightarrow> db_ok db'"
  by (auto simp: recover_one_def split: sum.splits dest: append_db_ok [OF _ recover_rows_db_ok])

lemma recover_loop_db_ok: "recover_loop rd now eid rs db = Inr db' \<Longrightarrow> db_ok db \<Longrightarrow> db_ok db'"
  by (induction rs arbitrary: db) (auto split: sum.splits dest: recover_one_db_ok)

text \<open>
  Lost invocations and attempts of a set of runs, and the row functions of the whole loop.
\<close>

definition recovered_run :: "time \<Rightarrow> string set \<Rightarrow> run_row \<Rightarrow> run_row" where
  "recovered_run now ids r = (if rn_id r \<in> ids then interrupt_run now r else r)"

definition recovered_approval :: "time \<Rightarrow> string set \<Rightarrow> approval_row \<Rightarrow> approval_row" where
  "recovered_approval now ids a =
     (if ap_run_id a \<in> ids \<and> ap_status a = AS_pending \<and> ap_decision a = None
      then expire_approval now a else a)"

definition recovered_invocation :: "time \<Rightarrow> string set \<Rightarrow> invocation_row \<Rightarrow> invocation_row" where
  "recovered_invocation now ids i =
     (if ir_run_id i \<in> ids \<and> ir_status i = TI_running \<and> ir_replay_policy i = RP_never
      then mark_invocation_lost now i else i)"

definition recovered_attempt :: "time \<Rightarrow> string set \<Rightarrow> invocation_row list \<Rightarrow> attempt_row \<Rightarrow> attempt_row" where
  "recovered_attempt now ids invs a =
     (if at_status a = AT_running \<and>
         (\<exists>i \<in> set invs. ir_id i = at_invocation_id a \<and> ir_run_id i \<in> ids \<and>
            ir_status i = TI_running \<and> ir_replay_policy i = RP_never)
      then mark_attempt_lost now a else a)"

text \<open>One run of the loop composes with the row function of the remaining runs.\<close>

lemma map_after_update:
  assumes "\<And>r. P r \<Longrightarrow> f (u r) = g r" and "\<And>r. \<not> P r \<Longrightarrow> f r = g r"
  shows "map f (sql_update P u rows) = map g rows"
  by (simp add: sql_update_def assms)

lemma recovered_run_step:
  "map (recovered_run now ids) (sql_update (\<lambda>r. rn_id r = rid) (interrupt_run now) rows) =
   map (recovered_run now (insert rid ids)) rows"
  by (rule map_after_update) (simp_all add: recovered_run_def interrupt_run_def)

lemma recovered_approval_step:
  "map (recovered_approval now ids)
     (sql_update (\<lambda>a. ap_run_id a = rid \<and> ap_status a = AS_pending \<and> ap_decision a = None)
        (expire_approval now) rows) =
   map (recovered_approval now (insert rid ids)) rows"
proof (rule map_after_update)
  fix a :: approval_row
  assume "ap_run_id a = rid \<and> ap_status a = AS_pending \<and> ap_decision a = None"
  moreover have "ap_status (expire_approval now a) = AS_expired" by (simp add: expire_approval_def)
  ultimately show "recovered_approval now ids (expire_approval now a) = recovered_approval now (insert rid ids) a"
    by (simp add: recovered_approval_def)
next
  fix a :: approval_row
  assume "\<not> (ap_run_id a = rid \<and> ap_status a = AS_pending \<and> ap_decision a = None)"
  then show "recovered_approval now ids a = recovered_approval now (insert rid ids) a"
    unfolding recovered_approval_def by (intro if_cong) auto
qed

lemma recovered_invocation_step:
  "map (recovered_invocation now ids) (sql_update (lost_invocation rid) (mark_invocation_lost now) rows) =
   map (recovered_invocation now (insert rid ids)) rows"
proof (rule map_after_update)
  fix i :: invocation_row
  assume "lost_invocation rid i"
  moreover have "ir_status (mark_invocation_lost now i) = TI_indeterminate"
    by (simp add: mark_invocation_lost_def)
  ultimately show "recovered_invocation now ids (mark_invocation_lost now i) =
      recovered_invocation now (insert rid ids) i"
    by (simp add: recovered_invocation_def lost_invocation_def)
next
  fix i :: invocation_row
  assume "\<not> lost_invocation rid i"
  then show "recovered_invocation now ids i = recovered_invocation now (insert rid ids) i"
    unfolding recovered_invocation_def lost_invocation_def by (intro if_cong) auto
qed

lemma recovered_attempt_step:
  "map (recovered_attempt now ids (sql_update (lost_invocation rid) (mark_invocation_lost now) invs))
     (sql_update (\<lambda>a. at_status a = AT_running \<and>
        list_ex (\<lambda>i. ir_id i = at_invocation_id a \<and> lost_invocation rid i) invs)
        (mark_attempt_lost now) rows) =
   map (recovered_attempt now (insert rid ids) invs) rows"
proof (rule map_after_update)
  fix a :: attempt_row
  assume l: "at_status a = AT_running \<and> list_ex (\<lambda>i. ir_id i = at_invocation_id a \<and> lost_invocation rid i) invs"
  then have "recovered_attempt now (insert rid ids) invs a = mark_attempt_lost now a"
    unfolding recovered_attempt_def list_ex_iff lost_invocation_def by (intro if_P) blast
  moreover have "at_status (mark_attempt_lost now a) = AT_indeterminate" by (simp add: mark_attempt_lost_def)
  ultimately show "recovered_attempt now ids (sql_update (lost_invocation rid) (mark_invocation_lost now) invs)
      (mark_attempt_lost now a) = recovered_attempt now (insert rid ids) invs a"
    by (simp add: recovered_attempt_def)
next
  fix a :: attempt_row
  assume n: "\<not> (at_status a = AT_running \<and> list_ex (\<lambda>i. ir_id i = at_invocation_id a \<and> lost_invocation rid i) invs)"
  have m: "ir_id (mark_invocation_lost now i) = ir_id i \<and> ir_status (mark_invocation_lost now i) = TI_indeterminate" for i
    by (simp add: mark_invocation_lost_def)
  show "recovered_attempt now ids (sql_update (lost_invocation rid) (mark_invocation_lost now) invs) a =
      recovered_attempt now (insert rid ids) invs a"
    unfolding recovered_attempt_def
  proof (intro if_cong refl conj_cong iffI)
    assume r: "at_status a = AT_running"
      and "\<exists>i \<in> set (sql_update (lost_invocation rid) (mark_invocation_lost now) invs).
         ir_id i = at_invocation_id a \<and> ir_run_id i \<in> ids \<and> ir_status i = TI_running \<and> ir_replay_policy i = RP_never"
    then obtain j where "j \<in> set invs" and "ir_id j = at_invocation_id a" "ir_run_id j \<in> ids"
      "ir_status j = TI_running" "ir_replay_policy j = RP_never"
      using m by (auto simp: sql_update_def split: if_splits)
    then show "\<exists>i \<in> set invs. ir_id i = at_invocation_id a \<and> ir_run_id i \<in> insert rid ids \<and>
         ir_status i = TI_running \<and> ir_replay_policy i = RP_never" by blast
  next
    assume r: "at_status a = AT_running"
      and "\<exists>i \<in> set invs. ir_id i = at_invocation_id a \<and> ir_run_id i \<in> insert rid ids \<and>
         ir_status i = TI_running \<and> ir_replay_policy i = RP_never"
    then obtain i where i: "i \<in> set invs" "ir_id i = at_invocation_id a" "ir_run_id i \<in> insert rid ids"
      "ir_status i = TI_running" "ir_replay_policy i = RP_never" by blast
    with n r have nl: "\<not> lost_invocation rid i" by (auto simp: list_ex_iff)
    with i have "ir_run_id i \<in> ids" by (auto simp: lost_invocation_def)
    moreover have "i \<in> set (sql_update (lost_invocation rid) (mark_invocation_lost now) invs)"
      using i(1) nl by (force simp: sql_update_def)
    ultimately show "\<exists>i \<in> set (sql_update (lost_invocation rid) (mark_invocation_lost now) invs).
         ir_id i = at_invocation_id a \<and> ir_run_id i \<in> ids \<and> ir_status i = TI_running \<and> ir_replay_policy i = RP_never"
      using i by blast
  qed
qed

lemma recover_loop_effect:
  assumes "recover_loop rd now eid rs db = Inr db'"
  shows "d_runs db' = map (recovered_run now (rn_id ` set rs)) (d_runs db) \<and>
     d_approvals db' = map (recovered_approval now (rn_id ` set rs)) (d_approvals db) \<and>
     d_invocations db' = map (recovered_invocation now (rn_id ` set rs)) (d_invocations db) \<and>
     d_attempts db' = map (recovered_attempt now (rn_id ` set rs) (d_invocations db)) (d_attempts db) \<and>
     d_leases db' = d_leases db \<and> d_sessions db' = d_sessions db \<and> d_messages db' = d_messages db \<and>
     (\<exists>evs. d_events db' = d_events db @ evs \<and> map ev_run_id evs = map rn_id rs \<and>
        (\<forall>e \<in> set evs. ev_type e = ET_run_interrupted))"
  using assms
proof (induction rs arbitrary: db)
  case Nil
  then show ?case
    by (auto simp: recovered_run_def recovered_approval_def recovered_invocation_def recovered_attempt_def
        map_idI)
next
  case (Cons r rs)
  then obtain d1 where one: "recover_one rd now eid r db = Inr d1"
    and rest: "recover_loop rd now eid rs d1 = Inr db'"
    by (auto split: sum.splits)
  from recover_one_effect [OF one] obtain ev w where ev: "ev_run_id ev = rn_id r"
    "ev_type ev = ET_run_interrupted"
    and d1: "d1 = (recover_rows now (rn_id r) db)\<lparr>d_events := d_events db @ [ev],
       d_event_seq := d_event_seq db + 1, d_seq_counter := w\<rparr>"
    by blast
  from Cons.IH [OF rest] obtain evs where
    evs: "d_events db' = d_events d1 @ evs" "map ev_run_id evs = map rn_id rs"
      "\<forall>e \<in> set evs. ev_type e = ET_run_interrupted"
    and IH: "d_runs db' = map (recovered_run now (rn_id ` set rs)) (d_runs d1)"
     "d_approvals db' = map (recovered_approval now (rn_id ` set rs)) (d_approvals d1)"
     "d_invocations db' = map (recovered_invocation now (rn_id ` set rs)) (d_invocations d1)"
     "d_attempts db' = map (recovered_attempt now (rn_id ` set rs) (d_invocations d1)) (d_attempts d1)"
     "d_leases db' = d_leases d1" "d_sessions db' = d_sessions d1" "d_messages db' = d_messages d1"
    by blast
  have "d_events db' = d_events db @ (ev # evs)" using evs(1) d1 by simp
  moreover have "map ev_run_id (ev # evs) = map rn_id (r # rs)" using evs(2) ev(1) by simp
  moreover have "\<forall>e \<in> set (ev # evs). ev_type e = ET_run_interrupted" using evs(3) ev(2) by simp
  ultimately have "\<exists>evs. d_events db' = d_events db @ evs \<and> map ev_run_id evs = map rn_id (r # rs) \<and>
        (\<forall>e \<in> set evs. ev_type e = ET_run_interrupted)" by blast
  with IH show ?case
    by (simp add: d1 recover_rows_def recovered_run_step recovered_approval_step
        recovered_invocation_step recovered_attempt_step)
qed

lemma recover_db_ok:
  assumes "recover_expired_run_leases rd now eid db = Inr (db', ids)" and "db_ok db"
  shows "db_ok db'"
proof -
  from assms(1) obtain d where l: "recover_loop rd now eid (expired_runs now db) db = Inr d"
    and db': "db' = d\<lparr>d_leases := sql_delete (\<lambda>l. lr_expires_at l \<le> now) (d_leases d)\<rparr>"
    by (auto simp: recover_expired_run_leases_def Let_def split: sum.splits)
  have ok: "db_ok d" by (rule recover_loop_db_ok [OF l assms(2)])
  show ?thesis
    unfolding db' by (intro db_ok_set_leases)
      (simp_all add: ok db_okD [OF ok] distinct_sql_delete subset_trans [OF image_sql_delete])
qed

text \<open>
  C2. Recovery interrupts exactly the active runs behind expired leases, expires their
  undecided approvals, turns their running never-replay invocations (and the attempts of
  those) indeterminate, logs exactly one run_interrupted event per recovered run, drops
  exactly the expired leases, and touches nothing else of the runs.
\<close>

theorem recovery_effect:
  assumes "recover_expired_run_leases rd now eid db = Inr (db', ids)"
  shows "ids = map rn_id (filter (\<lambda>r. rn_status r \<in> {RS_pending, RS_running, RS_waiting_approval} \<and>
            (\<exists>l \<in> set (d_leases db). lr_run_id l = rn_id r \<and> lr_expires_at l \<le> now)) (d_runs db)) \<and>
     d_runs db' = map (recovered_run now (set ids)) (d_runs db) \<and>
     d_approvals db' = map (recovered_approval now (set ids)) (d_approvals db) \<and>
     d_invocations db' = map (recovered_invocation now (set ids)) (d_invocations db) \<and>
     d_attempts db' = map (recovered_attempt now (set ids) (d_invocations db)) (d_attempts db) \<and>
     d_leases db' = filter (\<lambda>l. now < lr_expires_at l) (d_leases db) \<and>
     (\<exists>evs. d_events db' = d_events db @ evs \<and> map ev_run_id evs = ids \<and>
        (\<forall>e \<in> set evs. ev_type e = ET_run_interrupted))"
proof -
  from assms obtain d where l: "recover_loop rd now eid (expired_runs now db) db = Inr d"
    and db': "db' = d\<lparr>d_leases := sql_delete (\<lambda>l. lr_expires_at l \<le> now) (d_leases d)\<rparr>"
    and ids: "ids = map rn_id (expired_runs now db)"
    by (auto simp: recover_expired_run_leases_def Let_def split: sum.splits)
  note eff = recover_loop_effect [OF l]
  have si: "rn_id ` set (expired_runs now db) = set ids" by (simp add: ids)
  have "ids = map rn_id (filter (\<lambda>r. rn_status r \<in> {RS_pending, RS_running, RS_waiting_approval} \<and>
            (\<exists>l \<in> set (d_leases db). lr_run_id l = rn_id r \<and> lr_expires_at l \<le> now)) (d_runs db))"
    by (simp add: ids expired_runs_def recoverable_def list_ex_iff)
  moreover have "d_leases db' = filter (\<lambda>l. now < lr_expires_at l) (d_leases db)"
    using eff by (simp add: db' sql_delete_def not_le)
  moreover have "\<exists>evs. d_events db' = d_events db @ evs \<and> map ev_run_id evs = ids \<and>
        (\<forall>e \<in> set evs. ev_type e = ET_run_interrupted)"
    using eff by (simp add: db' ids)
  moreover have "d_runs db' = map (recovered_run now (set ids)) (d_runs db)"
    and "d_approvals db' = map (recovered_approval now (set ids)) (d_approvals db)"
    and "d_invocations db' = map (recovered_invocation now (set ids)) (d_invocations db)"
    and "d_attempts db' = map (recovered_attempt now (set ids) (d_invocations db)) (d_attempts db)"
    using eff unfolding si by (simp_all add: db')
  ultimately show ?thesis by blast
qed

section \<open>Single writer over interleavings\<close>

text \<open>One call of the lease API, with its clock reading.\<close>

datatype lease_op =
    LAcquire time string string time
  | LHeartbeat time string string time
  | LRelease string string
  | LRecover time "string \<Rightarrow> string"

text \<open>An operation that raises leaves the store unchanged (rollback).\<close>

fun lease_exec :: "redactor \<Rightarrow> lease_op \<Rightarrow> db \<Rightarrow> db" where
  "lease_exec rd (LAcquire now rid owner ttl) db =
     (case acquire_run_lease now rid owner ttl db of Inl _ \<Rightarrow> db | Inr (db', _) \<Rightarrow> db')"
| "lease_exec rd (LHeartbeat now rid owner ttl) db = fst (heartbeat_run_lease now rid owner ttl db)"
| "lease_exec rd (LRelease rid owner) db = release_run_lease rid owner db"
| "lease_exec rd (LRecover now eid) db =
     (case recover_expired_run_leases rd now eid db of Inl _ \<Rightarrow> db | Inr (db', _) \<Rightarrow> db')"

text \<open>Operations of other processes that happen before \<open>until\<close>.\<close>

fun foreign_before :: "time \<Rightarrow> string \<Rightarrow> lease_op \<Rightarrow> bool" where
  "foreign_before until owner (LAcquire now rid owner' ttl) = (now < until \<and> owner' \<noteq> owner)"
| "foreign_before until owner (LHeartbeat now rid owner' ttl) = (now < until \<and> owner' \<noteq> owner)"
| "foreign_before until owner (LRelease rid owner') = (owner' \<noteq> owner)"
| "foreign_before until owner (LRecover now eid) = (now < until)"

lemma lease_exec_db_ok: "db_ok db \<Longrightarrow> db_ok (lease_exec rd op db)"
  by (cases op)
    (auto split: sum.splits intro: acquire_db_ok recover_db_ok heartbeat_db_ok release_db_ok)

interpretation lease_system: invariant_system "\<lambda>db. db = empty_db" "lease_exec rd" db_ok for rd
  by unfold_locales (auto simp: db_ok_empty lease_exec_db_ok)

lemma recover_keeps_lease:
  assumes "recover_expired_run_leases rd now eid db = Inr (db', ids)"
    and "holds_lease until rid owner db" and "now < until"
  shows "holds_lease until rid owner db'"
proof -
  from assms(1) obtain d where l: "recover_loop rd now eid (expired_runs now db) db = Inr d"
    and db': "db' = d\<lparr>d_leases := sql_delete (\<lambda>l. lr_expires_at l \<le> now) (d_leases d)\<rparr>"
    by (auto simp: recover_expired_run_leases_def Let_def split: sum.splits)
  from assms(2) obtain r where r: "sql_find lr_run_id rid (d_leases db) = Some r" "lr_owner_id r = owner"
    "until \<le> lr_expires_at r" by (auto simp: holds_lease_def)
  then have "sql_find lr_run_id rid (sql_delete (\<lambda>l. lr_expires_at l \<le> now) (d_leases db)) = Some r"
    using assms(3) by (intro sql_find_delete_keep) auto
  with r recover_loop_effect [OF l] show ?thesis by (simp add: holds_lease_def db')
qed

lemma foreign_step_keeps_lease:
  assumes "db_ok db" and "holds_lease until rid owner db" and "foreign_before until owner op"
  shows "holds_lease until rid owner (lease_exec rd op db)"
proof (cases op)
  case (LAcquire now rid' owner' ttl)
  with assms acquire_keeps_live_lease [OF assms(2)] show ?thesis by (auto split: sum.splits)
next
  case (LHeartbeat now rid' owner' ttl)
  with assms show ?thesis by (simp add: heartbeat_other_keeps_lease)
next
  case (LRelease rid' owner')
  with assms db_okD(6) [OF assms(1)] show ?thesis by (simp add: release_other_keeps_lease)
next
  case (LRecover now eid)
  with assms show ?thesis by (auto split: sum.splits intro: recover_keeps_lease)
qed

lemma foreign_run_keeps_lease:
  "db_ok db \<Longrightarrow> holds_lease until rid owner db \<Longrightarrow> list_all (foreign_before until owner) ops \<Longrightarrow>
   holds_lease until rid owner (fold (lease_exec rd) ops db)"
  by (induction ops arbitrary: db) (simp_all add: lease_exec_db_ok foreign_step_keeps_lease)

text \<open>
  C1. Single writer: once a process has acquired a run's lease, then whatever acquires,
  heartbeats, releases and recovery sweeps other processes issue before it expires, in any
  order and number, every attempt of another process to acquire the run is refused without
  effect and the holder's own heartbeat still succeeds.
\<close>

theorem lease_single_writer:
  assumes "db_ok db" and "acquire_run_lease t rid owner ttl db = Inr (db1, True)"
    and "list_all (foreign_before (t + ttl) owner) ops"
    and "now < t + ttl" and "other \<noteq> owner"
  shows "acquire_run_lease now rid other ttl' (fold (lease_exec rd) ops db1) =
           Inr (fold (lease_exec rd) ops db1, False) \<and>
         snd (heartbeat_run_lease now rid owner ttl' (fold (lease_exec rd) ops db1))"
proof -
  let ?db = "fold (lease_exec rd) ops db1"
  have ok1: "db_ok db1" by (rule acquire_db_ok [OF assms(2,1)])
  have ok: "db_ok ?db" by (rule lease_system.run_inv [OF ok1])
  have h: "holds_lease (t + ttl) rid owner ?db"
    by (rule foreign_run_keeps_lease [OF ok1 acquire_gives_lease [OF assms(2)] assms(3)])
  then have "holds_lease (Suc now) rid owner ?db" "holds_lease 0 rid owner ?db"
    using assms(4) by (auto simp: holds_lease_def)
  with assms(5) db_okD(6) [OF ok] show ?thesis
    by (auto simp: acquire_refused_iff heartbeat_result)
qed

theorem lease_single_writer_witness:
  "acquire_run_lease 20 ''r'' ''b'' 60
     (fold (lease_exec demo_redactor) [LAcquire 15 ''r'' ''c'' 60, LRelease ''r'' ''b'', LRecover 18 (\<lambda>x. x)]
        (demo_db\<lparr>d_leases := [\<lparr>lr_run_id = ''r'', lr_owner_id = ''a'', lr_acquired_at = 10,
                   lr_heartbeat_at = 10, lr_expires_at = 70\<rparr>]\<rparr>)) =
   Inr (fold (lease_exec demo_redactor) [LAcquire 15 ''r'' ''c'' 60, LRelease ''r'' ''b'', LRecover 18 (\<lambda>x. x)]
        (demo_db\<lparr>d_leases := [\<lparr>lr_run_id = ''r'', lr_owner_id = ''a'', lr_acquired_at = 10,
                   lr_heartbeat_at = 10, lr_expires_at = 70\<rparr>]\<rparr>), False)"
proof -
  have a: "acquire_run_lease 10 ''r'' ''a'' 60 demo_db = Inr (demo_db\<lparr>d_leases :=
      [\<lparr>lr_run_id = ''r'', lr_owner_id = ''a'', lr_acquired_at = 10,
        lr_heartbeat_at = 10, lr_expires_at = 70\<rparr>]\<rparr>, True)"
    by (simp add: acquire_run_lease_def demo_eval)
  show ?thesis
    by (rule lease_single_writer [OF demo_db_ok a, THEN conjunct1]) simp_all
qed

theorem recovery_effect_witness:
  "\<exists>db'. recover_expired_run_leases demo_redactor 99 (\<lambda>x. x) (demo_db\<lparr>d_leases :=
      [\<lparr>lr_run_id = ''r'', lr_owner_id = ''a'', lr_acquired_at = 10,
        lr_heartbeat_at = 10, lr_expires_at = 70\<rparr>]\<rparr>) = Inr (db', [''r'']) \<and>
     map rn_status (d_runs db') = [RS_interrupted] \<and> d_leases db' = []"
proof -
  let ?db = "demo_db\<lparr>d_leases := [\<lparr>lr_run_id = ''r'', lr_owner_id = ''a'', lr_acquired_at = 10,
        lr_heartbeat_at = 10, lr_expires_at = 70\<rparr>]\<rparr>"
  have e: "expired_runs 99 ?db = [demo_run ''r'' RS_running]"
    by (simp add: expired_runs_def recoverable_def demo_eval)
  have "\<not> sql_has ev_event_id x (d_events ?db)" for x by (simp add: demo_eval)
  then obtain d where d: "recover_one demo_redactor 99 (\<lambda>x. x) (demo_run ''r'' RS_running) ?db = Inr d"
    using recover_one_succeeds by blast
  let ?db' = "d\<lparr>d_leases := sql_delete (\<lambda>l. lr_expires_at l \<le> 99) (d_leases d)\<rparr>"
  have i: "rn_id (demo_run ''r'' RS_running) = ''r''" by (simp add: demo_run_def)
  have rec: "recover_expired_run_leases demo_redactor 99 (\<lambda>x. x) ?db = Inr (?db', [''r''])"
    by (simp add: recover_expired_run_leases_def e d i)
  have "d_runs ?db' = map (recovered_run 99 (set [''r''])) (d_runs ?db)"
    by (rule recovery_effect [OF rec, THEN conjunct2, THEN conjunct1])
  moreover have "d_leases ?db' = filter (\<lambda>l. 99 < lr_expires_at l) (d_leases ?db)"
    by (rule recovery_effect [OF rec, THEN conjunct2, THEN conjunct2, THEN conjunct2, THEN conjunct2,
        THEN conjunct2, THEN conjunct1])
  ultimately have "map rn_status (d_runs ?db') = [RS_interrupted]" "d_leases ?db' = []"
    by (simp_all add: demo_eval recovered_run_def interrupt_run_def)
  with rec show ?thesis by (intro exI [of _ ?db'] conjI)
qed

end
