(* ===== verification/Storage_Tools.thy ===== *)
theory Storage_Tools
  imports Storage_Core
begin

text \<open>
  \<open>storage/tool_invocations.py\<close> and \<open>storage/approvals.py\<close>: durable tool invocations,
  their attempts, and approval requests. \<open>dump\<close> is \<open>ToolResult.model_dump(mode="json")\<close>
  and \<open>load\<close> is \<open>ToolResult.model_validate\<close> on the decoded column (pydantic, parameters).
\<close>

section \<open>Tool invocations\<close>

definition invocation_of ::
  "redactor \<Rightarrow> (tool_result \<Rightarrow> pyval) \<Rightarrow> tool_invocation \<Rightarrow> invocation_row" where
  "invocation_of rd dump ti =
     \<lparr>ir_id = ti_id ti, ir_run_id = ti_run_id ti, ir_session_id = ti_session_id ti,
      ir_step = ti_step ti, ir_ordinal = ti_ordinal ti, ir_provider_call_id = ti_provider_call_id ti,
      ir_tool_name = ti_tool_name ti, ir_tool_version = ti_tool_version ti, ir_status = ti_status ti,
      ir_effect = ti_effect ti, ir_replay_policy = ti_replay_policy ti,
      ir_arguments = redact_dict rd (ti_arguments ti), ir_arguments_sha256 = ti_arguments_sha256 ti,
      ir_approval_id = ti_approval_id ti, ir_attempt_count = ti_attempt_count ti,
      ir_result = map_option (\<lambda>r. redact_obj rd (dump r)) (ti_result ti),
      ir_error_code = ti_error_code ti, ir_error_category = ti_error_category ti,
      ir_created_at = ti_created_at ti, ir_updated_at = ti_updated_at ti,
      ir_started_at = ti_started_at ti, ir_finished_at = ti_finished_at ti\<rparr>"

text \<open>The \<open>DO UPDATE SET\<close> clause.\<close>

definition merge_invocation :: "invocation_row \<Rightarrow> invocation_row \<Rightarrow> invocation_row" where
  "merge_invocation old new = old
     \<lparr>ir_status := ir_status new, ir_approval_id := ir_approval_id new,
      ir_attempt_count := ir_attempt_count new, ir_result := ir_result new,
      ir_error_code := ir_error_code new, ir_error_category := ir_error_category new,
      ir_updated_at := ir_updated_at new,
      ir_started_at := (case ir_started_at new of None \<Rightarrow> ir_started_at old | Some t \<Rightarrow> Some t),
      ir_finished_at := ir_finished_at new\<rparr>"

definition save_tool_invocation ::
  "redactor \<Rightarrow> (tool_result \<Rightarrow> pyval) \<Rightarrow> tool_invocation \<Rightarrow> db \<Rightarrow> py_error + db" where
  "save_tool_invocation rd dump ti db =
     (let new = invocation_of rd dump ti
      in if sql_has ir_id (ti_id ti) (d_invocations db) \<or>
            (has_run db (ti_run_id ti) \<and>
             \<not> sql_has (\<lambda>r. (ir_run_id r, ir_step r, ir_ordinal r)) (ti_run_id ti, ti_step ti, ti_ordinal ti)
                 (d_invocations db))
         then Inr (db\<lparr>d_invocations := sql_upsert ir_id merge_invocation new (d_invocations db)\<rparr>)
         else Inl IntegrityError)"

definition indeterminate_with :: "string \<Rightarrow> invocation_row \<Rightarrow> bool" where
  "indeterminate_with sha r \<longleftrightarrow> ir_status r = TI_indeterminate \<and> ir_arguments_sha256 r = sha"

definition set_resolution :: "invocation_row \<Rightarrow> invocation_row \<Rightarrow> invocation_row" where
  "set_resolution new old = old
     \<lparr>ir_status := ir_status new, ir_result := ir_result new, ir_error_code := ir_error_code new,
      ir_error_category := ir_error_category new, ir_approval_id := ir_approval_id new,
      ir_updated_at := ir_updated_at new, ir_finished_at := ir_finished_at new\<rparr>"

definition resolve_indeterminate_tool_invocation ::
  "redactor \<Rightarrow> (tool_result \<Rightarrow> pyval) \<Rightarrow> tool_invocation \<Rightarrow> string \<Rightarrow> db \<Rightarrow> db \<times> bool" where
  "resolve_indeterminate_tool_invocation rd dump ti sha db =
     (let (rows, won) = cas_update ir_id (indeterminate_with sha) (set_resolution (invocation_of rd dump ti))
                          (ti_id ti) (d_invocations db)
      in (db\<lparr>d_invocations := rows\<rparr>, won))"

definition tool_invocation_from_row ::
  "(pyval \<Rightarrow> py_error + tool_result) \<Rightarrow> invocation_row \<Rightarrow> py_error + tool_invocation" where
  "tool_invocation_from_row load r =
     err_bind (case ir_result r of None \<Rightarrow> Inr None | Some v \<Rightarrow> map_sum id Some (load v))
       (\<lambda>result. Inr
          \<lparr>ti_id = ir_id r, ti_run_id = ir_run_id r, ti_session_id = ir_session_id r,
           ti_step = ir_step r, ti_ordinal = ir_ordinal r, ti_provider_call_id = ir_provider_call_id r,
           ti_tool_name = ir_tool_name r, ti_tool_version = ir_tool_version r, ti_status = ir_status r,
           ti_effect = ir_effect r, ti_replay_policy = ir_replay_policy r, ti_arguments = ir_arguments r,
           ti_arguments_sha256 = ir_arguments_sha256 r, ti_approval_id = ir_approval_id r,
           ti_attempt_count = ir_attempt_count r, ti_result = result, ti_error_code = ir_error_code r,
           ti_error_category = ir_error_category r, ti_created_at = ir_created_at r,
           ti_updated_at = ir_updated_at r, ti_started_at = ir_started_at r,
           ti_finished_at = ir_finished_at r\<rparr>)"

definition get_tool_invocation ::
  "(pyval \<Rightarrow> py_error + tool_result) \<Rightarrow> string \<Rightarrow> db \<Rightarrow> py_error + tool_invocation option" where
  "get_tool_invocation load iid db =
     (case sql_find ir_id iid (d_invocations db) of
        None \<Rightarrow> Inr None
      | Some r \<Rightarrow> map_sum id Some (tool_invocation_from_row load r))"

fun err_map :: "('a \<Rightarrow> 'e + 'b) \<Rightarrow> 'a list \<Rightarrow> 'e + 'b list" where
  "err_map f [] = Inr []"
| "err_map f (x # xs) = err_bind (f x) (\<lambda>y. err_bind (err_map f xs) (\<lambda>ys. Inr (y # ys)))"

text \<open>\<open>ORDER BY step, ordinal\<close> as two stable sorts.\<close>

definition list_tool_invocations ::
  "(pyval \<Rightarrow> py_error + tool_result) \<Rightarrow> string \<Rightarrow> db \<Rightarrow> py_error + tool_invocation list" where
  "list_tool_invocations load rid db =
     err_map (tool_invocation_from_row load)
       (sort_key ir_step (sort_key ir_ordinal (filter (\<lambda>r. ir_run_id r = rid) (d_invocations db))))"

section \<open>Attempts\<close>

definition start_tool_attempt :: "time \<Rightarrow> string \<Rightarrow> string \<Rightarrow> nat \<Rightarrow> db \<Rightarrow> py_error + db" where
  "start_tool_attempt now attempt_id iid attempt db =
     (if sql_has at_id attempt_id (d_attempts db) \<or>
         sql_has (\<lambda>r. (at_invocation_id r, at_attempt r)) (iid, attempt) (d_attempts db) \<or>
         \<not> sql_has ir_id iid (d_invocations db)
      then Inl IntegrityError
      else Inr (db\<lparr>d_attempts := d_attempts db @
        [\<lparr>at_id = attempt_id, at_invocation_id = iid, at_attempt = attempt, at_status = AT_running,
          at_error_code = None, at_error_category = None, at_started_at = now,
          at_finished_at = None, at_duration_ms = None\<rparr>]\<rparr>))"

definition finish_tool_attempt ::
  "time \<Rightarrow> string \<Rightarrow> attempt_status \<Rightarrow> real \<Rightarrow> string option \<Rightarrow> string option \<Rightarrow> db \<Rightarrow> db" where
  "finish_tool_attempt now attempt_id status duration code category db =
     db\<lparr>d_attempts := sql_update (\<lambda>a. at_id a = attempt_id)
          (\<lambda>a. a\<lparr>at_status := status, at_error_code := code, at_error_category := category,
                 at_duration_ms := Some duration, at_finished_at := Some now\<rparr>) (d_attempts db)\<rparr>"

definition finish_running_tool_attempts ::
  "time \<Rightarrow> string \<Rightarrow> attempt_status \<Rightarrow> string \<Rightarrow> string \<Rightarrow> db \<Rightarrow> db \<times> nat" where
  "finish_running_tool_attempts now iid status code category db =
     (let p = (\<lambda>a. at_invocation_id a = iid \<and> at_status a = AT_running)
      in (db\<lparr>d_attempts := sql_update p
               (\<lambda>a. a\<lparr>at_status := status, at_error_code := Some code, at_error_category := Some category,
                      at_finished_at := Some now\<rparr>) (d_attempts db)\<rparr>,
          sql_count p (d_attempts db)))"

definition list_tool_attempts :: "string \<Rightarrow> db \<Rightarrow> attempt_row list" where
  "list_tool_attempts iid db = sort_key at_attempt (filter (\<lambda>a. at_invocation_id a = iid) (d_attempts db))"

section \<open>Approvals\<close>

text \<open>The approval dict of a caller; optional keys are options.\<close>

record approval_dict =
  ai_id :: string
  ai_run_id :: string
  ai_tool_call_id :: string
  ai_tool_name :: string
  ai_effect :: effect_kind
  ai_arguments_summary :: "utext option"
  ai_requires_confirmation :: "bool option"
  ai_decision :: "approval_decision option"
  ai_created_at :: "time option"
  ai_resolved_at :: "time option"
  ai_invocation_id :: "string option"
  ai_tool_version :: "string option"
  ai_arguments_sha256 :: "string option"
  ai_approval_scope :: "utext option"
  ai_status :: "approval_status option"

definition get_or :: "'a \<Rightarrow> 'a option \<Rightarrow> 'a" where
  "get_or d v = (case v of None \<Rightarrow> d | Some x \<Rightarrow> x)"

definition approval_of :: "redactor \<Rightarrow> time \<Rightarrow> approval_dict \<Rightarrow> approval_row" where
  "approval_of rd now a =
     \<lparr>ap_id = ai_id a, ap_run_id = ai_run_id a, ap_tool_call_id = ai_tool_call_id a,
      ap_tool_name = ai_tool_name a, ap_effect = ai_effect a,
      ap_arguments_summary = redact_text rd (get_or [] (ai_arguments_summary a)),
      ap_requires_confirmation = get_or False (ai_requires_confirmation a),
      ap_decision = ai_decision a, ap_created_at = get_or now (ai_created_at a),
      ap_resolved_at = ai_resolved_at a, ap_invocation_id = ai_invocation_id a,
      ap_tool_version = get_or ''1'' (ai_tool_version a),
      ap_arguments_sha256 = get_or [] (ai_arguments_sha256 a),
      ap_approval_scope = redact_text rd (get_or [] (ai_approval_scope a)),
      ap_status = get_or (if ai_decision a \<noteq> None then AS_resolved else AS_pending) (ai_status a)\<rparr>"

definition save_approval :: "redactor \<Rightarrow> time \<Rightarrow> approval_dict \<Rightarrow> db \<Rightarrow> py_error + db" where
  "save_approval rd now a db =
     (if \<not> has_run db (ai_run_id a) then Inl IntegrityError
      else Inr (db\<lparr>d_approvals := sql_replace ap_id (approval_of rd now a) (d_approvals db)\<rparr>))"

text \<open>The WHERE clause grows with the optional arguments.\<close>

definition resolvable :: "string option \<Rightarrow> string option \<Rightarrow> approval_row \<Rightarrow> bool" where
  "resolvable ti sha a \<longleftrightarrow>
     ap_status a = AS_pending \<and> ap_decision a = None \<and>
     (ti \<noteq> None \<longrightarrow> ap_invocation_id a = ti) \<and>
     (sha \<noteq> None \<longrightarrow> Some (ap_arguments_sha256 a) = sha)"

definition set_decision :: "time \<Rightarrow> approval_decision \<Rightarrow> approval_row \<Rightarrow> approval_row" where
  "set_decision now dec a = a\<lparr>ap_decision := Some dec, ap_status := AS_resolved, ap_resolved_at := Some now\<rparr>"

definition resolve_approval ::
  "time \<Rightarrow> string \<Rightarrow> approval_decision \<Rightarrow> string option \<Rightarrow> string option \<Rightarrow> db \<Rightarrow> db \<times> bool" where
  "resolve_approval now aid dec ti sha db =
     (let (rows, won) = cas_update ap_id (resolvable ti sha) (set_decision now dec) aid (d_approvals db)
      in (db\<lparr>d_approvals := rows\<rparr>, won))"

definition list_approvals :: "string \<Rightarrow> db \<Rightarrow> approval_row list" where
  "list_approvals rid db = sort_key ap_created_at (filter (\<lambda>a. ap_run_id a = rid) (d_approvals db))"

section \<open>Interfaces\<close>

interpretation invocations: keyed_table ir_id merge_invocation
  by unfold_locales (simp add: merge_invocation_def)

interpretation resolving: guarded_update ap_id "resolvable ti sha" "set_decision now dec" for ti sha now dec
  by unfold_locales (simp_all add: resolvable_def set_decision_def)

text \<open>A resolution leaves the indeterminate state when its status is another one.\<close>

lemma resolve_indeterminate_once:
  assumes "ir_status new \<noteq> TI_indeterminate"
  shows "guarded_update ir_id (indeterminate_with sha) (set_resolution new)"
  using assms by unfold_locales (simp_all add: indeterminate_with_def set_resolution_def)

section \<open>Store invariant\<close>

lemma save_tool_invocation_db_ok:
  assumes "save_tool_invocation rd dump ti db = Inr db'" and ok: "db_ok db"
  shows "db_ok db'"
proof -
  let ?new = "invocation_of rd dump ti"
  let ?k = "\<lambda>r. (ir_run_id r, ir_step r, ir_ordinal r)"
  have n: "ir_id ?new = ti_id ti" "ir_run_id ?new = ti_run_id ti" "?k ?new = (ti_run_id ti, ti_step ti, ti_ordinal ti)"
    by (simp_all add: invocation_of_def)
  show ?thesis
  proof (cases "sql_has ir_id (ti_id ti) (d_invocations db)")
    case True
    then have db': "db' = db\<lparr>d_invocations := sql_update (\<lambda>r. ir_id r = ti_id ti) (\<lambda>r. merge_invocation r ?new)
        (d_invocations db)\<rparr>"
      using assms(1) n by (simp add: save_tool_invocation_def sql_upsert_def split: if_splits)
    show ?thesis
      unfolding db' by (rule invocations_update_db_ok [OF ok]) (simp_all add: merge_invocation_def)
  next
    case False
    with assms(1) n have db': "db' = db\<lparr>d_invocations := d_invocations db @ [?new]\<rparr>"
      and r: "has_run db (ti_run_id ti)" and u: "\<not> sql_has ?k (ti_run_id ti, ti_step ti, ti_ordinal ti) (d_invocations db)"
      by (simp_all add: save_tool_invocation_def sql_upsert_def split: if_splits)
    have "ti_run_id ti \<in> rn_id ` set (d_runs db)" using r by (simp only: sql_has_image)
    moreover have "(ti_run_id ti, ti_step ti, ti_ordinal ti) \<notin> ?k ` set (d_invocations db)"
      using u by (simp only: sql_has_image not_False_eq_True)
    moreover have "ti_id ti \<notin> ir_id ` set (d_invocations db)" using False by (simp only: sql_has_image not_False_eq_True)
    ultimately show ?thesis
      unfolding db' using n(3) db_okD(8,19,20) [OF ok] db_ok_compound_keys(1) [OF ok]
      by (intro db_ok_set_invocations ok) (auto simp: n(1,2))
  qed
qed

lemma resolve_indeterminate_db_ok:
  "db_ok db \<Longrightarrow> db_ok (fst (resolve_indeterminate_tool_invocation rd dump ti sha db))"
  unfolding resolve_indeterminate_tool_invocation_def cas_update_def case_prod_unfold Let_def fst_conv
  by (rule invocations_update_db_ok) (simp_all add: set_resolution_def)

lemma save_approval_db_ok:
  assumes "save_approval rd now a db = Inr db'" and ok: "db_ok db"
  shows "db_ok db'"
proof -
  from assms(1) have db': "db' = db\<lparr>d_approvals := sql_replace ap_id (approval_of rd now a) (d_approvals db)\<rparr>"
    and r: "ai_run_id a \<in> rn_id ` set (d_runs db)"
    by (auto simp: save_approval_def sql_has_image split: if_splits)
  have "ap_run_id ` set (sql_replace ap_id (approval_of rd now a) (d_approvals db)) \<subseteq> rn_id ` set (d_runs db)"
    using r db_okD(14) [OF ok] by (auto simp: sql_replace_def sql_simps approval_of_def)
  then show ?thesis
    unfolding db' by (intro db_ok_set_approvals ok distinct_sql_replace db_okD(3) [OF ok]) simp_all
qed

lemma resolve_approval_db_ok: "db_ok db \<Longrightarrow> db_ok (fst (resolve_approval now aid dec ti sha db))"
  unfolding resolve_approval_def cas_update_def case_prod_unfold Let_def fst_conv
  by (rule approvals_update_db_ok) (simp_all add: set_decision_def)

lemma start_tool_attempt_db_ok:
  assumes "start_tool_attempt now aid iid n db = Inr db'" and ok: "db_ok db"
  shows "db_ok db'"
proof -
  let ?k = "\<lambda>r. (at_invocation_id r, at_attempt r)"
  let ?new = "\<lparr>at_id = aid, at_invocation_id = iid, at_attempt = n, at_status = AT_running,
          at_error_code = None, at_error_category = None, at_started_at = now,
          at_finished_at = None, at_duration_ms = None\<rparr>"
  from assms(1) have k: "aid \<notin> at_id ` set (d_attempts db)" "(iid, n) \<notin> ?k ` set (d_attempts db)"
    "iid \<in> ir_id ` set (d_invocations db)" and db': "db' = db\<lparr>d_attempts := d_attempts db @ [?new]\<rparr>"
    by (simp_all add: start_tool_attempt_def sql_has_image split: if_splits)
  have "distinct (map at_id (d_attempts db @ [?new]))" using k(1) db_okD(9) [OF ok] by simp
  moreover have "distinct (map ?k (d_attempts db @ [?new]))"
    using k(2) db_ok_compound_keys(2) [OF ok] by simp
  moreover have "at_invocation_id ` set (d_attempts db @ [?new]) \<subseteq> ir_id ` set (d_invocations db)"
    using k(3) db_okD(20) [OF ok] by simp
  ultimately show ?thesis unfolding db' by (intro db_ok_set_attempts ok)
qed

lemma finish_tool_attempt_db_ok: "db_ok db \<Longrightarrow> db_ok (finish_tool_attempt now aid st d c g db)"
  unfolding finish_tool_attempt_def by (rule attempts_update_db_ok) simp_all

lemma finish_running_db_ok: "db_ok db \<Longrightarrow> db_ok (fst (finish_running_tool_attempts now iid st c g db))"
  unfolding finish_running_tool_attempts_def Let_def fst_conv by (rule attempts_update_db_ok) simp_all

end
