(* ===== verification/Tool_Store.thy ===== *)
theory Tool_Store
  imports Lease_Recovery Storage_Tools
begin

text \<open>
  Approvals and tool invocations over arbitrary interleavings of the store operations that
  touch them: \<open>storage/approvals.py\<close>, \<open>storage/tool_invocations.py\<close> and the crash recovery
  of \<open>storage/leases.py\<close>.
\<close>

section \<open>Operations on approvals and invocations\<close>

datatype tool_op =
    TSave redactor "tool_result \<Rightarrow> pyval" tool_invocation
  | TResolve redactor "tool_result \<Rightarrow> pyval" tool_invocation string
  | TStart time string string nat
  | TFinish time string attempt_status real "string option" "string option"
  | TFinishRunning time string attempt_status string string
  | ASave redactor time approval_dict
  | AResolve time string approval_decision "string option" "string option"
  | ARecover redactor time "string \<Rightarrow> string"

definition keep_on_error :: "db \<Rightarrow> py_error + db \<Rightarrow> db" where
  "keep_on_error db r = (case r of Inl _ \<Rightarrow> db | Inr db' \<Rightarrow> db')"

fun tool_exec :: "tool_op \<Rightarrow> db \<Rightarrow> db" where
  "tool_exec (TSave rd dump t) db = keep_on_error db (save_tool_invocation rd dump t db)"
| "tool_exec (TResolve rd dump t sha) db = fst (resolve_indeterminate_tool_invocation rd dump t sha db)"
| "tool_exec (TStart now a i n) db = keep_on_error db (start_tool_attempt now a i n db)"
| "tool_exec (TFinish now a st d c g) db = finish_tool_attempt now a st d c g db"
| "tool_exec (TFinishRunning now i st c g) db = fst (finish_running_tool_attempts now i st c g db)"
| "tool_exec (ASave rd now a) db = keep_on_error db (save_approval rd now a db)"
| "tool_exec (AResolve now i d t sha) db = fst (resolve_approval now i d t sha db)"
| "tool_exec (ARecover rd now eid) db =
     keep_on_error db (map_sum id fst (recover_expired_run_leases rd now eid db))"

lemma keep_on_error_db_ok:
  "db_ok db \<Longrightarrow> (\<And>db'. r = Inr db' \<Longrightarrow> db_ok db') \<Longrightarrow> db_ok (keep_on_error db r)"
  by (simp add: keep_on_error_def split: sum.split)

lemma recover_fst_db_ok:
  "map_sum id fst (recover_expired_run_leases rd now eid db) = Inr db' \<Longrightarrow> db_ok db \<Longrightarrow> db_ok db'"
  by (cases "recover_expired_run_leases rd now eid db") (auto intro: recover_db_ok)

lemma tool_exec_db_ok: "db_ok db \<Longrightarrow> db_ok (tool_exec op db)"
  by (cases op)
    (auto intro!: keep_on_error_db_ok finish_tool_attempt_db_ok finish_running_db_ok
      resolve_indeterminate_db_ok resolve_approval_db_ok
      intro: save_tool_invocation_db_ok start_tool_attempt_db_ok save_approval_db_ok recover_fst_db_ok)

interpretation tool_system: invariant_system "\<lambda>db. db = empty_db" tool_exec db_ok
  by unfold_locales (simp_all add: db_ok_empty tool_exec_db_ok)

section \<open>Decisions are final\<close>

abbreviation approval_row_of :: "string \<Rightarrow> db \<Rightarrow> approval_row option" where
  "approval_row_of aid db \<equiv> sql_find ap_id aid (d_approvals db)"

definition decided :: "string \<Rightarrow> approval_decision \<Rightarrow> db \<Rightarrow> bool" where
  "decided aid dec db \<longleftrightarrow>
     (\<exists>a. approval_row_of aid db = Some a \<and> ap_decision a = Some dec \<and> ap_status a = AS_resolved)"

text \<open>Which operations leave an approval's row to others: all but saving it anew.\<close>

fun saves_approval :: "string \<Rightarrow> tool_op \<Rightarrow> bool" where
  "saves_approval aid (ASave rd now a) = (ai_id a = aid)"
| "saves_approval aid op = False"

lemma find_map_same:
  "(\<And>r. key (g r) = key r) \<Longrightarrow> sql_find key k (map g rows) = map_option g (sql_find key k rows)"
  by (induction rows) (auto simp: sql_find_def)

lemma recover_approvals:
  assumes "recover_expired_run_leases rd now eid db = Inr (db', ids)"
  shows "d_approvals db' = map (recovered_approval now (set ids)) (d_approvals db)"
    and "d_invocations db' = map (recovered_invocation now (set ids)) (d_invocations db)"
proof -
  from assms obtain d where l: "recover_loop rd now eid (expired_runs now db) db = Inr d"
    and db': "db' = d\<lparr>d_leases := sql_delete (\<lambda>l. lr_expires_at l \<le> now) (d_leases d)\<rparr>"
    and ids: "rn_id ` set (expired_runs now db) = set ids"
    by (auto simp: recover_expired_run_leases_def Let_def split: sum.splits)
  show "d_approvals db' = map (recovered_approval now (set ids)) (d_approvals db)"
    and "d_invocations db' = map (recovered_invocation now (set ids)) (d_invocations db)"
    using recover_loop_effect [OF l] unfolding ids by (simp_all add: db')
qed

lemma decided_keeps_row:
  assumes "decided aid dec db" and "approval_row_of aid db' = approval_row_of aid db"
  shows "decided aid dec db'"
  using assms by (simp add: decided_def)

lemma tool_exec_decided:
  assumes d: "decided aid dec db" and s: "\<not> saves_approval aid op"
  shows "decided aid dec (tool_exec op db)"
proof (cases op)
  case (AResolve now i dc t sha)
  have "approval_row_of aid (fst (resolve_approval now i dc t sha db)) =
      map_option (\<lambda>r. if aid = i \<and> resolvable t sha r then set_decision now dc r else r) (approval_row_of aid db)"
    by (simp add: resolve_approval_def case_prod_unfold Let_def resolving.find_cas)
  moreover obtain a where "approval_row_of aid db = Some a" "ap_decision a = Some dec" "ap_status a = AS_resolved"
    using d by (auto simp: decided_def)
  ultimately have "approval_row_of aid (fst (resolve_approval now i dc t sha db)) = Some a"
    "ap_decision a = Some dec" "ap_status a = AS_resolved"
    by (simp_all add: resolvable_def)
  with AResolve show ?thesis by (simp add: decided_def)
next
  case (ASave rd now a)
  have "approval_row_of aid db' = approval_row_of aid db" if "save_approval rd now a db = Inr db'" for db'
  proof -
    have "ap_id (approval_of rd now a) \<noteq> aid" using s ASave by (simp add: approval_of_def)
    then have "approval_row_of aid (db\<lparr>d_approvals := sql_replace ap_id (approval_of rd now a) (d_approvals db)\<rparr>) =
        approval_row_of aid db"
      by (auto simp: sql_replace_def sql_find_append sql_find_delete split: option.splits)
        (simp add: sql_find_def)
    with that show ?thesis by (auto simp add: save_approval_def split: if_splits)
  qed
  with d ASave show ?thesis
    by (auto simp: keep_on_error_def split: sum.split intro: decided_keeps_row)
next
  case (ARecover rd now eid)
  have "decided aid dec db'" if r: "recover_expired_run_leases rd now eid db = Inr (db', ids)" for db' ids
  proof -
    have k: "ap_id (recovered_approval now (set ids) a) = ap_id a" for a
      by (simp add: recovered_approval_def expire_approval_def)
    from d obtain a where a: "approval_row_of aid db = Some a" "ap_decision a = Some dec" "ap_status a = AS_resolved"
      by (auto simp: decided_def)
    have "recovered_approval now (set ids) a = a" using a by (simp add: recovered_approval_def)
    then show ?thesis
      using a find_map_same [of ap_id "recovered_approval now (set ids)", OF k]
      by (simp add: decided_def recover_approvals(1) [OF r])
  qed
  with d ARecover show ?thesis
    by (cases "recover_expired_run_leases rd now eid db") (auto simp: keep_on_error_def)
qed (use d in \<open>auto simp: keep_on_error_def save_tool_invocation_def start_tool_attempt_def Let_def
      resolve_indeterminate_tool_invocation_def finish_tool_attempt_def finish_running_tool_attempts_def
      case_prod_unfold decided_def split: sum.split\<close>)

lemma tool_run_decided:
  "decided aid dec db \<Longrightarrow> list_all (\<lambda>op. \<not> saves_approval aid op) ops \<Longrightarrow> decided aid dec (fold tool_exec ops db)"
  by (induction ops arbitrary: db) (simp_all add: tool_exec_decided)

text \<open>
  C17. First decision wins: once a resolution of a pending approval has succeeded, then
  after any sequence of resolutions (of any approval), tool bookkeeping and crash
  recoveries the approval still carries that decision, and every later attempt to resolve
  it fails.
\<close>

theorem approval_decided_once:
  assumes "db_ok db" and "resolve_approval t aid dec inv0 sha0 db = (db1, True)"
    and "list_all (\<lambda>op. \<not> saves_approval aid op) ops" and "db2 = fold tool_exec ops db1"
  shows "(\<exists>a. approval_row_of aid db2 = Some a \<and> ap_decision a = Some dec \<and> ap_status a = AS_resolved) \<and>
     \<not> snd (resolve_approval now aid dec' inv1 sha1 db2)"
proof -
  have d1: "d_approvals db1 = fst (cas_update ap_id (resolvable inv0 sha0) (set_decision t dec) aid (d_approvals db))"
    and won: "snd (cas_update ap_id (resolvable inv0 sha0) (set_decision t dec) aid (d_approvals db))"
    using assms(2) by (auto simp: resolve_approval_def case_prod_unfold Let_def)
  from won obtain r where r: "approval_row_of aid db = Some r" "resolvable inv0 sha0 r"
    using resolving.won_iff [OF db_okD(3) [OF assms(1)]] by blast
  then have "approval_row_of aid db1 = Some (set_decision t dec r)" by (simp add: d1 resolving.find_cas)
  then have "decided aid dec db1" by (simp add: decided_def set_decision_def)
  then have d2: "decided aid dec db2" unfolding assms(4) by (rule tool_run_decided [OF _ assms(3)])
  have ok1: "db_ok db1" using resolve_approval_db_ok [OF assms(1)] assms(2) by (metis fst_conv)
  have ok2: "db_ok db2" unfolding assms(4) by (rule tool_system.run_inv [OF ok1])
  have "\<not> snd (resolve_approval now aid dec' inv1 sha1 db2)"
    using d2 resolving.won_iff [OF db_okD(3) [OF ok2]]
    by (auto simp: resolve_approval_def case_prod_unfold Let_def decided_def resolvable_def)
  with d2 show ?thesis by (simp add: decided_def)
qed

definition demo_approval :: approval_row where
  "demo_approval =
     \<lparr>ap_id = ''ap'', ap_run_id = ''r'', ap_tool_call_id = ''c'', ap_tool_name = ''shell'',
      ap_effect = EK_process, ap_arguments_summary = [], ap_requires_confirmation = False,
      ap_decision = None, ap_created_at = 1, ap_resolved_at = None, ap_invocation_id = None,
      ap_tool_version = ''1'', ap_arguments_sha256 = [], ap_approval_scope = [], ap_status = AS_pending\<rparr>"

theorem approval_decided_once_witness:
  "\<not> snd (resolve_approval 9 ''ap'' AD_allow_run None None
      (fold tool_exec [AResolve 5 ''ap'' AD_allow_once None None]
         (demo_db\<lparr>d_approvals := [set_decision 2 AD_deny demo_approval]\<rparr>)))"
proof -
  let ?db = "demo_db\<lparr>d_approvals := [demo_approval]\<rparr>"
  have ok: "db_ok ?db"
    by (intro db_ok_set_approvals demo_db_ok) (simp_all add: demo_approval_def demo_eval)
  have r: "resolve_approval 2 ''ap'' AD_deny None None ?db =
      (demo_db\<lparr>d_approvals := [set_decision 2 AD_deny demo_approval]\<rparr>, True)"
    by (simp add: resolve_approval_def cas_update_def demo_approval_def resolvable_def sql_update_def sql_count_def)
  show ?thesis by (rule approval_decided_once [OF ok r _ refl, THEN conjunct2]) simp
qed

section \<open>What was decided about an invocation when it was first saved stays\<close>

abbreviation invocation_row_of :: "string \<Rightarrow> db \<Rightarrow> invocation_row option" where
  "invocation_row_of iid db \<equiv> sql_find ir_id iid (d_invocations db)"

text \<open>The columns that the upsert's SET clause leaves out.\<close>

definition same_identity :: "invocation_row \<Rightarrow> invocation_row \<Rightarrow> bool" where
  "same_identity r r' \<longleftrightarrow>
     ir_id r' = ir_id r \<and> ir_run_id r' = ir_run_id r \<and> ir_session_id r' = ir_session_id r \<and>
     ir_step r' = ir_step r \<and> ir_ordinal r' = ir_ordinal r \<and>
     ir_provider_call_id r' = ir_provider_call_id r \<and> ir_tool_name r' = ir_tool_name r \<and>
     ir_tool_version r' = ir_tool_version r \<and> ir_effect r' = ir_effect r \<and>
     ir_replay_policy r' = ir_replay_policy r \<and> ir_arguments r' = ir_arguments r \<and>
     ir_arguments_sha256 r' = ir_arguments_sha256 r \<and> ir_created_at r' = ir_created_at r"

lemma same_identity_refl: "same_identity r r"
  by (simp add: same_identity_def)

lemma same_identity_trans: "same_identity a b \<Longrightarrow> same_identity b c \<Longrightarrow> same_identity a c"
  by (simp add: same_identity_def)

lemma tool_exec_identity:
  assumes "invocation_row_of iid db = Some r"
  shows "\<exists>r'. invocation_row_of iid (tool_exec op db) = Some r' \<and> same_identity r r'"
proof (cases op)
  case (TSave rd dump t)
  have "\<exists>r'. invocation_row_of iid db' = Some r' \<and> same_identity r r'"
    if "save_tool_invocation rd dump t db = Inr db'" for db'
  proof -
    from that have "d_invocations db' = sql_upsert ir_id merge_invocation (invocation_of rd dump t) (d_invocations db)"
      by (auto simp: save_tool_invocation_def Let_def split: if_splits)
    moreover have "same_identity r (merge_invocation r (invocation_of rd dump t))"
      by (simp add: same_identity_def merge_invocation_def)
    ultimately show ?thesis
      using assms by (cases "iid = ir_id (invocation_of rd dump t)")
        (simp_all add: invocations.find_upsert same_identity_refl)
  qed
  with assms TSave show ?thesis by (auto simp: keep_on_error_def same_identity_refl split: sum.split)
next
  case (TResolve rd dump t sha)
  let ?p = "\<lambda>r. ir_id r = ti_id t \<and> indeterminate_with sha r" and ?f = "set_resolution (invocation_of rd dump t)"
  have "sql_find ir_id iid (sql_update ?p ?f (d_invocations db)) =
      map_option (\<lambda>r. if ?p r then ?f r else r) (sql_find ir_id iid (d_invocations db))"
    by (rule sql_find_update_same) (simp add: set_resolution_def)
  with assms TResolve show ?thesis
    by (simp add: resolve_indeterminate_tool_invocation_def cas_update_def same_identity_def set_resolution_def)
next
  case (ARecover rd now eid)
  have "\<exists>r'. invocation_row_of iid db' = Some r' \<and> same_identity r r'"
    if r: "recover_expired_run_leases rd now eid db = Inr (db', ids)" for db' ids
  proof -
    have k: "ir_id (recovered_invocation now (set ids) i) = ir_id i" for i
      by (simp add: recovered_invocation_def mark_invocation_lost_def)
    have "same_identity r (recovered_invocation now (set ids) r)"
      by (simp add: recovered_invocation_def mark_invocation_lost_def same_identity_def)
    then show ?thesis
      using assms find_map_same [of ir_id "recovered_invocation now (set ids)", OF k]
      by (simp add: recover_approvals(2) [OF r])
  qed
  with assms ARecover show ?thesis
    by (cases "recover_expired_run_leases rd now eid db") (auto simp: keep_on_error_def same_identity_refl)
qed (use assms in \<open>auto simp: keep_on_error_def start_tool_attempt_def Let_def save_approval_def
      finish_tool_attempt_def finish_running_tool_attempts_def resolve_approval_def
      case_prod_unfold same_identity_refl split: sum.split\<close>)

text \<open>
  C18. The identity of a stored invocation (run, step, ordinal, tool, arguments and their
  hash, effect and replay policy) never changes, whatever saves, resolutions, approvals
  and recoveries follow: crash recovery and replay decide on what was recorded first.
\<close>

theorem invocation_identity_frozen:
  assumes "invocation_row_of iid db = Some r"
  shows "\<exists>r'. invocation_row_of iid (fold tool_exec ops db) = Some r' \<and> same_identity r r'"
  using assms
proof (induction ops arbitrary: db r)
  case (Cons op ops)
  from tool_exec_identity [OF Cons.prems, of op] obtain r1 where
    r1: "invocation_row_of iid (tool_exec op db) = Some r1" "same_identity r r1" by blast
  from Cons.IH [OF r1(1)] r1(2) show ?case by (auto intro: same_identity_trans)
qed (simp add: same_identity_refl)

definition demo_invocation :: invocation_row where
  "demo_invocation =
     \<lparr>ir_id = ''i'', ir_run_id = ''r'', ir_session_id = ''s'', ir_step = 1, ir_ordinal = 0,
      ir_provider_call_id = ''c'', ir_tool_name = ''shell'', ir_tool_version = ''1'',
      ir_status = TI_running, ir_effect = EK_process, ir_replay_policy = RP_never, ir_arguments = [],
      ir_arguments_sha256 = ''h'', ir_approval_id = None, ir_attempt_count = 1, ir_result = None,
      ir_error_code = None, ir_error_category = None, ir_created_at = 1, ir_updated_at = 1,
      ir_started_at = Some 1, ir_finished_at = None\<rparr>"

theorem invocation_identity_frozen_witness:
  "\<exists>r'. invocation_row_of ''i'' (fold tool_exec [ARecover demo_redactor 99 (\<lambda>x. x)]
      (demo_db\<lparr>d_invocations := [demo_invocation]\<rparr>)) = Some r' \<and> same_identity demo_invocation r'"
proof (rule invocation_identity_frozen)
  show "invocation_row_of ''i'' (demo_db\<lparr>d_invocations := [demo_invocation]\<rparr>) = Some demo_invocation"
    by (simp add: sql_find_def demo_invocation_def)
qed

end
