(* ===== verification/Event_Log.thy ===== *)
theory Event_Log
  imports Storage_Events
begin

text \<open>
  What the event log of \<open>storage/events.py\<close> promises its readers: gapless numbering of
  every accepted batch, a watermark that never falls, and cursor paging that neither loses
  nor repeats an event however appends and page reads interleave.
\<close>

section \<open>Numbering\<close>

lemma append_rows_run_seq:
  assumes "append_rows rd evs db = Inr (db', outs)"
  shows "map ev_run_seq (filter (\<lambda>e. ev_run_id e = rid) outs) =
    [Suc (max_run_seq rid (d_events db))..<
     Suc (max_run_seq rid (d_events db)) + length (filter (\<lambda>e. ev_run_id e = rid) evs)]"
  using assms
proof (induction rd evs db arbitrary: db' outs rule: append_rows.induct)
  case (2 rd ev evs db)
  let ?out = "ev\<lparr>ev_global_seq := Suc (d_event_seq db),
      ev_run_seq := Suc (max_run_seq (ev_run_id ev) (d_events db)),
      ev_payload := redact_dict rd (ev_payload ev)\<rparr>"
  let ?db = "db\<lparr>d_events := d_events db @ [?out], d_event_seq := Suc (d_event_seq db)\<rparr>"
  from "2.prems" obtain outs' where
    no: "\<not> sql_has ev_event_id (ev_event_id ev) (d_events db)" and
    rest: "append_rows rd evs ?db = Inr (db', outs')" and outs: "outs = ?out # outs'"
    by (auto simp: Let_def split: if_splits sum.splits prod.splits)
  note IH = "2.IH" [OF no refl refl rest]
  show ?case
  proof (cases "ev_run_id ev = rid")
    case True
    let ?m = "max_run_seq rid (d_events db)"
    have "max_run_seq rid (d_events ?db) = Suc ?m" using True by (simp add: max_run_seq_append)
    with IH have "map ev_run_seq (filter (\<lambda>e. ev_run_id e = rid) outs') =
        [Suc (Suc ?m)..<Suc (Suc ?m) + length (filter (\<lambda>e. ev_run_id e = rid) evs)]" by simp
    moreover have "[Suc ?m..<Suc ?m + length (filter (\<lambda>e. ev_run_id e = rid) (ev # evs))] =
        Suc ?m # [Suc (Suc ?m)..<Suc (Suc ?m) + length (filter (\<lambda>e. ev_run_id e = rid) evs)]"
      using True by (subst upt_rec) (simp del: upt_Suc)
    ultimately show ?thesis using True outs by (simp del: upt_Suc)
  next
    case False
    then have "max_run_seq rid (d_events ?db) = max_run_seq rid (d_events db)"
      by (simp add: max_run_seq_append)
    with IH False outs show ?thesis by (simp del: upt_Suc)
  qed
qed simp

lemma append_events_rows:
  assumes "append_events rd evs db = Inr (db', outs)"
  obtains db1 where "append_rows rd evs db = Inr (db1, outs)"
  using assms by (auto simp: append_events_def append_unlocked_def split: sum.splits)

text \<open>
  C19. An accepted batch is appended as it is, in order, with consecutive global sequence
  numbers continuing the counter and, for every run, consecutive run sequence numbers
  continuing that run's last one; only the payloads change, by redaction; and the durable
  watermark afterwards covers every number in the log.
\<close>

theorem append_numbering:
  assumes "append_events rd evs db = Inr (db', outs)" and "db_ok db"
  shows "d_events db' = d_events db @ outs \<and>
     map ev_global_seq outs = [Suc (d_event_seq db)..<Suc (d_event_seq db + length evs)] \<and>
     map ev_run_seq (filter (\<lambda>e. ev_run_id e = rid) outs) =
       [Suc (max_run_seq rid (d_events db))..<
        Suc (max_run_seq rid (d_events db)) + length (filter (\<lambda>e. ev_run_id e = rid) evs)] \<and>
     map ev_payload outs = map (redact_dict rd \<circ> ev_payload) evs \<and>
     map ev_event_id outs = map ev_event_id evs \<and>
     max_event_seq db' \<le> global_seq_watermark db'"
proof -
  from append_events_rows [OF assms(1)] obtain db1 where a: "append_rows rd evs db = Inr (db1, outs)" .
  have app: "append_unlocked rd evs db = Inr (db', outs)" using assms(1) by (simp add: append_events_def)
  have "log_ok db'" using append_log_ok [OF app] assms(2) by (simp add: db_ok_def)
  then have "max_event_seq db' \<le> global_seq_watermark db'"
    by (fastforce simp: log_ok_def max_event_seq_def global_seq_watermark_def intro!: foldr_max_le)
  moreover have "d_events db' = d_events db @ outs" using append_keeps_tables [OF app] by auto
  ultimately show ?thesis
    using append_rows_effect [OF a] append_rows_run_seq [OF a, of rid] by blast
qed

definition demo_event :: "string \<Rightarrow> event_envelope" where
  "demo_event i =
     \<lparr>ev_schema_version = 1, ev_event_id = i, ev_global_seq = 0, ev_run_seq = 0, ev_session_id = ''s'',
      ev_root_run_id = ''r'', ev_run_id = ''r'', ev_parent_run_id = None, ev_span_id = None,
      ev_parent_span_id = None, ev_type = ET_run_started, ev_timestamp = 0, ev_payload = []\<rparr>"

theorem append_numbering_witness:
  "\<exists>db' outs. append_events demo_redactor [demo_event ''a'', demo_event ''b''] empty_db = Inr (db', outs) \<and>
     map ev_global_seq outs = [1, 2]"
proof -
  obtain db' outs where a: "append_events demo_redactor [demo_event ''a'', demo_event ''b''] empty_db = Inr (db', outs)"
    by (simp add: append_events_def append_unlocked_def sql_has_def empty_db_def demo_event_def Let_def)
  have "map ev_global_seq outs =
      [Suc (d_event_seq empty_db)..<Suc (d_event_seq empty_db + length [demo_event ''a'', demo_event ''b''])]"
    by (rule append_numbering [OF a db_ok_empty, THEN conjunct2, THEN conjunct1])
  also have "\<dots> = [1, 2]" by (simp add: empty_db_def upt_rec)
  finally show ?thesis using a by (intro exI conjI)
qed

section \<open>Cursor paging\<close>

text \<open>
  A reader keeps the events it has seen and the cursor, the global sequence number of the
  last one; one step is either an append by some writer or a page read by the reader.
\<close>

record reader =
  rd_seen :: "event_envelope list"
  rd_cursor :: nat

datatype log_op = LogAppend redactor "event_envelope list" | LogPage nat

definition read_page :: "nat \<Rightarrow> db \<Rightarrow> reader \<Rightarrow> reader" where
  "read_page limit db r =
     (let page = get_events None (rd_cursor r) limit db
      in r\<lparr>rd_seen := rd_seen r @ page,
           rd_cursor := (if page = [] then rd_cursor r else ev_global_seq (last page))\<rparr>)"

fun log_exec :: "log_op \<Rightarrow> db \<times> reader \<Rightarrow> db \<times> reader" where
  "log_exec (LogAppend rd evs) (db, r) =
     (case append_events rd evs db of Inl _ \<Rightarrow> (db, r) | Inr (db', _) \<Rightarrow> (db', r))"
| "log_exec (LogPage limit) (db, r) = (db, read_page limit db r)"

definition reader_ok :: "db \<times> reader \<Rightarrow> bool" where
  "reader_ok s \<longleftrightarrow>
     db_ok (fst s) \<and> rd_cursor (snd s) \<le> d_event_seq (fst s) \<and>
     rd_seen (snd s) = filter (\<lambda>e. ev_global_seq e \<le> rd_cursor (snd s)) (d_events (fst s))"

text \<open>Taking a prefix of a list sorted by its numbers.\<close>

lemma sorted_split_page:
  assumes "sorted_wrt (<) (map f xs)" and "take n (filter (\<lambda>x. c < f x) xs) = ys" and "ys \<noteq> []"
  shows "filter (\<lambda>x. f x \<le> (c::nat)) xs @ ys = filter (\<lambda>x. f x \<le> f (last ys)) xs"
  using assms
proof (induction xs arbitrary: n ys)
  case (Cons x xs)
  show ?case
  proof (cases "c < f x")
    case False
    with Cons.prems have t: "take n (filter (\<lambda>x. c < f x) xs) = ys" "sorted_wrt (<) (map f xs)" by auto
    from Cons.prems(3) have "last ys \<in> set (filter (\<lambda>x. c < f x) xs)"
      using t(1) by (metis in_set_takeD last_in_set)
    then have "f x \<le> f (last ys)" using False by auto
    with Cons.IH [OF t(2,1) Cons.prems(3)] False show ?thesis by simp
  next
    case True
    with Cons.prems(1) have all: "\<forall>y \<in> set xs. c < f y" "\<forall>y \<in> set xs. f x < f y"
      by (auto intro: less_trans)
    then have fx: "filter (\<lambda>x. c < f x) xs = xs" "filter (\<lambda>x. f x \<le> c) xs = []"
      by (auto simp: filter_empty_conv not_le)
    from True Cons.prems(2,3) fx obtain m where n: "n = Suc m" and ys: "ys = x # take m xs"
      by (cases n) auto
    show ?thesis
    proof (cases "take m xs = []")
      case True
      then have "\<not> f y \<le> f x" if "y \<in> set xs" for y using all that by (auto simp: not_le)
      then show ?thesis using True \<open>c < f x\<close> fx ys by (auto simp: filter_empty_conv)
    next
      case False
      have "take m (filter (\<lambda>x. c < f x) xs) = take m xs" by (simp add: fx)
      from Cons.IH [OF _ this False] Cons.prems(1) have
        "take m xs = filter (\<lambda>x. f x \<le> f (last (take m xs))) xs" by (simp add: fx)
      moreover have "f x \<le> f (last (take m xs))"
        using False all(2) by (metis in_set_takeD last_in_set less_imp_le)
      ultimately show ?thesis using False \<open>c < f x\<close> fx ys by auto
    qed
  qed
qed simp

lemma get_events_all: "get_events None c limit db = take limit (filter (\<lambda>e. c < ev_global_seq e) (d_events db))"
  by (simp add: get_events_def)

lemma log_sorted: "db_ok db \<Longrightarrow> sorted_wrt (<) (map ev_global_seq (d_events db))"
  by (simp add: db_ok_def log_ok_def)

lemma log_bound: "db_ok db \<Longrightarrow> e \<in> set (d_events db) \<Longrightarrow> ev_global_seq e \<le> d_event_seq db"
  by (simp add: db_ok_def log_ok_def)

lemma page_ok: "reader_ok (db, r) \<Longrightarrow> reader_ok (db, read_page limit db r)"
proof (cases "get_events None (rd_cursor r) limit db = []")
  case False
  assume ok: "reader_ok (db, r)"
  let ?p = "get_events None (rd_cursor r) limit db"
  from ok have d: "db_ok db" by (simp add: reader_ok_def)
  have "last ?p \<in> set (d_events db)"
    using False by (metis get_events_all filter_is_subset in_set_takeD last_in_set subsetD)
  then have "ev_global_seq (last ?p) \<le> d_event_seq db" by (rule log_bound [OF d])
  moreover have "rd_seen r @ ?p = filter (\<lambda>e. ev_global_seq e \<le> ev_global_seq (last ?p)) (d_events db)"
    using ok sorted_split_page [OF log_sorted [OF d] get_events_all [symmetric] False]
    by (simp add: reader_ok_def)
  ultimately show ?thesis using d False by (simp add: reader_ok_def read_page_def Let_def)
qed (simp add: reader_ok_def read_page_def)

lemma append_reader_ok:
  assumes "reader_ok (db, r)" and "append_events rd evs db = Inr (db', outs)"
  shows "reader_ok (db', r)"
proof -
  from append_events_rows [OF assms(2)] obtain db1 where a: "append_rows rd evs db = Inr (db1, outs)" .
  have app: "append_unlocked rd evs db = Inr (db', outs)" using assms(2) by (simp add: append_events_def)
  from append_keeps_tables [OF app] have e: "d_events db' = d_events db @ outs"
    "d_event_seq db' = d_event_seq db + length evs" by auto
  have c: "rd_cursor r \<le> d_event_seq db" and d: "db_ok db" using assms(1) by (simp_all add: reader_ok_def)
  have "\<forall>x \<in> set (map ev_global_seq outs). d_event_seq db < x"
    using append_rows_effect [OF a] by auto
  then have "filter (\<lambda>e. ev_global_seq e \<le> rd_cursor r) outs = []"
    using c by (auto simp: filter_empty_conv not_le)
  with assms(1) e c append_db_ok [OF app d] show ?thesis by (simp add: reader_ok_def)
qed

lemma log_exec_ok: "reader_ok s \<Longrightarrow> reader_ok (log_exec op s)"
  by (cases s; cases op) (auto simp: page_ok split: sum.splits intro: append_reader_ok)

interpretation log_reader: invariant_system "\<lambda>s. s = (empty_db, \<lparr>rd_seen = [], rd_cursor = 0\<rparr>)" log_exec reader_ok
proof unfold_locales
  fix s :: "db \<times> reader"
  assume "s = (empty_db, \<lparr>rd_seen = [], rd_cursor = 0\<rparr>)"
  moreover have "d_events empty_db = []" by (simp add: empty_db_def)
  ultimately show "reader_ok s" by (simp add: reader_ok_def db_ok_empty)
qed (rule log_exec_ok)

lemma seen_prefix:
  assumes "reader_ok (db, r)"
  shows "\<exists>rest. d_events db = rd_seen r @ rest \<and> get_events None (rd_cursor r) (length rest) db = rest"
proof -
  let ?low = "\<lambda>e. ev_global_seq e \<le> rd_cursor r"
  have s: "sorted_wrt (<) (map ev_global_seq (d_events db))" using assms by (simp add: reader_ok_def log_sorted)
  have "xs = filter ?low xs @ filter (\<lambda>e. rd_cursor r < ev_global_seq e) xs"
    if "sorted_wrt (<) (map ev_global_seq xs)" for xs
    using that
  proof (induction xs)
    case (Cons x xs)
    show ?case
    proof (cases "?low x")
      case False
      with Cons.prems have "\<forall>y \<in> set xs. \<not> ?low y" by (auto simp: not_le intro: less_trans)
      with False have "filter ?low (x # xs) = []" "filter (\<lambda>e. rd_cursor r < ev_global_seq e) (x # xs) = x # xs"
        by (auto simp: filter_empty_conv not_le intro!: filter_True)
      then show ?thesis by simp
    qed (use Cons in simp)
  qed simp
  from this [OF s] assms show ?thesis
    by (intro exI [of _ "filter (\<lambda>e. rd_cursor r < ev_global_seq e) (d_events db)"])
      (simp add: reader_ok_def get_events_all)
qed

text \<open>
  C20. Lossless resume: however appends and page reads of any size interleave, what a
  reader that always continues from the last sequence number has seen is, in order and
  without repetition, a prefix of the log; and a page read of a positive size that comes
  back empty means it has seen the whole log.
\<close>

theorem paging_lossless:
  assumes "(db, r) = fold log_exec ops (empty_db, \<lparr>rd_seen = [], rd_cursor = 0\<rparr>)"
  shows "(\<exists>rest. d_events db = rd_seen r @ rest) \<and> distinct (map ev_event_id (rd_seen r)) \<and>
     (0 < limit \<longrightarrow> get_events None (rd_cursor r) limit db = [] \<longrightarrow> rd_seen r = d_events db)"
proof -
  have ok: "reader_ok (db, r)" unfolding assms by (rule log_reader.reachable_inv) simp
  from seen_prefix [OF ok] obtain rest where rest: "d_events db = rd_seen r @ rest"
    "get_events None (rd_cursor r) (length rest) db = rest" by blast
  have "distinct (map ev_event_id (d_events db))" using ok by (simp add: reader_ok_def db_ok_def log_ok_def)
  then have "distinct (map ev_event_id (rd_seen r))" by (simp add: rest(1))
  moreover have "rest = []" if "0 < limit" "get_events None (rd_cursor r) limit db = []"
    using that rest(2) by (auto simp: get_events_all)
  ultimately show ?thesis using rest(1) by auto
qed

theorem paging_lossless_witness:
  "\<exists>db r. (db, r) = fold log_exec [LogAppend demo_redactor [demo_event ''a'', demo_event ''b''], LogPage 1, LogPage 5]
      (empty_db, \<lparr>rd_seen = [], rd_cursor = 0\<rparr>) \<and> distinct (map ev_event_id (rd_seen r))"
proof -
  let ?s = "fold log_exec [LogAppend demo_redactor [demo_event ''a'', demo_event ''b''], LogPage 1, LogPage 5]
      (empty_db, \<lparr>rd_seen = [], rd_cursor = 0\<rparr>)"
  have s: "(fst ?s, snd ?s) = ?s" by simp
  have "distinct (map ev_event_id (rd_seen (snd ?s)))"
    by (rule paging_lossless [OF s, THEN conjunct2, THEN conjunct1])
  with s show ?thesis by (intro exI conjI)
qed

end
