(* ===== verification/Storage_Internal.thy ===== *)
theory Storage_Internal
  imports Storage_Core
begin

text \<open>
  \<open>src/src/agentharness/storage/internal_operations.py\<close>: the durable idempotency table
  of Java-to-Python commands. A row moves accepted, executing, completed or failed; every
  move is a guarded UPDATE whose rowcount decides the winner. The result column keeps the
  decoded JSON of the result, so \<open>_record\<close> is the row itself.
\<close>

section \<open>Operations\<close>

definition get_operation :: "string \<Rightarrow> db \<Rightarrow> operation_row option" where
  "get_operation oid db = sql_find io_operation_id oid (d_operations db)"

definition new_operation :: "time \<Rightarrow> string \<Rightarrow> string \<Rightarrow> string \<Rightarrow> string \<Rightarrow> operation_row" where
  "new_operation now oid sha ty agg =
     \<lparr>io_operation_id = oid, io_payload_sha256 = sha, io_operation_type = ty, io_aggregate_id = agg,
      io_run_id = None, io_status = OS_accepted, io_result = None, io_error = None,
      io_created_at = now, io_updated_at = now\<rparr>"

definition accept_operation ::
  "time \<Rightarrow> string \<Rightarrow> string \<Rightarrow> string \<Rightarrow> string \<Rightarrow> db \<Rightarrow> py_error + db \<times> operation_row" where
  "accept_operation now oid sha ty agg db =
     (case sql_find io_operation_id oid (d_operations db) of
        Some row \<Rightarrow>
          if io_payload_sha256 row \<noteq> sha then Inl (ValueError (lit ''operation payload conflict''))
          else Inr (db, row)
      | None \<Rightarrow>
          let row = new_operation now oid sha ty agg
          in Inr (db\<lparr>d_operations := d_operations db @ [row]\<rparr>, row))"

definition op_in :: "op_status \<Rightarrow> operation_row \<Rightarrow> bool" where
  "op_in s r \<longleftrightarrow> io_status r = s"

definition set_executing :: "time \<Rightarrow> operation_row \<Rightarrow> operation_row" where
  "set_executing now r = r\<lparr>io_status := OS_executing, io_updated_at := now\<rparr>"

definition claim_operation :: "time \<Rightarrow> string \<Rightarrow> db \<Rightarrow> db \<times> operation_row option" where
  "claim_operation now oid db =
     (let (rows, won) = cas_update io_operation_id (op_in OS_accepted) (set_executing now) oid (d_operations db)
      in (db\<lparr>d_operations := rows\<rparr>, if won then sql_find io_operation_id oid rows else None))"

definition recover_abandoned_claims :: "time \<Rightarrow> db \<Rightarrow> db \<times> nat" where
  "recover_abandoned_claims now db =
     (db\<lparr>d_operations := sql_update (op_in OS_executing)
           (\<lambda>r. r\<lparr>io_status := OS_accepted, io_updated_at := now\<rparr>) (d_operations db)\<rparr>,
      sql_count (op_in OS_executing) (d_operations db))"

definition set_run_id :: "time \<Rightarrow> string \<Rightarrow> string \<Rightarrow> db \<Rightarrow> db" where
  "set_run_id now oid rid db =
     db\<lparr>d_operations := sql_update (\<lambda>r. io_operation_id r = oid)
          (\<lambda>r. r\<lparr>io_run_id := Some rid, io_updated_at := now\<rparr>) (d_operations db)\<rparr>"

definition set_completed :: "time \<Rightarrow> pydict \<Rightarrow> operation_row \<Rightarrow> operation_row" where
  "set_completed now result r =
     r\<lparr>io_status := OS_completed, io_result := Some (VDict result), io_error := None, io_updated_at := now\<rparr>"

definition complete_operation :: "time \<Rightarrow> string \<Rightarrow> pydict \<Rightarrow> db \<Rightarrow> db \<times> bool" where
  "complete_operation now oid result db =
     (let (rows, won) = cas_update io_operation_id (op_in OS_executing) (set_completed now result) oid
                          (d_operations db)
      in (db\<lparr>d_operations := rows\<rparr>, won))"

definition set_failed :: "time \<Rightarrow> utext \<Rightarrow> operation_row \<Rightarrow> operation_row" where
  "set_failed now err r =
     r\<lparr>io_status := OS_failed, io_error := Some (take 2000 err), io_updated_at := now\<rparr>"

definition fail_operation :: "time \<Rightarrow> string \<Rightarrow> utext \<Rightarrow> db \<Rightarrow> db \<times> bool" where
  "fail_operation now oid err db =
     (let (rows, won) = cas_update io_operation_id (op_in OS_executing) (set_failed now err) oid
                          (d_operations db)
      in (db\<lparr>d_operations := rows\<rparr>, won))"

definition failed_with :: "string \<Rightarrow> operation_row \<Rightarrow> bool" where
  "failed_with sha r \<longleftrightarrow> io_payload_sha256 r = sha \<and> io_status r = OS_failed"

definition set_reopened :: "time \<Rightarrow> operation_row \<Rightarrow> operation_row" where
  "set_reopened now r = r\<lparr>io_status := OS_accepted, io_error := None, io_updated_at := now\<rparr>"

definition reopen_failed :: "time \<Rightarrow> string \<Rightarrow> string \<Rightarrow> db \<Rightarrow> db \<times> bool" where
  "reopen_failed now oid sha db =
     (let (rows, won) = cas_update io_operation_id (failed_with sha) (set_reopened now) oid (d_operations db)
      in (db\<lparr>d_operations := rows\<rparr>, won))"

section \<open>The compare-and-set interface\<close>

interpretation claiming: guarded_update io_operation_id "op_in OS_accepted" "set_executing now" for now
  by unfold_locales (simp_all add: op_in_def set_executing_def)

interpretation completing: guarded_update io_operation_id "op_in OS_executing" "set_completed now result"
  for now result
  by unfold_locales (simp_all add: op_in_def set_completed_def)

interpretation failing: guarded_update io_operation_id "op_in OS_executing" "set_failed now err" for now err
  by unfold_locales (simp_all add: op_in_def set_failed_def)

interpretation reopening: guarded_update io_operation_id "failed_with sha" "set_reopened now" for sha now
  by unfold_locales (simp_all add: failed_with_def set_reopened_def)

section \<open>What each operation does to the row of one operation id\<close>

lemma get_accept:
  "accept_operation now oid sha ty agg db = Inr (db', row) \<Longrightarrow>
   get_operation k db' = (if k = oid then Some row else get_operation k db)"
  by (auto simp: accept_operation_def get_operation_def Let_def sql_find_append new_operation_def
      split: option.splits if_splits) (auto simp: sql_find_def)

lemma get_claim:
  "get_operation k (fst (claim_operation now oid db)) =
   map_option (\<lambda>r. if k = oid \<and> op_in OS_accepted r then set_executing now r else r) (get_operation k db)"
  by (simp add: claim_operation_def get_operation_def case_prod_unfold Let_def claiming.find_cas)

lemma get_recover:
  "get_operation k (fst (recover_abandoned_claims now db)) =
   map_option (\<lambda>r. if op_in OS_executing r then r\<lparr>io_status := OS_accepted, io_updated_at := now\<rparr> else r)
     (get_operation k db)"
  unfolding recover_abandoned_claims_def get_operation_def
  by (simp add: sql_find_update_same)

lemma get_set_run_id:
  "get_operation k (set_run_id now oid rid db) =
   map_option (\<lambda>r. if io_operation_id r = oid then r\<lparr>io_run_id := Some rid, io_updated_at := now\<rparr> else r)
     (get_operation k db)"
  unfolding set_run_id_def get_operation_def
  by (simp add: sql_find_update_same)

lemma get_complete:
  "get_operation k (fst (complete_operation now oid result db)) =
   map_option (\<lambda>r. if k = oid \<and> op_in OS_executing r then set_completed now result r else r)
     (get_operation k db)"
  by (simp add: complete_operation_def get_operation_def case_prod_unfold Let_def completing.find_cas)

lemma get_fail:
  "get_operation k (fst (fail_operation now oid err db)) =
   map_option (\<lambda>r. if k = oid \<and> op_in OS_executing r then set_failed now err r else r) (get_operation k db)"
  by (simp add: fail_operation_def get_operation_def case_prod_unfold Let_def failing.find_cas)

lemma get_reopen:
  "get_operation k (fst (reopen_failed now oid sha db)) =
   map_option (\<lambda>r. if k = oid \<and> failed_with sha r then set_reopened now r else r) (get_operation k db)"
  by (simp add: reopen_failed_def get_operation_def case_prod_unfold Let_def reopening.find_cas)

lemmas get_simps = get_claim get_recover get_set_run_id get_complete get_fail get_reopen

lemma claim_None_iff:
  "db_ok db \<Longrightarrow> snd (claim_operation now oid db) = None \<longleftrightarrow>
     \<not> (\<exists>r. get_operation oid db = Some r \<and> io_status r = OS_accepted)"
  using claiming.won_iff [OF db_okD(10), where now = now and k = oid and db1 = db]
    claiming.find_cas [where now = now and k = oid and k' = oid and rows = "d_operations db"]
  by (auto simp: claim_operation_def get_operation_def case_prod_unfold Let_def op_in_def)

lemma reopen_won_iff:
  "db_ok db \<Longrightarrow> snd (reopen_failed now oid sha db) \<longleftrightarrow>
     (\<exists>r. get_operation oid db = Some r \<and> io_payload_sha256 r = sha \<and> io_status r = OS_failed)"
  using reopening.won_iff [OF db_okD(10), where now = now and k = oid and db1 = db and sha = sha]
  by (simp add: reopen_failed_def get_operation_def case_prod_unfold Let_def failed_with_def)

section \<open>Sequences of commands\<close>

datatype io_op =
    IAccept time string string string string
  | IClaim time string
  | IRecover time
  | ISetRun time string string
  | IComplete time string pydict
  | IFail time string utext
  | IReopen time string string

text \<open>A command and the store after it; an exception rolls back.\<close>

fun io_exec :: "io_op \<Rightarrow> db \<Rightarrow> db" where
  "io_exec (IAccept now oid sha ty agg) db =
     (case accept_operation now oid sha ty agg db of Inl _ \<Rightarrow> db | Inr (db', _) \<Rightarrow> db')"
| "io_exec (IClaim now oid) db = fst (claim_operation now oid db)"
| "io_exec (IRecover now) db = fst (recover_abandoned_claims now db)"
| "io_exec (ISetRun now oid rid) db = set_run_id now oid rid db"
| "io_exec (IComplete now oid result) db = fst (complete_operation now oid result db)"
| "io_exec (IFail now oid err) db = fst (fail_operation now oid err db)"
| "io_exec (IReopen now oid sha) db = fst (reopen_failed now oid sha db)"

lemma operations_update_db_ok:
  assumes "db_ok db" and "\<And>r. p r \<Longrightarrow> io_operation_id (f r) = io_operation_id r"
  shows "db_ok (db\<lparr>d_operations := sql_update p f (d_operations db)\<rparr>)"
  using db_okD(10) [OF assms(1)] assms by (intro db_ok_set_operations) (simp_all add: map_sql_update)

lemma accept_db_ok:
  assumes "accept_operation now oid sha ty agg db = Inr (db', row)" and "db_ok db"
  shows "db_ok db'"
proof (cases "sql_find io_operation_id oid (d_operations db)")
  case None
  with assms(1) have db': "db' = db\<lparr>d_operations := d_operations db @ [new_operation now oid sha ty agg]\<rparr>"
    by (auto simp add: accept_operation_def Let_def)
  from None have "oid \<notin> io_operation_id ` set (d_operations db)" by (simp add: sql_find_None_iff)
  with db_okD(10) [OF assms(2)] show ?thesis
    unfolding db' by (intro db_ok_set_operations assms(2)) (simp add: new_operation_def)
next
  case (Some r)
  with assms show ?thesis by (auto simp: accept_operation_def split: if_splits)
qed

lemma io_exec_db_ok: "db_ok db \<Longrightarrow> db_ok (io_exec op db)"
proof (cases op)
  case (IAccept now oid sha ty agg)
  assume "db_ok db"
  with IAccept show ?thesis by (auto split: sum.splits intro: accept_db_ok)
qed (simp_all add: claim_operation_def recover_abandoned_claims_def set_run_id_def complete_operation_def
      fail_operation_def reopen_failed_def case_prod_unfold Let_def cas_update_def operations_update_db_ok
      op_in_def set_executing_def set_completed_def set_failed_def set_reopened_def)

interpretation io_system: invariant_system "\<lambda>db. db = empty_db" io_exec db_ok
  by unfold_locales (auto simp: db_ok_empty io_exec_db_ok)

text \<open>Claims of an operation that were won, and releases of it, along a sequence.\<close>

fun claims_won :: "string \<Rightarrow> io_op list \<Rightarrow> db \<Rightarrow> nat" where
  "claims_won oid [] db = 0"
| "claims_won oid (IClaim now oid' # ops) db =
     (if oid' = oid \<and> snd (claim_operation now oid' db) \<noteq> None then 1 else 0) +
     claims_won oid ops (io_exec (IClaim now oid') db)"
| "claims_won oid (op # ops) db = claims_won oid ops (io_exec op db)"

fun releases :: "string \<Rightarrow> io_op list \<Rightarrow> db \<Rightarrow> nat" where
  "releases oid [] db = 0"
| "releases oid (IRecover now # ops) db = 1 + releases oid ops (io_exec (IRecover now) db)"
| "releases oid (IReopen now oid' sha # ops) db =
     (if oid' = oid \<and> snd (reopen_failed now oid' sha db) then 1 else 0) +
     releases oid ops (io_exec (IReopen now oid' sha) db)"
| "releases oid (op # ops) db = releases oid ops (io_exec op db)"

definition claimable :: "string \<Rightarrow> db \<Rightarrow> bool" where
  "claimable oid db \<longleftrightarrow>
     (case get_operation oid db of None \<Rightarrow> True | Some r \<Rightarrow> io_status r = OS_accepted)"

text \<open>Only a release can make an operation claimable again, and a won claim ends it.\<close>

lemma claimable_claim:
  "db_ok db \<Longrightarrow> claimable oid (fst (claim_operation now oid' db)) \<longleftrightarrow>
     claimable oid db \<and> \<not> (oid' = oid \<and> snd (claim_operation now oid' db) \<noteq> None)"
  by (auto simp: claimable_def get_claim claim_None_iff op_in_def set_executing_def split: option.splits)

lemma claimable_reopen:
  "db_ok db \<Longrightarrow> claimable oid (fst (reopen_failed now oid' sha db)) \<Longrightarrow>
     claimable oid db \<or> (oid' = oid \<and> snd (reopen_failed now oid' sha db))"
  by (auto simp: claimable_def get_reopen reopen_won_iff failed_with_def set_reopened_def split: option.splits if_splits)

lemma claimable_other:
  assumes "claimable oid (io_exec op db)"
    and "\<nexists>now. op = IRecover now" and "\<nexists>now k sha. op = IReopen now k sha" and "\<nexists>now k. op = IClaim now k"
  shows "claimable oid db"
proof (cases op)
  case (IAccept now k sha ty agg)
  show ?thesis
  proof (cases "accept_operation now k sha ty agg db")
    case (Inr p)
    obtain db' row where p: "p = (db', row)" by (cases p)
    with Inr IAccept assms(1) get_accept [of now k sha ty agg db db' row oid] show ?thesis
      by (auto simp: claimable_def get_operation_def accept_operation_def split: option.splits if_splits)
  qed (use IAccept assms in simp)
qed (use assms in \<open>auto simp: claimable_def get_simps op_in_def set_completed_def set_failed_def
      split: option.splits if_splits\<close>)

lemma claims_bound:
  "db_ok db \<Longrightarrow> claims_won oid ops db \<le> (if claimable oid db then 1 else 0) + releases oid ops db"
proof (induction ops arbitrary: db)
  case (Cons op ops)
  have IH: "claims_won oid ops (io_exec op db) \<le>
      (if claimable oid (io_exec op db) then 1 else 0) + releases oid ops (io_exec op db)"
    by (rule Cons.IH [OF io_exec_db_ok [OF Cons.prems]])
  show ?case
  proof (cases op)
    case (IClaim now oid')
    have "claimable oid db" if "oid' = oid" "snd (claim_operation now oid' db) \<noteq> None"
      using that by (auto simp: claim_None_iff [OF Cons.prems] claimable_def)
    with IH IClaim claimable_claim [OF Cons.prems, of oid now oid'] show ?thesis by (auto split: if_splits)
  next
    case (IReopen now oid' sha)
    with IH claimable_reopen [OF Cons.prems, of oid now oid' sha] show ?thesis by (auto split: if_splits)
  next
    case (IRecover now)
    with IH show ?thesis by (auto split: if_splits)
  qed (use IH claimable_other [of oid op db] in \<open>auto split: if_splits\<close>)
qed simp

text \<open>
  C6. At-most-once dispatch: for any sequence of accepts, claims, completions, failures,
  recoveries and reopenings of any operations in any order, the number of claims of one
  operation that win is at most one more than the number of times it was released (a
  start-up recovery sweep or a successful reopen of a failure). Concurrent replays of one
  command never execute it twice.
\<close>

theorem claims_at_most_once:
  assumes "db_ok db"
  shows "claims_won oid ops db \<le> 1 + releases oid ops db"
  using claims_bound [OF assms, of oid ops] by (simp split: if_splits)

theorem claims_at_most_once_witness:
  "claims_won ''o'' [IAccept 1 ''o'' ''h'' ''t'' ''a'', IClaim 2 ''o'', IClaim 3 ''o''] empty_db \<le>
   1 + releases ''o'' [IAccept 1 ''o'' ''h'' ''t'' ''a'', IClaim 2 ''o'', IClaim 3 ''o''] empty_db"
  by (rule claims_at_most_once [OF db_ok_empty])

text \<open>A completed operation is final.\<close>

lemma io_exec_completed:
  assumes "get_operation oid db = Some r" and "io_status r = OS_completed"
  shows "\<exists>r'. get_operation oid (io_exec op db) = Some r' \<and> io_status r' = OS_completed \<and>
     io_result r' = io_result r \<and> io_payload_sha256 r' = io_payload_sha256 r"
proof (cases op)
  case (IAccept now k sha ty agg)
  show ?thesis
  proof (cases "accept_operation now k sha ty agg db")
    case (Inr p)
    obtain db' row where p: "p = (db', row)" by (cases p)
    show ?thesis
    proof (cases "k = oid")
      case True
      with Inr IAccept p assms show ?thesis
        by (auto simp: get_operation_def accept_operation_def split: if_splits)
    next
      case False
      with Inr IAccept p assms get_accept [of now k sha ty agg db db' row oid] show ?thesis by simp
    qed
  qed (use IAccept assms in simp)
qed (use assms in \<open>auto simp: get_simps op_in_def failed_with_def\<close>)

lemma io_run_completed:
  assumes "get_operation oid db = Some r" and "io_status r = OS_completed"
  shows "\<exists>r'. get_operation oid (fold io_exec ops db) = Some r' \<and> io_status r' = OS_completed \<and>
     io_result r' = io_result r \<and> io_payload_sha256 r' = io_payload_sha256 r"
  using assms
proof (induction ops arbitrary: db r)
  case (Cons op ops)
  from io_exec_completed [OF Cons.prems, of op] obtain r' where
    r': "get_operation oid (io_exec op db) = Some r'" "io_status r' = OS_completed"
      "io_result r' = io_result r" "io_payload_sha256 r' = io_payload_sha256 r" by blast
  from Cons.IH [OF r'(1,2)] r'(3,4) show ?case by simp
qed simp

text \<open>
  C7. Idempotent replay: once an operation has completed with a result, then after any
  further commands a replay with the same payload is answered with that very result and
  changes nothing, a replay with another payload is rejected, and no claim of the
  operation ever wins again.
\<close>

theorem completed_replay:
  assumes "db_ok db" and "complete_operation t oid result db = (db1, True)"
    and "get_operation oid db = Some r0" and "db2 = fold io_exec ops db1"
  shows "(\<exists>row. accept_operation now oid (io_payload_sha256 r0) ty agg db2 = Inr (db2, row) \<and>
            io_status row = OS_completed \<and> io_result row = Some (VDict result)) \<and>
         (sha \<noteq> io_payload_sha256 r0 \<longrightarrow>
            accept_operation now oid sha ty agg db2 = Inl (ValueError (lit ''operation payload conflict''))) \<and>
         snd (claim_operation now oid db2) = None"
proof -
  have d1: "db1 = fst (complete_operation t oid result db)" using assms(2) by simp
  have "op_in OS_executing r0"
    using assms(2,3) completing.won_iff [OF db_okD(10) [OF assms(1)], where now = t and result = result and k = oid]
    by (auto simp: complete_operation_def get_operation_def case_prod_unfold Let_def)
  then have g1: "get_operation oid db1 = Some (set_completed t result r0)"
    using assms(3) by (simp add: d1 get_complete)
  then obtain r where r: "get_operation oid db2 = Some r" "io_status r = OS_completed"
    "io_result r = Some (VDict result)" "io_payload_sha256 r = io_payload_sha256 r0"
    using io_run_completed [OF g1, of ops] assms(4) by (auto simp: set_completed_def)
  have "db_ok db1" using io_exec_db_ok [OF assms(1), of "IComplete t oid result"] by (simp add: d1)
  then have "db_ok db2" by (simp add: assms(4) io_system.run_inv)
  with r show ?thesis
    using claim_None_iff [of db2 now oid] by (auto simp: accept_operation_def get_operation_def)
qed

definition demo_operation :: operation_row where
  "demo_operation = set_executing 1 (new_operation 0 ''o'' ''h'' ''t'' ''a'')"

theorem completed_replay_witness:
  "snd (claim_operation 9 ''o'' (fold io_exec [IRecover 8, IReopen 8 ''o'' ''h'']
      (empty_db\<lparr>d_operations := [set_completed 2 [] demo_operation]\<rparr>))) = None"
proof -
  let ?db = "empty_db\<lparr>d_operations := [demo_operation]\<rparr>"
  have ok: "db_ok ?db" by (intro db_ok_set_operations db_ok_empty) simp
  have c: "complete_operation 2 ''o'' [] ?db = (empty_db\<lparr>d_operations := [set_completed 2 [] demo_operation]\<rparr>, True)"
    by (simp add: complete_operation_def cas_update_def demo_operation_def new_operation_def op_in_def
        set_executing_def sql_update_def sql_count_def)
  have g: "get_operation ''o'' ?db = Some demo_operation"
    by (simp add: get_operation_def sql_find_def demo_operation_def set_executing_def new_operation_def)
  show ?thesis by (rule completed_replay [OF ok c g refl, THEN conjunct2, THEN conjunct2])
qed

end
