(* ===== verification/Py_Text.thy ===== *)
theory Py_Text
  imports Prelude
begin

text \<open>
  The string operations of Python that the modelled code calls: whitespace handling,
  decimal rendering, joining, and UTF-8 encoding with both decoders
  (\<open>errors="strict"\<close> and \<open>errors="ignore"\<close>).
\<close>

section \<open>Whitespace\<close>

text \<open>\<open>str.isspace\<close>, which is also what \<open>\s\<close> matches in a \<open>str\<close> pattern.\<close>

definition is_space :: "nat \<Rightarrow> bool" where
  "is_space c \<longleftrightarrow>
     (9 \<le> c \<and> c \<le> 13) \<or> (28 \<le> c \<and> c \<le> 32) \<or> c = 133 \<or> c = 160 \<or> c = 5760 \<or>
     (8192 \<le> c \<and> c \<le> 8202) \<or> c = 8232 \<or> c = 8233 \<or> c = 8239 \<or> c = 8287 \<or> c = 12288"

definition lstrip :: "utext \<Rightarrow> utext" where
  "lstrip t = dropWhile is_space t"

definition rstrip :: "utext \<Rightarrow> utext" where
  "rstrip t = rev (dropWhile is_space (rev t))"

definition strip :: "utext \<Rightarrow> utext" where
  "strip t = rstrip (lstrip t)"

text \<open>\<open>re.sub(r"\s+", " ", t)\<close>.\<close>

fun squeeze :: "bool \<Rightarrow> utext \<Rightarrow> utext" where
  "squeeze in_run [] = []"
| "squeeze in_run (c # cs) =
     (if is_space c then (if in_run then squeeze True cs else 32 # squeeze True cs)
      else c # squeeze False cs)"

fun join :: "utext \<Rightarrow> utext list \<Rightarrow> utext" where
  "join sep [] = []"
| "join sep [t] = t"
| "join sep (t # u # ts) = t @ sep @ join sep (u # ts)"

text \<open>Text with no whitespace but single blanks between words.\<close>

definition collapsed :: "utext \<Rightarrow> bool" where
  "collapsed t \<longleftrightarrow>
     (\<forall>c \<in> set t. is_space c \<longrightarrow> c = 32) \<and>
     (\<forall>i. Suc i < length t \<longrightarrow> \<not> (is_space (t ! i) \<and> is_space (t ! Suc i))) \<and>
     (t \<noteq> [] \<longrightarrow> \<not> is_space (hd t) \<and> \<not> is_space (last t))"

lemma space_32: "is_space 32"
  by (simp add: is_space_def)

lemma strip_idem: "strip (strip t) = strip t"
proof -
  have d: "dropWhile is_space (dropWhile is_space xs) = dropWhile is_space xs" for xs
    by (induction xs) auto
  let ?u = "dropWhile is_space t"
  have "dropWhile is_space (rev (dropWhile is_space (rev ?u))) = rev (dropWhile is_space (rev ?u))"
  proof (cases "rev (dropWhile is_space (rev ?u))")
    case (Cons c cs)
    then have "dropWhile is_space (rev ?u) = rev cs @ [c]" by (simp add: rev_swap)
    moreover obtain pre where "rev ?u = pre @ dropWhile is_space (rev ?u)"
      by (metis takeWhile_dropWhile_id)
    ultimately have "?u = c # cs @ rev pre" by (metis append.assoc append_Cons append_Nil rev.simps(2) rev_append rev_rev_ident)
    then have "\<not> is_space c" by (metis hd_dropWhile list.distinct(1) list.sel(1))
    with Cons show ?thesis by simp
  qed (simp only: dropWhile.simps)
  then show ?thesis by (simp add: strip_def lstrip_def rstrip_def d)
qed

section \<open>Decimal rendering\<close>

fun str_nat :: "nat \<Rightarrow> utext" where
  "str_nat n = (if n < 10 then [48 + n] else str_nat (n div 10) @ [48 + n mod 10])"

declare str_nat.simps [simp del]

definition str_int :: "int \<Rightarrow> utext" where
  "str_int i = (if i < 0 then 45 # str_nat (nat (- i)) else str_nat (nat i))"

lemma str_nat_nonempty [simp]: "str_nat n \<noteq> []"
  by (subst str_nat.simps) simp

lemma str_nat_digits: "c \<in> set (str_nat n) \<Longrightarrow> 48 \<le> c \<and> c \<le> 57"
proof (induction n rule: str_nat.induct)
  case (1 n)
  show ?case
  proof (cases "n < 10")
    case True
    with 1 show ?thesis by (simp add: str_nat.simps)
  next
    case False
    have "c \<in> set (str_nat (n div 10)) \<or> c = 48 + n mod 10"
      using "1.prems" False by (auto simp add: str_nat.simps [of n])
    moreover have "n mod 10 < 10" by simp
    ultimately show ?thesis using "1.IH" [OF False] by linarith
  qed
qed

section \<open>UTF-8\<close>

text \<open>Code points a Python \<open>str\<close> can encode: scalar values, no surrogates.\<close>

definition scalar :: "nat \<Rightarrow> bool" where
  "scalar c \<longleftrightarrow> c < 55296 \<or> (57344 \<le> c \<and> c < 1114112)"

definition utf8_char :: "nat \<Rightarrow> nat list" where
  "utf8_char c =
     (if c < 128 then [c]
      else if c < 2048 then [192 + c div 64, 128 + c mod 64]
      else if c < 65536 then [224 + c div 4096, 128 + c div 64 mod 64, 128 + c mod 64]
      else [240 + c div 262144, 128 + c div 4096 mod 64, 128 + c div 64 mod 64, 128 + c mod 64])"

definition utf8_encode :: "utext \<Rightarrow> nat list" where
  "utf8_encode t = concat (map utf8_char t)"

definition cont :: "nat \<Rightarrow> bool" where
  "cont b \<longleftrightarrow> 128 \<le> b \<and> b < 192"

text \<open>
  The decoder reads one sequence: the admissible second bytes after a lead byte and the
  number of continuation bytes in all; \<open>(0, [])\<close> for a byte that starts no sequence.
\<close>

definition seq_len :: "nat \<Rightarrow> nat" where
  "seq_len b = (if b < 128 then 1 else if 194 \<le> b \<and> b < 224 then 2
     else if 224 \<le> b \<and> b < 240 then 3 else if 240 \<le> b \<and> b < 245 then 4 else 0)"

definition second_ok :: "nat \<Rightarrow> nat \<Rightarrow> bool" where
  "second_ok b b2 \<longleftrightarrow>
     cont b2 \<and> (b = 224 \<longrightarrow> 160 \<le> b2) \<and> (b = 237 \<longrightarrow> b2 < 160) \<and>
     (b = 240 \<longrightarrow> 144 \<le> b2) \<and> (b = 244 \<longrightarrow> b2 < 144)"

text \<open>
  \<open>Inl n\<close>: no character here, skip \<open>n\<close> bytes (the maximal prefix of a well-formed
  sequence); \<open>Inr (c, n)\<close>: the character \<open>c\<close> in \<open>n\<close> bytes.
\<close>

definition decode_one :: "nat \<Rightarrow> nat list \<Rightarrow> nat + nat \<times> nat" where
  "decode_one b rest =
     (case seq_len b of
        0 \<Rightarrow> Inl 1
      | Suc 0 \<Rightarrow> Inr (b, 1)
      | Suc (Suc 0) \<Rightarrow>
          (case rest of
             b2 # _ \<Rightarrow> if second_ok b b2 then Inr ((b - 192) * 64 + (b2 - 128), 2) else Inl 1
           | [] \<Rightarrow> Inl 1)
      | Suc (Suc (Suc 0)) \<Rightarrow>
          (case rest of
             b2 # r2 \<Rightarrow>
               if \<not> second_ok b b2 then Inl 1
               else (case r2 of
                       b3 # _ \<Rightarrow> if cont b3
                         then Inr ((b - 224) * 4096 + (b2 - 128) * 64 + (b3 - 128), 3) else Inl 2
                     | [] \<Rightarrow> Inl 2)
           | [] \<Rightarrow> Inl 1)
      | _ \<Rightarrow>
          (case rest of
             b2 # r2 \<Rightarrow>
               if \<not> second_ok b b2 then Inl 1
               else (case r2 of
                       b3 # r3 \<Rightarrow>
                         if \<not> cont b3 then Inl 2
                         else (case r3 of
                                 b4 # _ \<Rightarrow> if cont b4
                                   then Inr ((b - 240) * 262144 + (b2 - 128) * 4096 +
                                             (b3 - 128) * 64 + (b4 - 128), 4) else Inl 3
                               | [] \<Rightarrow> Inl 3)
                     | [] \<Rightarrow> Inl 2)
           | [] \<Rightarrow> Inl 1))"

text \<open>\<open>bytes.decode("utf-8", errors="ignore")\<close>.\<close>

function (sequential) utf8_decode_ignore :: "nat list \<Rightarrow> utext" where
  "utf8_decode_ignore [] = []"
| "utf8_decode_ignore (b # rest) =
     (case decode_one b rest of
        Inl n \<Rightarrow> utf8_decode_ignore (drop (n - 1) rest)
      | Inr (c, n) \<Rightarrow> c # utf8_decode_ignore (drop (n - 1) rest))"
  by pat_completeness auto
termination by (relation "measure length") auto

text \<open>\<open>bytes.decode("utf-8", errors="replace")\<close>: one U+FFFD per skipped sequence.\<close>

function (sequential) utf8_decode_replace :: "nat list \<Rightarrow> utext" where
  "utf8_decode_replace [] = []"
| "utf8_decode_replace (b # rest) =
     (case decode_one b rest of
        Inl n \<Rightarrow> 65533 # utf8_decode_replace (drop (n - 1) rest)
      | Inr (c, n) \<Rightarrow> c # utf8_decode_replace (drop (n - 1) rest))"
  by pat_completeness auto
termination by (relation "measure length") auto

text \<open>\<open>bytes.decode("utf-8")\<close>: \<open>None\<close> is \<open>UnicodeDecodeError\<close>.\<close>

function (sequential) utf8_decode :: "nat list \<Rightarrow> utext option" where
  "utf8_decode [] = Some []"
| "utf8_decode (b # rest) =
     (case decode_one b rest of
        Inl n \<Rightarrow> None
      | Inr (c, n) \<Rightarrow> map_option ((#) c) (utf8_decode (drop (n - 1) rest)))"
  by pat_completeness auto
termination by (relation "measure length") auto

lemma utf8_encode_simps [simp]:
  "utf8_encode [] = []" "utf8_encode (c # t) = utf8_char c @ utf8_encode t"
  "utf8_encode (t @ u) = utf8_encode t @ utf8_encode u"
  by (simp_all add: utf8_encode_def)

lemma utf8_char_nonempty [simp]: "utf8_char c \<noteq> []"
  by (simp add: utf8_char_def)

lemma utf8_char_length: "1 \<le> length (utf8_char c) \<and> length (utf8_char c) \<le> 4"
  by (simp add: utf8_char_def)

text \<open>The digits of a code point in base 64.\<close>

lemma base64_digits:
  fixes c :: nat
  obtains x y z where "c = 64 * x + c mod 64" "x = 64 * y + x mod 64" "y = 64 * z + y mod 64"
    "c div 64 = x" "c div 4096 = y" "c div 262144 = z" "c div 64 mod 64 = x mod 64" "c div 4096 mod 64 = y mod 64"
    "c mod 64 < 64" "x mod 64 < 64" "y mod 64 < 64"
proof (rule that [of "c div 64" "c div 4096" "c div 262144"])
  have "c div 4096 = c div 64 div 64" by (simp flip: div_mult2_eq)
  then show "c div 64 = 64 * (c div 4096) + c div 64 mod 64" by simp
  have "c div 262144 = c div 4096 div 64" by (simp flip: div_mult2_eq)
  then show "c div 4096 = 64 * (c div 262144) + c div 4096 mod 64" by simp
qed simp_all

lemma decode_one_char:
  assumes "scalar c"
  shows "decode_one (hd (utf8_char c)) (tl (utf8_char c) @ rest) = Inr (c, length (utf8_char c))"
proof -
  obtain x y z where d: "c = 64 * x + c mod 64" "x = 64 * y + x mod 64" "y = 64 * z + y mod 64"
    "c div 64 = x" "c div 4096 = y" "c div 262144 = z" "c div 64 mod 64 = x mod 64" "c div 4096 mod 64 = y mod 64"
    "c mod 64 < 64" "x mod 64 < 64" "y mod 64 < 64"
    by (rule base64_digits)
  consider "c < 128" | "128 \<le> c" "c < 2048" | "2048 \<le> c" "c < 65536" | "65536 \<le> c" "c < 1114112"
    using assms by (force simp: scalar_def)
  then show ?thesis
  proof cases
    case 1
    then show ?thesis by (simp add: utf8_char_def decode_one_def seq_len_def)
  next
    case 2
    then have u: "utf8_char c = [192 + x, 128 + c mod 64]" using d by (simp add: utf8_char_def)
    have "seq_len (192 + x) = 2" using 2 d by (simp add: seq_len_def)
    moreover have "second_ok (192 + x) (128 + c mod 64)" using 2 d by (simp add: second_ok_def cont_def)
    ultimately show ?thesis using d(1) by (simp add: u decode_one_def numeral_2_eq_2)
  next
    case 3
    then have u: "utf8_char c = [224 + y, 128 + x mod 64, 128 + c mod 64]" using d by (simp add: utf8_char_def)
    have "seq_len (224 + y) = Suc (Suc (Suc 0))" using 3 d by (simp add: seq_len_def)
    moreover have "second_ok (224 + y) (128 + x mod 64)"
      using 3 d assms by (auto simp add: second_ok_def cont_def scalar_def)
    moreover have "cont (128 + c mod 64)" using d by (simp add: cont_def)
    moreover have "y * 4096 + x mod 64 * 64 + c mod 64 = c" using d(1,2) by linarith
    ultimately show ?thesis by (simp add: u decode_one_def)
  next
    case 4
    then have u: "utf8_char c = [240 + z, 128 + y mod 64, 128 + x mod 64, 128 + c mod 64]"
      using d by (simp add: utf8_char_def)
    have "seq_len (240 + z) = Suc (Suc (Suc (Suc 0)))" using 4 d by (simp add: seq_len_def)
    moreover have "second_ok (240 + z) (128 + y mod 64)"
      using 4 d by (auto simp add: second_ok_def cont_def)
    moreover have "cont (128 + x mod 64)" "cont (128 + c mod 64)" using d by (simp_all add: cont_def)
    moreover have "z * 262144 + y mod 64 * 4096 + x mod 64 * 64 + c mod 64 = c" using d(1,2,3) by linarith
    ultimately show ?thesis by (simp add: u decode_one_def)
  qed
qed

text \<open>A proper prefix of one character's bytes decodes to nothing.\<close>

lemma decode_ignore_partial:
  assumes "scalar c" and "n < length (utf8_char c)"
  shows "utf8_decode_ignore (take n (utf8_char c)) = []"
proof -
  obtain x y z where d: "c = 64 * x + c mod 64" "x = 64 * y + x mod 64" "y = 64 * z + y mod 64"
    "c div 64 = x" "c div 4096 = y" "c div 262144 = z" "c div 64 mod 64 = x mod 64" "c div 4096 mod 64 = y mod 64"
    "c mod 64 < 64" "x mod 64 < 64" "y mod 64 < 64"
    by (rule base64_digits)
  consider "c < 128" | "128 \<le> c" "c < 2048" | "2048 \<le> c" "c < 65536" | "65536 \<le> c" "c < 1114112"
    using assms by (force simp: scalar_def)
  then show ?thesis
  proof cases
    case 1
    with assms show ?thesis by (simp add: utf8_char_def)
  next
    case 2
    then have u: "utf8_char c = [192 + x, 128 + c mod 64]" using d by (simp add: utf8_char_def)
    have "seq_len (192 + x) = Suc (Suc 0)" using 2 d by (simp add: seq_len_def)
    moreover have "n = 0 \<or> n = 1" using assms(2) u by auto
    ultimately show ?thesis by (auto simp: u decode_one_def)
  next
    case 3
    then have u: "utf8_char c = [224 + y, 128 + x mod 64, 128 + c mod 64]" using d by (simp add: utf8_char_def)
    have "seq_len (224 + y) = Suc (Suc (Suc 0))" using 3 d by (simp add: seq_len_def)
    moreover have "second_ok (224 + y) (128 + x mod 64)"
      using 3 d assms by (auto simp add: second_ok_def cont_def scalar_def)
    moreover have "n = 0 \<or> n = 1 \<or> n = 2" using assms(2) u by auto
    ultimately show ?thesis by (auto simp: u decode_one_def)
  next
    case 4
    then have u: "utf8_char c = [240 + z, 128 + y mod 64, 128 + x mod 64, 128 + c mod 64]"
      using d by (simp add: utf8_char_def)
    have "seq_len (240 + z) = Suc (Suc (Suc (Suc 0)))" using 4 d by (simp add: seq_len_def)
    moreover have "second_ok (240 + z) (128 + y mod 64)" using 4 d by (auto simp add: second_ok_def cont_def)
    moreover have "cont (128 + x mod 64)" using d by (simp add: cont_def)
    moreover have "n = 0 \<or> n = 1 \<or> n = 2 \<or> n = 3" using assms(2) u by auto
    ultimately show ?thesis by (auto simp: u decode_one_def numeral_3_eq_3)
  qed
qed

lemma decode_char_app:
  assumes "scalar c"
  shows "utf8_decode_ignore (utf8_char c @ rest) = c # utf8_decode_ignore rest"
    and "utf8_decode (utf8_char c @ rest) = map_option ((#) c) (utf8_decode rest)"
    and "utf8_decode_replace (utf8_char c @ rest) = c # utf8_decode_replace rest"
proof -
  obtain b bs where u: "utf8_char c = b # bs" by (cases "utf8_char c") auto
  from decode_one_char [OF assms, of rest] u have "decode_one b (bs @ rest) = Inr (c, Suc (length bs))" by simp
  then show "utf8_decode_ignore (utf8_char c @ rest) = c # utf8_decode_ignore rest"
    and "utf8_decode (utf8_char c @ rest) = map_option ((#) c) (utf8_decode rest)"
    and "utf8_decode_replace (utf8_char c @ rest) = c # utf8_decode_replace rest"
    by (simp_all add: u)
qed

lemma utf8_roundtrip: "list_all scalar t \<Longrightarrow> utf8_decode (utf8_encode t) = Some t"
  by (induction t) (simp_all add: decode_char_app)

lemma utf8_ignore_roundtrip: "list_all scalar t \<Longrightarrow> utf8_decode_ignore (utf8_encode t) = t"
  by (induction t) (simp_all add: decode_char_app)

lemma utf8_replace_roundtrip: "list_all scalar t \<Longrightarrow> utf8_decode_replace (utf8_encode t) = t"
  by (induction t) (simp_all add: decode_char_app)

text \<open>Cutting the encoding at any byte and decoding leniently yields a prefix of the text.\<close>

lemma decode_truncated:
  assumes "list_all scalar t"
  shows "\<exists>k. utf8_decode_ignore (take n (utf8_encode t)) = take k t \<and>
     length (utf8_encode (take k t)) \<le> n \<and>
     (k < length t \<longrightarrow> n < length (utf8_encode (take (Suc k) t)))"
  using assms
proof (induction t arbitrary: n)
  case (Cons c t)
  then have c: "scalar c" by simp
  show ?case
  proof (cases "n < length (utf8_char c)")
    case True
    then have "utf8_decode_ignore (take n (utf8_encode (c # t))) = []"
      by (simp add: decode_ignore_partial [OF c])
    with True show ?thesis by (intro exI [of _ 0]) simp
  next
    case False
    obtain k where k: "utf8_decode_ignore (take (n - length (utf8_char c)) (utf8_encode t)) = take k t"
      "length (utf8_encode (take k t)) \<le> n - length (utf8_char c)"
      "k < length t \<longrightarrow> n - length (utf8_char c) < length (utf8_encode (take (Suc k) t))"
      using Cons.IH [of "n - length (utf8_char c)"] Cons.prems by auto
    with False show ?thesis by (intro exI [of _ "Suc k"]) (auto simp: decode_char_app [OF c])
  qed
qed simp

end
