(* ===== verification/Session_History.thy ===== *)
theory Session_History
  imports Storage_Core Py_Text "HOL-Library.List_Lexorder"
begin

text \<open>
  \<open>src/src/agentharness/session_history.py\<close>: which runs of a session feed the context of
  the next turn, in which order, and how a session title is derived.
\<close>

definition collapse_whitespace :: "utext \<Rightarrow> utext" where
  "collapse_whitespace t = squeeze False (strip t)"

definition session_title_from_message :: "utext \<Rightarrow> utext" where
  "session_title_from_message content =
     (let title = collapse_whitespace content in if title = [] then lit ''session'' else title)"

definition is_top_level_run :: "run_row \<Rightarrow> bool" where
  "is_top_level_run r \<longleftrightarrow> rn_parent_run_id r = None \<or> rn_parent_run_id r = Some ''''"

definition is_history_eligible_run :: "run_row \<Rightarrow> bool" where
  "is_history_eligible_run r \<longleftrightarrow> is_top_level_run r \<and> rn_status r = RS_completed"

text \<open>\<open>sorted(runs, key=(created_at, id))\<close> as two stable sorts; ids compare by code point.\<close>

definition sort_runs_for_history :: "run_row list \<Rightarrow> run_row list" where
  "sort_runs_for_history runs = sort_key rn_created_at (sort_key (\<lambda>r. lit (rn_id r)) runs)"

fun assemble_loop :: "run_row list \<Rightarrow> (string \<Rightarrow> 'm list option) \<Rightarrow> 'm list \<Rightarrow> 'm list" where
  "assemble_loop [] by_run out = out"
| "assemble_loop (r # rs) by_run out =
     (if \<not> is_history_eligible_run r then assemble_loop rs by_run out
      else assemble_loop rs by_run (out @ (case by_run (rn_id r) of None \<Rightarrow> [] | Some ms \<Rightarrow> ms)))"

definition assemble_session_history_messages ::
  "run_row list \<Rightarrow> (string \<Rightarrow> 'm list option) \<Rightarrow> 'm list" where
  "assemble_session_history_messages runs by_run = assemble_loop (sort_runs_for_history runs) by_run []"

fun first_user_content :: "message list \<Rightarrow> utext option" where
  "first_user_content [] = None"
| "first_user_content (m # ms) =
     (if m_role m = MR_user \<and> strip (m_content m) \<noteq> [] then Some (m_content m)
      else first_user_content ms)"

section \<open>Lemmas\<close>

lemma assemble_loop_append:
  "assemble_loop rs by_run out =
     out @ concat (map (\<lambda>r. case by_run (rn_id r) of None \<Rightarrow> [] | Some ms \<Rightarrow> ms)
             (filter is_history_eligible_run rs))"
  by (induction rs arbitrary: out) auto

lemma set_sort_runs: "set (sort_runs_for_history runs) = set runs"
  by (simp add: sort_runs_for_history_def)

lemma sorted_sort_runs:
  "sorted (map rn_created_at (sort_runs_for_history runs))"
  by (simp add: sort_runs_for_history_def)

text \<open>Whitespace collapsing leaves single blanks between words and none at the ends.\<close>

lemma squeeze_space: "c \<in> set (squeeze b t) \<Longrightarrow> is_space c \<Longrightarrow> c = 32"
  by (induction b t rule: squeeze.induct) (auto split: if_splits)

lemma squeeze_hd: "squeeze True t \<noteq> [] \<Longrightarrow> \<not> is_space (hd (squeeze True t))"
  by (induction t) auto

lemma squeeze_adjacent:
  "Suc i < length (squeeze b t) \<Longrightarrow> \<not> (is_space (squeeze b t ! i) \<and> is_space (squeeze b t ! Suc i))"
proof (induction b t arbitrary: i rule: squeeze.induct)
  case (2 b c cs)
  show ?case
  proof (cases "is_space c")
    case True
    show ?thesis
    proof (cases b)
      case False
      with True 2 show ?thesis
      proof (cases i)
        case 0
        with True False "2.prems" have "squeeze True cs \<noteq> []" by auto
        then have "\<not> is_space (squeeze True cs ! 0)" using squeeze_hd by (simp add: hd_conv_nth)
        with 0 True False show ?thesis by simp
      qed simp
    qed (use 2 True in simp)
  next
    case False
    with 2 show ?thesis by (cases i) simp_all
  qed
qed simp

lemma squeeze_ends:
  assumes "t \<noteq> []" and "\<not> is_space (hd t)" and "\<not> is_space (last t)"
  shows "squeeze False t \<noteq> [] \<and> hd (squeeze False t) = hd t \<and> last (squeeze False t) = last t"
proof -
  have l: "t \<noteq> [] \<Longrightarrow> \<not> is_space (last t) \<Longrightarrow> squeeze b t \<noteq> [] \<and> last (squeeze b t) = last t" for b t
  proof (induction b t rule: squeeze.induct)
    case (2 b c cs)
    then show ?case by (cases "cs = []") (auto split: if_splits)
  qed simp
  from assms(1,2) have "hd (squeeze False t) = hd t" by (cases t) auto
  with l [OF assms(1,3)] show ?thesis by simp
qed

lemma strip_ends: "strip t \<noteq> [] \<Longrightarrow> \<not> is_space (hd (strip t)) \<and> \<not> is_space (last (strip t))"
proof -
  assume n: "strip t \<noteq> []"
  let ?u = "dropWhile is_space t"
  have s: "strip t = rev (dropWhile is_space (rev ?u))" by (simp add: strip_def lstrip_def rstrip_def)
  have "last (strip t) = hd (dropWhile is_space (rev ?u))" using n by (simp add: s last_rev)
  moreover have "\<not> is_space (hd (dropWhile is_space (rev ?u)))" using n hd_dropWhile [of is_space "rev ?u"] by (simp only: s rev_is_Nil_conv not_False_eq_True)
  moreover obtain pre where "rev ?u = pre @ dropWhile is_space (rev ?u)" by (metis takeWhile_dropWhile_id)
  then have "?u = strip t @ rev pre" unfolding s by (metis rev_append rev_rev_ident)
  then have "hd (strip t) = hd ?u" "?u \<noteq> []" using n by simp_all
  moreover have "\<not> is_space (hd ?u)" if "?u \<noteq> []" using that by (rule hd_dropWhile)
  ultimately show ?thesis by simp
qed

lemma collapse_collapsed: "collapsed (collapse_whitespace t)"
proof (cases "strip t = []")
  case False
  let ?c = "collapse_whitespace t"
  have c: "?c = squeeze False (strip t)" by (simp add: collapse_whitespace_def)
  have e: "hd ?c = hd (strip t)" "last ?c = last (strip t)"
    using squeeze_ends [OF False] strip_ends [OF False] by (simp_all add: c)
  have "\<forall>x \<in> set ?c. is_space x \<longrightarrow> x = 32" unfolding c by (blast intro: squeeze_space)
  moreover have "\<forall>i. Suc i < length ?c \<longrightarrow> \<not> (is_space (?c ! i) \<and> is_space (?c ! Suc i))"
    unfolding c by (blast dest: squeeze_adjacent)
  ultimately show ?thesis using e strip_ends [OF False] by (simp add: collapsed_def)
qed (simp add: collapse_whitespace_def collapsed_def)

text \<open>
  The history spliced into a follow-up turn is exactly the concatenation, by creation
  time and then id, of the messages of the completed top-level runs of the session;
  delegated, failed, cancelled, interrupted and unfinished runs contribute nothing.
\<close>

theorem history_only_completed:
  "\<exists>rs. set rs = {r \<in> set runs. (rn_parent_run_id r = None \<or> rn_parent_run_id r = Some '''') \<and>
          rn_status r = RS_completed} \<and>
     length rs = length (filter is_history_eligible_run runs) \<and>
     sorted (map rn_created_at rs) \<and>
     assemble_session_history_messages runs by_run =
       concat (map (\<lambda>r. case by_run (rn_id r) of None \<Rightarrow> [] | Some ms \<Rightarrow> ms) rs)"
proof (intro exI conjI)
  let ?rs = "filter is_history_eligible_run (sort_runs_for_history runs)"
  show "set ?rs = {r \<in> set runs. (rn_parent_run_id r = None \<or> rn_parent_run_id r = Some '''') \<and>
          rn_status r = RS_completed}"
    by (simp add: set_sort_runs is_history_eligible_run_def is_top_level_run_def)
  show "length ?rs = length (filter is_history_eligible_run runs)"
    by (simp add: sort_runs_for_history_def filter_sort)
  show "sorted (map rn_created_at ?rs)" by (rule sorted_filter [OF sorted_sort_runs])
  show "assemble_session_history_messages runs by_run =
       concat (map (\<lambda>r. case by_run (rn_id r) of None \<Rightarrow> [] | Some ms \<Rightarrow> ms) ?rs)"
    by (simp add: assemble_session_history_messages_def assemble_loop_append)
qed

text \<open>
  A session title is never empty and never contains anything but single blanks
  between its words.
\<close>

theorem session_title_collapsed:
  "session_title_from_message content \<noteq> [] \<and> collapsed (session_title_from_message content)"
proof (cases "collapse_whitespace content = []")
  case True
  have "collapsed (lit ''session'')"
    by (auto simp: collapsed_def lit_def is_space_def nth_Cons' split: if_splits)
  with True show ?thesis by (simp add: session_title_from_message_def lit_def)
qed (simp add: session_title_from_message_def collapse_collapsed)

end
