(* ===== verification/Storage_Misc.thy ===== *)
theory Storage_Misc
  imports Session_History
begin

text \<open>
  \<open>storage/sessions.py\<close>, \<open>storage/messages.py\<close>, \<open>storage/checkpoints.py\<close> and
  \<open>storage/artifact_index.py\<close>. Pydantic's \<open>model_dump\<close>/\<open>model_validate\<close> and SHA-256 are
  parameters.
\<close>

section \<open>Sessions\<close>

text \<open>\<open>fresh\<close> is \<open>new_id()\<close>; an empty id or title is falsy.\<close>

definition create_session ::
  "redactor \<Rightarrow> time \<Rightarrow> string \<Rightarrow> string option \<Rightarrow> utext option \<Rightarrow> db \<Rightarrow> db \<times> string" where
  "create_session rd now fresh session_id title db =
     (let sid = (case session_id of None \<Rightarrow> fresh | Some s \<Rightarrow> if s = '''' then fresh else s);
          ttl = (case title of None \<Rightarrow> lit ''session'' | Some t \<Rightarrow> if t = [] then lit ''session'' else t);
          row = \<lparr>se_id = sid, se_title = redact_text rd ttl, se_created_at = now, se_updated_at = now\<rparr>
      in (db\<lparr>d_sessions := sql_insert_ignore se_id row (d_sessions db)\<rparr>, sid))"

definition get_session :: "string \<Rightarrow> db \<Rightarrow> session_row option" where
  "get_session sid db = sql_find se_id sid (d_sessions db)"

definition session_exists :: "string \<Rightarrow> db \<Rightarrow> bool" where
  "session_exists sid db \<longleftrightarrow> get_session sid db \<noteq> None"

definition update_session :: "redactor \<Rightarrow> time \<Rightarrow> string \<Rightarrow> utext option \<Rightarrow> bool \<Rightarrow> db \<Rightarrow> db" where
  "update_session rd now sid title touch db =
     (case title of
        Some t \<Rightarrow>
          db\<lparr>d_sessions := sql_update (\<lambda>s. se_id s = sid)
               (if touch then (\<lambda>s. s\<lparr>se_title := redact_text rd t, se_updated_at := now\<rparr>)
                else (\<lambda>s. s\<lparr>se_title := redact_text rd t\<rparr>)) (d_sessions db)\<rparr>
      | None \<Rightarrow>
          if touch
          then db\<lparr>d_sessions := sql_update (\<lambda>s. se_id s = sid) (\<lambda>s. s\<lparr>se_updated_at := now\<rparr>) (d_sessions db)\<rparr>
          else db)"

text \<open>One row of the enriched listing.\<close>

record session_view =
  sv_session :: session_row
  sv_display_title :: utext
  sv_latest :: "run_row option"
  sv_run_count :: nat

definition first_user_message :: "db \<Rightarrow> string \<Rightarrow> utext option" where
  "first_user_message db sid =
     (case concat (map (\<lambda>r. sort_key mr_seq
             (filter (\<lambda>m. mr_run_id m = rn_id r \<and> mr_role m = MR_user) (d_messages db)))
           (filter (\<lambda>r. rn_session_id r = sid \<and> is_top_level_run r) (d_runs db))) of
        [] \<Rightarrow> None
      | m # _ \<Rightarrow> Some (mr_content m))"

text \<open>The \<open>recent\<close> subquery groups by \<open>parent_run_id IS NULL\<close> only; \<open>latest\<close> is its last row.\<close>

definition recent_runs :: "db \<Rightarrow> string \<Rightarrow> run_row list" where
  "recent_runs db sid = filter (\<lambda>r. rn_session_id r = sid \<and> rn_parent_run_id r = None) (d_runs db)"

definition session_view_of :: "db \<Rightarrow> session_row \<Rightarrow> session_view" where
  "session_view_of db s =
     \<lparr>sv_session = s,
      sv_display_title = (case first_user_message db (se_id s) of None \<Rightarrow> se_title s | Some t \<Rightarrow> t),
      sv_latest = (case recent_runs db (se_id s) of [] \<Rightarrow> None | rs \<Rightarrow> Some (last rs)),
      sv_run_count = length (recent_runs db (se_id s))\<rparr>"

text \<open>Rowids grow along a table, so the position of a run stands for its rowid.\<close>

definition activity_order :: "db \<Rightarrow> session_row \<Rightarrow> nat" where
  "activity_order db s =
     foldr max (map (\<lambda>(i, r). if rn_session_id r = se_id s \<and> rn_parent_run_id r = None then Suc i else 0)
       (enumerate 0 (d_runs db))) 0"

definition list_sessions :: "nat \<Rightarrow> db \<Rightarrow> session_view list" where
  "list_sessions limit db =
     take limit (map (session_view_of db) (rev (sort_key (activity_order db) (d_sessions db))))"

definition list_top_level_runs :: "string \<Rightarrow> db \<Rightarrow> run_row list" where
  "list_top_level_runs sid db =
     sort_key rn_created_at (filter (\<lambda>r. rn_session_id r = sid \<and> is_top_level_run r) (d_runs db))"

definition list_completed_top_level_runs :: "string \<Rightarrow> db \<Rightarrow> run_row list" where
  "list_completed_top_level_runs sid db =
     sort_key rn_created_at
       (filter (\<lambda>r. rn_session_id r = sid \<and> is_top_level_run r \<and> rn_status r = RS_completed) (d_runs db))"

section \<open>Messages\<close>

definition message_of ::
  "redactor \<Rightarrow> (tool_call \<Rightarrow> pyval) \<Rightarrow> (tool_result \<Rightarrow> pyval) \<Rightarrow> string \<Rightarrow> string \<Rightarrow> message \<Rightarrow> nat \<Rightarrow> message_row" where
  "message_of rd dump_call dump_result rid sid m seq =
     \<lparr>mr_id = m_id m, mr_run_id = rid, mr_session_id = sid, mr_role = m_role m,
      mr_content = redact_text rd (m_content m), mr_tool_call_id = m_tool_call_id m, mr_name = m_name m,
      mr_tool_calls = (case m_tool_calls m of
          None \<Rightarrow> None
        | Some [] \<Rightarrow> None
        | Some tcs \<Rightarrow> Some (redact_obj rd (VList (map dump_call tcs)))),
      mr_tool_result = map_option (\<lambda>r. redact_obj rd (dump_result r)) (m_tool_result m),
      mr_seq = seq, mr_created_at = m_created_at m\<rparr>"

definition save_message ::
  "redactor \<Rightarrow> (tool_call \<Rightarrow> pyval) \<Rightarrow> (tool_result \<Rightarrow> pyval) \<Rightarrow> string \<Rightarrow> string \<Rightarrow> message \<Rightarrow> nat \<Rightarrow>
   db \<Rightarrow> py_error + db" where
  "save_message rd dump_call dump_result rid sid m seq db =
     (if \<not> has_run db rid then Inl IntegrityError
      else Inr (db\<lparr>d_messages :=
        sql_replace mr_id (message_of rd dump_call dump_result rid sid m seq) (d_messages db)\<rparr>))"

definition delete_messages :: "string \<Rightarrow> string list \<Rightarrow> db \<Rightarrow> db \<times> nat" where
  "delete_messages rid ids db =
     (if ids = [] then (db, 0)
      else let p = (\<lambda>m. mr_run_id m = rid \<and> mr_id m \<in> set ids)
           in (db\<lparr>d_messages := sql_delete p (d_messages db)\<rparr>, sql_count p (d_messages db)))"

definition message_from_row ::
  "(pyval \<Rightarrow> tool_call list option) \<Rightarrow> (pyval \<Rightarrow> tool_result option) \<Rightarrow> message_row \<Rightarrow> message option" where
  "message_from_row load_calls load_result r =
     (case (case mr_tool_calls r of None \<Rightarrow> Some None | Some v \<Rightarrow> map_option Some (load_calls v)) of
        None \<Rightarrow> None
      | Some tcs \<Rightarrow>
          (case (case mr_tool_result r of None \<Rightarrow> Some None | Some v \<Rightarrow> map_option Some (load_result v)) of
             None \<Rightarrow> None
           | Some res \<Rightarrow> Some
               \<lparr>m_id = mr_id r, m_role = mr_role r, m_content = mr_content r,
                m_tool_call_id = mr_tool_call_id r, m_name = mr_name r, m_tool_calls = tcs,
                m_tool_result = res, m_created_at = mr_created_at r\<rparr>))"

text \<open>\<open>None\<close> is a pydantic validation error of a stored column.\<close>

definition get_messages ::
  "(pyval \<Rightarrow> tool_call list option) \<Rightarrow> (pyval \<Rightarrow> tool_result option) \<Rightarrow> string \<Rightarrow> db \<Rightarrow> message list option" where
  "get_messages load_calls load_result rid db =
     those (map (message_from_row load_calls load_result)
       (sort_key mr_seq (filter (\<lambda>m. mr_run_id m = rid) (d_messages db))))"

text \<open>\<open>Storage.get_session_history_messages\<close> of \<open>storage/sqlite.py\<close>.\<close>

fun load_history_runs ::
  "(string \<Rightarrow> message list option) \<Rightarrow> run_row list \<Rightarrow> (string \<Rightarrow> message list option) option" where
  "load_history_runs load [] = Some (\<lambda>_. None)"
| "load_history_runs load (r # rs) =
     (case load (rn_id r) of
        None \<Rightarrow> None
      | Some ms \<Rightarrow>
          map_option (\<lambda>f. (\<lambda>k. if k = rn_id r then Some ms else f k)) (load_history_runs load rs))"

definition get_session_history_messages ::
  "(pyval \<Rightarrow> tool_call list option) \<Rightarrow> (pyval \<Rightarrow> tool_result option) \<Rightarrow> string \<Rightarrow> db \<Rightarrow> message list option" where
  "get_session_history_messages load_calls load_result sid db =
     (let runs = list_completed_top_level_runs sid db
      in map_option (assemble_session_history_messages runs)
           (load_history_runs (\<lambda>rid. get_messages load_calls load_result rid db) runs))"

section \<open>Checkpoints\<close>

text \<open>
  \<open>_upgrade_checkpoint_payload\<close>. Python's \<open>str()\<close> and \<open>int()\<close> of a JSON value are
  parameters (\<open>pystr\<close>, \<open>pyint\<close>; \<open>None\<close> is the exception of \<open>int\<close>); \<open>sha\<close> is the hex digest of the
  UTF-8 bytes. \<open>get_or_falsy d k v\<close> is \<open>d.get(k) or v\<close>.
\<close>

definition dict_get :: "string \<Rightarrow> pydict \<Rightarrow> pyval" where
  "dict_get k d = (case map_of d (lit k) of None \<Rightarrow> VNone | Some v \<Rightarrow> v)"

definition or_else :: "pyval \<Rightarrow> pyval \<Rightarrow> pyval" where
  "or_else v w = (if truthy v then v else w)"

definition seed_id :: "(utext \<Rightarrow> utext) \<Rightarrow> utext list \<Rightarrow> utext" where
  "seed_id sha parts = take 32 (sha (join (lit '':'') parts))"

definition upgrade_pending_call ::
  "(utext \<Rightarrow> utext) \<Rightarrow> (pyval \<Rightarrow> utext) \<Rightarrow> (pyval \<Rightarrow> int option) \<Rightarrow> utext \<Rightarrow> int \<Rightarrow> nat \<Rightarrow> pyval \<Rightarrow> pyval option" where
  "upgrade_pending_call sha pystr pyint run_id step index call =
     (case call of
        VDict d \<Rightarrow>
          if truthy (dict_get ''invocation_id'' d) then Some call
          else (case pyint (case map_of d (lit ''ordinal'') of None \<Rightarrow> VInt (int index) | Some v \<Rightarrow> v) of
                  None \<Rightarrow> None
                | Some ordinal \<Rightarrow> Some (VDict (dict_set (lit ''invocation_id'')
                    (VStr (seed_id sha [run_id, lit ''pending'', str_int step, str_int ordinal,
                       str_nat index, pystr (or_else (dict_get ''id'' d) (VStr []))])) d)))
      | _ \<Rightarrow> Some call)"

definition upgrade_message_call ::
  "(utext \<Rightarrow> utext) \<Rightarrow> (pyval \<Rightarrow> utext) \<Rightarrow> utext \<Rightarrow> nat \<Rightarrow> nat \<Rightarrow> pyval \<Rightarrow> pyval" where
  "upgrade_message_call sha pystr run_id mi ti call =
     (case call of
        VDict d \<Rightarrow>
          if truthy (dict_get ''invocation_id'' d) then call
          else VDict (dict_set (lit ''invocation_id'')
                 (VStr (seed_id sha [run_id, lit ''message'', str_nat mi, str_nat ti,
                    pystr (or_else (dict_get ''id'' d) (VStr []))])) d)
      | _ \<Rightarrow> call)"

definition upgrade_message ::
  "(utext \<Rightarrow> utext) \<Rightarrow> (pyval \<Rightarrow> utext) \<Rightarrow> utext \<Rightarrow> nat \<Rightarrow> pyval \<Rightarrow> pyval" where
  "upgrade_message sha pystr run_id mi m =
     (case m of
        VDict d \<Rightarrow>
          (case map_of d (lit ''tool_calls'') of
             Some (VList calls) \<Rightarrow>
               VDict (dict_set (lit ''tool_calls'')
                 (VList (map (\<lambda>(ti, c). upgrade_message_call sha pystr run_id mi ti c) (enumerate 0 calls))) d)
           | _ \<Rightarrow> m)
      | _ \<Rightarrow> m)"

definition upgrade_checkpoint_payload ::
  "(utext \<Rightarrow> utext) \<Rightarrow> (pyval \<Rightarrow> utext) \<Rightarrow> (pyval \<Rightarrow> int option) \<Rightarrow> pyval \<Rightarrow> pyval option" where
  "upgrade_checkpoint_payload sha pystr pyint payload =
     (case payload of
        VDict d \<Rightarrow>
          let run_id = pystr (or_else (dict_get ''run_id'' d) (VStr (lit ''legacy'')))
          in (case pyint (or_else (dict_get ''step'' d) (VInt 0)) of
                None \<Rightarrow> None
              | Some step \<Rightarrow>
                  (case (case map_of d (lit ''pending_tool_calls'') of
                           Some (VList pending) \<Rightarrow>
                             map_option (\<lambda>p. dict_set (lit ''pending_tool_calls'') (VList p) d)
                               (those (map (\<lambda>(i, c). upgrade_pending_call sha pystr pyint run_id step i c)
                                  (enumerate 0 pending)))
                         | _ \<Rightarrow> Some d) of
                     None \<Rightarrow> None
                   | Some d1 \<Rightarrow>
                       Some (VDict (case map_of d1 (lit ''messages'') of
                           Some (VList ms) \<Rightarrow> dict_set (lit ''messages'')
                             (VList (map (\<lambda>(i, m). upgrade_message sha pystr run_id i m) (enumerate 0 ms))) d1
                         | _ \<Rightarrow> d1))))
      | _ \<Rightarrow> Some payload)"

definition set_checkpoint :: "checkpoint_row \<Rightarrow> checkpoint_row \<Rightarrow> checkpoint_row" where
  "set_checkpoint old new = old\<lparr>cr_phase := cr_phase new, cr_step := cr_step new,
     cr_data := cr_data new, cr_created_at := cr_created_at new\<rparr>"

definition save_checkpoint ::
  "redactor \<Rightarrow> (checkpoint \<Rightarrow> pyval) \<Rightarrow> time \<Rightarrow> checkpoint \<Rightarrow> db \<Rightarrow> py_error + db" where
  "save_checkpoint rd dump now c db =
     (if \<not> has_run db (ck_run_id c) then Inl IntegrityError
      else Inr (db\<lparr>d_checkpoints := sql_upsert cr_run_id set_checkpoint
        \<lparr>cr_run_id = ck_run_id c, cr_phase = ck_phase c, cr_step = ck_step c,
         cr_data = JsonText (redact_obj rd (dump c)), cr_created_at = now\<rparr> (d_checkpoints db)\<rparr>))"

text \<open>\<open>Inl\<close>: the payload is not JSON, its upgrade raises, or validation fails.\<close>

definition load_checkpoint ::
  "(utext \<Rightarrow> utext) \<Rightarrow> (pyval \<Rightarrow> utext) \<Rightarrow> (pyval \<Rightarrow> int option) \<Rightarrow> (pyval \<Rightarrow> checkpoint option) \<Rightarrow>
   string \<Rightarrow> db \<Rightarrow> py_error + checkpoint option" where
  "load_checkpoint sha pystr pyint validate rid db =
     (case sql_find cr_run_id rid (d_checkpoints db) of
        None \<Rightarrow> Inr None
      | Some row \<Rightarrow>
          (case cr_data row of
             JsonBad t \<Rightarrow> Inl (ValueError (lit ''JSONDecodeError''))
           | JsonText v \<Rightarrow>
               (case upgrade_checkpoint_payload sha pystr pyint v of
                  None \<Rightarrow> Inl (ValueError (lit ''int''))
                | Some v' \<Rightarrow>
                    (case validate v' of
                       None \<Rightarrow> Inl (ValueError (lit ''ValidationError''))
                     | Some c \<Rightarrow> Inr (Some c)))))"

section \<open>Artifact index\<close>

definition artifact_of :: "redactor \<Rightarrow> artifact_row \<Rightarrow> artifact_row" where
  "artifact_of rd m = m\<lparr>af_summary := map_option (redact_text rd) (af_summary m)\<rparr>"

text \<open>
  \<open>meta\<close> is the metadata dict of \<open>ArtifactStore.put\<close>; redaction of its machine fields
  (id, hash, type, path, time) is taken to be the identity, that of the summary is modelled.
\<close>

definition register_artifact :: "redactor \<Rightarrow> artifact_row \<Rightarrow> db \<Rightarrow> db \<times> string" where
  "register_artifact rd meta db =
     (case sql_find af_sha256 (af_sha256 meta) (d_artifacts db) of
        Some row \<Rightarrow> (db, af_id row)
      | None \<Rightarrow> (db\<lparr>d_artifacts := sql_insert_ignore af_id (artifact_of rd meta) (d_artifacts db)\<rparr>, af_id meta))"

definition get_artifact :: "string \<Rightarrow> db \<Rightarrow> artifact_row option" where
  "get_artifact aid db = sql_find af_id aid (d_artifacts db)"

definition get_artifact_by_sha :: "string \<Rightarrow> db \<Rightarrow> artifact_row option" where
  "get_artifact_by_sha sha db = sql_find af_sha256 sha (d_artifacts db)"

section \<open>Store invariant\<close>

lemma sessions_db_ok:
  assumes "db_ok db" and "distinct (map se_id rows)" and "se_id ` set (d_sessions db) \<subseteq> se_id ` set rows"
  shows "db_ok (db\<lparr>d_sessions := rows\<rparr>)"
  by (rule db_ok_set_sessions [OF assms(1,2) subset_trans [OF db_okD(21) [OF assms(1)] assms(3)]])

lemma create_session_db_ok: "db_ok db \<Longrightarrow> db_ok (fst (create_session rd now fresh sid title db))"
proof -
  assume ok: "db_ok db"
  have "db_ok (db\<lparr>d_sessions := sql_insert_ignore se_id row (d_sessions db)\<rparr>)" for row
    by (rule sessions_db_ok [OF ok])
      (use db_ok_compound_keys(3) [OF ok] in \<open>auto simp: sql_insert_ignore_def sql_has_image\<close>)
  then show ?thesis by (simp add: create_session_def Let_def)
qed

lemma update_session_db_ok: "db_ok db \<Longrightarrow> db_ok (update_session rd now sid title touch db)"
proof -
  assume ok: "db_ok db"
  have "db_ok (db\<lparr>d_sessions := sql_update p f (d_sessions db)\<rparr>)"
    if "\<And>s. p s \<Longrightarrow> se_id (f s) = se_id s" for p f
    by (rule sessions_db_ok [OF ok])
      (use db_ok_compound_keys(3) [OF ok] that in \<open>simp_all add: map_sql_update image_sql_update\<close>)
  then show ?thesis using ok by (auto simp: update_session_def split: option.split)
qed

lemma save_message_db_ok:
  assumes "save_message rd dc dr rid sid m seq db = Inr db'" and ok: "db_ok db"
  shows "db_ok db'"
proof -
  from assms(1) have db': "db' = db\<lparr>d_messages := sql_replace mr_id (message_of rd dc dr rid sid m seq) (d_messages db)\<rparr>"
    and r: "rid \<in> rn_id ` set (d_runs db)"
    by (auto simp: save_message_def sql_has_image split: if_splits)
  have "mr_run_id ` set (sql_replace mr_id (message_of rd dc dr rid sid m seq) (d_messages db)) \<subseteq> rn_id ` set (d_runs db)"
    using r db_okD(13) [OF ok] by (auto simp: sql_replace_def sql_simps message_of_def)
  then show ?thesis
    unfolding db' by (intro db_ok_set_messages ok distinct_sql_replace db_okD(2) [OF ok]) simp_all
qed

lemma delete_messages_db_ok: "db_ok db \<Longrightarrow> db_ok (fst (delete_messages rid ids db))"
proof -
  assume ok: "db_ok db"
  have "db_ok (db\<lparr>d_messages := sql_delete p (d_messages db)\<rparr>)" for p
    by (intro db_ok_set_messages ok distinct_sql_delete db_okD(2) [OF ok]
        subset_trans [OF image_sql_delete db_okD(13) [OF ok]])
  then show ?thesis using ok by (simp add: delete_messages_def Let_def)
qed

interpretation checkpoints: keyed_table cr_run_id set_checkpoint
  by unfold_locales (simp add: set_checkpoint_def)

lemma save_checkpoint_db_ok:
  assumes "save_checkpoint rd dump now c db = Inr db'" and ok: "db_ok db"
  shows "db_ok db'"
proof -
  let ?n = "\<lparr>cr_run_id = ck_run_id c, cr_phase = ck_phase c, cr_step = ck_step c,
         cr_data = JsonText (redact_obj rd (dump c)), cr_created_at = now\<rparr>"
  from assms(1) have db': "db' = db\<lparr>d_checkpoints := sql_upsert cr_run_id set_checkpoint ?n (d_checkpoints db)\<rparr>"
    and r: "ck_run_id c \<in> rn_id ` set (d_runs db)"
    by (auto simp: save_checkpoint_def sql_has_image split: if_splits)
  show ?thesis
    unfolding db' using r db_okD(4,15) [OF ok]
    by (intro db_ok_set_checkpoints ok) (simp_all add: checkpoints.unique_upsert checkpoints.key_set_upsert)
qed

lemma register_artifact_db_ok: "db_ok db \<Longrightarrow> db_ok (fst (register_artifact rd meta db))"
proof -
  assume ok: "db_ok db"
  show ?thesis
  proof (cases "sql_find af_sha256 (af_sha256 meta) (d_artifacts db)")
    case None
    then have "af_sha256 meta \<notin> af_sha256 ` set (d_artifacts db)" by (simp add: sql_find_None_iff)
    moreover have "af_id (artifact_of rd meta) = af_id meta" "af_sha256 (artifact_of rd meta) = af_sha256 meta"
      by (simp_all add: artifact_of_def)
    ultimately show ?thesis
      using None db_okD(11,12) [OF ok] ok
      by (auto simp: register_artifact_def sql_insert_ignore_def sql_has_image intro!: db_ok_set_artifacts)
  qed (use ok in \<open>simp add: register_artifact_def\<close>)
qed

section \<open>Checkpoint round trip and payload upgrade\<close>

lemma load_after_save_row:
  assumes "save_checkpoint rd dump now c db = Inr db'"
  shows "\<exists>row. sql_find cr_run_id (ck_run_id c) (d_checkpoints db') = Some row \<and>
     cr_data row = JsonText (redact_obj rd (dump c)) \<and> cr_step row = ck_step c \<and> cr_phase row = ck_phase c"
proof -
  let ?n = "\<lparr>cr_run_id = ck_run_id c, cr_phase = ck_phase c, cr_step = ck_step c,
         cr_data = JsonText (redact_obj rd (dump c)), cr_created_at = now\<rparr>"
  from assms have db': "db' = db\<lparr>d_checkpoints := sql_upsert cr_run_id set_checkpoint ?n (d_checkpoints db)\<rparr>"
    by (auto simp: save_checkpoint_def split: if_splits)
  show ?thesis
    unfolding db' by (cases "sql_find cr_run_id (ck_run_id c) (d_checkpoints db)")
      (simp_all add: checkpoints.find_upsert set_checkpoint_def)
qed

lemma dict_set_same: "map_of d k = Some v \<Longrightarrow> dict_set k v d = d"
  by (induction d) (auto split: if_splits)

lemma dict_get_set: "dict_get k (dict_set (lit k') v d) = (if k = k' then v else dict_get k d)"
  by (simp add: dict_get_def)

definition has_invocation_id :: "pyval \<Rightarrow> bool" where
  "has_invocation_id call = (case call of VDict d \<Rightarrow> truthy (dict_get ''invocation_id'' d) | _ \<Rightarrow> True)"

lemma upgraded_call:
  assumes "\<And>t. sha t \<noteq> []" and "upgrade_pending_call sha pystr pyint run_id step i c = Some c'"
  shows "has_invocation_id c'"
  using assms
  by (auto simp: upgrade_pending_call_def has_invocation_id_def dict_get_set seed_id_def
      split: pyval.splits if_splits option.splits)

lemma upgrade_call_id:
  "has_invocation_id c \<Longrightarrow> upgrade_pending_call sha pystr pyint run_id step i c = Some c"
  "has_invocation_id c \<Longrightarrow> upgrade_message_call sha pystr run_id mi i c = c"
  by (auto simp: upgrade_pending_call_def upgrade_message_call_def has_invocation_id_def split: pyval.splits)

lemma upgraded_message_call:
  assumes "\<And>t. sha t \<noteq> []"
  shows "has_invocation_id (upgrade_message_call sha pystr run_id mi i c)"
  using assms
  by (auto simp: upgrade_message_call_def has_invocation_id_def dict_get_set seed_id_def split: pyval.split)

lemma map_enumerate_id: "(\<And>i x. x \<in> set xs \<Longrightarrow> f i x = x) \<Longrightarrow> map (\<lambda>(i, x). f i x) (enumerate n xs) = xs"
  by (induction xs arbitrary: n) simp_all

lemma those_map_id: "(\<And>i x. x \<in> set xs \<Longrightarrow> f i x = Some x) \<Longrightarrow> those (map (\<lambda>(i, x). f i x) (enumerate n xs)) = Some xs"
  by (induction xs arbitrary: n) simp_all

lemma those_map_result:
  "those (map (\<lambda>(i, x). f i x) (enumerate n xs)) = Some ys \<Longrightarrow> y \<in> set ys \<Longrightarrow> \<exists>i x. f i x = Some y"
proof (induction xs arbitrary: n ys)
  case (Cons a xs)
  from Cons.prems(1) obtain z zs where z: "f n a = Some z"
    "those (map (\<lambda>(i, x). f i x) (enumerate (Suc n) xs)) = Some zs" "ys = z # zs"
    by (auto split: option.splits)
  with Cons.prems(2) Cons.IH [OF z(2)] show ?case by auto
qed simp

lemma upgrade_message_idem:
  assumes "\<And>t. sha t \<noteq> []"
  shows "upgrade_message sha pystr run_id j (upgrade_message sha pystr run_id i m) = upgrade_message sha pystr run_id i m"
proof -
  have "map (\<lambda>(ti, c). upgrade_message_call sha pystr run_id j ti c)
      (enumerate 0 (map (\<lambda>(ti, c). upgrade_message_call sha pystr run_id i ti c) (enumerate 0 calls))) =
      map (\<lambda>(ti, c). upgrade_message_call sha pystr run_id i ti c) (enumerate 0 calls)" for calls
    by (rule map_enumerate_id) (auto intro!: upgrade_call_id upgraded_message_call assms)
  then show ?thesis
    by (auto simp: upgrade_message_def dict_set_same split: pyval.splits option.splits)
qed

text \<open>
  Upgrading a stored checkpoint is stable: the deterministic invocation ids given to
  pre-version-8 tool calls are kept, so loading an already upgraded payload changes
  nothing, and every upgraded pending call carries a non-empty id.
\<close>

theorem checkpoint_upgrade_stable:
  assumes sha: "\<And>t. sha t \<noteq> []"
    and up: "upgrade_checkpoint_payload sha pystr pyint p = Some q"
  shows "upgrade_checkpoint_payload sha pystr pyint q = Some q \<and>
     (\<forall>d pending. q = VDict d \<longrightarrow> map_of d (lit ''pending_tool_calls'') = Some (VList pending) \<longrightarrow>
        list_all has_invocation_id pending)"
proof (cases p)
  case (VDict d)
  let ?run = "pystr (or_else (dict_get ''run_id'' d) (VStr (lit ''legacy'')))"
  let ?pend = "\<lambda>step (i, c). upgrade_pending_call sha pystr pyint ?run step i c"
  let ?msg = "\<lambda>(i, m). upgrade_message sha pystr ?run i m"
  obtain step where step: "pyint (or_else (dict_get ''step'' d) (VInt 0)) = Some step"
    using up VDict by (auto simp: upgrade_checkpoint_payload_def Let_def split: option.splits)
  obtain d1 where d1: "(case map_of d (lit ''pending_tool_calls'') of
         Some (VList pending) \<Rightarrow> map_option (\<lambda>p. dict_set (lit ''pending_tool_calls'') (VList p) d)
            (those (map (?pend step) (enumerate 0 pending)))
       | _ \<Rightarrow> Some d) = Some d1"
    and q: "q = VDict (case map_of d1 (lit ''messages'') of
         Some (VList ms) \<Rightarrow> dict_set (lit ''messages'') (VList (map ?msg (enumerate 0 ms))) d1
       | _ \<Rightarrow> d1)"
    using up VDict step by (auto simp: upgrade_checkpoint_payload_def Let_def split: option.splits)
  obtain d2 where d2: "q = VDict d2" and keep: "\<And>k. k \<noteq> lit ''messages'' \<Longrightarrow> map_of d2 k = map_of d1 k"
    and ms: "\<And>ms. map_of d2 (lit ''messages'') = Some (VList ms) \<Longrightarrow> map ?msg (enumerate 0 ms) = ms"
  proof (cases "\<exists>ms. map_of d1 (lit ''messages'') = Some (VList ms)")
    case True
    then obtain ms where m: "map_of d1 (lit ''messages'') = Some (VList ms)" by blast
    have "map ?msg (enumerate 0 (map ?msg (enumerate 0 ms))) = map ?msg (enumerate 0 ms)"
      by (rule map_enumerate_id) (auto simp: upgrade_message_idem [OF sha])
    with m q show ?thesis by (intro that [of "dict_set (lit ''messages'') (VList (map ?msg (enumerate 0 ms))) d1"]) auto
  next
    case False
    with q show ?thesis by (intro that [of d1]) (auto split: option.splits pyval.splits)
  qed
  have keep1: "map_of d1 k = map_of d k" if "k \<noteq> lit ''pending_tool_calls''" for k
    using d1 that by (auto split: option.splits pyval.splits)
  have pend: "list_all has_invocation_id pending"
    if h: "map_of d1 (lit ''pending_tool_calls'') = Some (VList pending)" for pending
  proof -
    from d1 h obtain pending0 where "those (map (?pend step) (enumerate 0 pending0)) = Some pending"
      by (auto split: option.splits pyval.splits)
    then show ?thesis using upgraded_call [OF sha] by (fastforce simp: list_all_iff dest: those_map_result)
  qed
  have run: "pystr (or_else (dict_get ''run_id'' d2) (VStr (lit ''legacy''))) = ?run"
    "pyint (or_else (dict_get ''step'' d2) (VInt 0)) = Some step"
    using step keep keep1 by (simp_all add: dict_get_def)
  have p2: "(case map_of d2 (lit ''pending_tool_calls'') of
         Some (VList pending) \<Rightarrow> map_option (\<lambda>p. dict_set (lit ''pending_tool_calls'') (VList p) d2)
            (those (map (?pend step) (enumerate 0 pending)))
       | _ \<Rightarrow> Some d2) = Some d2"
  proof (cases "\<exists>pending. map_of d2 (lit ''pending_tool_calls'') = Some (VList pending)")
    case True
    then obtain pending where m: "map_of d2 (lit ''pending_tool_calls'') = Some (VList pending)" by blast
    then have "list_all has_invocation_id pending" using pend keep by simp
    then have "those (map (?pend step) (enumerate 0 pending)) = Some pending"
      by (intro those_map_id) (auto simp: list_all_iff upgrade_call_id)
    with m show ?thesis by (simp add: dict_set_same)
  next
    case False
    then show ?thesis by (auto split: option.splits pyval.splits)
  qed
  have m2: "(case map_of d2 (lit ''messages'') of
         Some (VList ms) \<Rightarrow> dict_set (lit ''messages'') (VList (map ?msg (enumerate 0 ms))) d2
       | _ \<Rightarrow> d2) = d2"
  proof (cases "\<exists>ms. map_of d2 (lit ''messages'') = Some (VList ms)")
    case True
    then obtain ms' where m: "map_of d2 (lit ''messages'') = Some (VList ms')" by blast
    with ms [OF m] show ?thesis by (simp add: dict_set_same)
  next
    case False
    then show ?thesis by (auto split: option.splits pyval.splits)
  qed
  have "upgrade_checkpoint_payload sha pystr pyint q = Some q"
    unfolding d2 upgrade_checkpoint_payload_def pyval.case Let_def run option.case p2 m2 by (rule refl)
  then show ?thesis using pend keep d2 by auto
qed (use up in \<open>auto simp: upgrade_checkpoint_payload_def\<close>)

theorem checkpoint_upgrade_stable_witness:
  "\<exists>q. upgrade_checkpoint_payload (\<lambda>t. 48 # t) (\<lambda>_. []) (\<lambda>_. Some 0)
       (VDict [(lit ''pending_tool_calls'', VList [VDict []])]) = Some q \<and>
     upgrade_checkpoint_payload (\<lambda>t. 48 # t) (\<lambda>_. []) (\<lambda>_. Some 0) q = Some q"
proof -
  let ?up = "upgrade_checkpoint_payload (\<lambda>t. 48 # t) (\<lambda>_. []) (\<lambda>_. Some (0::int))"
  obtain q where q: "?up (VDict [(lit ''pending_tool_calls'', VList [VDict []])]) = Some q"
    by (simp add: upgrade_checkpoint_payload_def upgrade_pending_call_def dict_get_def Let_def)
  have "?up q = Some q" by (rule checkpoint_upgrade_stable [OF _ q, THEN conjunct1]) simp
  with q show ?thesis by blast
qed

end
