(* ===== verification/Storage_Maintenance.thy ===== *)
theory Storage_Maintenance
  imports Storage_Misc
begin

text \<open>
  \<open>src/src/agentharness/storage/maintenance.py\<close>: statistics, garbage collection of old
  runs and of artifacts nothing refers to, and the guard of \<open>compact\<close>. \<open>dumps\<close> renders a
  JSON column as its text. The procurement tables of the schema have no writer in the
  Python code and are taken to be empty.
\<close>

section \<open>Operations\<close>

record stats =
  ms_sessions :: nat
  ms_runs :: nat
  ms_events :: nat
  ms_messages :: nat
  ms_artifacts :: nat
  ms_pins :: nat
  ms_leases :: nat
  ms_invocations :: nat
  ms_attempts :: nat
  ms_artifact_bytes :: nat

definition maintenance_stats :: "db \<Rightarrow> stats" where
  "maintenance_stats db =
     \<lparr>ms_sessions = length (d_sessions db), ms_runs = length (d_runs db), ms_events = length (d_events db),
      ms_messages = length (d_messages db), ms_artifacts = length (d_artifacts db),
      ms_pins = length (d_pins db), ms_leases = length (d_leases db),
      ms_invocations = length (d_invocations db), ms_attempts = length (d_attempts db),
      ms_artifact_bytes = sum_list (map (\<lambda>a. case af_size_bytes a of None \<Rightarrow> 0 | Some n \<Rightarrow> n) (d_artifacts db))\<rparr>"

fun cell_text :: "(pyval \<Rightarrow> utext) \<Rightarrow> json_cell \<Rightarrow> utext" where
  "cell_text dumps (JsonText v) = dumps v"
| "cell_text dumps (JsonBad t) = t"

text \<open>Every non-NULL text value that could mention an artifact, joined by newlines.\<close>

definition corpus_values :: "(pyval \<Rightarrow> utext) \<Rightarrow> db \<Rightarrow> utext list" where
  "corpus_values dumps db =
     concat (map (\<lambda>r. cell_text dumps (rn_metadata r) #
        List.map_filter id [rn_output_summary r, rn_error r]) (d_runs db)) @
     concat (map (\<lambda>m. mr_content m #
        List.map_filter (map_option dumps) [mr_tool_calls m, mr_tool_result m]) (d_messages db)) @
     map (\<lambda>e. dumps (VDict (ev_payload e))) (d_events db) @
     map (\<lambda>c. cell_text dumps (cr_data c)) (d_checkpoints db) @
     List.map_filter (\<lambda>i. map_option dumps (ir_result i)) (d_invocations db)"

definition corpus :: "(pyval \<Rightarrow> utext) \<Rightarrow> db \<Rightarrow> utext" where
  "corpus dumps db = join [10] (corpus_values dumps db)"

definition orphan_artifacts :: "(pyval \<Rightarrow> utext) \<Rightarrow> db \<Rightarrow> artifact_row list" where
  "orphan_artifacts dumps db =
     (let text = corpus dumps db
      in filter (\<lambda>a. \<not> text_in (lit (af_id a)) text \<and> \<not> text_in (lit (af_sha256 a)) text) (d_artifacts db))"

definition collectable :: "run_status \<Rightarrow> bool" where
  "collectable s \<longleftrightarrow> s \<in> {RS_completed, RS_failed, RS_cancelled, RS_interrupted}"

definition last_activity :: "run_row \<Rightarrow> time" where
  "last_activity r = (case rn_finished_at r of Some t \<Rightarrow> t | None \<Rightarrow> rn_updated_at r)"

definition gc_eligible :: "time \<Rightarrow> time \<Rightarrow> db \<Rightarrow> run_row \<Rightarrow> bool" where
  "gc_eligible now cutoff db r \<longleftrightarrow>
     collectable (rn_status r) \<and> last_activity r < cutoff \<and>
     \<not> list_ex (\<lambda>p. pn_run_id p = rn_id r) (d_pins db) \<and>
     \<not> list_ex (\<lambda>l. lr_run_id l = rn_id r \<and> now < lr_expires_at l) (d_leases db)"

definition gc_candidates :: "time \<Rightarrow> time \<Rightarrow> db \<Rightarrow> string list" where
  "gc_candidates now cutoff db =
     map rn_id (sort_key rn_created_at (filter (gc_eligible now cutoff db) (d_runs db)))"

record gc_plan =
  gp_cutoff :: time
  gp_run_ids :: "string list"
  gp_orphan_ids :: "string list"
  gp_orphan_bytes :: nat

definition day_us :: nat where
  "day_us = 24 * 60 * 60 * 1000000"

definition plan_gc :: "(pyval \<Rightarrow> utext) \<Rightarrow> time \<Rightarrow> int \<Rightarrow> db \<Rightarrow> py_error + gc_plan" where
  "plan_gc dumps now days db =
     (if days < 0 then Inl (ValueError (lit ''older_than_days must be non-negative''))
      else if now < nat days * day_us then Inl OverflowError
      else let cutoff = now - nat days * day_us;
               orphans = orphan_artifacts dumps db
           in Inr \<lparr>gp_cutoff = cutoff, gp_run_ids = gc_candidates now cutoff db,
                   gp_orphan_ids = map af_id orphans,
                   gp_orphan_bytes =
                     sum_list (map (\<lambda>a. case af_size_bytes a of None \<Rightarrow> 0 | Some n \<Rightarrow> n) orphans)\<rparr>)"

text \<open>The DELETE statements for a list of runs, in their order.\<close>

definition delete_runs :: "string list \<Rightarrow> db \<Rightarrow> db" where
  "delete_runs ids db =
     (let gone = (\<lambda>k. k \<in> set ids);
          db1 = db\<lparr>d_attempts := sql_delete (\<lambda>a. list_ex (\<lambda>i. ir_id i = at_invocation_id a \<and> gone (ir_run_id i))
                     (d_invocations db)) (d_attempts db)\<rparr>;
          db2 = db1\<lparr>d_invocations := sql_delete (\<lambda>i. gone (ir_run_id i)) (d_invocations db1)\<rparr>;
          db3 = db2\<lparr>d_approvals := sql_delete (\<lambda>a. gone (ap_run_id a)) (d_approvals db2)\<rparr>;
          db4 = db3\<lparr>d_checkpoints := sql_delete (\<lambda>c. gone (cr_run_id c)) (d_checkpoints db3)\<rparr>;
          db5 = db4\<lparr>d_messages := sql_delete (\<lambda>m. gone (mr_run_id m)) (d_messages db4)\<rparr>;
          db6 = db5\<lparr>d_events := sql_delete (\<lambda>e. gone (ev_run_id e)) (d_events db5)\<rparr>;
          db7 = db6\<lparr>d_stops := sql_delete (\<lambda>s. gone (sr_run_id s)) (d_stops db6)\<rparr>;
          db8 = db7\<lparr>d_leases := sql_delete (\<lambda>l. gone (lr_run_id l)) (d_leases db7)\<rparr>;
          db9 = db8\<lparr>d_pins := sql_delete (\<lambda>p. gone (pn_run_id p)) (d_pins db8)\<rparr>
      in db9\<lparr>d_runs := sql_delete (\<lambda>r. gone (rn_id r)) (d_runs db9)\<rparr>)"

record gc_report =
  gr_plan :: gc_plan
  gr_deleted_runs :: nat
  gr_skipped :: "string list"
  gr_artifact_paths :: "string list"

text \<open>
  \<open>db0\<close> is the store when the plan is made (at \<open>now0\<close>), \<open>db\<close> the store when the write
  lock is taken (\<open>now\<close>): other writers may have run in between.
\<close>

definition apply_gc ::
  "(pyval \<Rightarrow> utext) \<Rightarrow> time \<Rightarrow> time \<Rightarrow> int \<Rightarrow> db \<Rightarrow> db \<Rightarrow> py_error + db \<times> gc_report" where
  "apply_gc dumps now0 now days db0 db =
     (case plan_gc dumps now0 days db0 of
        Inl e \<Rightarrow> Inl e
      | Inr plan \<Rightarrow>
          let planned = gp_run_ids plan;
              eligible = (if planned = [] then [] else gc_candidates now (gp_cutoff plan) db);
              ids = filter (\<lambda>k. k \<in> set eligible) planned;
              skipped = filter (\<lambda>k. k \<notin> set eligible) planned;
              db1 = (if ids = [] then db else delete_runs ids db);
              orphans = orphan_artifacts dumps db1;
              db2 = db1\<lparr>d_artifacts := sql_delete (\<lambda>a. af_id a \<in> set (map af_id orphans)) (d_artifacts db1)\<rparr>
          in Inr (db2, \<lparr>gr_plan = plan, gr_deleted_runs = length ids, gr_skipped = skipped,
                        gr_artifact_paths = map af_path orphans\<rparr>))"

text \<open>
  The files after the commit: only regular files below the artifact root go. \<open>resolve\<close> is
  \<open>Path.resolve\<close>, a path is its list of components.
\<close>

fun remove_files ::
  "(string \<Rightarrow> string list) \<Rightarrow> string list \<Rightarrow> string list \<Rightarrow> string list set \<Rightarrow> string list set \<times> nat" where
  "remove_files resolve base [] files = (files, 0)"
| "remove_files resolve base (p # ps) files =
     (let path = resolve p
      in if take (length base) path = base \<and> path \<in> files
         then (let (fs, n) = remove_files resolve base ps (files - {path}) in (fs, Suc n))
         else remove_files resolve base ps files)"

definition compact_guard :: "time \<Rightarrow> db \<Rightarrow> py_error + unit" where
  "compact_guard now db =
     (if sql_count (\<lambda>l. now < lr_expires_at l) (d_leases db) \<noteq> 0
      then Inl (RuntimeError (lit ''cannot compact while active run leases exist'')) else Inr ())"

section \<open>Lemmas\<close>

lemma delete_runs_effect:
  "delete_runs ids db = db
     \<lparr>d_runs := filter (\<lambda>r. rn_id r \<notin> set ids) (d_runs db),
      d_messages := filter (\<lambda>m. mr_run_id m \<notin> set ids) (d_messages db),
      d_events := filter (\<lambda>e. ev_run_id e \<notin> set ids) (d_events db),
      d_approvals := filter (\<lambda>a. ap_run_id a \<notin> set ids) (d_approvals db),
      d_checkpoints := filter (\<lambda>c. cr_run_id c \<notin> set ids) (d_checkpoints db),
      d_stops := filter (\<lambda>s. sr_run_id s \<notin> set ids) (d_stops db),
      d_leases := filter (\<lambda>l. lr_run_id l \<notin> set ids) (d_leases db),
      d_pins := filter (\<lambda>p. pn_run_id p \<notin> set ids) (d_pins db),
      d_invocations := filter (\<lambda>i. ir_run_id i \<notin> set ids) (d_invocations db),
      d_attempts := filter (\<lambda>a. \<not> (\<exists>i \<in> set (d_invocations db). ir_id i = at_invocation_id a \<and>
          ir_run_id i \<in> set ids)) (d_attempts db)\<rparr>"
  by (simp add: delete_runs_def Let_def sql_delete_def list_ex_iff)

lemma delete_runs_Nil: "delete_runs [] db = db"
  by (simp add: delete_runs_effect)

lemma distinct_map_filter': "distinct (map f xs) \<Longrightarrow> distinct (map f (filter p xs))"
  by (simp add: distinct_map_filter)

lemma filter_refs:
  "f ` set xs \<subseteq> g ` set ys \<Longrightarrow> f ` set (filter (\<lambda>x. f x \<notin> K) xs) \<subseteq> g ` set (filter (\<lambda>y. g y \<notin> K) ys)"
  by (force simp: image_iff subset_iff)

lemma attempts_refs:
  assumes "at_invocation_id ` set (d_attempts db) \<subseteq> ir_id ` set (d_invocations db)"
  shows "at_invocation_id ` set (filter (\<lambda>a. \<forall>i \<in> set (d_invocations db). ir_id i = at_invocation_id a \<longrightarrow>
          ir_run_id i \<notin> K) (d_attempts db)) \<subseteq> ir_id ` set (filter (\<lambda>i. ir_run_id i \<notin> K) (d_invocations db))"
proof
  fix x
  assume "x \<in> at_invocation_id ` set (filter (\<lambda>a. \<forall>i \<in> set (d_invocations db). ir_id i = at_invocation_id a \<longrightarrow>
          ir_run_id i \<notin> K) (d_attempts db))"
  then obtain a where a: "a \<in> set (d_attempts db)" "x = at_invocation_id a"
    "\<forall>i \<in> set (d_invocations db). ir_id i = x \<longrightarrow> ir_run_id i \<notin> K" by auto
  with assms obtain i where "i \<in> set (d_invocations db)" "ir_id i = x" by force
  with a(3) show "x \<in> ir_id ` set (filter (\<lambda>i. ir_run_id i \<notin> K) (d_invocations db))" by force
qed

lemma keys_ok_delete: "keys_ok db \<Longrightarrow> keys_ok (delete_runs ids db)"
  by (simp add: delete_runs_effect keys_ok_def distinct_map_filter')

lemma filter_image_sub: "f ` set xs \<subseteq> A \<Longrightarrow> f ` set (filter p xs) \<subseteq> A"
  by auto

lemma refs_ok_delete:
  assumes "refs_ok db" shows "refs_ok (delete_runs ids db)"
proof -
  note r = assms [unfolded refs_ok_def]
  have "rn_session_id ` set (filter (\<lambda>r. rn_id r \<notin> set ids) (d_runs db)) \<subseteq> se_id ` set (d_sessions db)"
    using r by (intro filter_image_sub) simp
  then show ?thesis
    using r by (simp add: delete_runs_effect refs_ok_def filter_refs attempts_refs del: set_filter)
qed

lemma sorted_wrt_filter': "sorted_wrt P xs \<Longrightarrow> sorted_wrt P (filter q xs)"
  by (induction xs) auto

lemma log_ok_delete: "log_ok db \<Longrightarrow> log_ok (delete_runs ids db)"
proof -
  assume ok: "log_ok db"
  have "sorted_wrt (<) (map ev_global_seq (filter p (d_events db)))" for p
    using ok by (simp add: log_ok_def sorted_wrt_map sorted_wrt_filter')
  then show ?thesis
    using ok by (simp add: log_ok_def delete_runs_effect sorted_wrt_filter' distinct_map_filter')
qed

lemma delete_runs_db_ok: "db_ok db \<Longrightarrow> db_ok (delete_runs ids db)"
  by (simp add: db_ok_def keys_ok_delete refs_ok_delete log_ok_delete)

lemma gc_candidates_iff:
  "k \<in> set (gc_candidates now cutoff db) \<longleftrightarrow> (\<exists>r \<in> set (d_runs db). rn_id r = k \<and> gc_eligible now cutoff db r)"
  by (auto simp: gc_candidates_def)

lemma apply_gc_unfold:
  assumes "apply_gc dumps now0 now days db0 db = Inr (db', rep)"
  obtains ids db1 where "db1 = delete_runs ids db"
    "set ids = set (gp_run_ids (gr_plan rep)) - set (gr_skipped rep)"
    "plan_gc dumps now0 days db0 = Inr (gr_plan rep)"
    "\<And>k. k \<in> set ids \<Longrightarrow> k \<in> set (gc_candidates now (gp_cutoff (gr_plan rep)) db)"
    "db' = db1\<lparr>d_artifacts := sql_delete (\<lambda>a. af_id a \<in> set (map af_id (orphan_artifacts dumps db1))) (d_artifacts db1)\<rparr>"
proof -
  from assms obtain plan where plan: "plan_gc dumps now0 days db0 = Inr plan"
    by (auto simp: apply_gc_def split: sum.splits)
  let ?el = "if gp_run_ids plan = [] then [] else gc_candidates now (gp_cutoff plan) db"
  let ?ids = "filter (\<lambda>k. k \<in> set ?el) (gp_run_ids plan)"
  have d: "(if ?ids = [] then db else delete_runs ?ids db) = delete_runs ?ids db"
    by (cases "?ids = []") (simp_all only: delete_runs_Nil if_True if_False simp_thms)
  from assms plan have rep: "gr_plan rep = plan" "gr_skipped rep = filter (\<lambda>k. k \<notin> set ?el) (gp_run_ids plan)"
    by (auto simp: apply_gc_def Let_def)
  show ?thesis
  proof (rule that [of "delete_runs ?ids db" ?ids])
    show "db' = (delete_runs ?ids db)\<lparr>d_artifacts := sql_delete
        (\<lambda>a. af_id a \<in> set (map af_id (orphan_artifacts dumps (delete_runs ?ids db)))) (d_artifacts (delete_runs ?ids db))\<rparr>"
      using assms plan unfolding apply_gc_def by (simp only: sum.case Let_def d prod.inject sum.inject)
  qed (use rep plan in \<open>auto split: if_splits\<close>)
qed

lemma apply_gc_db_ok:
  assumes "apply_gc dumps now0 now days db0 db = Inr (db', rep)" and "db_ok db"
  shows "db_ok db'"
proof -
  from apply_gc_unfold [OF assms(1)] obtain ids db1 where db1: "db1 = delete_runs ids db"
    and db': "db' = db1\<lparr>d_artifacts := sql_delete (\<lambda>a. af_id a \<in> set (map af_id (orphan_artifacts dumps db1))) (d_artifacts db1)\<rparr>"
    by metis
  have ok: "db_ok db1" unfolding db1 by (rule delete_runs_db_ok [OF assms(2)])
  show ?thesis
    unfolding db' by (intro db_ok_set_artifacts ok distinct_sql_delete db_okD(11,12) [OF ok])
qed



end
