(* ===== verification/Artifact_Store.thy ===== *)
theory Artifact_Store
  imports Redaction Py_Text
begin

text \<open>
  \<open>src/src/agentharness/storage/artifacts.py\<close>: the content-addressed file store. Files are a
  map from the hash that names them to their bytes (the path is the hash under its first
  two characters). SHA-256, JSON parsing and printing and Unicode lower-casing are
  parameters; text is taken to be encodable.
\<close>

record codec =
  co_sha :: "nat list \<Rightarrow> string"
  co_loads :: "utext \<Rightarrow> pyval option"
  co_dumps :: "pyval \<Rightarrow> utext"
  co_lower :: "utext \<Rightarrow> utext"

datatype payload = PText utext | PBytes "nat list"

record artifact_meta =
  am_id :: string
  am_sha256 :: string
  am_content_type :: utext
  am_size_bytes :: nat
  am_summary :: utext
  am_created_at :: time

type_synonym file_map = "string \<rightharpoonup> nat list"

definition media_type :: "codec \<Rightarrow> utext \<Rightarrow> utext" where
  "media_type co ct = co_lower co (strip (takeWhile (\<lambda>c. c \<noteq> 59) ct))"

definition starts_with :: "utext \<Rightarrow> utext \<Rightarrow> bool" where
  "starts_with pre t \<longleftrightarrow> take (length pre) t = pre"

definition ends_with :: "utext \<Rightarrow> utext \<Rightarrow> bool" where
  "ends_with suf t \<longleftrightarrow> length suf \<le> length t \<and> drop (length t - length suf) t = suf"

definition is_text_content_type :: "codec \<Rightarrow> utext \<Rightarrow> bool" where
  "is_text_content_type co ct =
     (let m = media_type co ct
      in starts_with (lit ''text/'') m \<or>
         m \<in> set (map lit [''application/json'', ''application/ld+json'', ''application/x-ndjson'',
              ''application/xml'', ''application/yaml'', ''application/x-yaml'', ''application/javascript'']) \<or>
         ends_with (lit ''+json'') m \<or> ends_with (lit ''+xml'') m)"

definition is_json_content_type :: "codec \<Rightarrow> utext \<Rightarrow> bool" where
  "is_json_content_type co ct =
     (let m = media_type co ct
      in m \<in> set (map lit [''application/json'', ''application/ld+json'', ''application/x-ndjson'']) \<or>
         ends_with (lit ''+json'') m)"

definition payload_text :: "codec \<Rightarrow> utext \<Rightarrow> payload \<Rightarrow> utext option" where
  "payload_text co ct data =
     (case data of
        PText t \<Rightarrow> Some t
      | PBytes b \<Rightarrow> if is_text_content_type co ct then utf8_decode b else None)"

definition redact_content :: "codec \<Rightarrow> redactor \<Rightarrow> utext \<Rightarrow> utext \<Rightarrow> utext" where
  "redact_content co rd ct t =
     (if is_json_content_type co ct
      then (case co_loads co t of
              Some v \<Rightarrow> co_dumps co (redact_obj rd v)
            | None \<Rightarrow> redact_text rd t)
      else redact_text rd t)"

definition stored_bytes :: "codec \<Rightarrow> redactor \<Rightarrow> utext \<Rightarrow> payload \<Rightarrow> nat list" where
  "stored_bytes co rd ct data =
     (case payload_text co ct data of
        Some t \<Rightarrow> utf8_encode (redact_content co rd ct t)
      | None \<Rightarrow> (case data of PBytes b \<Rightarrow> b | PText t \<Rightarrow> utf8_encode t))"

definition artifact_put ::
  "codec \<Rightarrow> redactor \<Rightarrow> time \<Rightarrow> string \<Rightarrow> payload \<Rightarrow> utext \<Rightarrow> utext option \<Rightarrow> file_map \<Rightarrow> file_map \<times> artifact_meta" where
  "artifact_put co rd now fresh data ct summary files =
     (let bytes = stored_bytes co rd ct data;
          sha = co_sha co bytes;
          files' = (if files sha = None then files(sha \<mapsto> bytes) else files);
          sum_text = (case summary of
              None \<Rightarrow>
                (case utf8_decode bytes of
                   Some t \<Rightarrow> redact_text rd (take 200 t)
                 | None \<Rightarrow> lit ''<binary '' @ str_nat (length bytes) @ lit '' bytes>'')
            | Some s \<Rightarrow> take 2000 (redact_text rd s))
      in (files', \<lparr>am_id = fresh, am_sha256 = sha, am_content_type = ct, am_size_bytes = length bytes,
                   am_summary = sum_text, am_created_at = now\<rparr>))"

definition artifact_put_json ::
  "codec \<Rightarrow> redactor \<Rightarrow> time \<Rightarrow> string \<Rightarrow> pyval \<Rightarrow> utext option \<Rightarrow> file_map \<Rightarrow> file_map \<times> artifact_meta" where
  "artifact_put_json co rd now fresh obj summary files =
     artifact_put co rd now fresh (PText (co_dumps co (redact_obj rd obj))) (lit ''application/json'') summary files"

definition get_bytes :: "string \<Rightarrow> file_map \<Rightarrow> nat list option" where
  "get_bytes sha files = files sha"

definition get_text :: "string \<Rightarrow> file_map \<Rightarrow> utext option" where
  "get_text sha files = map_option utf8_decode_replace (get_bytes sha files)"

section \<open>Integrity\<close>

definition files_ok :: "codec \<Rightarrow> file_map \<Rightarrow> bool" where
  "files_ok co files \<longleftrightarrow> (\<forall>sha bytes. files sha = Some bytes \<longrightarrow> co_sha co bytes = sha)"

lemma put_files_ok: "files_ok co files \<Longrightarrow> files_ok co (fst (artifact_put co rd now fresh data ct summary files))"
  by (auto simp: files_ok_def artifact_put_def Let_def)

text \<open>A sequence of puts.\<close>

fun put_all :: "codec \<Rightarrow> redactor \<Rightarrow> (time \<times> string \<times> payload \<times> utext \<times> utext option) list \<Rightarrow> file_map \<Rightarrow> file_map" where
  "put_all co rd [] files = files"
| "put_all co rd ((now, fresh, data, ct, summary) # ps) files =
     put_all co rd ps (fst (artifact_put co rd now fresh data ct summary files))"

lemma put_all_files_ok: "files_ok co files \<Longrightarrow> files_ok co (put_all co rd ps files)"
proof (induction ps arbitrary: files)
  case (Cons p ps)
  then show ?case by (cases p) (simp add: put_files_ok)
qed simp

lemma put_all_keeps: "files sha = Some b \<Longrightarrow> put_all co rd ps files sha = Some b"
proof (induction ps arbitrary: files)
  case (Cons p ps)
  obtain now fresh data ct summary where p: "p = (now, fresh, data, ct, summary)" by (cases p)
  from Cons.prems have "fst (artifact_put co rd now fresh data ct summary files) sha = Some b"
    by (auto simp add: artifact_put_def Let_def)
  then show ?case unfolding p put_all.simps by (rule Cons.IH)
qed simp

text \<open>
  C39. The artifact store is content addressed and append only: whatever was put before
  and whatever is put after, the hash that a put returned retrieves the (redacted) bytes of
  that put, provided SHA-256 does not collide on them, and text that was put as text comes
  back as the redacted text.
\<close>

theorem artifact_roundtrip:
  assumes collision_free: "\<And>b. co_sha co b = co_sha co (stored_bytes co rd ct data) \<Longrightarrow> b = stored_bytes co rd ct data"
    and put: "artifact_put co rd now fresh data ct summary (put_all co rd before Map.empty) = (files, meta)"
  shows "get_bytes (am_sha256 meta) (put_all co rd after files) = Some (stored_bytes co rd ct data) \<and>
     am_size_bytes meta = length (stored_bytes co rd ct data) \<and>
     (\<forall>t. data = PText t \<longrightarrow> list_all scalar (redact_content co rd ct t) \<longrightarrow>
        get_text (am_sha256 meta) (put_all co rd after files) = Some (redact_content co rd ct t))"
proof -
  let ?b = "stored_bytes co rd ct data" and ?f0 = "put_all co rd before Map.empty"
  have ok: "files_ok co ?f0" by (rule put_all_files_ok) (simp add: files_ok_def)
  from put have m: "am_sha256 meta = co_sha co ?b" "am_size_bytes meta = length ?b"
    and f: "files = (if ?f0 (co_sha co ?b) = None then ?f0(co_sha co ?b \<mapsto> ?b) else ?f0)"
    by (auto simp: artifact_put_def Let_def)
  have "files (co_sha co ?b) = Some ?b"
  proof (cases "?f0 (co_sha co ?b)")
    case (Some b)
    with ok have "b = ?b" by (intro collision_free) (simp add: files_ok_def)
    with Some f show ?thesis by simp
  qed (simp add: f)
  then have g: "put_all co rd after files (co_sha co ?b) = Some ?b" by (rule put_all_keeps)
  then show ?thesis
    by (auto simp: get_bytes_def get_text_def m stored_bytes_def payload_text_def utf8_replace_roundtrip)
qed

definition demo_codec :: codec where
  "demo_codec = \<lparr>co_sha = map char_of, co_loads = (\<lambda>_. None), co_dumps = (\<lambda>_. []), co_lower = id\<rparr>"

theorem artifact_roundtrip_witness:
  "get_bytes (am_sha256 (snd (artifact_put (demo_codec\<lparr>co_sha := \<lambda>b. if b = [104, 105] then ''x'' else ''y''\<rparr>)
        demo_redactor 1 ''f'' (PText [104, 105]) (lit ''text/plain'') None Map.empty)))
     (fst (artifact_put (demo_codec\<lparr>co_sha := \<lambda>b. if b = [104, 105] then ''x'' else ''y''\<rparr>)
        demo_redactor 1 ''f'' (PText [104, 105]) (lit ''text/plain'') None Map.empty)) = Some [104, 105]"
proof -
  let ?co = "demo_codec\<lparr>co_sha := \<lambda>b. if b = [104, 105] then ''x'' else ''y''\<rparr>"
  let ?put = "artifact_put ?co demo_redactor 1 ''f'' (PText [104, 105]) (lit ''text/plain'') None Map.empty"
  have nj: "\<not> is_json_content_type ?co (lit ''text/plain'')"
    by (simp add: is_json_content_type_def media_type_def demo_codec_def lit_def strip_def lstrip_def rstrip_def
        is_space_def ends_with_def Let_def)
  have s: "stored_bytes ?co demo_redactor (lit ''text/plain'') (PText [104, 105]) = [104, 105]"
    using nj by (simp add: stored_bytes_def payload_text_def redact_content_def redact_text_def demo_redactor_def
        utf8_char_def)
  have p: "artifact_put ?co demo_redactor 1 ''f'' (PText [104, 105]) (lit ''text/plain'') None
      (put_all ?co demo_redactor [] Map.empty) = (fst ?put, snd ?put)" by simp
  have "get_bytes (am_sha256 (snd ?put)) (put_all ?co demo_redactor [] (fst ?put)) =
      Some (stored_bytes ?co demo_redactor (lit ''text/plain'') (PText [104, 105]))"
    by (rule artifact_roundtrip [OF _ p, THEN conjunct1]) (simp add: s split: if_splits)
  then show ?thesis unfolding s by simp
qed

end
