(* ===== verification/Gateway.thy ===== *)
theory Gateway
  imports Contracts Py_Text
begin

text \<open>
  \<open>src/src/agentharness/providers/gateway.py\<close>: the token bucket, the sliding-window circuit
  breaker with its half-open probe, and the gate every provider call passes. Times and
  rates are exact reals (the code's floats); the clock reading of each call is an
  argument. \<open>rnd\<close> is \<open>round(x, 3)\<close>.
\<close>

section \<open>Configuration\<close>

record gateway_config =
  gc_provider :: string
  gc_max_concurrency :: nat
  gc_qps :: real
  gc_window_s :: real
  gc_failure_rate :: real
  gc_min_samples :: nat
  gc_open_s :: real
  gc_bucket_wait_s :: real

definition env_get :: "(string \<Rightarrow> utext option) \<Rightarrow> string \<Rightarrow> string \<Rightarrow> utext" where
  "env_get env k d = (case env k of None \<Rightarrow> lit d | Some v \<Rightarrow> v)"

text \<open>\<open>env\<close> is the environment, \<open>to_int\<close>/\<open>to_float\<close> Python's parsers (\<open>None\<close>: ValueError).\<close>

definition gateway_config_from_env ::
  "(string \<Rightarrow> utext option) \<Rightarrow> (utext \<Rightarrow> int option) \<Rightarrow> (utext \<Rightarrow> real option) \<Rightarrow> string \<Rightarrow> gateway_config option" where
  "gateway_config_from_env env to_int to_float provider =
     (let get = env_get env
      in case (to_int (get ''AGENTHARNESS_PROVIDER_MAX_CONCURRENCY'' ''4''),
               to_float (get ''AGENTHARNESS_PROVIDER_QPS'' ''10''),
               to_float (get ''AGENTHARNESS_PROVIDER_CIRCUIT_WINDOW_S'' ''30''),
               to_float (get ''AGENTHARNESS_PROVIDER_CIRCUIT_FAILURE_RATE'' ''0.5''),
               to_int (get ''AGENTHARNESS_PROVIDER_CIRCUIT_MIN_SAMPLES'' ''5''),
               to_float (get ''AGENTHARNESS_PROVIDER_CIRCUIT_OPEN_S'' ''60''),
               to_float (get ''AGENTHARNESS_PROVIDER_BUCKET_WAIT_S'' ''0.5'')) of
           (Some c, Some q, Some w, Some f, Some m, Some s, Some b) \<Rightarrow>
             Some \<lparr>gc_provider = provider, gc_max_concurrency = nat (max 1 c), gc_qps = max (1 / 10) q,
                   gc_window_s = max 1 w, gc_failure_rate = min 1 (max (5 / 100) f),
                   gc_min_samples = nat (max 1 m), gc_open_s = max 1 s, gc_bucket_wait_s = max 0 b\<rparr>
         | _ \<Rightarrow> None)"

definition config_ok :: "gateway_config \<Rightarrow> bool" where
  "config_ok c \<longleftrightarrow>
     1 \<le> gc_max_concurrency c \<and> 0 < gc_qps c \<and> 1 \<le> gc_window_s c \<and>
     0 < gc_failure_rate c \<and> gc_failure_rate c \<le> 1 \<and> 1 \<le> gc_min_samples c \<and>
     1 \<le> gc_open_s c \<and> 0 \<le> gc_bucket_wait_s c"

lemma config_from_env_ok: "gateway_config_from_env env ti tf p = Some c \<Longrightarrow> config_ok c"
  by (auto simp: gateway_config_from_env_def config_ok_def Let_def split: option.splits)

section \<open>Token bucket\<close>

record bucket =
  bk_rate :: real
  bk_tokens :: real
  bk_last :: real

definition new_bucket :: "real \<Rightarrow> real \<Rightarrow> bucket" where
  "new_bucket rate now = \<lparr>bk_rate = max 0 rate, bk_tokens = max 0 rate, bk_last = now\<rparr>"

definition take_tokens :: "real \<Rightarrow> real \<Rightarrow> bucket \<Rightarrow> bucket \<times> (py_error + real)" where
  "take_tokens now cost b =
     (let elapsed = max 0 (now - bk_last b);
          tokens = min (bk_rate b) (bk_tokens b + elapsed * bk_rate b);
          b' = b\<lparr>bk_tokens := tokens, bk_last := now\<rparr>
      in if cost \<le> tokens then (b'\<lparr>bk_tokens := tokens - cost\<rparr>, Inr 0)
         else if bk_rate b = 0 then (b', Inl ZeroDivisionError)
         else (b', Inr ((cost - tokens) / bk_rate b)))"

section \<open>Circuit breaker\<close>

datatype circuit_state = CClosed | COpen | CHalfOpen

record breaker =
  br_window_s :: real
  br_failure_rate :: real
  br_min_samples :: nat
  br_open_s :: real
  br_outcomes :: "(real \<times> bool) list"
  br_open_until :: real
  br_probe_inflight :: bool

definition new_breaker :: "gateway_config \<Rightarrow> breaker" where
  "new_breaker c =
     \<lparr>br_window_s = gc_window_s c, br_failure_rate = gc_failure_rate c,
      br_min_samples = gc_min_samples c, br_open_s = gc_open_s c, br_outcomes = [],
      br_open_until = 0, br_probe_inflight = False\<rparr>"

definition breaker_state :: "real \<Rightarrow> breaker \<Rightarrow> circuit_state" where
  "breaker_state now b =
     (if now < br_open_until b then COpen
      else if 0 < br_open_until b then CHalfOpen else CClosed)"

definition breaker_allow :: "real \<Rightarrow> breaker \<Rightarrow> bool" where
  "breaker_allow now b \<longleftrightarrow> breaker_state now b \<noteq> COpen"

definition try_probe :: "real \<Rightarrow> breaker \<Rightarrow> breaker \<times> bool" where
  "try_probe now b =
     (if breaker_state now b \<noteq> CHalfOpen then (b, True)
      else if br_probe_inflight b then (b, False)
      else (b\<lparr>br_probe_inflight := True\<rparr>, True))"

definition prune :: "real \<Rightarrow> breaker \<Rightarrow> breaker" where
  "prune now b = b\<lparr>br_outcomes := dropWhile (\<lambda>(t, ok). br_window_s b < now - t) (br_outcomes b)\<rparr>"

definition count_failures :: "(real \<times> bool) list \<Rightarrow> nat" where
  "count_failures os = length (filter (\<lambda>(t, ok). \<not> ok) os)"

definition breaker_record :: "real \<Rightarrow> bool \<Rightarrow> breaker \<Rightarrow> breaker \<times> circuit_state" where
  "breaker_record now ok b =
     (if 0 < br_open_until b \<and> br_open_until b \<le> now
      then (if ok
            then (b\<lparr>br_probe_inflight := False, br_open_until := 0, br_outcomes := []\<rparr>, CClosed)
            else (b\<lparr>br_probe_inflight := False, br_open_until := now + br_open_s b\<rparr>, COpen))
      else
        let b1 = prune now b;
            b2 = prune now (b1\<lparr>br_outcomes := br_outcomes b1 @ [(now, ok)]\<rparr>);
            n = length (br_outcomes b2)
        in if n < br_min_samples b2 then (b2, CClosed)
           else if br_failure_rate b2 \<le> real (count_failures (br_outcomes b2)) / real n
           then (b2\<lparr>br_open_until := now + br_open_s b2, br_probe_inflight := False\<rparr>, COpen)
           else (b2, CClosed))"

definition breaker_abort_probe :: "real \<Rightarrow> breaker \<Rightarrow> breaker" where
  "breaker_abort_probe now b =
     (if breaker_state now b = CHalfOpen then b\<lparr>br_probe_inflight := False\<rparr> else b)"

definition remaining_open_s :: "real \<Rightarrow> breaker \<Rightarrow> real" where
  "remaining_open_s now b = max 0 (br_open_until b - now)"

section \<open>The gateway\<close>

datatype gateway_event = GE_circuit_open | GE_rate_limited | GE_circuit_opened | GE_circuit_closed | GE_degraded

record gateway_stats =
  gs_requests :: nat
  gs_successes :: nat
  gs_failures :: nat
  gs_rate_limited :: nat
  gs_circuit_blocked :: nat
  gs_degraded :: nat

text \<open>\<open>gw_permits\<close> is the semaphore's value; \<open>gw_events\<close> the notifications, oldest first.\<close>

record gateway =
  gw_config :: gateway_config
  gw_permits :: nat
  gw_bucket :: bucket
  gw_breaker :: breaker
  gw_stats :: gateway_stats
  gw_events :: "(gateway_event \<times> real) list"

definition new_gateway :: "gateway_config \<Rightarrow> real \<Rightarrow> gateway" where
  "new_gateway c now =
     \<lparr>gw_config = c, gw_permits = gc_max_concurrency c, gw_bucket = new_bucket (gc_qps c) now,
      gw_breaker = new_breaker c,
      gw_stats = \<lparr>gs_requests = 0, gs_successes = 0, gs_failures = 0, gs_rate_limited = 0,
                  gs_circuit_blocked = 0, gs_degraded = 0\<rparr>,
      gw_events = []\<rparr>"

text \<open>The event carries its \<open>retry_after_s\<close> (0 where the detail has none).\<close>

definition notify :: "gateway_event \<Rightarrow> real \<Rightarrow> gateway \<Rightarrow> gateway" where
  "notify e retry g = g\<lparr>gw_events := gw_events g @ [(e, retry)]\<rparr>"

datatype blocked = RateLimited real | CircuitOpen real

text \<open>
  \<open>acquire\<close> up to its first await: the breaker's verdict. \<open>Inr held\<close>: go on, holding the
  half-open probe or not.
\<close>

definition acquire_enter :: "(real \<Rightarrow> real) \<Rightarrow> real \<Rightarrow> gateway \<Rightarrow> gateway \<times> (blocked + bool)" where
  "acquire_enter rnd now g =
     (let st = breaker_state now (gw_breaker g);
          (b, held, refused) =
            (case st of
               COpen \<Rightarrow> (gw_breaker g, False, True)
             | CHalfOpen \<Rightarrow> (let (b, h) = try_probe now (gw_breaker g) in (b, h, \<not> h))
             | CClosed \<Rightarrow> (gw_breaker g, False, False));
          g1 = g\<lparr>gw_breaker := b\<rparr>
      in if refused
         then let retry = (if st = COpen then rnd (remaining_open_s now b) else 1 / 2)
              in (notify GE_circuit_open retry
                    (g1\<lparr>gw_stats := (gw_stats g1)\<lparr>gs_circuit_blocked := Suc (gs_circuit_blocked (gw_stats g1))\<rparr>\<rparr>),
                  Inl (CircuitOpen retry))
         else (g1, Inr held))"

text \<open>The \<open>except BaseException\<close> clause.\<close>

definition acquire_cleanup :: "real \<Rightarrow> bool \<Rightarrow> bool \<Rightarrow> gateway \<Rightarrow> gateway" where
  "acquire_cleanup now acquired held g =
     (let g1 = (if acquired then g\<lparr>gw_permits := Suc (gw_permits g)\<rparr> else g)
      in if held then g1\<lparr>gw_breaker := breaker_abort_probe now (gw_breaker g1)\<rparr> else g1)"

definition rate_limited :: "real \<Rightarrow> gateway \<Rightarrow> gateway" where
  "rate_limited retry g =
     notify GE_rate_limited retry
       (g\<lparr>gw_stats := (gw_stats g)\<lparr>gs_rate_limited := Suc (gs_rate_limited (gw_stats g))\<rparr>\<rparr>)"

datatype ('b, 'w) gate = Refused 'b | Sleep 'w | Pass

text \<open>From the semaphore to the next await: the first token check.\<close>

definition acquire_permit ::
  "(real \<Rightarrow> real) \<Rightarrow> real \<Rightarrow> bool \<Rightarrow> gateway \<Rightarrow> gateway \<times> (py_error + blocked, real) gate" where
  "acquire_permit rnd now held g =
     (let g1 = g\<lparr>gw_permits := gw_permits g - 1\<rparr>;
          (bk, w) = take_tokens now 1 (gw_bucket g1);
          g2 = g1\<lparr>gw_bucket := bk\<rparr>
      in case w of
           Inl e \<Rightarrow> (acquire_cleanup now True held g2, Refused (Inl e))
         | Inr wait \<Rightarrow>
             if wait \<le> 0 then (g2, Pass)
             else if gc_bucket_wait_s (gw_config g) < wait
             then (acquire_cleanup now True held (rate_limited (rnd wait) g2),
                   Refused (Inr (RateLimited (rnd wait))))
             else (g2, Sleep wait))"

text \<open>After the sleep: the second token check.\<close>

definition acquire_wake ::
  "real \<Rightarrow> bool \<Rightarrow> gateway \<Rightarrow> gateway \<times> (py_error + blocked, real) gate" where
  "acquire_wake now held g =
     (let (bk, w) = take_tokens now 1 (gw_bucket g);
          g1 = g\<lparr>gw_bucket := bk\<rparr>
      in case w of
           Inl e \<Rightarrow> (acquire_cleanup now True held g1, Refused (Inl e))
         | Inr wait \<Rightarrow>
             if 0 < wait then (acquire_cleanup now True held (rate_limited 0 g1), Refused (Inr (RateLimited 0)))
             else (g1, Pass))"

definition gateway_release :: "gateway \<Rightarrow> gateway" where
  "gateway_release g = g\<lparr>gw_permits := Suc (gw_permits g)\<rparr>"

text \<open>\<open>record\<close> reads the clock twice: for \<open>state()\<close> and again in the breaker's \<open>record\<close>.\<close>

definition gateway_record :: "real \<Rightarrow> real \<Rightarrow> bool \<Rightarrow> gateway \<Rightarrow> gateway" where
  "gateway_record now later ok g =
     (let s = gw_stats g;
          g1 = g\<lparr>gw_stats := (if ok then s\<lparr>gs_requests := Suc (gs_requests s), gs_successes := Suc (gs_successes s)\<rparr>
                 else s\<lparr>gs_requests := Suc (gs_requests s), gs_failures := Suc (gs_failures s)\<rparr>)\<rparr>;
          before = breaker_state now (gw_breaker g1);
          (b, state) = breaker_record later ok (gw_breaker g1);
          g2 = g1\<lparr>gw_breaker := b\<rparr>
      in if state = COpen \<and> before \<noteq> COpen then notify GE_circuit_opened 0 g2
         else if state = CClosed \<and> (before = COpen \<or> before = CHalfOpen) then notify GE_circuit_closed 0 g2
         else g2)"

definition gateway_record_degraded :: "gateway \<Rightarrow> gateway" where
  "gateway_record_degraded g =
     notify GE_degraded 0 (g\<lparr>gw_stats := (gw_stats g)\<lparr>gs_degraded := Suc (gs_degraded (gw_stats g))\<rparr>\<rparr>)"

definition gateway_abort_probe :: "real \<Rightarrow> gateway \<Rightarrow> gateway" where
  "gateway_abort_probe now g = g\<lparr>gw_breaker := breaker_abort_probe now (gw_breaker g)\<rparr>"

record gateway_snapshot =
  sn_state :: circuit_state
  sn_remaining_open_s :: real
  sn_stats :: gateway_stats
  sn_limits :: gateway_config
  sn_last_event :: "(gateway_event \<times> real) option"

definition snapshot :: "(real \<Rightarrow> real) \<Rightarrow> real \<Rightarrow> gateway \<Rightarrow> gateway_snapshot" where
  "snapshot rnd now g =
     \<lparr>sn_state = breaker_state now (gw_breaker g),
      sn_remaining_open_s = rnd (remaining_open_s now (gw_breaker g)),
      sn_stats = gw_stats g, sn_limits = gw_config g,
      sn_last_event = (if gw_events g = [] then None else Some (last (gw_events g)))\<rparr>"

section \<open>Degradation and the adapter\<close>

definition degraded_marker :: utext where
  "degraded_marker =
     [65288, 27169, 22411, 26381, 21153, 26242, 19981, 21487, 29992, 65292, 23637, 31034, 30830,
     23450, 24615, 25688, 35201, 65289]"

definition degraded_prefix :: utext where
  "degraded_prefix =
     [27169, 22411, 26381, 21153, 26242, 19981, 21487, 29992, 65292, 23637, 31034, 30830, 23450,
     24615, 25688, 35201, 65306]"

definition body_decision :: utext where
  "body_decision =
     [74, 97, 118, 97, 32, 25511, 21046, 38754, 24050, 30830, 35748, 27491, 24335, 37319, 36141,
     20915, 23450, 65292, 30830, 23450, 24615, 27604, 20215, 35777, 25454, 19982, 23457, 25209,
     25253, 21578, 20173, 28982, 26377, 25928, 12290]"

definition body_comparison :: utext where
  "body_comparison =
     [24050, 35831, 27714, 32, 74, 97, 118, 97, 32, 25191, 34892, 30830, 23450, 24615, 27604, 20215,
     65292, 35831, 31561, 24453, 20154, 24037, 23457, 25209, 32467, 26524, 12290]"

definition body_capture :: utext where
  "body_capture =
     [37319, 36141, 38656, 27714, 23558, 30001, 30830, 23450, 24615, 35268, 21017, 32467, 26500,
     21270, 65292, 35831, 20154, 24037, 22797, 26680, 23383, 27573, 21518, 32487, 32493, 12290]"

definition body_default :: utext where
  "body_default =
     [26412, 36718, 22788, 29702, 32467, 26524, 20197, 30830, 23450, 24615, 19994, 21153, 29366,
     24577, 20026, 20934, 65292, 35831, 26597, 30475, 37319, 36141, 20219, 21153, 35814, 24773,
     12290]"

definition degraded_summary :: "utext option \<Rightarrow> utext" where
  "degraded_summary stage =
     (let s = (case stage of None \<Rightarrow> [] | Some t \<Rightarrow> t);
          body = (if s = lit ''decision'' then body_decision
                  else if s = lit ''comparison'' then body_comparison
                  else if s = lit ''capture'' then body_capture else body_default)
      in degraded_prefix @ body @ degraded_marker)"

datatype stream_item = SI_text utext | SI_usage usage | SI_done | SI_error | SI_other

text \<open>How the inner stream ended: exhausted, an exception, or cancellation.\<close>

datatype stream_end = SE_exhausted | SE_exception | SE_cancelled

fun items_outcome :: "stream_item list \<Rightarrow> bool option \<Rightarrow> bool option" where
  "items_outcome [] oc = oc"
| "items_outcome (SI_error # xs) oc = items_outcome xs (Some False)"
| "items_outcome (SI_done # xs) oc = items_outcome xs (Some True)"
| "items_outcome (_ # xs) oc = items_outcome xs oc"

definition stream_outcome :: "stream_item list \<Rightarrow> stream_end \<Rightarrow> bool option" where
  "stream_outcome items e =
     (case e of SE_cancelled \<Rightarrow> None | SE_exception \<Rightarrow> Some False | SE_exhausted \<Rightarrow> items_outcome items None)"

text \<open>The degraded branch of \<open>GatewayAdapter.stream\<close>; \<open>None\<close>: the call goes to the gate.\<close>

definition stream_degraded ::
  "real \<Rightarrow> bool \<Rightarrow> utext option \<Rightarrow> gateway \<Rightarrow> gateway \<times> stream_item list option" where
  "stream_degraded now degradable stage g =
     (if degradable \<and> breaker_state now (gw_breaker g) = COpen
      then (gateway_record_degraded g,
            Some [SI_text (degraded_summary stage),
                  SI_usage (default_usage\<lparr>u_input_tokens := 0, u_output_tokens := 0, u_total_tokens := 0\<rparr>),
                  SI_done])
      else (g, None))"

text \<open>The \<open>finally\<close> clause of \<open>GatewayAdapter.stream\<close>, with its two clock readings.\<close>

definition stream_finish :: "real \<Rightarrow> real \<Rightarrow> stream_item list \<Rightarrow> stream_end \<Rightarrow> gateway \<Rightarrow> gateway" where
  "stream_finish now later items e g =
     (let g1 = gateway_release g
      in case stream_outcome items e of
           Some ok \<Rightarrow> gateway_record now later ok g1
         | None \<Rightarrow> gateway_abort_probe now g1)"

end
