(* ===== verification/Gateway_Safety.thy ===== *)
theory Gateway_Safety
  imports Gateway
begin

text \<open>
  The gateway under concurrency: requests queue, sleep and stream while others enter,
  finish or are cancelled, at any times. Quota and probe slots are never leaked, the token
  bucket bounds the traffic, the breaker opens only when its window justifies it.
\<close>

section \<open>Token bucket\<close>

definition bucket_ok :: "bucket \<Rightarrow> bool" where
  "bucket_ok b \<longleftrightarrow> 0 \<le> bk_rate b \<and> 0 \<le> bk_tokens b \<and> bk_tokens b \<le> bk_rate b"

lemma new_bucket_ok: "bucket_ok (new_bucket rate now)"
  by (simp add: bucket_ok_def new_bucket_def)

lemma take_tokens_rate: "bk_rate (fst (take_tokens now cost b)) = bk_rate b"
  by (simp add: take_tokens_def Let_def)

lemma take_tokens_last: "bk_last (fst (take_tokens now cost b)) = now"
  by (simp add: take_tokens_def Let_def)

lemma take_tokens_ok: "bucket_ok b \<Longrightarrow> 0 \<le> cost \<Longrightarrow> bucket_ok (fst (take_tokens now cost b))"
  by (auto simp: take_tokens_def bucket_ok_def Let_def)

text \<open>The cost granted by a sequence of calls at the given times.\<close>

fun granted :: "real list \<Rightarrow> bucket \<Rightarrow> nat" where
  "granted [] b = 0"
| "granted (t # ts) b =
     (let (b', w) = take_tokens t 1 b in (if w = Inr 0 then 1 else 0) + granted ts b')"

lemma granted_bound:
  assumes "bucket_ok b" and "sorted ts" and "\<And>t. t \<in> set ts \<Longrightarrow> bk_last b \<le> t \<and> t \<le> final" and "bk_last b \<le> final"
  shows "real (granted ts b) \<le> bk_tokens b + bk_rate b * (final - bk_last b)"
  using assms
proof (induction ts arbitrary: b)
  case Nil
  then show ?case by (simp add: bucket_ok_def)
next
  case (Cons t ts)
  obtain b' w where tk: "take_tokens t 1 b = (b', w)" by (cases "take_tokens t 1 b")
  have b': "bucket_ok b'" "bk_rate b' = bk_rate b" "bk_last b' = t"
    using take_tokens_ok [OF Cons.prems(1), of 1 t] take_tokens_rate [of t 1 b] take_tokens_last [of t 1 b] tk by simp_all
  have t: "bk_last b \<le> t" "t \<le> final" using Cons.prems(3) by auto
  have IH: "real (granted ts b') \<le> bk_tokens b' + bk_rate b * (final - t)"
    using Cons.IH [OF b'(1)] Cons.prems(2,3) b' t by auto
  have tok: "bk_tokens b' + (if w = Inr 0 then 1 else 0) \<le> bk_tokens b + (t - bk_last b) * bk_rate b"
  proof (cases "w = Inr 0")
    case True
    have "\<not> (1 \<le> min (bk_rate b) (bk_tokens b + max 0 (t - bk_last b) * bk_rate b)) \<Longrightarrow> w \<noteq> Inr 0"
      using tk by (auto simp: take_tokens_def Let_def split: if_splits)
    with True tk t show ?thesis by (auto simp: take_tokens_def Let_def split: if_splits)
  next
    case False
    with tk t show ?thesis by (auto simp: take_tokens_def Let_def split: if_splits)
  qed
  have "bk_rate b * (final - bk_last b) = (t - bk_last b) * bk_rate b + bk_rate b * (final - t)"
    by (simp add: algebra_simps)
  with IH tok tk show ?case by (auto split: if_splits)
qed

text \<open>The bucket after the calls at the given times.\<close>

definition bucket_after :: "real list \<Rightarrow> bucket \<Rightarrow> bucket" where
  "bucket_after ts b = fold (\<lambda>t b. fst (take_tokens t 1 b)) ts b"

lemma bucket_after_simps [simp]:
  "bucket_after [] b = b" "bucket_after (t # ts) b = bucket_after ts (fst (take_tokens t 1 b))"
  by (simp_all add: bucket_after_def)

lemma bucket_after_ok:
  "bucket_ok b \<Longrightarrow> bucket_ok (bucket_after ts b) \<and> bk_rate (bucket_after ts b) = bk_rate b \<and>
     bk_last (bucket_after ts b) = last (bk_last b # ts)"
  by (induction ts arbitrary: b) (simp_all add: take_tokens_ok take_tokens_rate take_tokens_last)

text \<open>The refill is capped, so a first call leaves at most the rate, itself included.\<close>

lemma granted_first:
  assumes "bucket_ok b" and "bk_last b \<le> t" and "sorted (t # ts)" and "\<And>x. x \<in> set (t # ts) \<Longrightarrow> x \<le> final"
  shows "real (granted (t # ts) b) \<le> bk_rate b + bk_rate b * (final - t)"
proof -
  obtain b' w where tk: "take_tokens t 1 b = (b', w)" by (cases "take_tokens t 1 b")
  have b': "bucket_ok b'" "bk_rate b' = bk_rate b" "bk_last b' = t"
    using take_tokens_ok [OF assms(1), of 1 t] take_tokens_rate [of t 1 b] take_tokens_last [of t 1 b] tk by simp_all
  have cap: "bk_tokens b' + (if w = Inr 0 then 1 else 0) \<le> bk_rate b"
    using tk assms(1) by (auto simp: take_tokens_def bucket_ok_def Let_def split: if_splits)
  have "real (granted ts b') \<le> bk_tokens b' + bk_rate b * (final - t)"
    using granted_bound [OF b'(1), of ts final] assms(3,4) by (simp add: b')
  with cap tk show ?thesis by (auto split: if_splits)
qed

text \<open>
  C37. Rate conformance: take a bucket of rate q that has served any earlier calls, idle
  times between them included; of the calls of any later period, however they are spaced,
  it grants at most q plus q times the period's length.
\<close>

theorem bucket_rate_bound:
  assumes "sorted (born # us @ ts)" and "0 \<le> rate" and "start \<le> final"
    and "\<And>t. t \<in> set ts \<Longrightarrow> start \<le> t \<and> t \<le> final"
  shows "real (granted ts (bucket_after us (new_bucket rate born))) \<le> rate + rate * (final - start)"
proof (cases ts)
  case Nil
  then show ?thesis using assms(2,3) by simp
next
  case (Cons t rest)
  let ?b = "bucket_after us (new_bucket rate born)"
  have ok: "bucket_ok ?b" "bk_rate ?b = rate" "bk_last ?b = last (born # us)"
    using bucket_after_ok [OF new_bucket_ok, of us rate born] assms(2) by (simp_all add: new_bucket_def)
  have "last (born # us) \<in> set (born # us)" by (rule last_in_set) simp
  then have "bk_last ?b \<le> t" using assms(1) Cons by (auto simp: ok(3) sorted_append simp del: last.simps)
  then have "real (granted ts ?b) \<le> rate + rate * (final - t)"
    using granted_first [OF ok(1), of t rest final] assms(1,4) Cons by (simp add: sorted_append ok(2))
  moreover have "rate * (final - t) \<le> rate * (final - start)"
    using assms(2,4) Cons by (intro mult_left_mono) auto
  ultimately show ?thesis by linarith
qed

theorem bucket_rate_bound_witness:
  "real (granted [100, 100, 100, 101] (bucket_after [0, 1 / 2] (new_bucket 2 0))) \<le> 2 + 2 * (101 - 100)"
  by (rule bucket_rate_bound) auto

section \<open>Circuit breaker\<close>

text \<open>What the window looks like when an outcome is counted.\<close>

definition window_after :: "real \<Rightarrow> bool \<Rightarrow> breaker \<Rightarrow> (real \<times> bool) list" where
  "window_after now ok b =
     dropWhile (\<lambda>(t, ok). br_window_s b < now - t)
       (dropWhile (\<lambda>(t, ok). br_window_s b < now - t) (br_outcomes b) @ [(now, ok)])"

lemma window_after_nonempty:
  assumes "0 \<le> br_window_s b"
  shows "window_after now ok b \<noteq> [] \<and> last (window_after now ok b) = (now, ok)"
proof -
  have "\<exists>x \<in> set (xs @ [(now, ok)]). \<not> (\<lambda>(t, ok). br_window_s b < now - t) x" for xs
    using assms by auto
  then have n: "dropWhile (\<lambda>(t, ok). br_window_s b < now - t) (xs @ [(now, ok)]) \<noteq> []" for xs
    by (metis dropWhile_eq_Nil_conv)
  moreover have "last (dropWhile P (xs @ [y])) = y" if "dropWhile P (xs @ [y]) \<noteq> []" for P xs and y :: "real \<times> bool"
    using that by (induction xs) (auto split: if_splits)
  ultimately show ?thesis unfolding window_after_def by blast
qed

lemma breaker_record_normal:
  assumes "\<not> (0 < br_open_until b \<and> br_open_until b \<le> now)"
  shows "breaker_record now ok b =
     (let os = window_after now ok b
      in if br_min_samples b \<le> length os \<and> br_failure_rate b \<le> real (count_failures os) / real (length os)
         then (b\<lparr>br_outcomes := os, br_open_until := now + br_open_s b, br_probe_inflight := False\<rparr>, COpen)
         else (b\<lparr>br_outcomes := os\<rparr>, CClosed))"
  using assms by (auto simp: breaker_record_def prune_def window_after_def Let_def not_less)

text \<open>
  The breaker opens only with cause and for a full period: recording an outcome while
  it is closed opens it exactly when the outcomes of the sliding window, the new one
  included, number at least \<open>min_samples\<close> and reach the failure rate, and then every call
  is refused until \<open>open_s\<close> later; a failed probe reopens it for a full period and a
  successful one closes it with an empty window.
\<close>

theorem breaker_transitions:
  assumes "0 < br_open_s b" and "0 \<le> now" and "breaker_record now ok b = (b', st)"
  shows "(breaker_state now b = CClosed \<longrightarrow>
           (st = COpen \<longleftrightarrow> br_min_samples b \<le> length (window_after now ok b) \<and>
              br_failure_rate b \<le> real (count_failures (window_after now ok b)) / real (length (window_after now ok b))) \<and>
           (st \<noteq> COpen \<longrightarrow> breaker_state t b' = breaker_state t b)) \<and>
         (breaker_state now b = CHalfOpen \<longrightarrow>
           (if ok then breaker_state t b' = (if t < 0 then COpen else CClosed) \<and> br_outcomes b' = [] else st = COpen)) \<and>
         (st = COpen \<longrightarrow> (breaker_state t b' = COpen \<longleftrightarrow> t < now + br_open_s b))"
proof (cases "0 < br_open_until b \<and> br_open_until b \<le> now")
  case True
  with assms show ?thesis by (auto simp: breaker_record_def breaker_state_def split: if_splits)
next
  case False
  note r = breaker_record_normal [OF False, of ok]
  have h: "breaker_state now b \<noteq> CHalfOpen" using False by (auto simp: breaker_state_def)
  show ?thesis
  proof (cases "br_min_samples b \<le> length (window_after now ok b) \<and>
      br_failure_rate b \<le> real (count_failures (window_after now ok b)) / real (length (window_after now ok b))")
    case True
    with r assms have b': "b' = b\<lparr>br_outcomes := window_after now ok b, br_open_until := now + br_open_s b,
        br_probe_inflight := False\<rparr>" "st = COpen" by (simp_all add: Let_def)
    with True h show ?thesis by (simp add: breaker_state_def)
  next
    case False
    with r assms have b': "b' = b\<lparr>br_outcomes := window_after now ok b\<rparr>" "st = CClosed"
      by (auto simp add: Let_def)
    with False h show ?thesis by (simp add: breaker_state_def)
  qed
qed

definition demo_config :: gateway_config where
  "demo_config = \<lparr>gc_provider = ''p'', gc_max_concurrency = 4, gc_qps = 10, gc_window_s = 30,
     gc_failure_rate = 1 / 2, gc_min_samples = 1, gc_open_s = 60, gc_bucket_wait_s = 1 / 2\<rparr>"

lemmas demo_breaker_eval = new_breaker_def demo_config_def breaker_record_def prune_def count_failures_def
  breaker_state_def

theorem breaker_transitions_witness:
  "snd (breaker_record 5 False (new_breaker demo_config)) = COpen \<and>
   breaker_state 64 (fst (breaker_record 5 False (new_breaker demo_config))) = COpen"
proof -
  have r: "breaker_record 5 False (new_breaker demo_config) =
      (fst (breaker_record 5 False (new_breaker demo_config)), COpen)"
    by (simp add: demo_breaker_eval)
  have "breaker_state 64 (fst (breaker_record 5 False (new_breaker demo_config))) = COpen \<longleftrightarrow>
      (64::real) < 5 + br_open_s (new_breaker demo_config)"
    by (rule breaker_transitions [OF _ _ r, THEN conjunct2, THEN conjunct2, THEN mp])
      (simp_all add: new_breaker_def demo_config_def)
  moreover have "br_open_s (new_breaker demo_config) = 60" by (simp add: new_breaker_def demo_config_def)
  ultimately have "breaker_state 64 (fst (breaker_record 5 False (new_breaker demo_config))) = COpen" by simp
  moreover have "snd (breaker_record 5 False (new_breaker demo_config)) = COpen" by (subst r) (rule snd_conv)
  ultimately show ?thesis by (intro conjI)
qed

section \<open>Requests in flight\<close>

text \<open>
  The three lists hold, for every request waiting for the semaphore, sleeping for a token
  or streaming, whether it took the half-open probe.
\<close>

record gw_system =
  sy_gateway :: gateway
  sy_now :: real
  sy_queued :: "bool list"
  sy_sleeping :: "bool list"
  sy_streaming :: "bool list"

definition init_system :: "gateway_config \<Rightarrow> real \<Rightarrow> gw_system" where
  "init_system c now = \<lparr>sy_gateway = new_gateway c now, sy_now = now, sy_queued = [],
     sy_sleeping = [], sy_streaming = []\<rparr>"

inductive gw_step :: "gw_system \<Rightarrow> gw_system \<Rightarrow> bool" where
  tick: "sy_now s \<le> t \<Longrightarrow> gw_step s (s\<lparr>sy_now := t\<rparr>)"
| blocked: "acquire_enter rnd (sy_now s) (sy_gateway s) = (g, Inl e) \<Longrightarrow> gw_step s (s\<lparr>sy_gateway := g\<rparr>)"
| enter: "acquire_enter rnd (sy_now s) (sy_gateway s) = (g, Inr h) \<Longrightarrow>
    gw_step s (s\<lparr>sy_gateway := g, sy_queued := sy_queued s @ [h]\<rparr>)"
| cancel_queued: "sy_queued s = a @ h # b \<Longrightarrow>
    gw_step s (s\<lparr>sy_gateway := acquire_cleanup (sy_now s) False h (sy_gateway s), sy_queued := a @ b\<rparr>)"
| permit_pass: "sy_queued s = a @ h # b \<Longrightarrow> 0 < gw_permits (sy_gateway s) \<Longrightarrow>
    acquire_permit rnd (sy_now s) h (sy_gateway s) = (g, Pass) \<Longrightarrow>
    gw_step s (s\<lparr>sy_gateway := g, sy_queued := a @ b, sy_streaming := sy_streaming s @ [h]\<rparr>)"
| permit_sleep: "sy_queued s = a @ h # b \<Longrightarrow> 0 < gw_permits (sy_gateway s) \<Longrightarrow>
    acquire_permit rnd (sy_now s) h (sy_gateway s) = (g, Sleep w) \<Longrightarrow>
    gw_step s (s\<lparr>sy_gateway := g, sy_queued := a @ b, sy_sleeping := sy_sleeping s @ [h]\<rparr>)"
| permit_refused: "sy_queued s = a @ h # b \<Longrightarrow> 0 < gw_permits (sy_gateway s) \<Longrightarrow>
    acquire_permit rnd (sy_now s) h (sy_gateway s) = (g, Refused e) \<Longrightarrow>
    gw_step s (s\<lparr>sy_gateway := g, sy_queued := a @ b\<rparr>)"
| wake_pass: "sy_sleeping s = a @ h # b \<Longrightarrow> acquire_wake (sy_now s) h (sy_gateway s) = (g, Pass) \<Longrightarrow>
    gw_step s (s\<lparr>sy_gateway := g, sy_sleeping := a @ b, sy_streaming := sy_streaming s @ [h]\<rparr>)"
| wake_refused: "sy_sleeping s = a @ h # b \<Longrightarrow> acquire_wake (sy_now s) h (sy_gateway s) = (g, Refused e) \<Longrightarrow>
    gw_step s (s\<lparr>sy_gateway := g, sy_sleeping := a @ b\<rparr>)"
| cancel_sleeping: "sy_sleeping s = a @ h # b \<Longrightarrow>
    gw_step s (s\<lparr>sy_gateway := acquire_cleanup (sy_now s) True h (sy_gateway s), sy_sleeping := a @ b\<rparr>)"
| finish: "sy_streaming s = a @ h # b \<Longrightarrow> sy_now s \<le> t \<Longrightarrow>
    gw_step s (s\<lparr>sy_now := t, sy_gateway := stream_finish (sy_now s) t items e (sy_gateway s), sy_streaming := a @ b\<rparr>)"
| degraded: "stream_degraded (sy_now s) True stage (sy_gateway s) = (g, Some items) \<Longrightarrow>
    gw_step s (s\<lparr>sy_gateway := g\<rparr>)"

definition in_flight :: "gw_system \<Rightarrow> bool list" where
  "in_flight s = sy_queued s @ sy_sleeping s @ sy_streaming s"

definition probe_held :: "gw_system \<Rightarrow> bool" where
  "probe_held s \<longleftrightarrow>
     (br_probe_inflight (gw_breaker (sy_gateway s)) \<longrightarrow>
        breaker_state (sy_now s) (gw_breaker (sy_gateway s)) = CHalfOpen \<and> True \<in> set (in_flight s))"

definition quota_held :: "gw_system \<Rightarrow> bool" where
  "quota_held s \<longleftrightarrow>
     gw_permits (sy_gateway s) + length (sy_sleeping s) + length (sy_streaming s) =
       gc_max_concurrency (gw_config (sy_gateway s))"

definition stats_sum :: "gw_system \<Rightarrow> bool" where
  "stats_sum s \<longleftrightarrow>
     gs_requests (gw_stats (sy_gateway s)) =
       gs_successes (gw_stats (sy_gateway s)) + gs_failures (gw_stats (sy_gateway s))"

text \<open>How each piece of the gate touches the breaker, the permits and the counters.\<close>

lemma notify_frame [simp]:
  "gw_breaker (notify e r g) = gw_breaker g" "gw_permits (notify e r g) = gw_permits g"
  "gw_config (notify e r g) = gw_config g" "gw_stats (notify e r g) = gw_stats g"
  "gw_bucket (notify e r g) = gw_bucket g"
  by (simp_all add: notify_def)

lemma rate_limited_frame [simp]:
  "gw_breaker (rate_limited r g) = gw_breaker g" "gw_permits (rate_limited r g) = gw_permits g"
  "gw_config (rate_limited r g) = gw_config g"
  "gs_requests (gw_stats (rate_limited r g)) = gs_requests (gw_stats g)"
  "gs_successes (gw_stats (rate_limited r g)) = gs_successes (gw_stats g)"
  "gs_failures (gw_stats (rate_limited r g)) = gs_failures (gw_stats g)"
  by (simp_all add: rate_limited_def)

lemma cleanup_frame [simp]:
  "gw_breaker (acquire_cleanup now acq h g) = (if h then breaker_abort_probe now (gw_breaker g) else gw_breaker g)"
  "gw_permits (acquire_cleanup now acq h g) = (if acq then Suc (gw_permits g) else gw_permits g)"
  "gw_config (acquire_cleanup now acq h g) = gw_config g"
  "gw_stats (acquire_cleanup now acq h g) = gw_stats g"
  by (simp_all add: acquire_cleanup_def Let_def)

lemma abort_probe_state [simp]: "breaker_state t (breaker_abort_probe now b) = breaker_state t b"
  by (simp add: breaker_abort_probe_def breaker_state_def)

lemma abort_probe_flag:
  "br_probe_inflight (breaker_abort_probe now b) \<longleftrightarrow> br_probe_inflight b \<and> breaker_state now b \<noteq> CHalfOpen"
  by (simp add: breaker_abort_probe_def)

text \<open>Recording an outcome always leaves the probe slot free when the flag obeys the invariant.\<close>

lemma record_flag:
  assumes "br_probe_inflight b \<longrightarrow> breaker_state now b = CHalfOpen"
  shows "\<not> br_probe_inflight (fst (breaker_record now ok b))"
proof (cases "0 < br_open_until b \<and> br_open_until b \<le> now")
  case True
  then show ?thesis by (simp add: breaker_record_def)
next
  case False
  with assms have "\<not> br_probe_inflight b" by (auto simp: breaker_state_def split: if_splits)
  then show ?thesis by (simp add: breaker_record_normal [OF False] Let_def)
qed

lemma gateway_record_frame:
  "gw_breaker (gateway_record now later ok g) = fst (breaker_record later ok (gw_breaker g))"
  "gw_permits (gateway_record now later ok g) = gw_permits g"
  "gw_config (gateway_record now later ok g) = gw_config g"
  "gs_requests (gw_stats (gateway_record now later ok g)) = Suc (gs_requests (gw_stats g))"
  "gs_successes (gw_stats (gateway_record now later ok g)) + gs_failures (gw_stats (gateway_record now later ok g)) =
     Suc (gs_successes (gw_stats g) + gs_failures (gw_stats g))"
  by (simp_all add: gateway_record_def Let_def case_prod_unfold)

lemma gateway_record_events:
  "gw_events (gateway_record now later ok g) = gw_events g @
     (if snd (breaker_record later ok (gw_breaker g)) = COpen \<and> breaker_state now (gw_breaker g) \<noteq> COpen
      then [(GE_circuit_opened, 0)]
      else if snd (breaker_record later ok (gw_breaker g)) = CClosed \<and>
         (breaker_state now (gw_breaker g) = COpen \<or> breaker_state now (gw_breaker g) = CHalfOpen)
      then [(GE_circuit_closed, 0)] else [])"
  by (simp add: gateway_record_def Let_def case_prod_unfold notify_def)

lemma enter_frame:
  assumes "acquire_enter rnd now g = (g', r)"
  shows "gw_permits g' = gw_permits g" "gw_config g' = gw_config g"
    "gs_requests (gw_stats g') = gs_requests (gw_stats g)" "gs_successes (gw_stats g') = gs_successes (gw_stats g)"
    "gs_failures (gw_stats g') = gs_failures (gw_stats g)"
    "breaker_state t (gw_breaker g') = breaker_state t (gw_breaker g)"
    "br_probe_inflight (gw_breaker g') \<longrightarrow> br_probe_inflight (gw_breaker g) \<or>
       (r = Inr True \<and> breaker_state now (gw_breaker g) = CHalfOpen)"
  using assms
  by (auto simp: acquire_enter_def Let_def try_probe_def breaker_state_def split: circuit_state.splits if_splits)

lemma permit_frame:
  assumes "acquire_permit rnd now h g = (g', r)" and "0 < gw_permits g"
  shows "gw_config g' = gw_config g"
    "gs_requests (gw_stats g') = gs_requests (gw_stats g)" "gs_successes (gw_stats g') = gs_successes (gw_stats g)"
    "gs_failures (gw_stats g') = gs_failures (gw_stats g)"
    "(case r of Refused e \<Rightarrow> gw_permits g' = gw_permits g \<and>
         gw_breaker g' = (if h then breaker_abort_probe now (gw_breaker g) else gw_breaker g)
      | _ \<Rightarrow> Suc (gw_permits g') = gw_permits g \<and> gw_breaker g' = gw_breaker g)"
  using assms
  by (auto simp: acquire_permit_def Let_def case_prod_unfold split: sum.splits if_splits)

lemma wake_frame:
  assumes "acquire_wake now h g = (g', r)"
  shows "gw_config g' = gw_config g"
    "gs_requests (gw_stats g') = gs_requests (gw_stats g)" "gs_successes (gw_stats g') = gs_successes (gw_stats g)"
    "gs_failures (gw_stats g') = gs_failures (gw_stats g)"
    "(case r of Refused e \<Rightarrow> gw_permits g' = Suc (gw_permits g) \<and>
         gw_breaker g' = (if h then breaker_abort_probe now (gw_breaker g) else gw_breaker g)
      | _ \<Rightarrow> gw_permits g' = gw_permits g \<and> gw_breaker g' = gw_breaker g)"
  using assms
  by (auto simp: acquire_wake_def Let_def case_prod_unfold split: sum.splits if_splits)

lemma half_open_later: "breaker_state now b = CHalfOpen \<Longrightarrow> now \<le> t \<Longrightarrow> breaker_state t b = CHalfOpen"
  by (auto simp: breaker_state_def split: if_splits)

lemma finish_frame:
  assumes "br_probe_inflight (gw_breaker g) \<longrightarrow> breaker_state now (gw_breaker g) = CHalfOpen"
    and "now \<le> later"
  shows "gw_permits (stream_finish now later items e g) = Suc (gw_permits g)"
    "gw_config (stream_finish now later items e g) = gw_config g"
    "gs_requests (gw_stats g) = gs_successes (gw_stats g) + gs_failures (gw_stats g) \<Longrightarrow>
     gs_requests (gw_stats (stream_finish now later items e g)) =
       gs_successes (gw_stats (stream_finish now later items e g)) + gs_failures (gw_stats (stream_finish now later items e g))"
    "\<not> br_probe_inflight (gw_breaker (stream_finish now later items e g))"
  using assms record_flag [of "gw_breaker g" later] half_open_later [of now "gw_breaker g" later]
  by (auto simp: stream_finish_def Let_def gateway_record_frame gateway_release_def gateway_abort_probe_def
      abort_probe_flag split: option.splits)

lemma degraded_frame:
  assumes "stream_degraded now d stage g = (g', r)"
  shows "gw_permits g' = gw_permits g" "gw_config g' = gw_config g" "gw_breaker g' = gw_breaker g"
    "gs_requests (gw_stats g') = gs_requests (gw_stats g)" "gs_successes (gw_stats g') = gs_successes (gw_stats g)"
    "gs_failures (gw_stats g') = gs_failures (gw_stats g)"
  using assms by (auto simp: stream_degraded_def gateway_record_degraded_def split: if_splits)

definition gw_inv :: "gw_system \<Rightarrow> bool" where
  "gw_inv s \<longleftrightarrow> probe_held s \<and> quota_held s \<and> stats_sum s"

lemmas gw_inv_defs = gw_inv_def probe_held_def quota_held_def stats_sum_def in_flight_def

lemma init_inv: "gw_inv (init_system c now)"
  by (simp add: gw_inv_defs init_system_def new_gateway_def new_breaker_def)

lemma step_inv: "gw_step s s' \<Longrightarrow> gw_inv s \<Longrightarrow> gw_inv s'"
proof (induction rule: gw_step.induct)
  case (tick s t)
  then show ?case by (auto simp: gw_inv_defs intro: half_open_later)
next
  case (blocked rnd s g e)
  then show ?case using enter_frame [OF blocked(1)] by (auto simp: gw_inv_defs)
next
  case (enter rnd s g h)
  then show ?case using enter_frame [OF enter(1)] by (auto simp: gw_inv_defs)
next
  case (cancel_queued s a h b)
  then show ?case by (auto simp: gw_inv_defs abort_probe_flag)
next
  case (permit_pass s a h b rnd g)
  then show ?case using permit_frame [OF permit_pass(3,2)] by (auto simp: gw_inv_defs)
next
  case (permit_sleep s a h b rnd g w)
  then show ?case using permit_frame [OF permit_sleep(3,2)] by (auto simp: gw_inv_defs)
next
  case (permit_refused s a h b rnd g e)
  then show ?case using permit_frame [OF permit_refused(3,2)]
    by (auto simp: gw_inv_defs abort_probe_flag split: if_splits)
next
  case (wake_pass s a h b g)
  then show ?case using wake_frame [OF wake_pass(2)] by (auto simp: gw_inv_defs)
next
  case (wake_refused s a h b g e)
  then show ?case using wake_frame [OF wake_refused(2)]
    by (auto simp: gw_inv_defs abort_probe_flag split: if_splits)
next
  case (cancel_sleeping s a h b)
  then show ?case by (auto simp: gw_inv_defs abort_probe_flag)
next
  case (finish s a h b t items e)
  then have "br_probe_inflight (gw_breaker (sy_gateway s)) \<longrightarrow>
      breaker_state (sy_now s) (gw_breaker (sy_gateway s)) = CHalfOpen" by (simp add: gw_inv_defs)
  from finish_frame [OF this finish(2), of items e] finish show ?case by (auto simp: gw_inv_defs)
next
  case (degraded s stage g items)
  then show ?case using degraded_frame [OF degraded(1)] by (auto simp: gw_inv_defs)
qed

lemma reach_inv: "gw_step\<^sup>*\<^sup>* s s' \<Longrightarrow> gw_inv s \<Longrightarrow> gw_inv s'"
  by (induction rule: rtranclp_induct) (auto intro: step_inv)

text \<open>
  C8. No slot is ever leaked: in every state reachable by entries, refusals,
  cancellations at any point, sleeps, completions and clock ticks, the concurrency permits
  and the requests that hold one add up to the configured maximum, so that with no request
  in flight all of them are free; and the half-open probe slot is taken only while some
  request in flight holds it, so a refused or cancelled probe never blocks the provider.
\<close>

theorem gateway_no_leak:
  assumes "gw_step\<^sup>*\<^sup>* (init_system c t0) s"
  shows "quota_held s \<and> (in_flight s = [] \<longrightarrow> gw_permits (sy_gateway s) = gc_max_concurrency (gw_config (sy_gateway s)) \<and>
      \<not> br_probe_inflight (gw_breaker (sy_gateway s))) \<and>
    (br_probe_inflight (gw_breaker (sy_gateway s)) \<longrightarrow> True \<in> set (in_flight s))"
  using reach_inv [OF assms init_inv] by (auto simp add: gw_inv_defs)

section \<open>Two deviations\<close>

text \<open>
  A success that arrives late, while the breaker is open, is reported by
  \<open>record\<close> as the state closed when the window does not reach the failure rate, so the
  gateway announces \<open>circuit_closed\<close> although every call is still refused.
\<close>

theorem late_success_announces_closed:
  "breaker_state 2 (gw_breaker (gateway_record 1 1 False (gateway_record 1 1 True (new_gateway demo_config 0)))) = COpen \<and>
   gw_events (gateway_record 2 2 True (gateway_record 1 1 False (gateway_record 1 1 True (new_gateway demo_config 0)))) =
     [(GE_circuit_opened, 0), (GE_circuit_closed, 0)] \<and>
   breaker_state 2 (gw_breaker (gateway_record 2 2 True
     (gateway_record 1 1 False (gateway_record 1 1 True (new_gateway demo_config 0))))) = COpen"
proof -
  let ?g1 = "gateway_record 1 1 True (new_gateway demo_config 0)"
  let ?g2 = "gateway_record 1 1 False ?g1"
  have b0: "gw_breaker (new_gateway demo_config 0) = new_breaker demo_config" "gw_events (new_gateway demo_config 0) = []"
    by (simp_all add: new_gateway_def)
  have b1: "gw_breaker ?g1 = (new_breaker demo_config)\<lparr>br_outcomes := [(1, True)]\<rparr>" "gw_events ?g1 = []"
    unfolding gateway_record_frame(1) gateway_record_events b0 by (simp_all add: demo_breaker_eval)
  have b2: "gw_breaker ?g2 = (new_breaker demo_config)\<lparr>br_outcomes := [(1, True), (1, False)], br_open_until := 61\<rparr>"
    "gw_events ?g2 = [(GE_circuit_opened, 0)]"
    unfolding gateway_record_frame(1) [of 1 1 False] gateway_record_events [of 1 1 False] b1
    by (simp_all add: demo_breaker_eval)
  have b3: "gw_breaker (gateway_record 2 2 True ?g2) = (new_breaker demo_config)
      \<lparr>br_outcomes := [(1, True), (1, False), (2, True)], br_open_until := 61\<rparr>"
    "gw_events (gateway_record 2 2 True ?g2) = [(GE_circuit_opened, 0), (GE_circuit_closed, 0)]"
    unfolding gateway_record_frame(1) [of 2 2 True] gateway_record_events [of 2 2 True] b2
    by (simp_all add: demo_breaker_eval)
  show ?thesis unfolding b3 b2 by (simp add: breaker_state_def)
qed

text \<open>
  C40. The half-open probe is not single-flight under cancellation. In any reachable state
  of the gateway in which a probe is in flight and some other request, which holds no
  probe (it was admitted before the breaker opened), is still streaming: a further request
  is refused at first, but once that other request is cancelled a further request is
  admitted as a probe, and two probes are in flight together.
\<close>

theorem cancelled_request_frees_probe:
  assumes "gw_step\<^sup>*\<^sup>* (init_system c t0) s" and "breaker_state (sy_now s) (gw_breaker (sy_gateway s)) = CHalfOpen"
    and "br_probe_inflight (gw_breaker (sy_gateway s))" and "sy_streaming s = a @ False # b"
  shows "snd (acquire_enter rnd (sy_now s) (sy_gateway s)) = Inl (CircuitOpen (1 / 2)) \<and>
     (\<exists>s1 s2. gw_step s s1 \<and> sy_now s1 = sy_now s \<and>
        sy_gateway s1 = stream_finish (sy_now s) (sy_now s) items SE_cancelled (sy_gateway s) \<and>
        sy_queued s1 = sy_queued s \<and> sy_sleeping s1 = sy_sleeping s \<and> sy_streaming s1 = a @ b \<and>
        gw_step s1 s2 \<and> acquire_enter rnd (sy_now s1) (sy_gateway s1) = (sy_gateway s2, Inr True) \<and>
        2 \<le> count_list (in_flight s2) True)"
proof -
  let ?g = "stream_finish (sy_now s) (sy_now s) items SE_cancelled (sy_gateway s)"
  let ?s1 = "s\<lparr>sy_now := sy_now s, sy_gateway := ?g, sy_streaming := a @ b\<rparr>"
  have b: "gw_breaker ?g = (gw_breaker (sy_gateway s))\<lparr>br_probe_inflight := False\<rparr>"
    using assms(2) by (simp add: stream_finish_def stream_outcome_def gateway_release_def gateway_abort_probe_def
        breaker_abort_probe_def)
  have u: "\<not> sy_now s < br_open_until (gw_breaker (sy_gateway s))" "0 < br_open_until (gw_breaker (sy_gateway s))"
    using assms(2) by (auto simp: breaker_state_def split: if_splits)
  obtain g2 where e: "acquire_enter rnd (sy_now ?s1) (sy_gateway ?s1) = (g2, Inr True)"
    using u by (simp add: acquire_enter_def try_probe_def b breaker_state_def Let_def)
  let ?s2 = "?s1\<lparr>sy_gateway := g2, sy_queued := sy_queued ?s1 @ [True]\<rparr>"
  have held: "True \<in> set (in_flight s)"
    using reach_inv [OF assms(1) init_inv] assms(3) by (auto simp: gw_inv_defs)
  then have "0 < count_list (in_flight s) True" by (metis count_list_0_iff neq0_conv)
  moreover have "count_list (in_flight ?s2) True = Suc (count_list (in_flight s) True)"
    by (simp add: in_flight_def assms(4))
  ultimately have two: "2 \<le> count_list (in_flight ?s2) True" by linarith
  have "snd (acquire_enter rnd (sy_now s) (sy_gateway s)) = Inl (CircuitOpen (1 / 2))"
    using u assms(3) by (simp add: acquire_enter_def try_probe_def breaker_state_def Let_def)
  moreover have "gw_step s ?s1" by (rule gw_step.finish [OF assms(4) order_refl])
  moreover have "gw_step ?s1 ?s2" by (rule gw_step.enter [OF e])
  ultimately show ?thesis
    using e two by (intro conjI exI [of _ ?s1] exI [of _ ?s2]) simp_all
qed

text \<open>Two requests stream, one fails and opens the breaker; 70 seconds later a third is the probe.\<close>

definition demo_probe_gateway :: gateway where
  "demo_probe_gateway = (let g = new_gateway demo_config 0
     in g\<lparr>gw_permits := 3, gw_bucket := \<lparr>bk_rate = 10, bk_tokens = 8, bk_last = 0\<rparr>,
          gw_breaker := (new_breaker demo_config)\<lparr>br_outcomes := [(0, False)], br_open_until := 60,
            br_probe_inflight := True\<rparr>,
          gw_stats := (gw_stats g)\<lparr>gs_requests := 1, gs_failures := 1\<rparr>,
          gw_events := [(GE_circuit_opened, 0)]\<rparr>)"

definition demo_probe_system :: gw_system where
  "demo_probe_system = \<lparr>sy_gateway = demo_probe_gateway, sy_now = 70, sy_queued = [True],
     sy_sleeping = [], sy_streaming = [False]\<rparr>"

lemma demo_probe_reachable: "gw_step\<^sup>*\<^sup>* (init_system demo_config 0) demo_probe_system"
proof -
  let ?g0 = "new_gateway demo_config 0"
  let ?b = "\<lambda>n. \<lparr>bk_rate = 10, bk_tokens = n, bk_last = 0\<rparr>"
  let ?g1 = "?g0\<lparr>gw_permits := 3, gw_bucket := ?b 9\<rparr>"
  let ?g2 = "?g0\<lparr>gw_permits := 2, gw_bucket := ?b 8\<rparr>"
  let ?g3 = "demo_probe_gateway\<lparr>gw_breaker := (gw_breaker demo_probe_gateway)\<lparr>br_probe_inflight := False\<rparr>\<rparr>"
  let ?s = "\<lambda>g t q st. \<lparr>sy_gateway = g, sy_now = t, sy_queued = q, sy_sleeping = [], sy_streaming = st\<rparr>"
  note ev = new_gateway_def demo_breaker_eval acquire_enter_def acquire_permit_def take_tokens_def new_bucket_def
    try_probe_def demo_probe_gateway_def Let_def
  have e0: "acquire_enter id 0 ?g0 = (?g0, Inr False)" and e1: "acquire_enter id 0 ?g1 = (?g1, Inr False)"
    and p0: "acquire_permit id 0 False ?g0 = (?g1, Pass)" and p1: "acquire_permit id 0 False ?g1 = (?g2, Pass)"
    by (simp_all add: ev)
  have f: "stream_finish 0 0 [] SE_exception ?g2 = ?g3"
    by (simp add: ev stream_finish_def stream_outcome_def gateway_release_def gateway_record_def notify_def)
  have e2: "acquire_enter id 70 ?g3 = (demo_probe_gateway, Inr True)"
    by (simp add: ev)
  have "gw_step (?s ?g0 0 [] []) (?s ?g0 0 [False] [])"
    using gw_step.enter [of id "?s ?g0 0 [] []" ?g0 False] e0 by simp
  moreover have "gw_step (?s ?g0 0 [False] []) (?s ?g1 0 [] [False])"
    using gw_step.permit_pass [of "?s ?g0 0 [False] []" "[]" False "[]" id ?g1] p0 by (simp add: new_gateway_def demo_config_def)
  moreover have "gw_step (?s ?g1 0 [] [False]) (?s ?g1 0 [False] [False])"
    using gw_step.enter [of id "?s ?g1 0 [] [False]" ?g1 False] e1 by simp
  moreover have "gw_step (?s ?g1 0 [False] [False]) (?s ?g2 0 [] [False, False])"
    using gw_step.permit_pass [of "?s ?g1 0 [False] [False]" "[]" False "[]" id ?g2] p1 by simp
  moreover have "gw_step (?s ?g2 0 [] [False, False]) (?s ?g3 0 [] [False])"
    using gw_step.finish [of "?s ?g2 0 [] [False, False]" "[False]" False "[]" 0 "[]" SE_exception] f by simp
  moreover have "gw_step (?s ?g3 0 [] [False]) (?s ?g3 70 [] [False])"
    using gw_step.tick [of "?s ?g3 0 [] [False]" 70] by simp
  moreover have "gw_step (?s ?g3 70 [] [False]) (?s demo_probe_gateway 70 [True] [False])"
    using gw_step.enter [of id "?s ?g3 70 [] [False]" demo_probe_gateway True] e2 by simp
  ultimately have "gw_step\<^sup>*\<^sup>* (?s ?g0 0 [] []) (?s demo_probe_gateway 70 [True] [False])"
    by (meson converse_rtranclp_into_rtranclp rtranclp.rtrancl_refl)
  then show ?thesis by (simp add: init_system_def demo_probe_system_def)
qed

theorem gateway_no_leak_witness:
  "gw_permits (sy_gateway demo_probe_system) + 1 = 4 \<and> quota_held demo_probe_system \<and>
   True \<in> set (in_flight demo_probe_system)"
  using gateway_no_leak [OF demo_probe_reachable]
  by (simp add: demo_probe_system_def demo_probe_gateway_def Let_def)

theorem cancelled_request_frees_probe_witness:
  "\<exists>s. gw_step\<^sup>*\<^sup>* (init_system demo_config 0) s \<and> 2 \<le> count_list (in_flight s) True"
proof -
  have h: "breaker_state (sy_now demo_probe_system) (gw_breaker (sy_gateway demo_probe_system)) = CHalfOpen"
    "br_probe_inflight (gw_breaker (sy_gateway demo_probe_system))"
    "sy_streaming demo_probe_system = [] @ False # []"
    by (simp_all add: demo_probe_system_def demo_probe_gateway_def breaker_state_def Let_def)
  from cancelled_request_frees_probe [OF demo_probe_reachable h, of id "[]"] obtain s1 s2
    where "gw_step demo_probe_system s1" "gw_step s1 s2" "2 \<le> count_list (in_flight s2) True" by blast
  then show ?thesis
    using demo_probe_reachable by (meson rtranclp.rtrancl_into_rtrancl)
qed

end
