(* ===== verification/Json_Text.thy ===== *)
theory Json_Text
  imports Py_Text "HOL-Library.List_Lexorder" "HOL-Library.Multiset"
begin

text \<open>
  \<open>json.dumps(..., ensure_ascii=False)\<close> on Python values. \<open>js_float\<close> renders a float,
  \<open>js_default\<close> is the \<open>default=\<close> callable (\<open>str\<close>) on values that are not JSON.
\<close>

record json_style =
  js_item_sep :: utext
  js_key_sep :: utext
  js_float :: "real \<Rightarrow> utext"
  js_default :: "pyval \<Rightarrow> utext"

definition hex_digit :: "nat \<Rightarrow> nat" where
  "hex_digit d = (if d < 10 then 48 + d else 87 + d)"

text \<open>The escapes of \<open>py_encode_basestring\<close>: quote, backslash and control characters.\<close>

definition json_escape :: "nat \<Rightarrow> utext" where
  "json_escape c =
     (if c = 34 then [92, 34] else if c = 92 then [92, 92]
      else if c = 10 then [92, 110] else if c = 13 then [92, 114] else if c = 9 then [92, 116]
      else if c = 12 then [92, 102] else if c = 8 then [92, 98]
      else if c < 32 then [92, 117, 48, 48, hex_digit (c div 16), hex_digit (c mod 16)]
      else [c])"

definition json_string :: "utext \<Rightarrow> utext" where
  "json_string t = [34] @ concat (map json_escape t) @ [34]"

fun json_dumps :: "json_style \<Rightarrow> pyval \<Rightarrow> utext" where
  "json_dumps js VNone = lit ''null''"
| "json_dumps js (VBool b) = lit (if b then ''true'' else ''false'')"
| "json_dumps js (VInt i) = str_int i"
| "json_dumps js (VFloat x) = js_float js x"
| "json_dumps js (VStr t) = json_string t"
| "json_dumps js (VBytes b) = json_string (js_default js (VBytes b))"
| "json_dumps js (VSet xs) = json_string (js_default js (VSet xs))"
| "json_dumps js (VList xs) = [91] @ join (js_item_sep js) (map (json_dumps js) xs) @ [93]"
| "json_dumps js (VTuple xs) = [91] @ join (js_item_sep js) (map (json_dumps js) xs) @ [93]"
| "json_dumps js (VDict kvs) = [123] @ join (js_item_sep js)
     (map (\<lambda>(k, v). json_string k @ js_key_sep js @ json_dumps js v) kvs) @ [125]"

text \<open>\<open>sort_keys=True\<close>: every object's items by key.\<close>

fun json_sort :: "pyval \<Rightarrow> pyval" where
  "json_sort (VList xs) = VList (map json_sort xs)"
| "json_sort (VTuple xs) = VTuple (map json_sort xs)"
| "json_sort (VDict kvs) = VDict (sort_key fst (map (\<lambda>(k, v). (k, json_sort v)) kvs))"
| "json_sort v = v"

definition compact_style :: "(real \<Rightarrow> utext) \<Rightarrow> (pyval \<Rightarrow> utext) \<Rightarrow> json_style" where
  "compact_style fl df = \<lparr>js_item_sep = lit '','', js_key_sep = lit '':'', js_float = fl, js_default = df\<rparr>"

definition default_style :: "(real \<Rightarrow> utext) \<Rightarrow> (pyval \<Rightarrow> utext) \<Rightarrow> json_style" where
  "default_style fl df = \<lparr>js_item_sep = lit '', '', js_key_sep = lit '': '', js_float = fl, js_default = df\<rparr>"

text \<open>The bytes a text takes inside a JSON string.\<close>

definition payload_bytes :: "utext \<Rightarrow> nat" where
  "payload_bytes t = length (utf8_encode (concat (map json_escape t)))"

lemma payload_bytes_append [simp]: "payload_bytes (t @ u) = payload_bytes t + payload_bytes u"
  by (simp add: payload_bytes_def)

lemma payload_bytes_Nil [simp]: "payload_bytes [] = 0"
  by (simp add: payload_bytes_def)

lemma payload_bytes_take_mono: "m \<le> n \<Longrightarrow> payload_bytes (take m t) \<le> payload_bytes (take n t)"
proof -
  assume "m \<le> n"
  then have "take n t = take m t @ take (n - m) (drop m t)"
    by (metis le_add_diff_inverse take_add)
  then show ?thesis by simp
qed

lemma json_string_bytes: "length (utf8_encode (json_string t)) = payload_bytes t + 2"
  by (simp add: json_string_def payload_bytes_def utf8_char_def)

lemma utf8_char_injective:
  assumes "scalar c" and "scalar d" and "utf8_char c = utf8_char d"
  shows "c = d"
  using decode_char_app(1) [OF assms(1), of "[]"] decode_char_app(1) [OF assms(2), of "[]"] assms(3) by simp

text \<open>
  Sorting the items of a dict by distinct keys forgets their order.
\<close>

lemma sort_fst_perm:
  assumes "mset kvs = mset kvs'" and "distinct (map fst kvs)"
  shows "sort_key fst kvs = sort_key fst kvs'"
proof (rule properties_for_sort_key)
  show "mset (sort_key fst kvs') = mset kvs" using assms(1) by simp
  show "sorted (map fst (sort_key fst kvs'))" by simp
  fix k
  assume k: "k \<in> set (sort_key fst kvs')"
  have d': "distinct (map fst kvs')" using assms by (metis mset_eq_imp_distinct_iff mset_map)
  have set_eq: "set (sort_key fst kvs') = set kvs" using assms(1) by (metis set_mset_mset set_sort)
  have one: "filter (\<lambda>y. fst k = fst y) xs = [k]" if "distinct (map fst xs)" "k \<in> set xs" for xs
    using that by (induction xs) (auto simp: filter_empty_conv image_iff)
  have ds: "distinct (map fst (sort_key fst kvs'))"
    using d' by (metis distinct_map distinct_sort set_sort)
  show "filter (\<lambda>y. fst k = fst y) (sort_key fst kvs') = filter (\<lambda>y. fst k = fst y) kvs"
    using one [OF assms(2)] one [OF ds k] k set_eq by simp
qed

end
