(* ===== verification/Tool_Results.thy ===== *)
theory Tool_Results
  imports Storage_Misc Artifact_Store Json_Text
begin

text \<open>
  The pure part of \<open>src/src/agentharness/engine/tool_execution.py\<close>: tool specifications and
  arguments, and the bounding of tool results (UTF-8 truncation, the binary search over
  JSON payload sizes, externalisation of large results as artifacts).
\<close>

section \<open>Calls, specs and arguments\<close>

definition tool_call_completed :: "tool_call \<Rightarrow> string set \<Rightarrow> bool" where
  "tool_call_completed tc completed \<longleftrightarrow> tc_invocation_id tc \<in> completed \<or> tc_id tc \<in> completed"

definition canonical_arguments :: "json_style \<Rightarrow> pydict \<Rightarrow> utext" where
  "canonical_arguments js args =
     json_dumps (js\<lparr>js_item_sep := lit '','', js_key_sep := lit '':''\<rparr>) (json_sort (VDict args))"

definition arguments_sha256 :: "(nat list \<Rightarrow> string) \<Rightarrow> json_style \<Rightarrow> pydict \<Rightarrow> string" where
  "arguments_sha256 sha js args = sha (utf8_encode (canonical_arguments js args))"

definition tool_name_char :: "nat \<Rightarrow> bool" where
  "tool_name_char c \<longleftrightarrow>
     (48 \<le> c \<and> c \<le> 57) \<or> (65 \<le> c \<and> c \<le> 90) \<or> (97 \<le> c \<and> c \<le> 122) \<or> c = 95 \<or> c = 45"

text \<open>\<open>_TOOL_NAME.fullmatch\<close>.\<close>

definition tool_name_ok :: "string \<Rightarrow> bool" where
  "tool_name_ok s \<longleftrightarrow> 1 \<le> length s \<and> length s \<le> 64 \<and> list_all tool_name_char (lit s)"

text \<open>\<open>check_schema\<close> is \<open>Draft202012Validator.check_schema\<close>, returning the message of a SchemaError.\<close>

definition validate_tool_spec :: "(pydict \<Rightarrow> utext option) \<Rightarrow> tool_spec \<Rightarrow> py_error + unit" where
  "validate_tool_spec check_schema spec =
     (if \<not> tool_name_ok (ts_name spec) then Inl (ValueError (lit ''invalid tool name''))
      else if strip (ts_description spec) = [] then Inl (ValueError (lit ''must have a description''))
      else let schema = (if ts_parameters spec = [] then [(lit ''type'', VStr (lit ''object''))]
                         else ts_parameters spec)
           in case check_schema schema of
                Some msg \<Rightarrow> Inl (ValueError (lit ''invalid JSON schema for tool: '' @ msg))
              | None \<Rightarrow>
                  if dict_get ''type'' schema = VNone \<or> dict_get ''type'' schema = VStr (lit ''object'')
                  then Inr () else Inl (ValueError (lit ''parameters must describe an object'')))"

definition resolved_replay_policy :: "tool_spec \<Rightarrow> effect_kind \<Rightarrow> replay_policy" where
  "resolved_replay_policy spec e =
     (case ts_replay_policy spec of
        Some p \<Rightarrow> p
      | None \<Rightarrow> if e = EK_pure \<or> e = EK_workspace_read then RP_safe else RP_never)"

definition resolved_parallel_safe :: "tool_spec \<Rightarrow> effect_kind \<Rightarrow> bool" where
  "resolved_parallel_safe spec e =
     (case ts_parallel_safe spec of
        Some b \<Rightarrow> b
      | None \<Rightarrow> e = EK_pure \<or> e = EK_workspace_read)"

fun effect_value :: "effect_kind \<Rightarrow> string" where
  "effect_value EK_pure = ''pure''"
| "effect_value EK_workspace_read = ''workspace_read''"
| "effect_value EK_workspace_write = ''workspace_write''"
| "effect_value EK_process = ''process''"
| "effect_value EK_network = ''network''"
| "effect_value EK_destructive = ''destructive''"

text \<open>\<open>pystr\<close> is \<open>str()\<close> of an argument value.\<close>

fun scope_of_keys :: "(pyval \<Rightarrow> utext) \<Rightarrow> utext \<Rightarrow> pydict \<Rightarrow> string list \<Rightarrow> utext" where
  "scope_of_keys pystr pre args [] = pre"
| "scope_of_keys pystr pre args (k # ks) =
     (let v = dict_get k args
      in if v \<noteq> VNone \<and> v \<noteq> VStr [] then pre @ lit '':'' @ lit k @ lit ''='' @ pystr v
         else scope_of_keys pystr pre args ks)"

definition approval_scope :: "(pyval \<Rightarrow> utext) \<Rightarrow> string \<Rightarrow> effect_kind \<Rightarrow> pydict \<Rightarrow> utext" where
  "approval_scope pystr tool_name e args =
     scope_of_keys pystr (lit tool_name @ lit '':'' @ lit (effect_value e)) args
       [''path'', ''url'', ''server'', ''context_id'', ''scope'']"

definition invalid_arguments_result :: "string \<Rightarrow> string \<Rightarrow> string \<Rightarrow> utext list \<Rightarrow> tool_result" where
  "invalid_arguments_result call_id inv_id tool errors =
     (new_tool_result call_id tool (lit ''Invalid tool arguments: '' @ join (lit ''; '') (take 8 errors)))
       \<lparr>tr_invocation_id := Some inv_id, tr_is_error := True, tr_error_code := Some ''invalid_arguments'',
        tr_error_category := Some ''validation'', tr_retryable := True,
        tr_recovery_hint := Some (lit ''Call the tool again with arguments matching its JSON schema.''),
        tr_attempts := 0\<rparr>"

text \<open>\<open>x or default\<close> on optional strings.\<close>

definition str_or :: "string option \<Rightarrow> string \<Rightarrow> string" where
  "str_or v d = (case v of None \<Rightarrow> d | Some s \<Rightarrow> if s = '''' then d else s)"

definition opt_text :: "utext option \<Rightarrow> pyval" where
  "opt_text v = (case v of None \<Rightarrow> VNone | Some t \<Rightarrow> VStr t)"

definition tool_result_model_content :: "json_style \<Rightarrow> tool_result \<Rightarrow> utext" where
  "tool_result_model_content js r =
     (if \<not> tr_is_error r then tr_content r
      else json_dumps js (VDict
        [(lit ''ok'', VBool False),
         (lit ''error'', VDict
           [(lit ''code'', VStr (lit (str_or (tr_error_code r) ''tool_failed''))),
            (lit ''category'', VStr (lit (str_or (tr_error_category r) ''tool''))),
            (lit ''message'', VStr (tr_content r)),
            (lit ''retryable'', VBool (tr_retryable r)),
            (lit ''recovery_hint'', opt_text (tr_recovery_hint r))])]))"

section \<open>The tool result messages of a call\<close>

definition calls_tool :: "string \<Rightarrow> message \<Rightarrow> bool" where
  "calls_tool iid m \<longleftrightarrow>
     m_role m = MR_assistant \<and>
     (case m_tool_calls m of None \<Rightarrow> False | Some tcs \<Rightarrow> list_ex (\<lambda>c. tc_invocation_id c = iid) tcs)"

text \<open>The scan keeps the last assistant message with the call; \<open>-1 + 1\<close> when there is none.\<close>

fun after_last_call :: "string \<Rightarrow> nat \<Rightarrow> nat \<Rightarrow> message list \<Rightarrow> nat" where
  "after_last_call iid i best [] = best"
| "after_last_call iid i best (m # ms) =
     after_last_call iid (Suc i) (if calls_tool iid m then Suc i else best) ms"

definition answers_call :: "tool_call \<Rightarrow> message \<Rightarrow> bool" where
  "answers_call tc m \<longleftrightarrow>
     m_role m = MR_tool \<and>
     (case m_tool_result m of
        Some r \<Rightarrow>
          (case tr_invocation_id r of
             Some i \<Rightarrow> if i \<noteq> '''' then i = tc_invocation_id tc else m_tool_call_id m = Some (tc_id tc)
           | None \<Rightarrow> m_tool_call_id m = Some (tc_id tc))
      | None \<Rightarrow> m_tool_call_id m = Some (tc_id tc))"

definition tool_result_messages_for_call :: "message list \<Rightarrow> tool_call \<Rightarrow> message list" where
  "tool_result_messages_for_call ms tc =
     filter (answers_call tc) (drop (after_last_call (tc_invocation_id tc) 0 0 ms) ms)"

definition drop_tool_result_messages ::
  "string \<Rightarrow> message list \<Rightarrow> tool_call \<Rightarrow> db \<Rightarrow> message list \<times> db" where
  "drop_tool_result_messages run_id ms tc db =
     (let stale = tool_result_messages_for_call ms tc
      in if stale = [] then (ms, db)
         else let ids = map m_id stale
              in (filter (\<lambda>m. m_id m \<notin> set ids) ms, fst (delete_messages run_id ids db)))"

definition append_tool_result ::
  "redactor \<Rightarrow> json_style \<Rightarrow> (tool_call \<Rightarrow> pyval) \<Rightarrow> (tool_result \<Rightarrow> pyval) \<Rightarrow> string \<Rightarrow> time \<Rightarrow> string \<Rightarrow> string \<Rightarrow>
   message list \<Rightarrow> tool_result \<Rightarrow> db \<Rightarrow> py_error + message list \<times> db" where
  "append_tool_result rd js dc dr fresh now run_id session_id ms r db =
     (let msg = \<lparr>m_id = fresh, m_role = MR_tool, m_content = redact_text rd (tool_result_model_content js r),
                 m_tool_call_id = Some (tr_tool_call_id r), m_name = Some (tr_name r), m_tool_calls = None,
                 m_tool_result = Some (r\<lparr>tr_content := redact_text rd (tr_content r)\<rparr>), m_created_at = now\<rparr>;
          ms' = ms @ [msg]
      in case save_message rd dc dr run_id session_id msg (length ms') db of
           Inl e \<Rightarrow> Inl e
         | Inr db' \<Rightarrow> Inr (ms', db'))"

section \<open>Truncation\<close>

definition truncate_utf8 :: "utext \<Rightarrow> int \<Rightarrow> utext \<Rightarrow> utext" where
  "truncate_utf8 t max_bytes suffix =
     (let n = nat (max 0 max_bytes); sb = utf8_encode suffix; enc = utf8_encode t
      in if n < length sb then utf8_decode_ignore (take n sb)
         else if length enc + length sb \<le> n then t @ suffix
         else utf8_decode_ignore (take (n - length sb) enc) @ suffix)"

text \<open>The binary search of \<open>_truncate_json_string_payload\<close>.\<close>

function trunc_search :: "utext \<Rightarrow> int \<Rightarrow> utext \<Rightarrow> int \<Rightarrow> int \<Rightarrow> utext \<Rightarrow> utext" where
  "trunc_search t limit suffix low high best =
     (if low \<le> high
      then let mid = (low + high) div 2; cand = take (nat mid) t @ suffix
           in if int (payload_bytes cand) \<le> limit then trunc_search t limit suffix (mid + 1) high cand
              else trunc_search t limit suffix low (mid - 1) best
      else best)"
  by pat_completeness auto
termination by (relation "measure (\<lambda>(t, l, s, low, high, b). nat (high - low + 1))") auto

declare trunc_search.simps [simp del]

definition truncate_json_string_payload :: "utext \<Rightarrow> int \<Rightarrow> utext \<Rightarrow> utext" where
  "truncate_json_string_payload t limit suffix =
     (if int (payload_bytes t) \<le> limit then t
      else let s = (if int (payload_bytes suffix) \<le> limit then suffix else [])
           in trunc_search t limit s 0 (int (length t)) s)"

section \<open>Serialisation and fitting\<close>

fun part_type_value :: "part_type \<Rightarrow> string" where
  "part_type_value PT_text = ''text''"
| "part_type_value PT_json = ''json''"
| "part_type_value PT_image = ''image''"
| "part_type_value PT_resource = ''resource''"

definition opt_str :: "string option \<Rightarrow> pyval" where
  "opt_str v = (case v of None \<Rightarrow> VNone | Some s \<Rightarrow> VStr (lit s))"

definition dump_part :: "tool_content_part \<Rightarrow> pyval" where
  "dump_part p = VDict
     [(lit ''type'', VStr (lit (part_type_value (cp_type p)))), (lit ''text'', opt_text (cp_text p)),
      (lit ''data'', cp_data p), (lit ''mime_type'', opt_str (cp_mime_type p)),
      (lit ''artifact_id'', opt_str (cp_artifact_id p))]"

text \<open>\<open>ToolResult.model_dump(mode="json")\<close>: the fields in declaration order.\<close>

definition dump_tool_result :: "tool_result \<Rightarrow> pyval" where
  "dump_tool_result r = VDict
     [(lit ''tool_call_id'', VStr (lit (tr_tool_call_id r))), (lit ''name'', VStr (lit (tr_name r))),
      (lit ''content'', VStr (tr_content r)), (lit ''final_output'', opt_text (tr_final_output r)),
      (lit ''pause_status'', case tr_pause_status r of None \<Rightarrow> VNone
         | Some PS_require_human \<Rightarrow> VStr (lit ''require_human'')
         | Some PS_waiting_approval \<Rightarrow> VStr (lit ''waiting_approval'')),
      (lit ''pause_reason'', opt_text (tr_pause_reason r)), (lit ''invocation_id'', opt_str (tr_invocation_id r)),
      (lit ''is_error'', VBool (tr_is_error r)), (lit ''artifact_id'', opt_str (tr_artifact_id r)),
      (lit ''parts'', VList (map dump_part (tr_parts r))),
      (lit ''duration_ms'', case tr_duration_ms r of None \<Rightarrow> VNone | Some x \<Rightarrow> VFloat x),
      (lit ''attempts'', VInt (int (tr_attempts r))), (lit ''error_code'', opt_str (tr_error_code r)),
      (lit ''error_category'', opt_str (tr_error_category r)), (lit ''retryable'', VBool (tr_retryable r)),
      (lit ''recovery_hint'', opt_text (tr_recovery_hint r))]"

definition serialized_tool_result :: "json_style \<Rightarrow> tool_result \<Rightarrow> nat list" where
  "serialized_tool_result js r =
     utf8_encode (json_dumps (js\<lparr>js_item_sep := lit '','', js_key_sep := lit '':''\<rparr>) (dump_tool_result r))"

definition fit_serialized_tool_result :: "json_style \<Rightarrow> tool_result \<Rightarrow> int \<Rightarrow> tool_result" where
  "fit_serialized_tool_result js r limit =
     (if int (length (serialized_tool_result js r)) \<le> limit then r
      else
        let base = r\<lparr>tr_content := [], tr_final_output := map_option (\<lambda>_. []) (tr_final_output r), tr_parts := []\<rparr>;
            avail = max 0 (limit - int (length (serialized_tool_result js base)));
            bf = map_option (\<lambda>f. truncate_json_string_payload f avail (lit (CHR 0x0A # ''...[final output limit reached]'')))
                   (tr_final_output r);
            avail' = (case bf of None \<Rightarrow> avail | Some f \<Rightarrow> avail - int (payload_bytes f));
            bc = truncate_json_string_payload (tr_content r) avail'
                   (lit (CHR 0x0A # ''...[structured tool result limit reached]''))
        in r\<lparr>tr_content := bc, tr_final_output := bf, tr_parts := []\<rparr>)"

text \<open>Error codes are ASCII identifiers, so cutting their UTF-8 bytes cuts characters.\<close>

definition clip_str :: "string option \<Rightarrow> int \<Rightarrow> string option" where
  "clip_str v n = (case v of None \<Rightarrow> None
     | Some s \<Rightarrow> if s = '''' then None else Some (map char_of (truncate_utf8 (lit s) n [])))"

definition clip_text :: "utext option \<Rightarrow> int \<Rightarrow> utext option" where
  "clip_text v n = (case v of None \<Rightarrow> None | Some t \<Rightarrow> if t = [] then None else Some (truncate_utf8 t n []))"

definition bound_fields :: "tool_spec \<Rightarrow> budget_config \<Rightarrow> tool_result \<Rightarrow> tool_result" where
  "bound_fields spec budget r =
     (let limit = int (min (ts_max_result_bytes spec) (b_max_tool_result_bytes budget));
          content = (if limit < int (length (utf8_encode (tr_content r)))
                     then truncate_utf8 (tr_content r) limit (lit (CHR 0x0A # ''...[tool result limit reached]''))
                     else tr_content r);
          flimit = min limit (b_max_output_length budget);
          final = map_option (\<lambda>f. if flimit < int (length (utf8_encode f))
                     then truncate_utf8 f flimit (lit (CHR 0x0A # ''...[final output limit reached]'')) else f)
                   (tr_final_output r);
          parts = (if tr_parts r = []
                   then [\<lparr>cp_type = PT_text, cp_text = Some content, cp_data = VNone, cp_mime_type = None,
                          cp_artifact_id = None\<rparr>]
                   else tr_parts r)
      in r\<lparr>tr_content := content, tr_final_output := final, tr_parts := parts,
           tr_error_code := clip_str (tr_error_code r) 128,
           tr_error_category := clip_str (tr_error_category r) 128,
           tr_recovery_hint := clip_text (tr_recovery_hint r) 512\<rparr>)"

text \<open>
  \<open>_bound_tool_result\<close>: the stores it may write are the artifact files and the index;
  \<open>fresh\<close> is the new artifact's id, \<open>path\<close> the path of a hash.
\<close>

definition bound_tool_result ::
  "codec \<Rightarrow> redactor \<Rightarrow> json_style \<Rightarrow> (string \<Rightarrow> string) \<Rightarrow> time \<Rightarrow> string \<Rightarrow> tool_spec \<Rightarrow> budget_config \<Rightarrow>
   tool_result \<Rightarrow> file_map \<times> db \<Rightarrow> tool_result \<times> file_map \<times> db" where
  "bound_tool_result co rd js path now fresh spec budget r0 st =
     (let total = int (b_max_tool_result_bytes budget);
          r = fit_serialized_tool_result js (bound_fields spec budget r0) total;
          ser = serialized_tool_result js r;
          inline = int (b_max_inline_tool_result_bytes budget)
      in if int (length ser) \<le> inline then (r, st)
         else
           let (files, db) = st;
               (files', meta) = artifact_put co rd now fresh (PBytes ser) (lit ''application/json'')
                                  (Some (take 200 (tr_content r))) files;
               row = \<lparr>af_id = am_id meta, af_sha256 = am_sha256 meta, af_content_type = Some ''application/json'',
                      af_size_bytes = Some (am_size_bytes meta), af_summary = Some (am_summary meta),
                      af_path = path (am_sha256 meta), af_created_at = am_created_at meta\<rparr>;
               (db', aid) = register_artifact rd row db;
               suffix = lit (CHR 0x0A # ''...[artifact:'') @ lit aid @ lit '' sha='' @
                        lit (take 12 (am_sha256 meta)) @ lit '']'';
               r' = r\<lparr>tr_artifact_id := Some aid, tr_content := truncate_utf8 (tr_content r) inline suffix,
                      tr_parts := [\<lparr>cp_type = PT_resource, cp_text = Some (lit ''Full tool result stored as artifact''),
                        cp_data = VNone, cp_mime_type = Some ''application/json'', cp_artifact_id = Some aid\<rparr>]\<rparr>
           in (fit_serialized_tool_result js r' total, files', db'))"

section \<open>Dynamic tool policies\<close>

text \<open>
  A tool's optional hooks, \<open>None\<close> when it has none; a hook that raises or returns another
  type yields \<open>None\<close>.
\<close>

record tool =
  tl_spec :: tool_spec
  tl_effect_for :: "(pydict \<Rightarrow> effect_kind option) option"
  tl_replay_policy_for :: "(pydict \<Rightarrow> replay_policy option) option"
  tl_parallel_safe_for :: "(pydict \<Rightarrow> (bool option) option) option"
  tl_browser_bound :: bool
  tl_has_reconcile :: bool
  tl_requires_confirmation :: bool

definition effect_for :: "tool \<Rightarrow> tool_call \<Rightarrow> effect_kind" where
  "effect_for tool tc =
     (case tl_effect_for tool of
        None \<Rightarrow> ts_effect (tl_spec tool)
      | Some f \<Rightarrow> (case f (tc_arguments tc) of Some e \<Rightarrow> e | None \<Rightarrow> ts_effect (tl_spec tool)))"

definition replay_policy_for :: "tool \<Rightarrow> tool_call \<Rightarrow> effect_kind \<Rightarrow> replay_policy" where
  "replay_policy_for tool tc e =
     (case tl_replay_policy_for tool of
        None \<Rightarrow> resolved_replay_policy (tl_spec tool) e
      | Some f \<Rightarrow> (case f (tc_arguments tc) of Some p \<Rightarrow> p | None \<Rightarrow> resolved_replay_policy (tl_spec tool) e))"

text \<open>Here an exception (outer \<open>None\<close>) fails closed; another type falls back.\<close>

definition parallel_safe_for :: "tool \<Rightarrow> tool_call \<Rightarrow> effect_kind \<Rightarrow> bool" where
  "parallel_safe_for tool tc e =
     (case tl_parallel_safe_for tool of
        None \<Rightarrow> resolved_parallel_safe (tl_spec tool) e
      | Some f \<Rightarrow>
          (case f (tc_arguments tc) of
             None \<Rightarrow> False
           | Some (Some b) \<Rightarrow> b
           | Some None \<Rightarrow> resolved_parallel_safe (tl_spec tool) e))"

definition resolve_browser_context_id ::
  "(pyval \<Rightarrow> utext) \<Rightarrow> (string \<Rightarrow> tool option) \<Rightarrow> tool_call \<Rightarrow> utext option" where
  "resolve_browser_context_id pystr tools tc =
     (let is_browser = (tc_name tc = ''browser'' \<or>
            (case tools (tc_name tc) of None \<Rightarrow> False | Some t \<Rightarrow> tl_browser_bound t));
          cid = dict_get ''context_id'' (tc_arguments tc)
      in if is_browser then Some (pystr (or_else cid (VStr (lit ''default''))))
         else if truthy cid then Some (pystr cid) else None)"

end
