(* ===== verification/Result_Bounds.thy ===== *)
theory Result_Bounds
  imports Tool_Results
begin

text \<open>
  What the bounding of tool results guarantees: byte limits, longest fitting prefixes, and
  the bookkeeping of tool result messages in the transcript.
\<close>

section \<open>UTF-8 truncation\<close>

text \<open>
  UTF-8 truncation respects the byte limit, never splits a character, keeps text that
  fits, and otherwise keeps the longest prefix for which prefix and marker fit (or, when
  even the marker does not fit, a prefix of the marker).
\<close>

theorem truncate_utf8_longest:
  assumes "list_all scalar t" and "list_all scalar suffix"
  shows "int (length (utf8_encode (truncate_utf8 t n suffix))) \<le> max 0 n \<and>
    (int (length (utf8_encode suffix)) \<le> max 0 n \<longrightarrow>
       (\<exists>k. truncate_utf8 t n suffix = take k t @ suffix \<and>
          (k < length t \<longrightarrow> max 0 n < int (length (utf8_encode (take (Suc k) t @ suffix)))))) \<and>
    (max 0 n < int (length (utf8_encode suffix)) \<longrightarrow> (\<exists>k. truncate_utf8 t n suffix = take k suffix))"
proof -
  let ?n = "nat (max 0 n)" and ?sb = "utf8_encode suffix" and ?enc = "utf8_encode t"
  have n: "int ?n = max 0 n" by simp
  consider "?n < length ?sb" | "length ?sb \<le> ?n" "length ?enc + length ?sb \<le> ?n"
    | "length ?sb \<le> ?n" "?n < length ?enc + length ?sb" by linarith
  then show ?thesis
  proof cases
    case 1
    then have tr: "truncate_utf8 t n suffix = utf8_decode_ignore (take ?n ?sb)"
      by (simp add: truncate_utf8_def Let_def)
    obtain k where k: "utf8_decode_ignore (take ?n ?sb) = take k suffix" "length (utf8_encode (take k suffix)) \<le> ?n"
      using decode_truncated [OF assms(2)] by blast
    have "int (length (utf8_encode (truncate_utf8 t n suffix))) \<le> max 0 n" using k(2) n by (simp only: tr k(1))
    moreover have "\<not> int (length ?sb) \<le> max 0 n" using 1 n by linarith
    ultimately show ?thesis using tr k(1) by auto
  next
    case 2
    then have tr: "truncate_utf8 t n suffix = take (length t) t @ suffix" by (simp add: truncate_utf8_def Let_def)
    have "int (length (utf8_encode (truncate_utf8 t n suffix))) \<le> max 0 n"
      unfolding tr using 2(2) n by simp
    moreover have "\<not> max 0 n < int (length ?sb)" using 2(1) n by linarith
    ultimately show ?thesis using tr by blast
  next
    case 3
    obtain k where k: "utf8_decode_ignore (take (?n - length ?sb) ?enc) = take k t"
      "length (utf8_encode (take k t)) \<le> ?n - length ?sb"
      "k < length t \<longrightarrow> ?n - length ?sb < length (utf8_encode (take (Suc k) t))"
      using decode_truncated [OF assms(1)] by blast
    from 3 have tr: "truncate_utf8 t n suffix = take k t @ suffix" by (simp add: truncate_utf8_def Let_def k(1))
    have "length (utf8_encode (take k t @ suffix)) \<le> ?n" using k(2) 3(1) by simp
    then have "int (length (utf8_encode (truncate_utf8 t n suffix))) \<le> max 0 n" unfolding tr using n by linarith
    moreover have "k < length t \<longrightarrow> max 0 n < int (length (utf8_encode (take (Suc k) t @ suffix)))"
    proof
      assume "k < length t"
      with k(3) have "?n < length (utf8_encode (take (Suc k) t @ suffix))" by simp
      with n show "max 0 n < int (length (utf8_encode (take (Suc k) t @ suffix)))" by linarith
    qed
    moreover have "\<not> max 0 n < int (length ?sb)" using 3(1) n by linarith
    ultimately show ?thesis using tr by blast
  qed
qed

theorem truncate_utf8_longest_witness:
  "int (length (utf8_encode (truncate_utf8 [233, 233, 233] 5 [46]))) \<le> max 0 5"
  by (rule truncate_utf8_longest [THEN conjunct1]) (simp_all add: scalar_def)

section \<open>The binary search\<close>

definition fits :: "utext \<Rightarrow> int \<Rightarrow> utext \<Rightarrow> nat \<Rightarrow> bool" where
  "fits t limit suffix m \<longleftrightarrow> int (payload_bytes (take m t @ suffix)) \<le> limit"

lemma fits_down: "fits t limit suffix n \<Longrightarrow> m \<le> n \<Longrightarrow> fits t limit suffix m"
  using payload_bytes_take_mono [of m n t] by (simp add: fits_def)

lemma trunc_search_spec:
  assumes "0 \<le> low" and "high \<le> int (length t)" and "fits t limit suffix (nat (low - 1))"
    and "best = take (nat (low - 1)) t @ suffix" and "\<And>m. high < int m \<Longrightarrow> m \<le> length t \<Longrightarrow> \<not> fits t limit suffix m"
    and "low \<le> high + 1"
  shows "\<exists>k. trunc_search t limit suffix low high best = take k t @ suffix \<and> fits t limit suffix k \<and>
    (k < length t \<longrightarrow> \<not> fits t limit suffix (Suc k))"
  using assms
proof (induction t limit suffix low high best rule: trunc_search.induct)
  case (1 t limit suffix low high best)
  show ?case
  proof (cases "low \<le> high")
    case False
    with "1.prems" have "trunc_search t limit suffix low high best = take (nat (low - 1)) t @ suffix"
      by (simp add: trunc_search.simps)
    moreover have "\<not> fits t limit suffix (Suc (nat (low - 1)))" if "nat (low - 1) < length t"
    proof (rule "1.prems"(5))
      show "high < int (Suc (nat (low - 1)))" using False by linarith
    qed (use that in simp)
    ultimately show ?thesis using "1.prems"(3) by blast
  next
    case True
    let ?mid = "(low + high) div 2"
    let ?cand = "take (nat ?mid) t @ suffix"
    have mid: "low \<le> ?mid" "?mid \<le> high" using True by auto
    show ?thesis
    proof (cases "int (payload_bytes ?cand) \<le> limit")
      case fit: True
      have "trunc_search t limit suffix low high best = trunc_search t limit suffix (?mid + 1) high ?cand"
        using True fit by (subst trunc_search.simps) (simp add: Let_def)
      moreover have "\<exists>k. trunc_search t limit suffix (?mid + 1) high ?cand = take k t @ suffix \<and>
          fits t limit suffix k \<and> (k < length t \<longrightarrow> \<not> fits t limit suffix (Suc k))"
        by (rule "1.IH"(1) [OF True refl refl fit])
          (use "1.prems" mid fit in \<open>simp_all add: fits_def\<close>)
      ultimately show ?thesis by simp
    next
      case nofit: False
      have "trunc_search t limit suffix low high best = trunc_search t limit suffix low (?mid - 1) best"
        using True nofit by (subst trunc_search.simps) (simp add: Let_def)
      moreover have "\<not> fits t limit suffix m" if "?mid - 1 < int m" for m
      proof
        assume "fits t limit suffix m"
        moreover have "nat ?mid \<le> m" using that by linarith
        ultimately have "fits t limit suffix (nat ?mid)" by (rule fits_down)
        with nofit show False by (simp add: fits_def)
      qed
      then have "\<exists>k. trunc_search t limit suffix low (?mid - 1) best = take k t @ suffix \<and>
          fits t limit suffix k \<and> (k < length t \<longrightarrow> \<not> fits t limit suffix (Suc k))"
        by (intro "1.IH"(2) [OF True refl refl nofit]) (use "1.prems" mid in auto)
      ultimately show ?thesis by simp
    qed
  qed
qed

text \<open>
  C21. The binary search over JSON payload sizes returns the text itself when it fits, and
  otherwise the longest prefix that fits together with the marker (without the marker when
  that alone is too long); the result always fits.
\<close>

theorem truncate_json_longest:
  assumes "0 \<le> limit"
  shows "int (payload_bytes (truncate_json_string_payload t limit suffix)) \<le> limit \<and>
    (limit < int (payload_bytes t) \<longrightarrow>
       (\<exists>k s. s = (if int (payload_bytes suffix) \<le> limit then suffix else []) \<and>
          truncate_json_string_payload t limit suffix = take k t @ s \<and>
          (k < length t \<longrightarrow> limit < int (payload_bytes (take (Suc k) t @ s)))))"
proof (cases "int (payload_bytes t) \<le> limit")
  case False
  let ?s = "if int (payload_bytes suffix) \<le> limit then suffix else []"
  have tr: "truncate_json_string_payload t limit suffix = trunc_search t limit ?s 0 (int (length t)) ?s"
    using False by (simp add: truncate_json_string_payload_def Let_def)
  have "fits t limit ?s (nat (0 - 1))" using assms by (simp add: fits_def)
  then obtain k where "trunc_search t limit ?s 0 (int (length t)) ?s = take k t @ ?s" "fits t limit ?s k"
    "k < length t \<longrightarrow> \<not> fits t limit ?s (Suc k)"
    using trunc_search_spec [of 0 "int (length t)" t limit ?s ?s] by auto
  then show ?thesis by (auto simp: tr fits_def not_le)
qed (simp add: truncate_json_string_payload_def)

theorem truncate_json_longest_witness:
  "int (payload_bytes (truncate_json_string_payload [34, 34, 97] 3 [46])) \<le> 3"
  by (rule truncate_json_longest [THEN conjunct1]) simp

section \<open>Fitting a whole result\<close>

lemma serialized_split:
  fixes js :: json_style and r :: tool_result
  shows "length (serialized_tool_result js (r\<lparr>tr_content := c, tr_final_output := Some f, tr_parts := []\<rparr>)) =
   length (serialized_tool_result js (r\<lparr>tr_content := [], tr_final_output := Some [], tr_parts := []\<rparr>)) +
     payload_bytes c + payload_bytes f"
  "length (serialized_tool_result js (r\<lparr>tr_content := c, tr_final_output := None, tr_parts := []\<rparr>)) =
   length (serialized_tool_result js (r\<lparr>tr_content := [], tr_final_output := None, tr_parts := []\<rparr>)) +
     payload_bytes c"
  by (simp_all add: serialized_tool_result_def dump_tool_result_def json_string_bytes opt_text_def)

text \<open>
  C22. A fitted tool result serialises within the limit, or, when even the result without
  content, final output and parts exceeds it, is exactly as long as that bare result.
\<close>

theorem fit_within_limit:
  "int (length (serialized_tool_result js (fit_serialized_tool_result js r limit))) \<le>
   max limit (int (length (serialized_tool_result js
     (r\<lparr>tr_content := [], tr_final_output := map_option (\<lambda>_. []) (tr_final_output r), tr_parts := []\<rparr>))))"
proof (cases "int (length (serialized_tool_result js r)) \<le> limit")
  case False
  let ?base = "r\<lparr>tr_content := [], tr_final_output := map_option (\<lambda>_. []) (tr_final_output r), tr_parts := []\<rparr>"
  let ?B = "int (length (serialized_tool_result js ?base))"
  let ?av = "max 0 (limit - ?B)"
  let ?m1 = "lit (CHR 0x0A # ''...[final output limit reached]'')"
  let ?m2 = "lit (CHR 0x0A # ''...[structured tool result limit reached]'')"
  have tj: "int (payload_bytes (truncate_json_string_payload t l s)) \<le> l" if "0 \<le> l" for t l s
  proof (cases "int (payload_bytes t) \<le> l")
    case False
    let ?s = "if int (payload_bytes s) \<le> l then s else []"
    have "fits t l ?s (nat (0 - 1))" using that by (simp add: fits_def)
    from trunc_search_spec [of 0 "int (length t)" t l ?s ?s, OF _ _ this] False show ?thesis
      by (auto simp: truncate_json_string_payload_def Let_def fits_def)
  qed (simp add: truncate_json_string_payload_def)
  show ?thesis
  proof (cases "tr_final_output r")
    case None
    let ?c = "truncate_json_string_payload (tr_content r) ?av ?m2"
    have base: "?base = r\<lparr>tr_content := [], tr_final_output := None, tr_parts := []\<rparr>" by (simp add: None)
    have f: "fit_serialized_tool_result js r limit = r\<lparr>tr_content := ?c, tr_final_output := None, tr_parts := []\<rparr>"
      using False None unfolding fit_serialized_tool_result_def Let_def by simp
    have "int (payload_bytes ?c) \<le> ?av" by (rule tj) simp
    moreover have "int (length (serialized_tool_result js (r\<lparr>tr_content := ?c, tr_final_output := None, tr_parts := []\<rparr>))) =
        ?B + int (payload_bytes ?c)"
      using serialized_split(2) [of js ?c r] unfolding base by linarith
    ultimately show ?thesis unfolding f by linarith
  next
    case (Some fo)
    let ?f = "truncate_json_string_payload fo ?av ?m1"
    let ?c = "truncate_json_string_payload (tr_content r) (?av - int (payload_bytes ?f)) ?m2"
    have base: "?base = r\<lparr>tr_content := [], tr_final_output := Some [], tr_parts := []\<rparr>" by (simp add: Some)
    have f: "fit_serialized_tool_result js r limit = r\<lparr>tr_content := ?c, tr_final_output := Some ?f, tr_parts := []\<rparr>"
      using False Some unfolding fit_serialized_tool_result_def Let_def by simp
    have pf: "int (payload_bytes ?f) \<le> ?av" by (rule tj) simp
    have "int (payload_bytes ?c) \<le> ?av - int (payload_bytes ?f)" by (rule tj) (use pf in simp)
    moreover have "int (length (serialized_tool_result js (r\<lparr>tr_content := ?c, tr_final_output := Some ?f, tr_parts := []\<rparr>))) =
        ?B + int (payload_bytes ?c) + int (payload_bytes ?f)"
      using serialized_split(1) [of js ?f ?c r] unfolding base by linarith
    ultimately show ?thesis unfolding f by linarith
  qed
qed (simp add: fit_serialized_tool_result_def)

section \<open>Argument hashes\<close>

text \<open>
  The hash that binds an approval and a recovery decision to a call's arguments does
  not depend on the order in which the model wrote the keys.
\<close>

theorem arguments_hash_order_free:
  assumes "mset args = mset args'" and "distinct (map fst args)"
  shows "arguments_sha256 sha js args = arguments_sha256 sha js args'"
proof -
  let ?f = "\<lambda>(k, v). (k, json_sort v)"
  have "mset (map ?f args) = mset (map ?f args')" using assms(1) by simp
  moreover have "map fst (map ?f args) = map fst args" by auto
  ultimately have "sort_key fst (map ?f args) = sort_key fst (map ?f args')"
    using assms(2) by (intro sort_fst_perm) (simp_all only:)
  then show ?thesis by (simp add: arguments_sha256_def canonical_arguments_def)
qed

theorem arguments_hash_order_free_witness:
  "arguments_sha256 (map char_of) (compact_style (\<lambda>_. []) (\<lambda>_. [])) [([97], VInt 1), ([98], VNone)] =
   arguments_sha256 (map char_of) (compact_style (\<lambda>_. []) (\<lambda>_. [])) [([98], VNone), ([97], VInt 1)]"
  by (rule arguments_hash_order_free) simp_all

section \<open>Replacing the result messages of a call\<close>

lemma after_last_no_call:
  "list_all (\<lambda>m. \<not> calls_tool k m) ms \<Longrightarrow> after_last_call k i b ms = b"
  by (induction ms arbitrary: i) auto

lemma after_last_append:
  "list_all (\<lambda>m. \<not> calls_tool k m) post \<Longrightarrow> after_last_call k i b (pre @ post) = after_last_call k i b pre"
  by (induction pre arbitrary: i b) (auto simp: after_last_no_call)

lemma after_last_ends:
  "calls_tool k (last pre) \<Longrightarrow> pre \<noteq> [] \<Longrightarrow> after_last_call k i b pre = i + length pre"
  by (induction pre arbitrary: i b) (auto split: if_splits)

lemma split_last_call:
  obtains pre post where "ms = pre @ post" "list_all (\<lambda>m. \<not> calls_tool k m) post"
    "pre = [] \<or> calls_tool k (last pre)" "after_last_call k 0 0 ms = length pre"
proof (cases "\<exists>m \<in> set ms. calls_tool k m")
  case True
  then obtain ys x zs where s: "ms = ys @ x # zs" "calls_tool k x" "\<forall>z \<in> set zs. \<not> calls_tool k z"
    by (metis split_list_last_prop)
  have z: "list_all (\<lambda>m. \<not> calls_tool k m) zs" using s(3) by (simp add: list_all_iff)
  have "after_last_call k 0 0 ((ys @ [x]) @ zs) = length (ys @ [x])"
    unfolding after_last_append [OF z] using s(2) by (subst after_last_ends) simp_all
  with s z show ?thesis by (intro that [of "ys @ [x]" zs]) simp_all
next
  case False
  then have "list_all (\<lambda>m. \<not> calls_tool k m) ms" by (simp add: list_all_iff)
  then show ?thesis by (intro that [of "[]" ms]) (simp_all add: after_last_no_call)
qed

lemma answers_not_calls: "answers_call tc m \<Longrightarrow> \<not> calls_tool k m"
  by (simp add: answers_call_def calls_tool_def)

text \<open>
  Replacing a tool result leaves no stale one: after the result messages of a call are
  dropped from a transcript with distinct message ids, the call has no result message left,
  and every other message is kept, in order.
\<close>

theorem drop_results_complete:
  assumes "distinct (map m_id ms)" and "drop_tool_result_messages run_id ms tc db = (ms', db')"
  shows "tool_result_messages_for_call ms' tc = [] \<and>
    (\<exists>pre post. ms = pre @ post \<and> ms' = pre @ filter (\<lambda>m. \<not> answers_call tc m) post \<and>
       tool_result_messages_for_call ms tc = filter (answers_call tc) post)"
proof -
  obtain pre post where s: "ms = pre @ post" "list_all (\<lambda>m. \<not> calls_tool (tc_invocation_id tc) m) post"
    "pre = [] \<or> calls_tool (tc_invocation_id tc) (last pre)"
    "after_last_call (tc_invocation_id tc) 0 0 ms = length pre"
    by (rule split_last_call)
  have stale: "tool_result_messages_for_call ms tc = filter (answers_call tc) post"
    using s(1,4) by (simp add: tool_result_messages_for_call_def)
  have ids: "m_id m \<in> set (map m_id (filter (answers_call tc) post)) \<longleftrightarrow> m \<in> set post \<and> answers_call tc m"
    if m: "m \<in> set ms" for m
  proof
    assume "m_id m \<in> set (map m_id (filter (answers_call tc) post))"
    then obtain n where n: "n \<in> set post" "answers_call tc n" "m_id n = m_id m" by auto
    then have "n = m" using assms(1) m s(1) by (metis Un_iff distinct_map inj_onD set_append)
    with n show "m \<in> set post \<and> answers_call tc m" by simp
  qed simp
  have pre_post: "m \<notin> set post" if "m \<in> set pre" for m
    using assms(1) s(1) that by (auto simp: distinct_map)
  have "filter (\<lambda>m. m_id m \<notin> set (map m_id (filter (answers_call tc) post))) pre = pre"
    by (rule filter_True) (use ids pre_post s(1) in \<open>metis Un_iff set_append\<close>)
  moreover have "filter (\<lambda>m. m_id m \<notin> set (map m_id (filter (answers_call tc) post))) post =
      filter (\<lambda>m. \<not> answers_call tc m) post"
    by (rule filter_cong [OF refl]) (use ids s(1) in \<open>metis Un_iff set_append\<close>)
  ultimately have f: "filter (\<lambda>m. m_id m \<notin> set (map m_id (filter (answers_call tc) post))) ms =
      pre @ filter (\<lambda>m. \<not> answers_call tc m) post"
    by (simp only: s(1) filter_append)
  have ms': "ms' = pre @ filter (\<lambda>m. \<not> answers_call tc m) post"
  proof (cases "filter (answers_call tc) post = []")
    case True
    with assms(2) have "ms' = ms" by (simp add: drop_tool_result_messages_def stale)
    moreover have "filter (\<lambda>m. \<not> answers_call tc m) post = post"
      using True by (simp add: filter_empty_conv)
    ultimately show ?thesis by (simp add: s(1))
  next
    case False
    then show ?thesis using assms(2) f by (simp add: drop_tool_result_messages_def stale Let_def del: set_map set_filter)
  qed
  have post': "list_all (\<lambda>m. \<not> calls_tool (tc_invocation_id tc) m) (filter (\<lambda>m. \<not> answers_call tc m) post)"
    using s(2) by (simp add: list_all_iff)
  have "after_last_call (tc_invocation_id tc) 0 0 ms' = length pre"
    using s(3) after_last_ends [of "tc_invocation_id tc" pre 0 0]
    unfolding ms' after_last_append [OF post'] by (cases "pre = []") simp_all
  then have "tool_result_messages_for_call ms' tc = []"
    by (simp add: tool_result_messages_for_call_def ms' filter_empty_conv)
  with s(1) ms' stale show ?thesis by blast
qed

definition demo_tool_message :: message where
  "demo_tool_message = \<lparr>m_id = ''m'', m_role = MR_tool, m_content = [], m_tool_call_id = Some ''c'',
     m_name = None, m_tool_calls = None, m_tool_result = None, m_created_at = 0\<rparr>"

definition demo_call :: tool_call where
  "demo_call = \<lparr>tc_id = ''c'', tc_invocation_id = ''i'', tc_name = ''shell'', tc_arguments = [],
     tc_arguments_raw = [], tc_ordinal = 0, tc_status = CS_pending\<rparr>"

theorem drop_results_complete_witness:
  "tool_result_messages_for_call (fst (drop_tool_result_messages ''r'' [demo_tool_message] demo_call empty_db)) demo_call = []"
  by (rule drop_results_complete [THEN conjunct1,
        of "[demo_tool_message]" "''r''" demo_call empty_db _
           "snd (drop_tool_result_messages ''r'' [demo_tool_message] demo_call empty_db)"])
    simp_all

end
