(* ===== verification/Scheduler.thy ===== *)
theory Scheduler
  imports Contracts "HOL-Library.Multiset"
begin

text \<open>
  \<open>src/src/agentharness/engine/scheduler.py\<close>: how a batch of tool calls is run. The batch is
  cut into segments of parallel-safe calls separated by barriers; inside a segment calls
  compete for the concurrency semaphore and for the write or browser-context locks.
\<close>

section \<open>Locks\<close>

datatype lock = BrowserLock utext | WriteLock

text \<open>Which lock \<open>run\<close> takes; an empty context id is falsy.\<close>

definition lock_of :: "effect_kind \<Rightarrow> utext option \<Rightarrow> lock option" where
  "lock_of e browser_id =
     (case browser_id of
        Some b \<Rightarrow> if b \<noteq> [] then Some (BrowserLock b)
                  else if e \<in> {EK_workspace_write, EK_destructive, EK_process} then Some WriteLock else None
      | None \<Rightarrow> if e \<in> {EK_workspace_write, EK_destructive, EK_process} then Some WriteLock else None)"

section \<open>Segments\<close>

text \<open>
  A batch item: the effect, the call (here its action on the state it may touch, with its
  result), the browser context and the optional fourth component.
\<close>

record ('s, 'a) batch_item =
  bi_effect :: effect_kind
  bi_fn :: "'s \<Rightarrow> 's \<times> 'a"
  bi_browser :: "utext option"
  bi_parallel_safe :: "bool option"

definition item_parallel_safe :: "('s, 'a) batch_item \<Rightarrow> bool" where
  "item_parallel_safe it =
     (case bi_parallel_safe it of
        Some b \<Rightarrow> b
      | None \<Rightarrow> bi_effect it \<in> {EK_pure, EK_workspace_read, EK_network})"

text \<open>
  The loop of \<open>run_batch\<close>: \<open>segment\<close> collects parallel-safe items; an unsafe item flushes
  it and runs alone. The result lists the groups in the order they are awaited.
\<close>

fun plan_loop :: "(nat \<times> ('s, 'a) batch_item) list \<Rightarrow> (nat \<times> ('s, 'a) batch_item) list \<Rightarrow>
    (nat \<times> ('s, 'a) batch_item) list list" where
  "plan_loop segment [] = (if segment = [] then [] else [segment])"
| "plan_loop segment (x # xs) =
     (if item_parallel_safe (snd x) then plan_loop (segment @ [x]) xs
      else (if segment = [] then [] else [segment]) @ [[x]] @ plan_loop [] xs)"

definition plan_batch :: "('s, 'a) batch_item list \<Rightarrow> (nat \<times> ('s, 'a) batch_item) list list" where
  "plan_batch items = plan_loop [] (enumerate 0 items)"

text \<open>Running one item: its result goes to its own slot.\<close>

definition run_item :: "nat \<times> ('s, 'a) batch_item \<Rightarrow> 's \<times> 'a option list \<Rightarrow> 's \<times> 'a option list" where
  "run_item x sr =
     (let (s', a) = bi_fn (snd x) (fst sr) in (s', (snd sr)[fst x := Some a]))"

text \<open>
  Any order in which the event loop may complete the groups: each group in some
  permutation, the groups in plan order.
\<close>

definition schedule_of :: "('s, 'a) batch_item list \<Rightarrow> (nat \<times> ('s, 'a) batch_item) list \<Rightarrow> bool" where
  "schedule_of items order \<longleftrightarrow>
     (\<exists>groups. list_all2 (\<lambda>g p. mset g = mset p) groups (plan_batch items) \<and> order = concat groups)"

definition run_batch :: "('s, 'a) batch_item list \<Rightarrow> (nat \<times> ('s, 'a) batch_item) list \<Rightarrow> 's \<Rightarrow> 's \<times> 'a option list" where
  "run_batch items order s = fold run_item order (s, replicate (length items) None)"

section \<open>The plan\<close>

lemma plan_loop_concat: "concat (plan_loop segment xs) = segment @ xs"
  by (induction segment xs rule: plan_loop.induct) auto

lemma plan_loop_groups:
  "list_all (\<lambda>x. item_parallel_safe (snd x)) segment \<Longrightarrow> g \<in> set (plan_loop segment xs) \<Longrightarrow>
   g \<noteq> [] \<and> (list_all (\<lambda>x. item_parallel_safe (snd x)) g \<or> (\<exists>x. g = [x] \<and> \<not> item_parallel_safe (snd x)))"
  by (induction segment xs rule: plan_loop.induct) (auto split: if_splits)

text \<open>
  The plan covers the batch: its groups, read in order, are exactly the calls of the
  batch in their order, each once, and every group is either one call that is not
  parallel-safe or consists of parallel-safe calls only, so an effectful call is a barrier
  between everything before and everything after it.
\<close>

theorem plan_covers_batch:
  "concat (plan_batch items) = enumerate 0 items \<and>
   (\<forall>g \<in> set (plan_batch items). g \<noteq> [] \<and>
      (list_all (\<lambda>x. item_parallel_safe (snd x)) g \<or> (\<exists>x. g = [x] \<and> \<not> item_parallel_safe (snd x))))"
proof (intro conjI ballI)
  show "concat (plan_batch items) = enumerate 0 items" by (simp add: plan_batch_def plan_loop_concat)
  fix g
  assume g: "g \<in> set (plan_batch items)"
  have "list_all (\<lambda>x. item_parallel_safe (snd x)) []" by simp
  from plan_loop_groups [OF this g [unfolded plan_batch_def]]
  show "g \<noteq> []"
    and "list_all (\<lambda>x. item_parallel_safe (snd x)) g \<or> (\<exists>x. g = [x] \<and> \<not> item_parallel_safe (snd x))"
    by (rule conjunct1, rule conjunct2)
qed

definition demo_item :: "(nat, nat) batch_item" where
  "demo_item = \<lparr>bi_effect = EK_pure, bi_fn = \<lambda>s. (s, s), bi_browser = None, bi_parallel_safe = None\<rparr>"

theorem plan_covers_batch_witness: "concat (plan_batch [demo_item, demo_item]) = enumerate 0 [demo_item, demo_item]"
  by (rule plan_covers_batch [THEN conjunct1])

section \<open>Serialisability\<close>

definition read_only :: "('s, 'a) batch_item \<Rightarrow> bool" where
  "read_only it \<longleftrightarrow> (\<forall>s. fst (bi_fn it s) = s)"

lemma run_item_read_only:
  "read_only (snd x) \<Longrightarrow> run_item x (s, rs) = (s, rs[fst x := Some (snd (bi_fn (snd x) s))])"
  by (simp add: run_item_def read_only_def case_prod_unfold)

lemma run_read_only:
  assumes "list_all (\<lambda>x. read_only (snd x)) g"
  shows "fold run_item g (s, rs) = (s, fold (\<lambda>x rs. rs[fst x := Some (snd (bi_fn (snd x) s))]) g rs)"
  using assms by (induction g arbitrary: rs) (simp_all add: run_item_read_only)

lemma fold_updates_nth:
  assumes "distinct (map fst g)" and "i < length rs"
  shows "fold (\<lambda>x rs. rs[fst x := f x]) g rs ! i =
     (if i \<in> fst ` set g then f (THE x. x \<in> set g \<and> fst x = i) else rs ! i)"
  using assms
proof (induction g arbitrary: rs)
  case (Cons y g)
  show ?case
  proof (cases "fst y = i")
    case True
    then have n: "i \<notin> fst ` set g" using Cons.prems by auto
    have "x = y" if "x \<in> set (y # g) \<and> fst x = i" for x
      using that n by (metis image_eqI set_ConsD)
    then have "(THE x. x \<in> set (y # g) \<and> fst x = i) = y" using True by (intro the_equality) auto
    with Cons True n show ?thesis by simp
  next
    case False
    then have "(THE x. x \<in> set (y # g) \<and> fst x = i) = (THE x. x \<in> set g \<and> fst x = i)"
      by (metis (no_types, lifting) set_ConsD list.set_intros(2))
    with Cons False show ?thesis by auto
  qed
qed simp

lemma length_fold_updates: "length (fold (\<lambda>x rs. rs[fst x := f x]) g rs) = length rs"
  by (induction g arbitrary: rs) simp_all

lemma fold_updates_perm:
  assumes "mset g = mset g'" and "distinct (map fst g)"
  shows "fold (\<lambda>x rs. rs[fst x := f x]) g rs = fold (\<lambda>x rs. rs[fst x := f x]) g' rs"
proof (rule nth_equalityI)
  have s: "set g = set g'" using assms(1) by (metis set_mset_mset)
  have d: "distinct (map fst g')" using assms by (metis mset_eq_imp_distinct_iff mset_map)
  fix i
  assume "i < length (fold (\<lambda>x rs. rs[fst x := f x]) g rs)"
  then have i: "i < length rs" by (simp add: length_fold_updates)
  show "fold (\<lambda>x rs. rs[fst x := f x]) g rs ! i = fold (\<lambda>x rs. rs[fst x := f x]) g' rs ! i"
    unfolding fold_updates_nth [OF assms(2) i] fold_updates_nth [OF d i] s by (rule refl)
qed (simp add: length_fold_updates)

lemma run_group_perm:
  assumes "mset g = mset p" and "distinct (map fst p)"
    and "list_all (\<lambda>x. read_only (snd x)) p \<or> (\<exists>x. p = [x])"
  shows "fold run_item g sr = fold run_item p sr"
  using assms(3)
proof
  assume ro: "list_all (\<lambda>x. read_only (snd x)) p"
  have s: "set g = set p" using assms(1) by (metis set_mset_mset)
  have rg: "list_all (\<lambda>x. read_only (snd x)) g" using ro by (simp add: list_all_iff s)
  have d: "distinct (map fst g)" using assms(1,2) by (metis mset_eq_imp_distinct_iff mset_map)
  show ?thesis
    using fold_updates_perm [OF assms(1) d] by (cases sr) (simp add: run_read_only [OF ro] run_read_only [OF rg])
next
  assume "\<exists>x. p = [x]"
  with assms(1) show ?thesis by auto
qed

lemma run_groups_perm:
  assumes "list_all2 (\<lambda>g p. mset g = mset p) groups plan"
    and "\<And>p. p \<in> set plan \<Longrightarrow> list_all (\<lambda>x. read_only (snd x)) p \<or> (\<exists>x. p = [x])"
    and "distinct (map fst (concat plan))"
  shows "fold run_item (concat groups) sr = fold run_item (concat plan) sr"
  using assms
proof (induction groups plan arbitrary: sr rule: list_all2_induct)
  case (Cons g gs p ps)
  have "distinct (map fst p)" "distinct (map fst (concat ps))" using Cons.prems(2) by simp_all
  moreover have "list_all (\<lambda>x. read_only (snd x)) p \<or> (\<exists>x. p = [x])" using Cons.prems(1) by simp
  moreover have "\<And>q. q \<in> set ps \<Longrightarrow> list_all (\<lambda>x. read_only (snd x)) q \<or> (\<exists>x. q = [x])"
    using Cons.prems(1) by simp
  ultimately show ?case using Cons.IH run_group_perm [OF Cons.hyps(1)] by simp
qed simp

text \<open>
  C35. Serialisability: when the calls treated as parallel-safe do not change the state,
  every order in which the groups' calls may complete gives the final state and the result
  vector of running the batch one call after the other, each result in its call's slot.
\<close>

theorem run_batch_serialisable:
  assumes "\<And>it. it \<in> set items \<Longrightarrow> item_parallel_safe it \<Longrightarrow> read_only it"
    and "schedule_of items order"
  shows "run_batch items order s = fold run_item (enumerate 0 items) (s, replicate (length items) None)"
proof -
  from assms(2) obtain groups where g: "list_all2 (\<lambda>g p. mset g = mset p) groups (plan_batch items)"
    "order = concat groups" by (auto simp: schedule_of_def)
  have c: "concat (plan_batch items) = enumerate 0 items" by (simp add: plan_batch_def plan_loop_concat)
  have "list_all (\<lambda>x. read_only (snd x)) p \<or> (\<exists>x. p = [x])" if p: "p \<in> set (plan_batch items)" for p
  proof -
    have "p \<noteq> [] \<and> (list_all (\<lambda>x. item_parallel_safe (snd x)) p \<or> (\<exists>x. p = [x] \<and> \<not> item_parallel_safe (snd x)))"
      using plan_loop_groups [of "[]" p] p by (simp add: plan_batch_def)
    moreover have "snd x \<in> set items" if "x \<in> set p" for x
    proof -
      have "x \<in> set (enumerate 0 items)" using p that c by (metis UN_I set_concat)
      then show ?thesis by (auto simp: in_set_enumerate_eq intro: nth_mem dest: sym)
    qed
    ultimately show ?thesis using assms(1) unfolding list_all_iff by blast
  qed
  from run_groups_perm [OF g(1) this] show ?thesis by (simp add: run_batch_def g(2) c)
qed

theorem run_batch_serialisable_witness:
  "run_batch [demo_item, demo_item] [(1, demo_item), (0, demo_item)] 7 = (7, [Some 7, Some 7])"
proof -
  have ro: "read_only it" if "it \<in> set [demo_item, demo_item]" "item_parallel_safe it" for it
    using that(1) by (simp add: read_only_def demo_item_def)
  have "schedule_of [demo_item, demo_item] [(1, demo_item), (0, demo_item)]"
    unfolding schedule_of_def
    by (rule exI [of _ "[[(1, demo_item), (0, demo_item)]]"])
      (simp add: plan_batch_def item_parallel_safe_def demo_item_def)
  then have "run_batch [demo_item, demo_item] [(1, demo_item), (0, demo_item)] 7 =
      fold run_item (enumerate 0 [demo_item, demo_item]) (7, replicate (length [demo_item, demo_item]) None)"
  proof (rule run_batch_serialisable [rotated])
  qed (rule ro)
  also have "\<dots> = (7, [Some 7, Some 7])" by (simp add: run_item_def demo_item_def)
  finally show ?thesis .
qed

section \<open>Inside a group: semaphore and locks\<close>

text \<open>
  The calls of one group by phase: waiting for the semaphore, holding a permit while
  waiting for their lock, running, finished.
\<close>

record group_state =
  gs_max :: nat
  gs_waiting :: "(nat \<times> lock option) list"
  gs_holding :: "(nat \<times> lock option) list"
  gs_running :: "(nat \<times> lock option) list"
  gs_finished :: "(nat \<times> lock option) list"

definition lock_free :: "lock option \<Rightarrow> group_state \<Rightarrow> bool" where
  "lock_free l s \<longleftrightarrow> l = None \<or> l \<notin> snd ` set (gs_running s)"

definition group_start :: "int \<Rightarrow> (nat \<times> lock option) list \<Rightarrow> group_state" where
  "group_start max_concurrency tasks =
     \<lparr>gs_max = nat (max 1 max_concurrency), gs_waiting = tasks, gs_holding = [], gs_running = [], gs_finished = []\<rparr>"

inductive group_step :: "group_state \<Rightarrow> group_state \<Rightarrow> bool" where
  permit: "gs_waiting s = a @ x # b \<Longrightarrow> length (gs_holding s) + length (gs_running s) < gs_max s \<Longrightarrow>
    group_step s (s\<lparr>gs_waiting := a @ b, gs_holding := gs_holding s @ [x]\<rparr>)"
| start: "gs_holding s = a @ x # b \<Longrightarrow> lock_free (snd x) s \<Longrightarrow>
    group_step s (s\<lparr>gs_holding := a @ b, gs_running := gs_running s @ [x]\<rparr>)"
| finish: "gs_running s = a @ x # b \<Longrightarrow>
    group_step s (s\<lparr>gs_running := a @ b, gs_finished := gs_finished s @ [x]\<rparr>)"

definition group_tasks :: "group_state \<Rightarrow> (nat \<times> lock option) multiset" where
  "group_tasks s = mset (gs_waiting s) + mset (gs_holding s) + mset (gs_running s) + mset (gs_finished s)"

definition group_ok :: "group_state \<Rightarrow> bool" where
  "group_ok s \<longleftrightarrow>
     1 \<le> gs_max s \<and> length (gs_holding s) + length (gs_running s) \<le> gs_max s \<and>
     distinct (filter (\<lambda>l. l \<noteq> None) (map snd (gs_running s)))"

definition work_left :: "group_state \<Rightarrow> nat" where
  "work_left s = 3 * length (gs_waiting s) + 2 * length (gs_holding s) + length (gs_running s)"

lemma group_start_ok: "group_ok (group_start m tasks)"
  by (simp add: group_ok_def group_start_def)

lemma distinct_filter_remove: "distinct (filter P (xs @ y # zs)) \<Longrightarrow> distinct (filter P (xs @ zs))"
  by (auto split: if_splits)

lemma group_step_ok: "group_step s s' \<Longrightarrow> group_ok s \<Longrightarrow> group_ok s'"
proof (induction rule: group_step.induct)
  case (start s a x b)
  have "snd x \<notin> set (filter (\<lambda>l. l \<noteq> None) (map snd (gs_running s)))"
    using start(2) by (auto simp: lock_free_def)
  with start show ?case by (auto simp: group_ok_def)
next
  case (finish s a x b)
  have "distinct (filter (\<lambda>l. l \<noteq> None) (map snd a @ map snd b))"
    by (rule distinct_filter_remove [of _ _ "snd x"]) (use finish in \<open>simp add: group_ok_def\<close>)
  with finish show ?case by (simp add: group_ok_def)
qed (auto simp: group_ok_def)

lemma group_step_tasks: "group_step s s' \<Longrightarrow> group_tasks s' = group_tasks s"
  by (induction rule: group_step.induct) (simp_all add: group_tasks_def)

lemma group_step_work: "group_step s s' \<Longrightarrow> Suc (work_left s') = work_left s"
  by (induction rule: group_step.induct) (simp_all add: work_left_def)

lemma group_reach_ok: "group_step\<^sup>*\<^sup>* s s' \<Longrightarrow> group_ok s \<Longrightarrow> group_ok s' \<and> group_tasks s' = group_tasks s"
  by (induction rule: rtranclp_induct) (auto intro: group_step_ok simp: group_step_tasks)

lemma group_progress:
  assumes "group_ok s" and "work_left s \<noteq> 0"
  shows "\<exists>s'. group_step s s'"
proof (cases "gs_running s")
  case (Cons x xs)
  then show ?thesis using group_step.finish [of s "[]" x xs] by auto
next
  case Nil
  show ?thesis
  proof (cases "gs_holding s")
    case (Cons x xs)
    have "lock_free (snd x) s" using Nil by (simp add: lock_free_def)
    then show ?thesis using group_step.start [of s "[]" x xs] Cons by auto
  next
    case holding: Nil
    with Nil assms(2) obtain x xs where "gs_waiting s = x # xs" by (cases "gs_waiting s") (auto simp: work_left_def)
    then show ?thesis using group_step.permit [of s "[]" x xs] Nil holding assms(1) by (auto simp: group_ok_def)
  qed
qed

text \<open>
  C36. Concurrency discipline and completion of a group: in every reachable state at most
  \<open>max(1, max_concurrency)\<close> calls hold a permit and no two running calls share the write
  lock or a browser context; no call is lost; and the group cannot get stuck: while a call
  is unfinished some step is possible, every step makes progress, so every run of the group
  finishes all calls after three steps per call.
\<close>

theorem group_completes:
  assumes "group_step\<^sup>*\<^sup>* (group_start m tasks) s"
  shows "length (gs_holding s) + length (gs_running s) \<le> nat (max 1 m) \<and>
    distinct (filter (\<lambda>l. l \<noteq> None) (map snd (gs_running s))) \<and>
    mset (gs_waiting s) + mset (gs_holding s) + mset (gs_running s) + mset (gs_finished s) = mset tasks \<and>
    (mset (gs_finished s) \<noteq> mset tasks \<longrightarrow> (\<exists>s'. group_step s s')) \<and>
    (\<forall>s'. group_step s s' \<longrightarrow> work_left s' < work_left s)"
proof -
  have mx: "gs_max s = nat (max 1 m)"
    using assms by (induction rule: rtranclp_induct) (auto simp: group_start_def elim: group_step.cases)
  from group_reach_ok [OF assms group_start_ok] have ok: "group_ok s" and t: "group_tasks s = mset tasks"
    by (simp_all add: group_tasks_def group_start_def)
  have "\<exists>s'. group_step s s'" if "mset (gs_finished s) \<noteq> mset tasks"
  proof (rule group_progress [OF ok])
    show "work_left s \<noteq> 0" using that t by (auto simp: work_left_def group_tasks_def)
  qed
  moreover have "\<forall>s'. group_step s s' \<longrightarrow> work_left s' < work_left s"
    using group_step_work by (metis lessI)
  ultimately show ?thesis using ok t mx by (simp add: group_ok_def group_tasks_def)
qed

theorem group_completes_witness:
  "mset (gs_waiting (group_start 0 [(0, Some WriteLock)])) + mset (gs_holding (group_start 0 [(0, Some WriteLock)])) +
   mset (gs_running (group_start 0 [(0, Some WriteLock)])) + mset (gs_finished (group_start 0 [(0, Some WriteLock)])) =
   mset [(0, Some WriteLock)]"
  by (rule group_completes [THEN conjunct2, THEN conjunct2, THEN conjunct1]) (rule rtranclp.rtrancl_refl)

end
