(* ===== verification/Message_Groups.thy ===== *)
theory Message_Groups
  imports Contracts Json_Text
begin

text \<open>
  \<open>src/src/agentharness/engine/context.py\<close>, first part: token estimates, the billing of a
  model turn, and the grouping of a transcript into messages and tool pairs, with the
  grammar of transcripts a provider accepts.
\<close>

section \<open>Token estimates\<close>

definition estimate_tokens :: "utext \<Rightarrow> nat" where
  "estimate_tokens t = (if t = [] then 0 else max 1 ((length t + 3) div 4))"

definition stable_json :: "json_style \<Rightarrow> pyval \<Rightarrow> utext" where
  "stable_json js v = json_dumps (js\<lparr>js_item_sep := lit '','', js_key_sep := lit '':''\<rparr>) (json_sort v)"

definition estimate_call_tokens :: "json_style \<Rightarrow> tool_call \<Rightarrow> nat" where
  "estimate_call_tokens js c =
     estimate_tokens (lit (tc_name c)) + estimate_tokens (stable_json js (VDict (tc_arguments c)))"

definition estimate_message_tokens :: "json_style \<Rightarrow> message \<Rightarrow> nat" where
  "estimate_message_tokens js m =
     estimate_tokens (m_content m) +
     (case m_tool_calls m of None \<Rightarrow> 0 | Some cs \<Rightarrow> sum_list (map (estimate_call_tokens js) cs))"

definition estimate_messages_tokens :: "json_style \<Rightarrow> message list \<Rightarrow> nat" where
  "estimate_messages_tokens js ms = sum_list (map (estimate_message_tokens js) ms)"

definition estimate_tool_tokens :: "json_style \<Rightarrow> tool_spec \<Rightarrow> nat" where
  "estimate_tool_tokens js t =
     estimate_tokens (lit (ts_name t) @ ts_description t @ stable_json js (VDict (ts_parameters t)))"

section \<open>Billing a turn\<close>

text \<open>
  One side (input or output) of \<open>billable_turn_usage\<close>: the provider's counter, unless it is
  absent or exceeds the local estimate by the inflation ratio and the slack.
\<close>

definition bill_side :: "int \<Rightarrow> int \<Rightarrow> int \<Rightarrow> int \<Rightarrow> bool \<Rightarrow> int \<times> bool" where
  "bill_side prov loc ratio slack est =
     (if 0 < loc \<and> max (loc * ratio) (loc + slack) < prov then (loc, True)
      else if 0 < prov then (prov, est)
      else (loc, if loc \<noteq> 0 then True else est))"

definition billable_turn_usage :: "usage \<Rightarrow> int \<Rightarrow> utext \<Rightarrow> int \<Rightarrow> usage" where
  "billable_turn_usage u local_input_estimate output_text inflation_ratio =
     (let local_out = int (estimate_tokens output_text);
          prov_in = max 0 (u_input_tokens u);
          prov_out = max 0 (u_output_tokens u);
          local_in = max 0 local_input_estimate;
          (bill_in, est) = bill_side prov_in local_in inflation_ratio 4096 (u_estimated u);
          (bill_out, est') = bill_side prov_out local_out inflation_ratio 1024 est
      in default_usage\<lparr>u_input_tokens := bill_in, u_output_tokens := bill_out,
           u_total_tokens := bill_in + bill_out, u_estimated := est'\<rparr>)"

lemma bill_side_bounds:
  assumes "0 \<le> prov" "0 \<le> loc" "bill_side prov loc ratio slack est = (bill, est')" "0 \<le> slack"
  shows "0 \<le> bill" "0 < loc \<Longrightarrow> bill \<le> max (loc * ratio) (loc + slack)"
    "\<not> est' \<Longrightarrow> bill = prov \<and> \<not> est" "0 < prov \<Longrightarrow> prov \<le> max (loc * ratio) (loc + slack) \<Longrightarrow> bill = prov"
    "bill = prov \<or> bill = loc"
  using assms by (auto simp: bill_side_def split: if_splits)

text \<open>
  Billing of a turn is defensible: both sides are non-negative and add up to the total; a
  side with a positive local estimate never exceeds the larger of the estimate times the
  inflation ratio and the estimate plus its slack (4096 input, 1024 output tokens), however
  inflated the gateway's counter is; and a usage that is not marked as estimated carries
  exactly the provider's own counters, which the provider did not mark as estimated either.
\<close>

theorem billing_bounds:
  fixes u local_in out ratio
  defines "b \<equiv> billable_turn_usage u local_in out ratio"
  shows "0 \<le> u_input_tokens b \<and> 0 \<le> u_output_tokens b \<and>
    u_total_tokens b = u_input_tokens b + u_output_tokens b \<and>
    (0 < local_in \<longrightarrow> u_input_tokens b \<le> max (local_in * ratio) (local_in + 4096)) \<and>
    (out \<noteq> [] \<longrightarrow> u_output_tokens b \<le>
       max (int (estimate_tokens out) * ratio) (int (estimate_tokens out) + 1024)) \<and>
    (\<not> u_estimated b \<longrightarrow> \<not> u_estimated u \<and> u_input_tokens b = max 0 (u_input_tokens u) \<and>
       u_output_tokens b = max 0 (u_output_tokens u))"
proof -
  let ?o = "int (estimate_tokens out)"
  obtain bi e where i: "bill_side (max 0 (u_input_tokens u)) (max 0 local_in) ratio 4096 (u_estimated u) = (bi, e)"
    by fastforce
  obtain bo e' where o: "bill_side (max 0 (u_output_tokens u)) ?o ratio 1024 e = (bo, e')"
    by fastforce
  have b: "u_input_tokens b = bi" "u_output_tokens b = bo" "u_total_tokens b = bi + bo" "u_estimated b = e'"
    by (simp_all add: b_def billable_turn_usage_def Let_def i o)
  have pos: "0 < ?o" if "out \<noteq> []" using that by (simp add: estimate_tokens_def)
  note I = bill_side_bounds [OF _ _ i] and O = bill_side_bounds [OF _ _ o]
  show ?thesis unfolding b using I(1-3) O(1-3) pos by auto
qed

theorem billing_bounds_witness:
  "u_input_tokens (billable_turn_usage (default_usage\<lparr>u_input_tokens := 90000\<rparr>) 100 [65] 8) \<le> 4196"
  using billing_bounds [of "default_usage\<lparr>u_input_tokens := 90000\<rparr>" 100 "[65]" 8] by simp

section \<open>Groups\<close>

record msg_group =
  g_messages :: "message list"
  g_start :: nat
  g_end :: nat
  g_valid :: bool
  g_tool_pair :: bool

definition has_calls :: "message \<Rightarrow> bool" where
  "has_calls m \<longleftrightarrow> m_role m = MR_assistant \<and> (case m_tool_calls m of None \<Rightarrow> False | Some cs \<Rightarrow> cs \<noteq> [])"

definition call_ids :: "message \<Rightarrow> string set" where
  "call_ids m = (case m_tool_calls m of None \<Rightarrow> {} | Some cs \<Rightarrow> tc_id ` set cs)"

text \<open>The inner loop: the run of tool messages that answer the calls.\<close>

definition answers_one_of :: "string set \<Rightarrow> message \<Rightarrow> bool" where
  "answers_one_of ids m \<longleftrightarrow>
     m_role m = MR_tool \<and> (case m_tool_call_id m of None \<Rightarrow> False | Some i \<Rightarrow> i \<in> ids)"

text \<open>\<open>found\<close>: an empty \<open>tool_call_id\<close> is falsy and not collected.\<close>

definition found_ids :: "message list \<Rightarrow> string set" where
  "found_ids ms = {i. \<exists>m \<in> set ms. m_tool_call_id m = Some i \<and> i \<noteq> ''''}"

lemma found_ids_code [code]:
  "found_ids ms = set (filter (\<lambda>i. i \<noteq> '''') (List.map_filter m_tool_call_id ms))"
  by (induction ms) (auto simp: found_ids_def List.map_filter_def)

function groups_from :: "nat \<Rightarrow> message list \<Rightarrow> msg_group list" where
  "groups_from i [] = []"
| "groups_from i (m # ms) =
     (if has_calls m
      then let answers = takeWhile (answers_one_of (call_ids m)) ms
           in \<lparr>g_messages = m # answers, g_start = i, g_end = i + length answers,
               g_valid = (found_ids answers = call_ids m), g_tool_pair = True\<rparr>
              # groups_from (i + 1 + length answers) (drop (length answers) ms)
      else \<lparr>g_messages = [m], g_start = i, g_end = i, g_valid = (m_role m \<noteq> MR_tool), g_tool_pair = False\<rparr>
           # groups_from (i + 1) ms)"
  by pat_completeness auto
termination by (relation "measure (\<lambda>(i, ms). length ms)") auto

declare groups_from.simps(2) [simp del]

definition message_groups :: "message list \<Rightarrow> msg_group list" where
  "message_groups ms = groups_from 0 ms"

lemma groups_concat: "concat (map g_messages (groups_from i ms)) = ms"
proof (induction i ms rule: groups_from.induct)
  case (2 i m ms)
  then show ?case
    by (auto simp: groups_from.simps(2) Let_def takeWhile_eq_take [symmetric] dropWhile_eq_drop [symmetric])
qed simp

text \<open>The groups tile the transcript: their positions are consecutive.\<close>

fun tiling :: "nat \<Rightarrow> msg_group list \<Rightarrow> bool" where
  "tiling i [] = True"
| "tiling i (g # gs) =
     (g_start g = i \<and> g_messages g \<noteq> [] \<and> Suc (g_end g) = i + length (g_messages g) \<and> tiling (Suc (g_end g)) gs)"

lemma groups_tiling: "tiling i (groups_from i ms)"
  by (induction i ms rule: groups_from.induct) (simp_all add: groups_from.simps(2) Let_def)

section \<open>Transcripts a provider accepts\<close>

text \<open>
  Every tool message directly follows the assistant message whose call it answers (with only
  other answers in between), and every call is answered.
\<close>

definition closes_calls :: "message \<Rightarrow> message list \<Rightarrow> bool" where
  "closes_calls m answers \<longleftrightarrow>
     list_all (answers_one_of (call_ids m)) answers \<and>
     (\<forall>i \<in> call_ids m. \<exists>a \<in> set answers. m_tool_call_id a = Some i)"

inductive paired :: "message list \<Rightarrow> bool" where
  paired_Nil: "paired []"
| paired_plain: "m_role m \<noteq> MR_tool \<Longrightarrow> \<not> has_calls m \<Longrightarrow> paired ms \<Longrightarrow> paired (m # ms)"
| paired_calls: "has_calls m \<Longrightarrow> closes_calls m answers \<Longrightarrow> paired ms \<Longrightarrow> paired (m # answers @ ms)"

definition group_closed :: "message list \<Rightarrow> bool" where
  "group_closed ms \<longleftrightarrow>
     (\<exists>m. ms = [m] \<and> m_role m \<noteq> MR_tool \<and> \<not> has_calls m) \<or>
     (\<exists>m answers. ms = m # answers \<and> has_calls m \<and> closes_calls m answers)"

lemma paired_group: "group_closed g \<Longrightarrow> paired ms \<Longrightarrow> paired (g @ ms)"
  by (auto simp: group_closed_def intro: paired.intros)

lemma paired_groups: "list_all group_closed gs \<Longrightarrow> paired (concat gs)"
  by (induction gs) (auto intro: paired_Nil paired_group)

lemma groups_closed: "g \<in> set (groups_from i ms) \<Longrightarrow> g_valid g \<Longrightarrow> group_closed (g_messages g)"
proof (induction i ms rule: groups_from.induct)
  case (2 i m ms)
  show ?case
  proof (cases "has_calls m")
    case True
    let ?a = "takeWhile (answers_one_of (call_ids m)) ms"
    have "closes_calls m ?a" if "found_ids ?a = call_ids m"
    proof -
      have "list_all (answers_one_of (call_ids m)) ?a"
        by (auto simp: list_all_iff dest: set_takeWhileD)
      moreover have "\<exists>a \<in> set ?a. m_tool_call_id a = Some j" if "j \<in> call_ids m" for j
        using that \<open>found_ids ?a = call_ids m\<close> by (auto simp: found_ids_def)
      ultimately show ?thesis by (simp add: closes_calls_def)
    qed
    with True 2 show ?thesis
      by (auto simp: groups_from.simps(2) Let_def group_closed_def)
  next
    case False
    with 2 show ?thesis by (auto simp: groups_from.simps(2) group_closed_def)
  qed
qed simp

end
