(* ===== verification/Context_Plan.thy ===== *)
theory Context_Plan
  imports Message_Groups Artifact_Store Storage_Misc "HOL-Library.Product_Lexorder"
begin

text \<open>
  \<open>src/src/agentharness/engine/context.py\<close>, \<open>ContextPlanner\<close>: the pinned selection and its
  rendering, workspace rule discovery, the budgeting of the transcript, the plan of a turn
  and the folding of a compaction. Pydantic dumps, SHA-256 and the file system are parameters.
\<close>

section \<open>The planner and what it writes\<close>

text \<open>
  \<open>pl_artifacts\<close> and \<open>pl_storage\<close> say whether an artifact store and an index are attached;
  \<open>pl_disk_ok\<close> whether storing some messages raises no exception.
\<close>

record planner =
  pl_redactor :: redactor
  pl_json :: json_style
  pl_sha :: "nat list \<Rightarrow> string"
  pl_dump_message :: "message \<Rightarrow> pyval"
  pl_dump_tool :: "tool_spec \<Rightarrow> pyval"
  pl_artifacts :: "codec option"
  pl_storage :: bool
  pl_path :: "string \<Rightarrow> string"
  pl_disk_ok :: "message list \<Rightarrow> bool"

text \<open>\<open>xs_fresh\<close>: the ids \<open>uuid4\<close> draws next.\<close>

record ext_state =
  xs_files :: file_map
  xs_db :: db
  xs_fresh :: "nat \<Rightarrow> string"
  xs_drawn :: nat
  xs_now :: time

definition text_sha :: "planner \<Rightarrow> utext \<Rightarrow> string" where
  "text_sha p t = pl_sha p (utf8_encode t)"

definition externalize_messages :: "planner \<Rightarrow> message list \<Rightarrow> ext_state \<Rightarrow> string option \<times> ext_state" where
  "externalize_messages p ms s =
     (case pl_artifacts p of
        None \<Rightarrow> (None, s)
      | Some co \<Rightarrow>
          if \<not> pl_disk_ok p ms then (None, s)
          else
            let (files, meta) = artifact_put_json co (pl_redactor p) (xs_now s) (xs_fresh s (xs_drawn s))
                  (VList (map (pl_dump_message p) ms))
                  (Some (lit ''Context content externalized by budget planner'')) (xs_files s);
                s' = s\<lparr>xs_files := files, xs_drawn := Suc (xs_drawn s)\<rparr>
            in if pl_storage p
               then let row = \<lparr>af_id = am_id meta, af_sha256 = am_sha256 meta,
                               af_content_type = Some ''application/json'',
                               af_size_bytes = Some (am_size_bytes meta), af_summary = Some (am_summary meta),
                               af_path = pl_path p (am_sha256 meta), af_created_at = am_created_at meta\<rparr>;
                        (db, aid) = register_artifact (pl_redactor p) row (xs_db s)
                    in (if aid = '''' then None else Some aid, s'\<lparr>xs_db := db\<rparr>)
               else (if am_id meta = '''' then None else Some (am_id meta), s'))"

section \<open>The pinned selection\<close>

definition pinned :: "planner \<Rightarrow> string \<Rightarrow> utext \<Rightarrow> utext \<Rightarrow> utext \<Rightarrow> bool \<Rightarrow> pinned_item" where
  "pinned p section source content reason selected =
     (let safe = (if selected then redact_text (pl_redactor p) content else [])
      in \<lparr>pi_section = section, pi_source = redact_text (pl_redactor p) source, pi_content = safe,
          pi_content_hash = (if safe = [] then '''' else text_sha p safe),
          pi_token_estimate = estimate_tokens safe, pi_selected = selected, pi_reason = reason,
          pi_artifact_id = None\<rparr>)"

text \<open>
  The file system as \<open>pathlib\<close> sees it. A path is the list of its parts; \<open>fs_locate\<close> is
  \<open>Path(s).expanduser().resolve()\<close>, \<open>fs_strict\<close> the strict variant on strings, \<open>fs_target\<close>
  the strict resolution of a path; \<open>Inl\<close> carries the name of the \<open>OSError\<close>'s type.
\<close>

type_synonym path = "utext list"

record file_system =
  fs_locate :: "utext \<Rightarrow> path"
  fs_strict :: "utext \<Rightarrow> path option"
  fs_is_dir :: "path \<Rightarrow> bool"
  fs_exists :: "path \<Rightarrow> bool"
  fs_is_symlink :: "path \<Rightarrow> bool"
  fs_target :: "path \<Rightarrow> string + path"
  fs_size :: "path \<Rightarrow> string + nat"
  fs_read :: "path \<Rightarrow> string + utext"

text \<open>\<open>str(path)\<close> of an absolute path, whose first part is \<open>/\<close>.\<close>

definition path_str :: "path \<Rightarrow> utext" where
  "path_str q = hd (q @ [[]]) @ join [47] (tl q)"

definition path_order :: "path \<Rightarrow> nat \<times> utext" where
  "path_order q = (length q, path_str q)"

definition is_relative_to :: "path \<Rightarrow> path \<Rightarrow> bool" where
  "is_relative_to q anc \<longleftrightarrow> take (length anc) q = anc"

fun resolved_dirs :: "file_system \<Rightarrow> path list \<Rightarrow> utext list \<Rightarrow> path list" where
  "resolved_dirs fs tops [] = tops"
| "resolved_dirs fs tops (v # vs) =
     (case fs_strict fs v of
        None \<Rightarrow> resolved_dirs fs tops vs
      | Some q \<Rightarrow> resolved_dirs fs (if fs_is_dir fs q \<and> q \<notin> set tops then tops @ [q] else tops) vs)"

definition existing_resolved_dirs :: "file_system \<Rightarrow> utext list \<Rightarrow> path list" where
  "existing_resolved_dirs fs values = sort_key path_order (resolved_dirs fs [] values)"

definition max_rule_bytes :: nat where
  "max_rule_bytes = 64 * 1024"

definition legal_roots :: "file_system \<Rightarrow> utext option \<Rightarrow> utext list \<Rightarrow> path list" where
  "legal_roots fs cwd extra =
     (let here = (case cwd of None \<Rightarrow> lit ''.'' | Some c \<Rightarrow> if c = [] then lit ''.'' else c);
          tops = existing_resolved_dirs fs (here # extra);
          cur = fs_locate fs here
      in if cur \<in> set tops then tops else tops @ [cur])"

text \<open>The directories scanned: from the shortest ancestor root down to \<open>cwd\<close>, then other roots.\<close>

definition scan_dirs :: "path \<Rightarrow> path list \<Rightarrow> path list" where
  "scan_dirs cur tops =
     (let ancestors = filter (is_relative_to cur) tops;
          chain = (case ancestors of
              [] \<Rightarrow> [cur]
            | _ \<Rightarrow> let anc = hd (sort_key path_order ancestors)
                   in map (\<lambda>n. anc @ take n (drop (length anc) cur)) [0..<Suc (length cur - length anc)])
      in fold (\<lambda>anc acc. if anc \<notin> set acc \<and> \<not> is_relative_to cur anc then acc @ [anc] else acc) tops chain)"

definition rule_item :: "planner \<Rightarrow> file_system \<Rightarrow> path list \<Rightarrow> path \<Rightarrow> pinned_item" where
  "rule_item p fs tops candidate =
     (let source = path_str candidate;
          excluded = (\<lambda>why. pinned p ''workspace_rules'' source [] (lit ''excluded: '' @ why) False);
          unreadable = (\<lambda>e. excluded (lit ''unreadable ('' @ lit e @ lit '')''))
      in if fs_is_symlink fs candidate then excluded (lit ''symbolic links are not allowed'')
         else case fs_target fs candidate of
             Inl e \<Rightarrow> unreadable e
           | Inr resolved \<Rightarrow>
               if \<not> list_ex (is_relative_to resolved) tops then excluded (lit ''outside legal workspace roots'')
               else case fs_size fs resolved of
                   Inl e \<Rightarrow> unreadable e
                 | Inr bytes \<Rightarrow>
                     if max_rule_bytes < bytes
                     then excluded (lit ''file size '' @ str_nat bytes @ lit '' exceeds '' @
                            str_nat max_rule_bytes @ lit '' bytes'')
                     else case fs_read fs resolved of
                         Inl e \<Rightarrow> unreadable e
                       | Inr content \<Rightarrow> pinned p ''workspace_rules'' source content
                           (lit ''workspace rule from root-to-cwd hierarchy'') True)"

definition rule_candidates :: "path list \<Rightarrow> path list" where
  "rule_candidates dirs = concat (map (\<lambda>d. [d @ [lit ''AGENTS.md''], d @ [lit ''WORKBUDDY.md'']]) dirs)"

fun scan_rules :: "planner \<Rightarrow> file_system \<Rightarrow> path list \<Rightarrow> path set \<Rightarrow> path list \<Rightarrow> pinned_item list" where
  "scan_rules p fs tops seen [] = []"
| "scan_rules p fs tops seen (c # cs) =
     (if c \<in> seen \<or> \<not> fs_exists fs c then scan_rules p fs tops seen cs
      else rule_item p fs tops c # scan_rules p fs tops (insert c seen) cs)"

definition discover_workspace_rules :: "planner \<Rightarrow> file_system \<Rightarrow> utext option \<Rightarrow> utext list \<Rightarrow> pinned_item list" where
  "discover_workspace_rules p fs cwd extra =
     (let here = (case cwd of None \<Rightarrow> lit ''.'' | Some c \<Rightarrow> if c = [] then lit ''.'' else c);
          tops = legal_roots fs cwd extra
      in scan_rules p fs tops {} (rule_candidates (scan_dirs (fs_locate fs here) tops)))"

definition default_system :: "utext option \<Rightarrow> utext" where
  "default_system cwd =
     lit ''You are a capable agent running inside Agent Harness. '' @
     lit ''Follow safety and workspace rules, use tools when needed, and be concise and accurate. '' @
     lit ''Workspace cwd: '' @ (case cwd of None \<Rightarrow> lit ''.'' | Some c \<Rightarrow> if c = [] then lit ''.'' else c) @ lit ''.''"

definition text_or :: "utext option \<Rightarrow> utext \<Rightarrow> utext" where
  "text_or t d = (case t of None \<Rightarrow> d | Some x \<Rightarrow> if x = [] then d else x)"

text \<open>
  \<open>select_state\<close>; \<open>_coerce_or_select_state\<close> with a stored state copies it. \<open>system\<close> overrides
  \<open>request.system\<close>.
\<close>

definition select_state ::
  "planner \<Rightarrow> file_system \<Rightarrow> utext option \<Rightarrow> utext list \<Rightarrow> utext option \<Rightarrow> utext option \<Rightarrow> context_state" where
  "select_state p fs cwd extra request_system system =
     \<lparr>cs_schema_version = 1,
      cs_items = pinned p ''system''
          (if text_or request_system [] = [] then lit ''harness.default_system'' else lit ''request.system'')
          (text_or system (text_or request_system (default_system cwd)))
          (lit ''required safety and run instructions'') True
        # discover_workspace_rules p fs cwd extra,
      cs_summarized_message_ids = [], cs_compaction_count = 0\<rparr>"

definition coerce_or_select_state ::
  "planner \<Rightarrow> file_system \<Rightarrow> context_state option \<Rightarrow> utext option \<Rightarrow> utext list \<Rightarrow> utext option \<Rightarrow> utext option \<Rightarrow> context_state" where
  "coerce_or_select_state p fs st cwd extra request_system system =
     (case st of Some s \<Rightarrow> s | None \<Rightarrow> select_state p fs cwd extra request_system system)"

section \<open>Rendering\<close>

definition section_part :: "string \<Rightarrow> string \<Rightarrow> (pinned_item \<Rightarrow> utext) \<Rightarrow> pinned_item list \<Rightarrow> utext list" where
  "section_part section title source selected =
     (let sel = filter (\<lambda>i. pi_section i = section) selected
      in if sel = [] then []
         else [lit ''## '' @ lit title @ [10] @
               join [10, 10] (map (\<lambda>i. lit ''### '' @ source i @ [10] @ pi_content i) sel)])"

definition render_stable_prefix :: "context_state \<Rightarrow> utext option" where
  "render_stable_prefix st =
     (let selected = filter pi_selected (cs_items st);
          system = (case filter (\<lambda>i. pi_section i = ''system'') selected of [] \<Rightarrow> [] | i # _ \<Rightarrow> pi_content i);
          parts = (if system = [] then [] else [system]) @
            section_part ''workspace_rules'' ''Workspace rules'' pi_source selected @
            section_part ''history_summary'' ''Conversation summary''
              (\<lambda>_. lit ''summary of earlier conversation (auto-compacted)'') selected
      in if parts = [] then None else Some (join [10, 10] parts))"

definition state_manifest_items :: "planner \<Rightarrow> context_state \<Rightarrow> manifest_item list" where
  "state_manifest_items p st = map (\<lambda>i.
     \<lparr>mi_section = pi_section i, mi_source = pi_source i, mi_content_hash = pi_content_hash i,
      mi_token_estimate = pi_token_estimate i, mi_included = pi_selected i, mi_reason = pi_reason i,
      mi_compression = (if pi_selected i then CK_none else CK_excluded), mi_artifact_id = pi_artifact_id i,
      mi_preview = (if pi_selected i then redact_text (pl_redactor p) (take 160 (pi_content i)) else [])\<rparr>)
     (cs_items st)"

section \<open>Budgeting the transcript\<close>

record budget_group =
  bg_group :: msg_group
  bg_covered :: bool
  bg_tokens :: nat
  bg_item :: manifest_item
  bg_included :: bool
  bg_shrunk :: bool

definition bg_live :: "budget_group \<Rightarrow> bool" where
  "bg_live b \<longleftrightarrow> g_valid (bg_group b) \<and> \<not> bg_covered b"

definition annotate :: "planner \<Rightarrow> string set \<Rightarrow> msg_group \<Rightarrow> budget_group" where
  "annotate p summarized g =
     (let covered = (g_valid g \<and> list_all (\<lambda>m. m_id m \<in> summarized) (g_messages g));
          tokens = estimate_messages_tokens (pl_json p) (g_messages g);
          first = hd (g_messages g)
      in \<lparr>bg_group = g, bg_covered = covered, bg_tokens = tokens,
          bg_item = \<lparr>mi_section = ''messages'', mi_source = lit ''message:'' @ lit (m_id first),
            mi_content_hash = text_sha p (stable_json (pl_json p) (VList (map (pl_dump_message p) (g_messages g)))),
            mi_token_estimate = tokens, mi_included = (g_valid g \<and> \<not> covered),
            mi_reason = (if covered then lit ''summarized into rolling history summary''
                         else if g_valid g then lit ''conversation history''
                         else lit ''excluded: orphaned tool pair''),
            mi_compression = (if covered then CK_summarized else if g_valid g then CK_none else CK_excluded),
            mi_artifact_id = None, mi_preview = redact_text (pl_redactor p) (take 160 (m_content first))\<rparr>,
          bg_included = True, bg_shrunk = False\<rparr>)"

text \<open>\<open>max(index of the user messages, default=-1)\<close>.\<close>

fun last_user_from :: "int \<Rightarrow> int \<Rightarrow> message list \<Rightarrow> int" where
  "last_user_from i best [] = best"
| "last_user_from i best (m # ms) = last_user_from (i + 1) (if m_role m = MR_user then i else best) ms"

definition last_user :: "message list \<Rightarrow> int" where
  "last_user ms = last_user_from 0 (-1) ms"

definition exclude_group :: "planner \<Rightarrow> string option \<Rightarrow> budget_group \<Rightarrow> budget_group" where
  "exclude_group p aid b =
     b\<lparr>bg_included := False,
       bg_item := (bg_item b)\<lparr>mi_included := False,
         mi_reason := lit ''excluded by priority: older conversation history'',
         mi_compression := (if pl_artifacts p = None then CK_excluded else CK_externalized),
         mi_artifact_id := aid\<rparr>\<rparr>"

text \<open>
  First phase, over all groups (those that are not live are only in the manifest); stopping
  at \<open>tot \<le> budget\<close> is leaving the rest as it is.
\<close>

fun externalize_oldest ::
  "planner \<Rightarrow> int \<Rightarrow> int \<Rightarrow> int \<Rightarrow> budget_group list \<Rightarrow> ext_state \<Rightarrow> budget_group list \<times> int \<times> ext_state" where
  "externalize_oldest p budget lu tot [] s = ([], tot, s)"
| "externalize_oldest p budget lu tot (b # bs) s =
     (if bg_live b \<and> budget < tot \<and> int (g_end (bg_group b)) < lu
      then let (aid, s1) = externalize_messages p (g_messages (bg_group b)) s;
               (bs', tot', s2) = externalize_oldest p budget lu (tot - int (bg_tokens b)) bs s1
           in (exclude_group p aid b # bs', tot', s2)
      else let (bs', tot', s1) = externalize_oldest p budget lu tot bs s in (b # bs', tot', s1))"

definition tool_pointer :: "string option \<Rightarrow> utext" where
  "tool_pointer aid = lit ''[tool result externalized as artifact:'' @
     lit (case aid of None \<Rightarrow> ''unavailable'' | Some i \<Rightarrow> i) @ lit '']''"

definition large_result :: "message \<Rightarrow> bool" where
  "large_result m \<longleftrightarrow> m_role m = MR_tool \<and> 160 \<le> length (m_content m)"

text \<open>Second phase: the large result bodies of one tool pair.\<close>

fun shrink_messages :: "planner \<Rightarrow> int \<Rightarrow> message list \<Rightarrow> ext_state \<Rightarrow> message list \<times> int \<times> ext_state" where
  "shrink_messages p tot [] s = ([], tot, s)"
| "shrink_messages p tot (m # ms) s =
     (if large_result m
      then let (aid, s1) = externalize_messages p [m] s;
               saved = max 0 (int (estimate_tokens (m_content m)) - int (estimate_tokens (tool_pointer aid)));
               (ms', tot', s2) = shrink_messages p (tot - saved) ms s1
           in (m\<lparr>m_content := tool_pointer aid\<rparr> # ms', tot', s2)
      else let (ms', tot', s1) = shrink_messages p tot ms s in (m # ms', tot', s1))"

definition shrink_group :: "planner \<Rightarrow> message list \<Rightarrow> budget_group \<Rightarrow> budget_group" where
  "shrink_group p ms b =
     (let b' = b\<lparr>bg_group := (bg_group b)\<lparr>g_messages := ms\<rparr>\<rparr>
      in if list_ex large_result (g_messages (bg_group b))
         then b'\<lparr>bg_shrunk := True, bg_item := (bg_item b)\<lparr>mi_token_estimate := estimate_messages_tokens (pl_json p) ms,
                   mi_reason := lit ''included with large tool result externalized'',
                   mi_compression := CK_externalized\<rparr>\<rparr>
         else b')"

definition bg_final :: "budget_group \<Rightarrow> bool" where
  "bg_final b \<longleftrightarrow> bg_live b \<and> bg_included b"

fun shrink_results ::
  "planner \<Rightarrow> int \<Rightarrow> int \<Rightarrow> budget_group list \<Rightarrow> ext_state \<Rightarrow> budget_group list \<times> int \<times> ext_state" where
  "shrink_results p budget tot [] s = ([], tot, s)"
| "shrink_results p budget tot (b # bs) s =
     (if bg_final b \<and> budget < tot \<and> g_tool_pair (bg_group b)
      then let (ms, total1, s1) = shrink_messages p tot (g_messages (bg_group b)) s;
               (bs', tot', s2) = shrink_results p budget total1 bs s1
           in (shrink_group p ms b # bs', tot', s2)
      else let (bs', tot', s1) = shrink_results p budget tot bs s in (b # bs', tot', s1))"

definition over_budget :: "int \<Rightarrow> int \<Rightarrow> py_error" where
  "over_budget tot budget =
     ValueError (lit ''essential context requires '' @ str_int tot @ lit '' tokens but budget is '' @ str_int budget)"

definition budget_messages ::
  "planner \<Rightarrow> message list \<Rightarrow> nat \<Rightarrow> int \<Rightarrow> string set \<Rightarrow> ext_state \<Rightarrow>
   (py_error + message list \<times> manifest_item list \<times> bool) \<times> ext_state" where
  "budget_messages p ms base budget summarized s =
     (let groups = map (annotate p summarized) (message_groups ms);
          tot = int base + int (sum_list (map bg_tokens (filter bg_live groups)));
          (first, total1, s1) = externalize_oldest p budget (last_user ms) tot groups s;
          (final, total2, s2) = shrink_results p budget total1 first s1;
          compacted = (\<not> list_all bg_live groups \<or> list_ex (\<lambda>b. \<not> bg_included b) first \<or>
                       list_ex bg_shrunk final)
      in (if budget < total2 then Inl (over_budget total2 budget)
          else Inr (concat (map (\<lambda>b. g_messages (bg_group b)) (filter bg_final final)), map bg_item final, compacted),
          s2))"

section \<open>The plan of a turn\<close>

record context_manifest =
  cm_run_id :: string
  cm_model_turn :: nat
  cm_budget_tokens :: int
  cm_total_tokens :: int
  cm_prefix_fingerprint :: string
  cm_compacted :: bool
  cm_items :: "manifest_item list"

record context_bundle =
  cb_system :: "utext option"
  cb_messages :: "message list"
  cb_tools :: "tool_spec list"
  cb_manifest :: context_manifest
  cb_state :: context_state

definition tool_manifest_item :: "planner \<Rightarrow> tool_spec \<Rightarrow> manifest_item" where
  "tool_manifest_item p t =
     \<lparr>mi_section = ''tool_schemas'', mi_source = lit (ts_name t),
      mi_content_hash = text_sha p (stable_json (pl_json p) (pl_dump_tool p t)),
      mi_token_estimate = estimate_tool_tokens (pl_json p) t, mi_included = True,
      mi_reason = lit ''enabled for this run'', mi_compression = CK_none, mi_artifact_id = None,
      mi_preview = redact_text (pl_redactor p) (take 160 (ts_description t))\<rparr>"

text \<open>
  The last redaction pass over the dumped manifest and state. Their keys are none of the
  sensitive ones; redaction of their machine fields (section, hashes, ids) is taken to be
  the identity.
\<close>

definition safe_manifest_item :: "planner \<Rightarrow> manifest_item \<Rightarrow> manifest_item" where
  "safe_manifest_item p i = i\<lparr>mi_source := redact_text (pl_redactor p) (mi_source i),
     mi_reason := redact_text (pl_redactor p) (mi_reason i),
     mi_preview := redact_text (pl_redactor p) (mi_preview i)\<rparr>"

definition safe_pinned_item :: "planner \<Rightarrow> pinned_item \<Rightarrow> pinned_item" where
  "safe_pinned_item p i = i\<lparr>pi_source := redact_text (pl_redactor p) (pi_source i),
     pi_content := redact_text (pl_redactor p) (pi_content i),
     pi_reason := redact_text (pl_redactor p) (pi_reason i)\<rparr>"

text \<open>\<open>budget\<close> is \<open>int(max_tokens or request.budget.max_context_tokens)\<close>.\<close>

definition plan ::
  "planner \<Rightarrow> string \<Rightarrow> nat \<Rightarrow> message list \<Rightarrow> tool_spec list \<Rightarrow> context_state \<Rightarrow> int option \<Rightarrow> budget_config \<Rightarrow>
   ext_state \<Rightarrow> (py_error + context_bundle) \<times> ext_state" where
  "plan p run_id model_turn ms tools st max_tokens b s =
     (let budget = (case max_tokens of None \<Rightarrow> b_max_context_tokens b
                      | Some t \<Rightarrow> if t = 0 then b_max_context_tokens b else t);
          tools_out = sort_key (\<lambda>t. lit (ts_name t)) tools;
          system = render_stable_prefix st;
          base = estimate_tokens (text_or system []) + sum_list (map (estimate_tool_tokens (pl_json p)) tools_out);
          fingerprint = text_sha p (stable_json (pl_json p)
            (VDict [(lit ''system'', case system of None \<Rightarrow> VNone | Some t \<Rightarrow> VStr t),
                    (lit ''tools'', VList (map (pl_dump_tool p) tools_out))]))
      in if budget \<le> 0 then (Inl (ValueError (lit ''context token budget must be positive'')), s)
         else case budget_messages p ms base budget (set (cs_summarized_message_ids st)) s of
             (Inl e, s1) \<Rightarrow> (Inl e, s1)
           | (Inr (planned, items, compacted), s1) \<Rightarrow>
               let used = int (base + estimate_messages_tokens (pl_json p) planned)
               in if budget < used then (Inl (over_budget used budget), s1)
                  else (Inr \<lparr>cb_system = system, cb_messages = planned, cb_tools = tools_out,
                    cb_manifest = \<lparr>cm_run_id = run_id, cm_model_turn = model_turn, cm_budget_tokens = budget,
                      cm_total_tokens = used, cm_prefix_fingerprint = fingerprint, cm_compacted = compacted,
                      cm_items = map (safe_manifest_item p)
                        (state_manifest_items p st @ map (tool_manifest_item p) tools_out @ items)\<rparr>,
                    cb_state = st\<lparr>cs_items := map (safe_pinned_item p) (cs_items st)\<rparr>\<rparr>, s1))"

section \<open>Folding a compaction into the state\<close>

text \<open>\<open>covered_ids\<close> not summarised before are appended, each occurrence of them.\<close>

definition apply_compaction ::
  "planner \<Rightarrow> context_state \<Rightarrow> utext \<Rightarrow> string list \<Rightarrow> string option \<Rightarrow> utext option \<Rightarrow> context_state" where
  "apply_compaction p st summary covered_ids aid reason =
     (let count = cs_compaction_count st + 1;
          item = (pinned p ''history_summary'' (lit ''compaction:'' @ str_nat count) summary
            (text_or reason (lit ''auto-compacted '' @ str_nat (length covered_ids) @ lit '' earlier messages''))
            True)\<lparr>pi_artifact_id := aid\<rparr>
      in st\<lparr>cs_items := filter (\<lambda>i. pi_section i \<noteq> ''history_summary'') (cs_items st) @ [item],
            cs_summarized_message_ids := cs_summarized_message_ids st @
              filter (\<lambda>i. i \<notin> set (cs_summarized_message_ids st)) covered_ids,
            cs_compaction_count := count\<rparr>)"

definition summary_text :: "context_state option \<Rightarrow> utext" where
  "summary_text st =
     (case st of None \<Rightarrow> []
      | Some s \<Rightarrow> (case filter (\<lambda>i. pi_section i = ''history_summary'' \<and> pi_selected i) (cs_items s) of
                    [] \<Rightarrow> [] | i # _ \<Rightarrow> pi_content i))"

end
