(* ===== verification/Context_Budget.thy ===== *)
theory Context_Budget
  imports Context_Plan
begin

text \<open>
  What the budgeting of \<open>ContextPlanner\<close> guarantees: which groups survive, that the planned
  transcript keeps tool calls and results together, when planning succeeds, and that the
  plan respects its budget.
\<close>

section \<open>First phase\<close>

definition live_groups :: "string set \<Rightarrow> message list \<Rightarrow> msg_group list" where
  "live_groups summarized ms =
     filter (\<lambda>g. g_valid g \<and> \<not> list_all (\<lambda>m. m_id m \<in> summarized) (g_messages g)) (message_groups ms)"

definition group_tokens :: "json_style \<Rightarrow> msg_group list \<Rightarrow> nat" where
  "group_tokens js gs = sum_list (map (\<lambda>g. estimate_messages_tokens js (g_messages g)) gs)"

abbreviation older :: "int \<Rightarrow> msg_group \<Rightarrow> bool" where
  "older lu g \<equiv> int (g_end g) < lu"

lemma bg_live_annotate [simp]:
  "bg_live (annotate p summarized g) = (g_valid g \<and> \<not> list_all (\<lambda>m. m_id m \<in> summarized) (g_messages g))"
  by (auto simp: bg_live_def annotate_def Let_def)

lemma annotate_simps [simp]:
  "bg_group (annotate p summarized g) = g"
  "bg_tokens (annotate p summarized g) = estimate_messages_tokens (pl_json p) (g_messages g)"
  "bg_included (annotate p summarized g)" "\<not> bg_shrunk (annotate p summarized g)"
  by (simp_all add: annotate_def Let_def)

lemma live_annotated:
  "map bg_group (filter bg_live (map (annotate p summarized) (message_groups ms))) = live_groups summarized ms"
  "sum_list (map bg_tokens (filter bg_live (map (annotate p summarized) (message_groups ms)))) =
   group_tokens (pl_json p) (live_groups summarized ms)"
  by (simp_all add: live_groups_def group_tokens_def filter_map comp_def)

lemma oldest_unchanged:
  assumes "\<And>b. b \<in> set bs \<Longrightarrow> bg_live b \<Longrightarrow> budget < tot \<Longrightarrow> \<not> older lu (bg_group b)"
  shows "externalize_oldest p budget lu tot bs s = (bs, tot, s)"
  using assms by (induction bs arbitrary: s) auto

text \<open>The groups' ends increase along the list.\<close>

abbreviation ascending :: "budget_group list \<Rightarrow> bool" where
  "ascending bs \<equiv> sorted_wrt (\<lambda>b c. g_end (bg_group b) < g_end (bg_group c)) bs"

lemma tiling_ends: "tiling i gs \<Longrightarrow> sorted_wrt (\<lambda>g h. g_end g < g_end h) gs \<and> (\<forall>g \<in> set gs. i \<le> g_end g)"
proof (induction gs arbitrary: i)
  case (Cons g gs)
  from Cons.prems have "g_messages g \<noteq> []" and e: "Suc (g_end g) = i + length (g_messages g)" by auto
  then have "i \<le> g_end g" by (cases "g_messages g") auto
  with Cons e show ?case by fastforce
qed simp

lemma final_exclude [simp]: "\<not> bg_final (exclude_group p aid b)"
  by (simp add: bg_final_def exclude_group_def)

lemma live_exclude [simp]: "bg_live (exclude_group p aid b) = bg_live b"
  by (simp add: bg_live_def exclude_group_def)

lemma externalize_oldest_drops:
  assumes "externalize_oldest p budget lu tot bs s = (bs', tot', s')"
    and "ascending bs" and "\<forall>b \<in> set bs. bg_included b"
  shows "\<exists>k \<le> length (filter (\<lambda>b. older lu (bg_group b)) (filter bg_live bs)).
     filter bg_final bs' = drop k (filter bg_live bs) \<and>
     tot' = tot - int (sum_list (map bg_tokens (take k (filter bg_live bs)))) \<and>
     (0 < k \<longrightarrow> budget < tot - int (sum_list (map bg_tokens (take (k - 1) (filter bg_live bs))))) \<and>
     (tot' \<le> budget \<or> (\<forall>b \<in> set (drop k (filter bg_live bs)). \<not> older lu (bg_group b)))"
  using assms
proof (induction bs arbitrary: s bs' tot tot' s')
  case Nil
  then show ?case by simp
next
  case (Cons b bs)
  have fin: "filter bg_final bs = filter bg_live bs"
    using Cons.prems(3) by (auto simp: bg_final_def intro: filter_cong)
  show ?case
  proof (cases "bg_live b \<and> budget < tot \<and> older lu (bg_group b)")
    case True
    obtain aid s1 where e: "externalize_messages p (g_messages (bg_group b)) s = (aid, s1)" by fastforce
    obtain cs t2 s2 where r: "externalize_oldest p budget lu (tot - int (bg_tokens b)) bs s1 = (cs, t2, s2)"
      by (metis prod_cases3)
    from Cons.prems(1) True e r have out: "bs' = exclude_group p aid b # cs" "tot' = t2" by auto
    from Cons.IH [OF r] Cons.prems(2,3) obtain k where
      k: "k \<le> length (filter (\<lambda>b. older lu (bg_group b)) (filter bg_live bs))"
      "filter bg_final cs = drop k (filter bg_live bs)"
      "t2 = tot - int (bg_tokens b) - int (sum_list (map bg_tokens (take k (filter bg_live bs))))"
      "0 < k \<longrightarrow> budget < tot - int (bg_tokens b) - int (sum_list (map bg_tokens (take (k - 1) (filter bg_live bs))))"
      "t2 \<le> budget \<or> (\<forall>b \<in> set (drop k (filter bg_live bs)). \<not> older lu (bg_group b))"
      by auto
    from True k out show ?thesis
      by (intro exI [of _ "Suc k"]) (cases k, auto)
  next
    case False
    show ?thesis
    proof (cases "bg_live b")
      case False
      with Cons.prems(1) obtain cs where r: "externalize_oldest p budget lu tot bs s = (cs, tot', s')"
        and out: "bs' = b # cs" by (auto split: prod.splits)
      from False have "\<not> bg_final b" by (simp add: bg_final_def)
      with Cons.IH [OF r] Cons.prems(2,3) False out show ?thesis by simp
    next
      case True
      have "externalize_oldest p budget lu tot (b # bs) s = (b # bs, tot, s)"
      proof (rule oldest_unchanged)
        fix c
        assume "c \<in> set (b # bs)" "budget < tot"
        with True False Cons.prems(2) show "\<not> older lu (bg_group c)" by fastforce
      qed
      with Cons.prems(1) have out: "bs' = b # bs" "tot' = tot" by simp_all
      have "filter bg_final (b # bs) = filter bg_live (b # bs)"
        using Cons.prems(3) by (auto simp: bg_final_def intro: filter_cong)
      moreover have "tot \<le> budget \<or> (\<forall>c \<in> set (filter bg_live (b # bs)). \<not> older lu (bg_group c))"
        using True False Cons.prems(2) by fastforce
      ultimately show ?thesis using out by (intro exI [of _ 0]) simp
    qed
  qed
qed

section \<open>Second phase\<close>

definition shrunk :: "message \<Rightarrow> message \<Rightarrow> bool" where
  "shrunk m m' \<longleftrightarrow> m' = m \<or> large_result m \<and> (\<exists>aid. m' = m\<lparr>m_content := tool_pointer aid\<rparr>)"

lemma shrunk_refl: "list_all2 shrunk ms ms"
  by (simp add: list_all2_same shrunk_def)

lemma shrink_messages_shrunk:
  "shrink_messages p tot ms s = (ms', tot', s') \<Longrightarrow> list_all2 shrunk ms ms' \<and> tot' \<le> tot"
proof (induction ms arbitrary: ms' tot tot' s s')
  case (Cons m ms)
  show ?case
  proof (cases "large_result m")
    case True
    obtain aid s1 where e: "externalize_messages p [m] s = (aid, s1)" by fastforce
    let ?t = "tot - max 0 (int (estimate_tokens (m_content m)) - int (estimate_tokens (tool_pointer aid)))"
    obtain cs t2 s2 where r: "shrink_messages p ?t ms s1 = (cs, t2, s2)" by (metis prod_cases3)
    from Cons.prems True e r have "ms' = m\<lparr>m_content := tool_pointer aid\<rparr> # cs" "tot' = t2" by auto
    with Cons.IH [OF r] True show ?thesis by (auto simp: shrunk_def)
  next
    case False
    obtain cs t2 s2 where r: "shrink_messages p tot ms s = (cs, t2, s2)" by (metis prod_cases3)
    from Cons.prems False r have "ms' = m # cs" "tot' = t2" by auto
    with Cons.IH [OF r] show ?thesis by (simp add: shrunk_def)
  qed
qed simp

definition shrunk_group :: "int \<Rightarrow> int \<Rightarrow> budget_group \<Rightarrow> budget_group \<Rightarrow> bool" where
  "shrunk_group budget tot b b' \<longleftrightarrow>
     bg_final b' = bg_final b \<and> list_all2 shrunk (g_messages (bg_group b)) (g_messages (bg_group b')) \<and>
     (tot \<le> budget \<longrightarrow> b' = b)"

lemma final_shrink [simp]: "bg_final (shrink_group p ms b) = bg_final b"
  and messages_shrink [simp]: "g_messages (bg_group (shrink_group p ms b)) = ms"
  by (simp_all add: bg_final_def bg_live_def shrink_group_def Let_def)

lemma shrink_results_shrunk:
  "shrink_results p budget tot bs s = (bs', tot', s') \<Longrightarrow>
   list_all2 (shrunk_group budget tot) bs bs' \<and> tot' \<le> tot"
proof (induction bs arbitrary: bs' tot tot' s s')
  case (Cons b bs)
  have weaken: "list_all2 (shrunk_group budget t) bs cs \<Longrightarrow> budget < tot \<Longrightarrow> list_all2 (shrunk_group budget tot) bs cs"
    for t cs by (erule list_all2_mono) (auto simp: shrunk_group_def)
  show ?case
  proof (cases "bg_final b \<and> budget < tot \<and> g_tool_pair (bg_group b)")
    case True
    obtain ms t1 s1 where m: "shrink_messages p tot (g_messages (bg_group b)) s = (ms, t1, s1)" by (metis prod_cases3)
    obtain cs t2 s2 where r: "shrink_results p budget t1 bs s1 = (cs, t2, s2)" by (metis prod_cases3)
    from Cons.prems True m r have "bs' = shrink_group p ms b # cs" "tot' = t2" by auto
    moreover have "list_all2 (shrunk_group budget tot) bs cs" "t2 \<le> t1"
      using Cons.IH [OF r] True weaken by blast+
    moreover have "shrunk_group budget tot b (shrink_group p ms b)" "t1 \<le> tot"
      using shrink_messages_shrunk [OF m] True by (simp_all add: shrunk_group_def)
    ultimately show ?thesis by simp
  next
    case False
    obtain cs t2 s2 where r: "shrink_results p budget tot bs s = (cs, t2, s2)" by (metis prod_cases3)
    from Cons.prems False r have "bs' = b # cs" "tot' = t2" by auto
    with Cons.IH [OF r] shrunk_refl show ?thesis by (simp add: shrunk_group_def)
  qed
qed simp

lemma shrunk_groups_concat:
  "list_all2 (shrunk_group budget tot) bs bs' \<Longrightarrow>
   list_all2 shrunk (concat (map (\<lambda>b. g_messages (bg_group b)) (filter bg_final bs)))
     (concat (map (\<lambda>b. g_messages (bg_group b)) (filter bg_final bs')))"
  by (induction rule: list_all2_induct) (auto simp: shrunk_group_def intro: list_all2_appendI)

lemma shrunk_groups_same: "list_all2 (shrunk_group budget tot) bs bs' \<Longrightarrow> tot \<le> budget \<Longrightarrow> bs' = bs"
  by (induction rule: list_all2_induct) (auto simp: shrunk_group_def)

section \<open>The transcript that survives\<close>

text \<open>
  What the two phases compute: \<open>out\<close> are the surviving messages when the \<open>k\<close> oldest live groups
  are dropped, and \<open>tot\<close> the tokens counted after the first phase.
\<close>

definition survivors ::
  "json_style \<Rightarrow> message list \<Rightarrow> string set \<Rightarrow> nat \<Rightarrow> int \<Rightarrow> nat \<Rightarrow> int \<Rightarrow> message list \<Rightarrow> bool" where
  "survivors js ms summarized base budget k tot out \<longleftrightarrow>
     (let live = live_groups summarized ms; kept = concat (map g_messages (drop k live))
      in k \<le> length (filter (older (last_user ms)) live) \<and>
         tot = int base + int (group_tokens js (drop k live)) \<and>
         (0 < k \<longrightarrow> budget < int base + int (group_tokens js (drop (k - 1) live))) \<and>
         (tot \<le> budget \<or> (\<forall>g \<in> set (drop k live). \<not> older (last_user ms) g)) \<and>
         list_all2 shrunk kept out \<and> (tot \<le> budget \<longrightarrow> out = kept))"

lemma budget_messages_spec:
  "\<exists>k tot tot2 out items c s2. survivors (pl_json p) ms summarized base budget k tot out \<and> tot2 \<le> tot \<and>
     length items = length (message_groups ms) \<and>
     budget_messages p ms base budget summarized s =
       (if budget < tot2 then Inl (over_budget tot2 budget) else Inr (out, items, c), s2)"
proof -
  let ?gs = "map (annotate p summarized) (message_groups ms)"
  let ?L = "live_groups summarized ms"
  let ?lu = "last_user ms"
  let ?t0 = "int base + int (sum_list (map bg_tokens (filter bg_live ?gs)))"
  obtain fs t1 s1 where o: "externalize_oldest p budget ?lu ?t0 ?gs s = (fs, t1, s1)" by (metis prod_cases3)
  obtain final t2 s2 where h: "shrink_results p budget t1 fs s1 = (final, t2, s2)" by (metis prod_cases3)
  have asc: "ascending ?gs"
    using tiling_ends [OF groups_tiling [of 0 ms]] by (simp add: message_groups_def sorted_wrt_map)
  have len: "length bs' = length bs" if "externalize_oldest p budget ?lu t bs s = (bs', t', s')" for bs bs' t s t' s'
    using that by (induction bs arbitrary: bs' t s) (auto split: if_splits prod.splits)
  from externalize_oldest_drops [OF o asc] obtain k where
    k: "k \<le> length (filter (\<lambda>b. older ?lu (bg_group b)) (filter bg_live ?gs))"
    "filter bg_final fs = drop k (filter bg_live ?gs)"
    "t1 = ?t0 - int (sum_list (map bg_tokens (take k (filter bg_live ?gs))))"
    "0 < k \<longrightarrow> budget < ?t0 - int (sum_list (map bg_tokens (take (k - 1) (filter bg_live ?gs))))"
    "t1 \<le> budget \<or> (\<forall>b \<in> set (drop k (filter bg_live ?gs)). \<not> older ?lu (bg_group b))" by auto
  have split: "?t0 - int (sum_list (map bg_tokens (take n (filter bg_live ?gs)))) =
      int base + int (group_tokens (pl_json p) (drop n ?L))" for n
  proof -
    have "sum_list (map bg_tokens (filter bg_live ?gs)) =
        sum_list (map bg_tokens (take n (filter bg_live ?gs))) + sum_list (map bg_tokens (drop n (filter bg_live ?gs)))"
      by (metis append_take_drop_id map_append sum_list_append)
    moreover have "sum_list (map bg_tokens (drop n (filter bg_live ?gs))) = group_tokens (pl_json p) (drop n ?L)"
      by (simp add: live_groups_def group_tokens_def filter_map drop_map comp_def)
    ultimately show ?thesis by simp
  qed
  have msgs: "concat (map (\<lambda>b. g_messages (bg_group b)) (filter bg_final fs)) = concat (map g_messages (drop k ?L))"
    by (simp add: k(2) live_groups_def filter_map drop_map comp_def)
  note h' = shrink_results_shrunk [OF h]
  let ?out = "concat (map (\<lambda>b. g_messages (bg_group b)) (filter bg_final final))"
  have "k \<le> length (filter (older ?lu) ?L)"
    using k(1) by (simp add: live_groups_def filter_map comp_def)
  moreover have "t1 = int base + int (group_tokens (pl_json p) (drop k ?L))" using k(3) split by simp
  moreover have "0 < k \<longrightarrow> budget < int base + int (group_tokens (pl_json p) (drop (k - 1) ?L))"
    using k(4) split by simp
  moreover have "t1 \<le> budget \<or> (\<forall>g \<in> set (drop k ?L). \<not> older ?lu g)"
    using k(5) by (simp add: live_groups_def filter_map drop_map comp_def)
  moreover have "list_all2 shrunk (concat (map g_messages (drop k ?L))) ?out"
    using shrunk_groups_concat [of budget t1 fs final] h' msgs by simp
  moreover have "t1 \<le> budget \<longrightarrow> ?out = concat (map g_messages (drop k ?L))"
    using shrunk_groups_same [of budget t1 fs final] h' msgs by auto
  ultimately have "survivors (pl_json p) ms summarized base budget k t1 ?out"
    by (simp add: survivors_def Let_def)
  moreover have "length (map bg_item final) = length (message_groups ms)"
    using h' list_all2_lengthD len [OF o] by fastforce
  moreover have "budget_messages p ms base budget summarized s = (if budget < t2 then Inl (over_budget t2 budget)
      else Inr (?out, map bg_item final,
        \<not> list_all bg_live ?gs \<or> list_ex (\<lambda>b. \<not> bg_included b) fs \<or> list_ex bg_shrunk final), s2)"
    by (simp add: budget_messages_def o h Let_def)
  ultimately show ?thesis using h' by blast
qed

text \<open>
  C24. What budgeting keeps: a successful budgeting returns the live groups of the transcript
  (valid and not summarised) in order, but for some \<open>k\<close> oldest ones; every dropped group ends
  before the latest user message, one fewer would not have fitted the budget, and the only
  other change, made only when dropping was not enough, is that large tool result bodies are
  replaced by a pointer to their artifact.
\<close>

theorem budget_keeps_recent:
  assumes "budget_messages p ms base budget summarized s = (Inr (out, items, compacted), s')"
  shows "\<exists>k. let live = live_groups summarized ms; kept = concat (map g_messages (drop k live)) in
     k \<le> length (filter (\<lambda>g. int (g_end g) < last_user ms) live) \<and>
     list_all2 shrunk kept out \<and>
     (int base + int (group_tokens (pl_json p) (drop k live)) \<le> budget \<longrightarrow> out = kept) \<and>
     (0 < k \<longrightarrow> budget < int base + int (group_tokens (pl_json p) (drop (k - 1) live)))"
proof -
  from budget_messages_spec [of p ms summarized base budget s] assms
  obtain k tot where "survivors (pl_json p) ms summarized base budget k tot out"
    by (auto split: if_splits)
  then show ?thesis by (intro exI [of _ k]) (simp add: survivors_def Let_def)
qed

text \<open>
  Planning succeeds when it can: if the base and the live groups that end at or after the
  latest user message fit the budget, budgeting does not fail, and it returns groups
  unshortened.
\<close>

theorem budget_succeeds:
  assumes "int base + int (group_tokens (pl_json p)
     (filter (\<lambda>g. last_user ms \<le> int (g_end g)) (live_groups summarized ms))) \<le> budget"
  shows "\<exists>out items compacted s' k. budget_messages p ms base budget summarized s = (Inr (out, items, compacted), s') \<and>
     out = concat (map g_messages (drop k (live_groups summarized ms)))"
proof -
  let ?L = "live_groups summarized ms"
  from budget_messages_spec [of p ms summarized base budget s]
  obtain k tot tot2 out items c s2 where
    sv: "survivors (pl_json p) ms summarized base budget k tot out" and "tot2 \<le> tot" and
    r: "budget_messages p ms base budget summarized s =
       (if budget < tot2 then Inl (over_budget tot2 budget) else Inr (out, items, c), s2)" by blast
  from sv have b: "tot = int base + int (group_tokens (pl_json p) (drop k ?L))"
    "tot \<le> budget \<or> (\<forall>g \<in> set (drop k ?L). \<not> older (last_user ms) g)"
    "tot \<le> budget \<longrightarrow> out = concat (map g_messages (drop k ?L))"
    unfolding survivors_def Let_def by blast+
  have "tot \<le> budget"
    using b(2)
  proof
    assume "\<forall>g \<in> set (drop k ?L). \<not> older (last_user ms) g"
    then have "drop k ?L = filter (\<lambda>g. last_user ms \<le> int (g_end g)) (drop k ?L)"
      by (simp add: filter_id_conv not_less)
    also have "group_tokens (pl_json p) \<dots> \<le> group_tokens (pl_json p) (filter (\<lambda>g. last_user ms \<le> int (g_end g)) ?L)"
    proof -
      have "group_tokens js (filter P (drop k gs)) \<le> group_tokens js (filter P gs)" for js P gs
        by (metis append_take_drop_id filter_append group_tokens_def le_add2 map_append sum_list_append)
      then show ?thesis .
    qed
    finally show ?thesis using assms b(1) by simp
  qed
  with b(3) r \<open>tot2 \<le> tot\<close> show ?thesis by auto
qed

section \<open>Pairing\<close>

lemma shrunk_shape:
  assumes "shrunk m m'"
  shows "m_role m' = m_role m" "has_calls m' = has_calls m" "call_ids m' = call_ids m"
    "m_tool_call_id m' = m_tool_call_id m" "m_id m' = m_id m"
  using assms by (auto simp: shrunk_def has_calls_def call_ids_def)

lemma shrunk_closes:
  assumes "closes_calls m answers" "shrunk m m'" "list_all2 shrunk answers answers'"
  shows "closes_calls m' answers'"
proof -
  have "list_all (answers_one_of (call_ids m)) answers'"
  proof -
    from assms(1) have "list_all (answers_one_of (call_ids m)) answers" by (simp add: closes_calls_def)
    with assms(3) show ?thesis
      by (induction rule: list_all2_induct) (auto simp: answers_one_of_def shrunk_shape)
  qed
  moreover have "\<exists>a \<in> set answers'. m_tool_call_id a = Some i" if "i \<in> call_ids m" for i
  proof -
    from that assms(1) obtain a where "a \<in> set answers" "m_tool_call_id a = Some i"
      by (auto simp: closes_calls_def)
    with assms(3) show ?thesis by (metis in_set_conv_nth list_all2_conv_all_nth shrunk_shape(4))
  qed
  ultimately show ?thesis using shrunk_shape(3) [OF assms(2)] by (simp add: closes_calls_def)
qed

lemma shrunk_paired: "paired ms \<Longrightarrow> list_all2 shrunk ms ms' \<Longrightarrow> paired ms'"
proof (induction arbitrary: ms' rule: paired.induct)
  case (paired_plain m ms)
  then show ?case by (auto simp: list_all2_Cons1 shrunk_shape intro!: paired.paired_plain)
next
  case (paired_calls m answers ms)
  from paired_calls.prems obtain m' a' r' where
    ms': "ms' = m' # a' @ r'" "shrunk m m'" "list_all2 shrunk answers a'" "list_all2 shrunk ms r'"
    by (auto simp: list_all2_Cons1 list_all2_append1)
  with paired_calls show ?case
    by (auto simp: shrunk_shape intro!: paired.paired_calls dest: shrunk_closes)
qed (simp add: paired_Nil)

lemma live_paired: "paired (concat (map g_messages (drop k (live_groups summarized ms))))"
proof (rule paired_groups)
  have "group_closed (g_messages g)" if "g \<in> set (drop k (live_groups summarized ms))" for g
    using that set_drop_subset [of k "live_groups summarized ms"] groups_closed [of g 0 ms]
    by (auto simp: live_groups_def message_groups_def)
  then show "list_all group_closed (map g_messages (drop k (live_groups summarized ms)))"
    by (auto simp: list_all_iff)
qed

lemma budget_messages_paired:
  assumes "budget_messages p ms base budget summarized s = (Inr (out, items, compacted), s')"
  shows "paired out"
proof -
  from budget_messages_spec [of p ms summarized base budget s] assms
  obtain k tot where "survivors (pl_json p) ms summarized base budget k tot out"
    by (auto split: if_splits)
  then show ?thesis by (auto simp: survivors_def Let_def intro: shrunk_paired [OF live_paired])
qed

text \<open>
  C25. Every plan handed to a provider is well formed and within its budget: whatever the
  transcript looks like, the planned messages pair every tool call with its results and every
  result with its call, the estimate of the whole request is what the manifest says and is at
  most the budget, and the tools come in the order of their names.
\<close>

theorem plan_well_formed:
  assumes "plan p run_id turn ms tools st max_tokens b s = (Inr bdl, s')"
  shows "paired (cb_messages bdl) \<and>
    cm_total_tokens (cb_manifest bdl) =
      int (estimate_tokens (text_or (cb_system bdl) [])) +
      int (sum_list (map (estimate_tool_tokens (pl_json p)) (cb_tools bdl))) +
      int (estimate_messages_tokens (pl_json p) (cb_messages bdl)) \<and>
    cm_total_tokens (cb_manifest bdl) \<le> cm_budget_tokens (cb_manifest bdl) \<and>
    0 < cm_budget_tokens (cb_manifest bdl) \<and>
    mset (cb_tools bdl) = mset tools \<and> sorted (map (\<lambda>t. lit (ts_name t)) (cb_tools bdl))"
  using assms unfolding plan_def Let_def
  by (auto split: if_splits prod.splits sum.splits simp: budget_messages_paired)

section \<open>Workspace rules\<close>

lemma scan_rules_items:
  "i \<in> set (scan_rules p fs tops seen cs) \<Longrightarrow> \<exists>c \<in> set cs. fs_exists fs c \<and> i = rule_item p fs tops c"
  by (induction p fs tops seen cs rule: scan_rules.induct) (auto split: if_splits)

lemma pinned_simps [simp]:
  "pi_selected (pinned p sec src content why sel) = sel"
  "pi_content (pinned p sec src content why sel) = (if sel then redact_text (pl_redactor p) content else [])"
  by (simp_all add: pinned_def Let_def)

lemma rule_item_selected:
  "pi_selected (rule_item p fs tops c) \<Longrightarrow>
   \<exists>q anc n content. \<not> fs_is_symlink fs c \<and> fs_target fs c = Inr q \<and> anc \<in> set tops \<and> is_relative_to q anc \<and>
     fs_size fs q = Inr n \<and> n \<le> max_rule_bytes \<and> fs_read fs q = Inr content \<and>
     pi_content (rule_item p fs tops c) = redact_text (pl_redactor p) content"
  by (cases "fs_target fs c"; cases "fs_size fs (projr (fs_target fs c))"; cases "fs_read fs (projr (fs_target fs c))")
    (auto simp: rule_item_def Let_def list_ex_iff not_less split: if_splits)

lemma candidates_names: "c \<in> set (rule_candidates dirs) \<Longrightarrow> last c \<in> {lit ''AGENTS.md'', lit ''WORKBUDDY.md''}"
  by (auto simp: rule_candidates_def)

lemma rule_item_excluded: "\<not> pi_selected (rule_item p fs tops c) \<Longrightarrow> pi_content (rule_item p fs tops c) = []"
  by (auto simp: rule_item_def Let_def split: if_splits sum.splits)

text \<open>
  C26. Workspace rules are confined: every rule text that reaches the system prompt is the
  redacted content of an existing file called AGENTS.md or WORKBUDDY.md that is not a symbolic
  link, that resolves inside one of the legal roots and is at most 64 KiB long; a rule file
  that fails any of these contributes no text.
\<close>

theorem workspace_rules_confined:
  assumes "i \<in> set (discover_workspace_rules p fs cwd extra)"
  shows "(pi_content i \<noteq> [] \<longrightarrow> pi_selected i) \<and>
    (pi_selected i \<longrightarrow> (\<exists>c q anc n content. fs_exists fs c \<and> last c \<in> {lit ''AGENTS.md'', lit ''WORKBUDDY.md''} \<and>
       \<not> fs_is_symlink fs c \<and> fs_target fs c = Inr q \<and> anc \<in> set (legal_roots fs cwd extra) \<and>
       take (length anc) q = anc \<and> fs_size fs q = Inr n \<and> n \<le> 65536 \<and> fs_read fs q = Inr content \<and>
       pi_content i = redact_text (pl_redactor p) content))"
proof -
  from assms obtain c where c: "fs_exists fs c" "last c \<in> {lit ''AGENTS.md'', lit ''WORKBUDDY.md''}"
    "i = rule_item p fs (legal_roots fs cwd extra) c"
    by (auto simp: discover_workspace_rules_def Let_def simp del: lit_inject dest!: scan_rules_items candidates_names)
  have "max_rule_bytes = 65536" by (simp add: max_rule_bytes_def)
  with c rule_item_excluded show ?thesis
    by (metis is_relative_to_def rule_item_selected)
qed

section \<open>Concrete runs\<close>

definition demo_planner :: planner where
  "demo_planner = \<lparr>pl_redactor = demo_redactor, pl_json = compact_style (\<lambda>_. []) (\<lambda>_. []), pl_sha = (\<lambda>_. ''h''),
     pl_dump_message = (\<lambda>_. VNone), pl_dump_tool = (\<lambda>_. VNone), pl_artifacts = None, pl_storage = False,
     pl_path = (\<lambda>h. h), pl_disk_ok = (\<lambda>_. True)\<rparr>"

definition demo_ext :: ext_state where
  "demo_ext = \<lparr>xs_files = Map.empty, xs_db = empty_db, xs_fresh = (\<lambda>_. ''a''), xs_drawn = 0, xs_now = 0\<rparr>"

definition demo_user :: message where
  "demo_user = \<lparr>m_id = ''m1'', m_role = MR_user, m_content = [65], m_tool_call_id = None, m_name = None,
     m_tool_calls = None, m_tool_result = None, m_created_at = 0\<rparr>"

definition demo_state :: context_state where
  "demo_state = \<lparr>cs_schema_version = 1, cs_items = [], cs_summarized_message_ids = [], cs_compaction_count = 0\<rparr>"

text \<open>A file system with one directory and one rule file in it.\<close>

definition demo_fs :: file_system where
  "demo_fs = (let d = [lit ''/'', lit ''w'']; f = d @ [lit ''AGENTS.md''] in
     \<lparr>fs_locate = (\<lambda>_. d), fs_strict = (\<lambda>_. Some d), fs_is_dir = (\<lambda>q. q = d), fs_exists = (\<lambda>q. q = f),
      fs_is_symlink = (\<lambda>_. False), fs_target = Inr, fs_size = (\<lambda>_. Inr 3), fs_read = (\<lambda>_. Inr [66])\<rparr>)"

lemma demo_groups:
  "message_groups [demo_user] =
     [\<lparr>g_messages = [demo_user], g_start = 0, g_end = 0, g_valid = True, g_tool_pair = False\<rparr>]"
  by (simp add: message_groups_def groups_from.simps demo_user_def has_calls_def)

lemma demo_tokens: "estimate_messages_tokens js [demo_user] = 1"
  by (simp add: estimate_messages_tokens_def estimate_message_tokens_def estimate_tokens_def demo_user_def)

lemma demo_live: "live_groups {} [demo_user] = message_groups [demo_user]"
  by (simp add: live_groups_def demo_groups)

lemma demo_budget:
  "\<exists>items c. budget_messages demo_planner [demo_user] 0 5 {} demo_ext = (Inr ([demo_user], items, c), demo_ext)"
  by (rule exI, rule exI [of _ False])
    (simp add: budget_messages_def demo_groups demo_tokens last_user_def Let_def bg_final_def)

lemma demo_plan:
  "\<exists>bdl. plan demo_planner ''r'' 1 [demo_user] [] demo_state (Some 5) default_budget demo_ext = (Inr bdl, demo_ext) \<and>
     cb_messages bdl = [demo_user]"
proof -
  obtain items c where "budget_messages demo_planner [demo_user] 0 5 {} demo_ext = (Inr ([demo_user], items, c), demo_ext)"
    using demo_budget by blast
  then show ?thesis
    by (simp add: plan_def Let_def demo_state_def render_stable_prefix_def section_part_def text_or_def demo_tokens estimate_tokens_def)
qed

theorem budget_keeps_recent_witness:
  "\<exists>out. fst (budget_messages demo_planner [demo_user] 0 5 {} demo_ext) = Inr out \<and>
    (\<exists>k. list_all2 shrunk (concat (map g_messages (drop k (live_groups {} [demo_user])))) (fst out))"
proof -
  obtain items c where b: "budget_messages demo_planner [demo_user] 0 5 {} demo_ext = (Inr ([demo_user], items, c), demo_ext)"
    using demo_budget by blast
  from budget_keeps_recent [OF b] b show ?thesis by (auto simp: Let_def)
qed

theorem budget_succeeds_witness:
  "\<exists>out. fst (budget_messages demo_planner [demo_user] 0 5 {} demo_ext) = Inr out"
proof -
  have "int 0 + int (group_tokens (pl_json demo_planner)
      (filter (\<lambda>g. last_user [demo_user] \<le> int (g_end g)) (live_groups {} [demo_user]))) \<le> 5"
    by (simp add: demo_live demo_groups group_tokens_def demo_tokens last_user_def)
  from budget_succeeds [OF this, of demo_ext]
  obtain out items c s' where "budget_messages demo_planner [demo_user] 0 5 {} demo_ext = (Inr (out, items, c), s')" by blast
  then show ?thesis by simp
qed

theorem plan_well_formed_witness:
  "\<exists>bdl. fst (plan demo_planner ''r'' 1 [demo_user] [] demo_state (Some 5) default_budget demo_ext) = Inr bdl \<and>
     paired (cb_messages bdl)"
proof -
  obtain bdl where b: "plan demo_planner ''r'' 1 [demo_user] [] demo_state (Some 5) default_budget demo_ext = (Inr bdl, demo_ext)"
    using demo_plan by blast
  from plan_well_formed [OF b] b show ?thesis by simp
qed

lemma demo_rules:
  "\<exists>i. discover_workspace_rules demo_planner demo_fs None [] = [i] \<and> pi_selected i"
  by (simp add: discover_workspace_rules_def Let_def scan_dirs_def legal_roots_def demo_fs_def
      existing_resolved_dirs_def rule_candidates_def rule_item_def is_relative_to_def max_rule_bytes_def pinned_def)

theorem workspace_rules_confined_witness:
  "\<exists>i \<in> set (discover_workspace_rules demo_planner demo_fs None []). \<exists>q anc. anc \<in> set (legal_roots demo_fs None []) \<and>
     take (length anc) q = anc \<and> fs_read demo_fs q = Inr (pi_content i)"
proof -
  obtain i where i: "discover_workspace_rules demo_planner demo_fs None [] = [i]" "pi_selected i"
    using demo_rules by blast
  then have "i \<in> set (discover_workspace_rules demo_planner demo_fs None [])" by simp
  have rd: "redact_text (pl_redactor demo_planner) t = t" for t
    by (simp add: demo_planner_def demo_redactor_def redact_text_def)
  from workspace_rules_confined [OF \<open>i \<in> _\<close>] i(2) obtain q anc content where
    "anc \<in> set (legal_roots demo_fs None [])" "take (length anc) q = anc" "fs_read demo_fs q = Inr content"
    "pi_content i = content"
    unfolding rd by blast
  then show ?thesis by (auto simp: i(1))
qed

end
