(* ===== verification/Compaction.thy ===== *)
theory Compaction
  imports Context_Budget
begin

text \<open>
  \<open>src/src/agentharness/engine/compaction.py\<close>: which groups of the history are folded into the
  rolling summary, the prompt of the summariser and the consumption of its answer. What the
  provider streams is a parameter.
\<close>

section \<open>Selecting the groups\<close>

record compaction_plan =
  cp_cover_ids :: "string list"
  cp_cover_messages :: "message list"
  cp_live_tokens_before :: nat
  cp_covered_tokens :: nat
  cp_groups_covered :: nat
  cp_threshold_tokens :: int

definition min_cover_tokens :: nat where
  "min_cover_tokens = 512"

text \<open>\<open>int(x)\<close> of a float truncates towards zero.\<close>

definition py_trunc :: "real \<Rightarrow> int" where
  "py_trunc x = (if 0 \<le> x then \<lfloor>x\<rfloor> else \<lceil>x\<rceil>)"

definition holds_last_user :: "message list \<Rightarrow> msg_group \<Rightarrow> bool" where
  "holds_last_user ms g \<longleftrightarrow>
     0 \<le> last_user ms \<and> int (g_start g) \<le> last_user ms \<and> last_user ms \<le> int (g_end g)"

text \<open>The live groups but the newest \<open>keep\<close> and the one with the latest user message.\<close>

definition candidates :: "message list \<Rightarrow> nat \<Rightarrow> msg_group list \<Rightarrow> msg_group list" where
  "candidates ms keep live =
     filter (\<lambda>g. \<not> holds_last_user ms g) (take (length live - keep) live)"

definition summarized_ids :: "context_state option \<Rightarrow> string set" where
  "summarized_ids st = (case st of None \<Rightarrow> {} | Some s \<Rightarrow> set (cs_summarized_message_ids s))"

definition plan_compaction ::
  "json_style \<Rightarrow> message list \<Rightarrow> context_state option \<Rightarrow> budget_config \<Rightarrow> compaction_plan option" where
  "plan_compaction js ms st b =
     (if \<not> b_context_compact_enabled b \<or> ms = [] then None
      else
        let live = live_groups (summarized_ids st) ms;
            live_tokens = group_tokens js live;
            threshold = py_trunc (b_context_compact_ratio b * real_of_int (b_max_context_tokens b));
            cands = candidates ms (b_context_compact_keep_recent b) live;
            cover = concat (map g_messages cands);
            covered_tokens = group_tokens js cands
        in if live = [] \<or> int live_tokens \<le> threshold \<or> cands = [] \<or> covered_tokens < min_cover_tokens then None
           else Some \<lparr>cp_cover_ids = map m_id cover, cp_cover_messages = cover,
                      cp_live_tokens_before = live_tokens, cp_covered_tokens = covered_tokens,
                      cp_groups_covered = length cands, cp_threshold_tokens = threshold\<rparr>)"

section \<open>The summariser's prompt\<close>

definition truncate_text :: "utext \<Rightarrow> nat \<Rightarrow> utext" where
  "truncate_text t limit =
     (if length t \<le> limit then t
      else take limit t @ [8230] @ lit '' [+'' @ str_nat (length t - limit) @ lit '' chars]'')"

fun role_value :: "message_role \<Rightarrow> string" where
  "role_value MR_system = ''system''"
| "role_value MR_user = ''user''"
| "role_value MR_assistant = ''assistant''"
| "role_value MR_tool = ''tool''"

text \<open>Values \<open>json.dumps\<close> accepts without a \<open>default=\<close>.\<close>

fun json_plain :: "pyval \<Rightarrow> bool" where
  "json_plain (VBytes b) = False"
| "json_plain (VSet xs) = False"
| "json_plain (VList xs) = list_all json_plain xs"
| "json_plain (VTuple xs) = list_all json_plain xs"
| "json_plain (VDict kvs) = list_all (\<lambda>kv. json_plain (snd kv)) kvs"
| "json_plain v = True"

text \<open>\<open>str_of\<close> is Python's \<open>str\<close> on a dict, for arguments that are not JSON.\<close>

definition render_call :: "json_style \<Rightarrow> (pydict \<Rightarrow> utext) \<Rightarrow> string \<Rightarrow> tool_call \<Rightarrow> utext" where
  "render_call js str_of role c =
     (let args = (if json_plain (VDict (tc_arguments c))
                  then json_dumps (js\<lparr>js_item_sep := lit '', '', js_key_sep := lit '': ''\<rparr>)
                         (json_sort (VDict (tc_arguments c)))
                  else str_of (tc_arguments c))
      in lit ''['' @ lit role @ lit ''] -> '' @ lit (tc_name c) @ lit ''('' @ truncate_text args 400 @ lit '')'')"

definition render_message :: "json_style \<Rightarrow> (pydict \<Rightarrow> utext) \<Rightarrow> message \<Rightarrow> utext" where
  "render_message js str_of m =
     (let role = role_value (m_role m);
          content = strip (m_content m);
          lines = (if content = [] then []
                   else [lit ''['' @ lit role @ lit ''] '' @ truncate_text content 1200]) @
                  map (render_call js str_of role) (case m_tool_calls m of None \<Rightarrow> [] | Some cs \<Rightarrow> cs)
      in join [10] (if lines = [] then [lit ''['' @ lit role @ lit ''] (empty)''] else lines))"

text \<open>The head (and, on the reversed rest, the tail) loop: parts while they fit a half.\<close>

fun take_half :: "nat \<Rightarrow> nat \<Rightarrow> utext list \<Rightarrow> utext list" where
  "take_half half acc [] = []"
| "take_half half acc (p # ps) =
     (if half < acc + length p then [] else p # take_half half (acc + length p) ps)"

definition transcript_chars :: nat where
  "transcript_chars = 60000"

definition clip_rendered :: "utext list \<Rightarrow> utext list" where
  "clip_rendered rendered =
     (if transcript_chars < sum_list (map length rendered)
      then let half = transcript_chars div 2;
               head = take_half half 0 rendered;
               tail = take_half half 0 (rev (drop (length head) rendered));
               omitted = length rendered - length head - length tail
           in head @ [lit ''[... '' @ str_nat omitted @ lit '' messages omitted ...]''] @ rev tail
      else rendered)"

definition render_transcript ::
  "json_style \<Rightarrow> (pydict \<Rightarrow> utext) \<Rightarrow> message list \<Rightarrow> utext \<Rightarrow> utext \<Rightarrow> utext" where
  "render_transcript js str_of ms prior goal =
     join [10, 10]
       ((if goal = [] then [] else [lit ''Task goal:'' @ [10] @ truncate_text goal 2000]) @
        (if prior = [] then []
         else [lit ''Previous rolling summary (fold it into the new summary):'' @ [10] @ truncate_text prior 8000]) @
        [lit ''Conversation to summarize:'' @ [10] @
         join [10] (clip_rendered (map (render_message js str_of) ms))])"

section \<open>The summariser's answer\<close>

text \<open>The stream items the loop looks at; \<open>None\<close> of the outcome is a timeout.\<close>

datatype stream_item =
    SI_text_delta "utext option"
  | SI_usage "usage option"
  | SI_error "utext option"
  | SI_done
  | SI_other

fun consume_summary :: "utext list \<Rightarrow> usage \<Rightarrow> stream_item list \<Rightarrow> py_error + utext list \<times> usage" where
  "consume_summary parts u [] = Inr (parts, u)"
| "consume_summary parts u (SI_text_delta t # is) =
     consume_summary (case t of Some x \<Rightarrow> if x = [] then parts else parts @ [x] | None \<Rightarrow> parts) u is"
| "consume_summary parts u (SI_usage v # is) =
     consume_summary parts
       (case v of None \<Rightarrow> u
        | Some w \<Rightarrow> let i = u_input_tokens u + u_input_tokens w; o' = u_output_tokens u + u_output_tokens w
                   in u\<lparr>u_input_tokens := i, u_output_tokens := o',
                        u_cached_input_tokens := u_cached_input_tokens u + u_cached_input_tokens w,
                        u_total_tokens := i + o', u_estimated := (u_estimated u \<or> u_estimated w)\<rparr>) is"
| "consume_summary parts u (SI_error e # is) =
     Inl (RuntimeError (text_or e (lit ''summarizer provider error'')))"
| "consume_summary parts u (SI_done # is) = Inr (parts, u)"
| "consume_summary parts u (SI_other # is) = consume_summary parts u is"

definition summarize_history :: "stream_item list option \<Rightarrow> utext \<Rightarrow> py_error + utext \<times> usage" where
  "summarize_history stream transcript =
     (case stream of
        None \<Rightarrow> Inl (RuntimeError (lit ''summarizer timed out''))
      | Some is \<Rightarrow> err_bind (consume_summary [] default_usage is) (\<lambda>(parts, u).
          let out = strip (concat parts)
          in if out = [] then Inl (RuntimeError (lit ''summarizer returned empty output''))
             else if u_total_tokens u \<noteq> 0 then Inr (out, u)
             else let i = int (estimate_tokens transcript); o' = int (estimate_tokens out)
                  in Inr (out, default_usage\<lparr>u_input_tokens := i, u_output_tokens := o',
                       u_estimated := True, u_total_tokens := i + o'\<rparr>)))"

section \<open>What a compaction achieves\<close>

lemma distinct_groups_disjoint:
  assumes "distinct (map m_id (concat (map g_messages gs)))" and "g \<in> set gs" "h \<in> set gs" "g \<noteq> h"
    and "m \<in> set (g_messages g)" "n \<in> set (g_messages h)"
  shows "m_id m \<noteq> m_id n"
  using assms
proof (induction gs)
  case (Cons x xs)
  have "m_id a \<noteq> m_id b" if "a \<in> set (g_messages x)" "b \<in> set (concat (map g_messages xs))" for a b
    using that Cons.prems(1) by (auto simp: image_iff)
  with Cons show ?case by fastforce
qed simp

lemma group_tokens_split:
  "group_tokens js (filter P gs) + group_tokens js (filter (\<lambda>g. \<not> P g) gs) = group_tokens js gs"
  by (induction gs) (auto simp: group_tokens_def)

lemma filter_take_distinct:
  assumes "distinct xs"
  shows "filter (\<lambda>x. x \<in> set (filter P (take n xs))) xs = filter P (take n xs)" (is "filter ?Q xs = _")
proof -
  have "filter ?Q xs = filter ?Q (take n xs) @ filter ?Q (drop n xs)"
    by (metis append_take_drop_id filter_append)
  also have "filter ?Q (take n xs) = filter P (take n xs)" by (auto intro: filter_cong)
  also have "filter ?Q (drop n xs) = []"
    using set_take_disj_set_drop_if_distinct [OF assms, of n n] by (auto simp: filter_empty_conv)
  finally show ?thesis by simp
qed

lemma live_groups_distinct: "distinct (live_groups summarized ms)"
proof -
  have "distinct gs" if "sorted_wrt (\<lambda>g h. g_end g < g_end h) gs" for gs :: "msg_group list"
    using that by (induction gs) auto
  moreover have "sorted_wrt (\<lambda>g h. g_end g < g_end h) (message_groups ms)"
    using tiling_ends [OF groups_tiling [of 0 ms]] by (simp add: message_groups_def)
  ultimately show ?thesis by (simp add: live_groups_def)
qed

lemma candidates_subset: "set (candidates ms keep live) \<subseteq> set live"
  by (auto simp: candidates_def dest: in_set_takeD)

text \<open>Once the ids of some live groups are added, exactly these groups stop being live.\<close>

lemma live_groups_cover:
  assumes "distinct (map m_id ms)" and "set cands \<subseteq> set (live_groups summarized ms)"
  shows "live_groups (summarized \<union> set (map m_id (concat (map g_messages cands)))) ms =
     filter (\<lambda>g. g \<notin> set cands) (live_groups summarized ms)"
proof -
  let ?new = "set (map m_id (concat (map g_messages cands)))"
  have gs: "concat (map g_messages (message_groups ms)) = ms"
    by (simp add: message_groups_def groups_concat)
  have covered: "list_all (\<lambda>m. m_id m \<in> summarized \<union> ?new) (g_messages g) \<longleftrightarrow>
      list_all (\<lambda>m. m_id m \<in> summarized) (g_messages g) \<or> g \<in> set cands"
    if g: "g \<in> set (message_groups ms)" for g
  proof (cases "g \<in> set cands")
    case False
    have "m_id m \<notin> ?new" if "m \<in> set (g_messages g)" for m
    proof
      assume "m_id m \<in> ?new"
      then obtain h n where h: "h \<in> set cands" "n \<in> set (g_messages h)" "m_id n = m_id m" by auto
      with assms(2) have "h \<in> set (message_groups ms)" by (auto simp: live_groups_def)
      from distinct_groups_disjoint [OF _ g this _ that h(2)] gs assms(1) h(1,3) False
      show False by auto
    qed
    with False show ?thesis by (auto simp: list_all_iff)
  qed (auto simp: list_all_iff)
  show ?thesis
    unfolding live_groups_def filter_filter using covered by (auto intro: filter_cong)
qed

text \<open>
  C23. A planned compaction makes progress and protects the live end of the conversation. It
  covers at least 512 tokens; once its ids are folded into the state, the live history is the
  old one without exactly the covered groups, so its tokens drop by the covered amount; and
  the newest groups and the group with the latest user message stay live.
\<close>

theorem compaction_progress:
  fixes p summary aid reason
  assumes "distinct (map m_id ms)" and "plan_compaction js ms (Some st) b = Some c"
  defines "live \<equiv> live_groups (set (cs_summarized_message_ids st)) ms"
    and "live' \<equiv> live_groups (set (cs_summarized_message_ids (apply_compaction p st summary (cp_cover_ids c) aid reason))) ms"
  shows "512 \<le> cp_covered_tokens c \<and>
    group_tokens js live' + cp_covered_tokens c = group_tokens js live \<and>
    cp_live_tokens_before c = group_tokens js live \<and>
    set live' \<subseteq> set live \<and>
    (\<forall>g \<in> set live. holds_last_user ms g \<longrightarrow> g \<in> set live') \<and>
    set (drop (length live - b_context_compact_keep_recent b) live) \<subseteq> set live'"
proof -
  let ?cands = "candidates ms (b_context_compact_keep_recent b) live"
  have c: "512 \<le> cp_covered_tokens c" "cp_covered_tokens c = group_tokens js ?cands"
    "cp_live_tokens_before c = group_tokens js live" "cp_cover_ids c = map m_id (concat (map g_messages ?cands))"
    using assms(2) by (auto simp: plan_compaction_def Let_def live_def summarized_ids_def min_cover_tokens_def split: if_splits)
  have "set (cs_summarized_message_ids (apply_compaction p st summary (cp_cover_ids c) aid reason)) =
      set (cs_summarized_message_ids st) \<union> set (cp_cover_ids c)"
    by (auto simp: apply_compaction_def Let_def)
  then have live': "live' = filter (\<lambda>g. g \<notin> set ?cands) live"
    unfolding live'_def c(4) using live_groups_cover [OF assms(1)] candidates_subset by (simp add: live_def)
  have "filter (\<lambda>g. g \<in> set ?cands) live = ?cands"
    unfolding candidates_def by (rule filter_take_distinct) (simp add: live_def live_groups_distinct)
  then have "group_tokens js live' + group_tokens js ?cands = group_tokens js live"
    using group_tokens_split [of js "\<lambda>g. g \<in> set ?cands" live] by (simp add: live')
  moreover have "set (drop (length live - b_context_compact_keep_recent b) live) \<inter> set ?cands = {}"
    using set_take_disj_set_drop_if_distinct [of live "length live - b_context_compact_keep_recent b"]
    by (auto simp: candidates_def live_def live_groups_distinct)
  moreover have "g \<in> set live'" if "g \<in> set live" "holds_last_user ms g" for g
    using that by (auto simp: live' candidates_def)
  ultimately show ?thesis using c(1-3) by (auto simp: live' dest: in_set_dropD)
qed

definition demo_old :: message where
  "demo_old = demo_user\<lparr>m_id := ''m0'', m_role := MR_assistant, m_content := replicate 2048 65\<rparr>"

definition demo_tight :: budget_config where
  "demo_tight = default_budget\<lparr>b_max_context_tokens := 10, b_context_compact_keep_recent := 0\<rparr>"

lemma demo_history:
  "message_groups [demo_old, demo_user] =
     [\<lparr>g_messages = [demo_old], g_start = 0, g_end = 0, g_valid = True, g_tool_pair = False\<rparr>,
      \<lparr>g_messages = [demo_user], g_start = 1, g_end = 1, g_valid = True, g_tool_pair = False\<rparr>]"
  "last_user [demo_old, demo_user] = 1"
  "estimate_messages_tokens js [demo_old] = 512"
  by (simp_all add: message_groups_def groups_from.simps demo_user_def demo_old_def has_calls_def last_user_def
      estimate_messages_tokens_def estimate_message_tokens_def estimate_tokens_def)

lemma demo_compaction:
  "\<exists>c. plan_compaction js [demo_old, demo_user] (Some demo_state) demo_tight = Some c \<and> cp_covered_tokens c = 512"
  by (simp add: plan_compaction_def Let_def live_groups_def demo_history demo_state_def summarized_ids_def demo_tight_def
      default_budget_def candidates_def holds_last_user_def group_tokens_def demo_tokens min_cover_tokens_def py_trunc_def)

theorem compaction_progress_witness:
  "\<exists>c. plan_compaction (pl_json demo_planner) [demo_old, demo_user] (Some demo_state) demo_tight = Some c \<and>
     group_tokens (pl_json demo_planner) (live_groups (set (cs_summarized_message_ids
       (apply_compaction demo_planner demo_state [66] (cp_cover_ids c) None None))) [demo_old, demo_user]) + 512 =
     group_tokens (pl_json demo_planner) (live_groups {} [demo_old, demo_user])"
proof -
  obtain c where c: "plan_compaction (pl_json demo_planner) [demo_old, demo_user] (Some demo_state) demo_tight = Some c"
    "cp_covered_tokens c = 512" using demo_compaction by blast
  have "distinct (map m_id [demo_old, demo_user])" by (simp add: demo_old_def demo_user_def)
  from compaction_progress [OF this c(1), of demo_planner "[66]" None None] c show ?thesis
    by (simp add: demo_state_def)
qed

end
