(* ===== verification/Sandbox.thy ===== *)
theory Sandbox
  imports Context_Plan
begin

text \<open>
  \<open>src/src/agentharness/security/sandbox.py\<close>: confinement of paths to the workspace. Paths are
  lists of parts (an absolute one starts with the part \<open>/\<close>); what the operating system knows
  (existence, symbolic links) is a parameter.
\<close>

text \<open>
  \<open>sf_resolve\<close> is \<open>resolve(strict=False)\<close>, which also follows the links of the existing part;
  \<open>fs_target\<close> is \<open>resolve(strict=True)\<close>. \<open>sf_read\<close> carries \<open>str(exc)\<close> of an \<open>OSError\<close>.
\<close>

record sandbox_fs = file_system +
  sf_resolve :: "path \<Rightarrow> py_error + path"
  sf_is_file :: "path \<Rightarrow> bool"
  sf_read :: "path \<Rightarrow> utext + utext"

text \<open>\<open>Path(text)\<close>: parts between slashes, empty parts and single dots dropped.\<close>

fun split_slash :: "utext \<Rightarrow> utext list" where
  "split_slash [] = [[]]"
| "split_slash (c # cs) =
     (if c = 47 then [] # split_slash cs
      else (case split_slash cs of [] \<Rightarrow> [[c]] | p # ps \<Rightarrow> (c # p) # ps))"

definition path_parts :: "utext \<Rightarrow> path" where
  "path_parts t = (if take 1 t = [47] then [[47]] else []) @ filter (\<lambda>p. p \<noteq> [] \<and> p \<noteq> [46]) (split_slash t)"

definition is_absolute :: "path \<Rightarrow> bool" where
  "is_absolute q \<longleftrightarrow> take 1 q = [[47]]"

text \<open>\<open>os.path.normpath\<close> on the parts: \<open>..\<close> removes the part before it, at the root nothing.\<close>

definition norm_step :: "utext \<Rightarrow> path \<Rightarrow> path" where
  "norm_step p acc =
     (if p \<noteq> [46, 46] then acc @ [p]
      else if acc = [[47]] then acc
      else if acc = [] \<or> last acc = [46, 46] then acc @ [p]
      else butlast acc)"

definition normpath :: "path \<Rightarrow> path" where
  "normpath q = fold norm_step q []"

definition is_within :: "path \<Rightarrow> path \<Rightarrow> bool" where
  "is_within child parent \<longleftrightarrow> take (length parent) child = parent"

text \<open>An error of \<open>resolve\<close> (\<open>OSError\<close>, \<open>RuntimeError\<close>) falls back to \<open>normpath\<close>.\<close>

definition normalize_path :: "sandbox_fs \<Rightarrow> path \<Rightarrow> path \<Rightarrow> path" where
  "normalize_path fs base p =
     (let q = (if is_absolute p then p else base @ p)
      in case sf_resolve fs q of Inr r \<Rightarrow> r | Inl e \<Rightarrow> normpath q)"

text \<open>The parent walk; \<open>parent.parent\<close> of the root is the root.\<close>

function nearest_existing :: "sandbox_fs \<Rightarrow> path \<Rightarrow> path" where
  "nearest_existing fs q = (if fs_exists fs q \<or> length q \<le> 1 then q else nearest_existing fs (butlast q))"
  by pat_completeness auto
termination by (relation "measure (\<lambda>(fs, q). length q)") auto

declare nearest_existing.simps [simp del]

definition parent_of :: "path \<Rightarrow> path" where
  "parent_of q = (if length q \<le> 1 then q else butlast q)"

fun resolve_all :: "sandbox_fs \<Rightarrow> utext list \<Rightarrow> py_error + path list" where
  "resolve_all fs [] = Inr []"
| "resolve_all fs (d # ds) =
     err_bind (sf_resolve fs (path_parts d)) (\<lambda>r. err_bind (resolve_all fs ds) (\<lambda>rs. Inr (r # rs)))"

definition escapes :: "utext \<Rightarrow> py_error" where
  "escapes t = PermissionError (lit ''Path escapes workspace: '' @ t)"

definition assert_in_workspace ::
  "sandbox_fs \<Rightarrow> utext \<Rightarrow> utext \<Rightarrow> utext list \<Rightarrow> bool \<Rightarrow> py_error + path" where
  "assert_in_workspace fs p cwd extra must_exist =
     err_bind (resolve_all fs (cwd # extra)) (\<lambda>roots.
     let candidate = normalize_path fs (hd roots) (path_parts p)
     in if must_exist \<and> \<not> fs_exists fs candidate then Inl (FileNotFoundError (path_str candidate))
        else if fs_exists fs candidate
        then (case fs_target fs candidate of
                Inl e \<Rightarrow> Inl (PermissionError (lit ''Cannot resolve path: '' @ p))
              | Inr check \<Rightarrow> if list_ex (is_within check) roots then Inr candidate else Inl (escapes p))
        else let parent = nearest_existing fs (parent_of candidate)
             in if fs_exists fs parent
                then (case fs_target fs parent of
                        Inl e \<Rightarrow> Inl (PermissionError (lit ''Cannot resolve parent: '' @ path_str parent))
                      | Inr up \<Rightarrow> if list_ex (is_within up) roots then Inr candidate else Inl (escapes p))
                else if list_ex (is_within candidate) roots then Inr candidate else Inl (escapes p))"

text \<open>\<open>joined\<close> is the path of the joined parts; an absolute part replaces what precedes it.\<close>

definition join_part :: "utext \<Rightarrow> path \<Rightarrow> path" where
  "join_part part acc = (if is_absolute (path_parts part) then path_parts part else acc @ path_parts part)"

definition safe_join :: "sandbox_fs \<Rightarrow> utext \<Rightarrow> utext list \<Rightarrow> utext list \<Rightarrow> py_error + path" where
  "safe_join fs cwd parts extra =
     assert_in_workspace fs (path_str (fold join_part parts (path_parts cwd))) cwd extra False"

section \<open>Confinement\<close>

lemma nearest_prefix: "\<exists>rest. q = nearest_existing fs q @ rest"
proof (induction fs q rule: nearest_existing.induct)
  case (1 fs q)
  show ?case
  proof (cases "fs_exists fs q \<or> length q \<le> 1")
    case True
    then show ?thesis by (simp add: nearest_existing.simps)
  next
    case False
    with 1 obtain rest where "butlast q = nearest_existing fs (butlast q) @ rest" by auto
    moreover have "q = butlast q @ [last q]" using False by (cases q rule: rev_cases) auto
    ultimately have "q = nearest_existing fs (butlast q) @ rest @ [last q]" by (metis append.assoc)
    with False show ?thesis by (subst nearest_existing.simps) auto
  qed
qed

lemma parent_prefix: "\<exists>rest. q = parent_of q @ rest"
  by (cases q rule: rev_cases) (auto simp: parent_of_def)

lemma is_within_append: "is_within q anc \<Longrightarrow> is_within (q @ rest) anc"
  by (metis append.assoc append_eq_conv_conj append_take_drop_id is_within_def)

text \<open>The walk finds the deepest existing ancestor, or ends at the top with none.\<close>

lemma nearest_deepest:
  "\<exists>k. nearest_existing fs q = take k q \<and> k \<le> length q \<and>
     (\<forall>m. k < m \<and> m \<le> length q \<longrightarrow> \<not> fs_exists fs (take m q)) \<and>
     (\<not> fs_exists fs (take k q) \<longrightarrow> k \<le> 1) \<and> (0 < length q \<longrightarrow> 0 < k)"
proof (induction fs q rule: nearest_existing.induct)
  case (1 fs q)
  show ?case
  proof (cases "fs_exists fs q \<or> length q \<le> 1")
    case True
    then show ?thesis by (intro exI [of _ "length q"]) (auto simp: nearest_existing.simps)
  next
    case False
    with 1 obtain k where k: "nearest_existing fs (butlast q) = take k (butlast q)" "k \<le> length (butlast q)"
        "\<forall>m. k < m \<and> m \<le> length (butlast q) \<longrightarrow> \<not> fs_exists fs (take m (butlast q))"
        "\<not> fs_exists fs (take k (butlast q)) \<longrightarrow> k \<le> 1" "0 < length (butlast q) \<longrightarrow> 0 < k" by blast
    have t: "take m (butlast q) = take m q" if "m \<le> length (butlast q)" for m
      using that False by (intro take_butlast) auto
    have "\<not> fs_exists fs (take m q)" if "k < m" "m \<le> length q" for m
      using k(3) t [of m] that False by (cases "m = length q") auto
    moreover have "nearest_existing fs q = take k q" using False k(1) t [OF k(2)] by (subst nearest_existing.simps) auto
    moreover have "k \<le> length q" "\<not> fs_exists fs (take k q) \<longrightarrow> k \<le> 1" "0 < k"
      using k(2,4,5) t [OF k(2)] False by auto
    ultimately show ?thesis by blast
  qed
qed

text \<open>What was checked of the accepted path: itself, its deepest existing ancestor, or its spelling.\<close>

definition resolves_inside :: "sandbox_fs \<Rightarrow> path list \<Rightarrow> path \<Rightarrow> bool" where
  "resolves_inside fs roots a \<longleftrightarrow>
     (\<exists>target. fs_target fs a = Inr target \<and> (\<exists>top \<in> set roots. take (length top) target = top))"

lemma accepted_cases:
  assumes "assert_in_workspace fs p cwd extra must_exist = Inr q"
  obtains roots where "resolve_all fs (cwd # extra) = Inr roots" "must_exist \<longrightarrow> fs_exists fs q"
    "fs_exists fs q \<longrightarrow> resolves_inside fs roots q"
    "\<not> fs_exists fs q \<longrightarrow> (if fs_exists fs (nearest_existing fs (parent_of q))
        then resolves_inside fs roots (nearest_existing fs (parent_of q))
        else \<exists>top \<in> set roots. take (length top) q = top)"
proof -
  from assms obtain roots where r: "resolve_all fs (cwd # extra) = Inr roots"
    by (auto simp: assert_in_workspace_def err_bind_eq_Inr simp del: resolve_all.simps)
  have q: "q = normalize_path fs (hd roots) (path_parts p)"
    using assms r by (auto simp: assert_in_workspace_def Let_def simp del: resolve_all.simps split: if_splits sum.splits)
  note a = assms [unfolded assert_in_workspace_def r err_bind.simps Let_def, folded q]
  show ?thesis
  proof (rule that [OF r])
    show "must_exist \<longrightarrow> fs_exists fs q" using a by (auto split: if_splits)
    show "fs_exists fs q \<longrightarrow> resolves_inside fs roots q"
      using a by (auto simp: resolves_inside_def list_ex_iff is_within_def split: if_splits sum.splits)
    show "\<not> fs_exists fs q \<longrightarrow> (if fs_exists fs (nearest_existing fs (parent_of q))
        then resolves_inside fs roots (nearest_existing fs (parent_of q))
        else \<exists>top \<in> set roots. take (length top) q = top)"
      using a by (auto simp: resolves_inside_def list_ex_iff is_within_def split: if_splits sum.splits)
  qed
qed

text \<open>
  C33. The sandbox confines, symbolic links included. Whatever path it accepts, what the
  operating system resolves it to lies under a resolved authorised root: for a path that
  exists that is the path itself, for one that does not exist yet its deepest existing
  ancestor, below which nothing exists; only if nothing on the path exists is its
  spelling compared instead. A path that must exist does.
\<close>

theorem sandbox_confines:
  assumes "assert_in_workspace fs p cwd extra must_exist = Inr q"
  shows "\<exists>roots. resolve_all fs (cwd # extra) = Inr roots \<and> (must_exist \<longrightarrow> fs_exists fs q) \<and>
    (fs_exists fs q \<longrightarrow> (\<exists>target. fs_target fs q = Inr target \<and> (\<exists>top \<in> set roots. take (length top) target = top))) \<and>
    (\<forall>n. 0 < n \<and> n < length q \<and> fs_exists fs (take n q) \<and> (\<forall>m. n < m \<and> m \<le> length q \<longrightarrow> \<not> fs_exists fs (take m q)) \<longrightarrow>
       (\<exists>target. fs_target fs (take n q) = Inr target \<and> (\<exists>top \<in> set roots. take (length top) target = top))) \<and>
    (\<not> fs_exists fs q \<and> (\<forall>n. 0 < n \<and> n < length q \<longrightarrow> \<not> fs_exists fs (take n q)) \<longrightarrow>
       (\<exists>top \<in> set roots. take (length top) q = top))"
proof -
  obtain roots where r: "resolve_all fs (cwd # extra) = Inr roots" "must_exist \<longrightarrow> fs_exists fs q"
    and there: "fs_exists fs q \<longrightarrow> resolves_inside fs roots q"
    and missing: "\<not> fs_exists fs q \<longrightarrow> (if fs_exists fs (nearest_existing fs (parent_of q))
        then resolves_inside fs roots (nearest_existing fs (parent_of q))
        else \<exists>top \<in> set roots. take (length top) q = top)"
    by (rule accepted_cases [OF assms])
  obtain k where k: "nearest_existing fs (parent_of q) = take k (parent_of q)" "k \<le> length (parent_of q)"
    "\<forall>m. k < m \<and> m \<le> length (parent_of q) \<longrightarrow> \<not> fs_exists fs (take m (parent_of q))"
    "\<not> fs_exists fs (take k (parent_of q)) \<longrightarrow> k \<le> 1" "0 < length (parent_of q) \<longrightarrow> 0 < k"
    using nearest_deepest [of fs "parent_of q"] by blast
  have par: "length (parent_of q) = length q - 1 \<and> (\<forall>m. m < length q \<longrightarrow> take m (parent_of q) = take m q)" if "1 < length q"
    using that by (simp add: parent_of_def take_butlast)
  have deepest: "resolves_inside fs roots (take n q)"
    if n: "0 < n" "n < length q" "fs_exists fs (take n q)" "\<forall>m. n < m \<and> m \<le> length q \<longrightarrow> \<not> fs_exists fs (take m q)" for n
  proof -
    have l: "1 < length q" using n by simp
    have nq: "\<not> fs_exists fs q" using n(2,4) by (metis order_refl take_all)
    have "\<not> k < n" using k(3) n(2,3) par [OF l] by auto
    moreover have "\<not> n < k"
    proof
      assume nk: "n < k"
      then have "\<not> fs_exists fs (take k (parent_of q))" using k(2) n(4) par [OF l] l by auto
      then show False using k(4) nk n(1) by simp
    qed
    ultimately have "k = n" by simp
    then have "nearest_existing fs (parent_of q) = take n q" using k(1) par [OF l] n(2) by simp
    with missing nq n(3) show ?thesis by simp
  qed
  have spelled: "\<exists>top \<in> set roots. take (length top) q = top"
    if n: "\<not> fs_exists fs q" "\<forall>n. 0 < n \<and> n < length q \<longrightarrow> \<not> fs_exists fs (take n q)"
  proof (cases "1 < length q")
    case True
    have "nearest_existing fs (parent_of q) = take k q" "k < length q" "0 < k"
      using k(1,2,5) par [OF True] True by auto
    then show ?thesis using missing n by auto
  next
    case False
    then have "nearest_existing fs (parent_of q) = q" by (simp add: parent_of_def nearest_existing.simps)
    then show ?thesis using missing n(1) by auto
  qed
  show ?thesis
    using r there deepest spelled unfolding resolves_inside_def by (intro exI [of _ roots] conjI allI impI) blast+
qed

text \<open>A file system where everything exists but \<open>/w/new\<close>, without links.\<close>

definition demo_sandbox :: sandbox_fs where
  "demo_sandbox = \<lparr>fs_locate = path_parts, fs_strict = (\<lambda>t. Some (path_parts t)), fs_is_dir = (\<lambda>_. True),
     fs_exists = (\<lambda>q. q \<noteq> [lit ''/'', lit ''w'', lit ''new'']), fs_is_symlink = (\<lambda>_. False), fs_target = Inr,
     fs_size = (\<lambda>_. Inr 0), fs_read = (\<lambda>_. Inr []), sf_resolve = (\<lambda>q. Inr (normpath q)), sf_is_file = (\<lambda>_. False),
     sf_read = (\<lambda>_. Inr [])\<rparr>"

lemma demo_parts [unfolded lit_def, simplified]: "path_parts (lit ''/w'') = [lit ''/'', lit ''w'']" "path_parts (lit ''new'') = [lit ''new'']"
  "path_parts (lit ''../x'') = [lit ''..'', lit ''x'']"
  by (simp_all add: path_parts_def lit_def)

lemma demo_allows: "assert_in_workspace demo_sandbox (lit ''new'') (lit ''/w'') [] False = Inr [lit ''/'', lit ''w'', lit ''new'']"
  by (simp add: assert_in_workspace_def demo_parts escapes_def demo_sandbox_def normpath_def norm_step_def lit_def is_absolute_def
      normalize_path_def Let_def parent_of_def nearest_existing.simps is_within_def)

lemma demo_refuses: "assert_in_workspace demo_sandbox (lit ''../x'') (lit ''/w'') [] False = Inl (escapes (lit ''../x''))"
  by (simp add: assert_in_workspace_def demo_parts escapes_def demo_sandbox_def normpath_def norm_step_def lit_def is_absolute_def
      normalize_path_def Let_def parent_of_def nearest_existing.simps is_within_def)

theorem sandbox_confines_witness:
  "\<exists>target roots. fs_target demo_sandbox (take 2 [lit ''/'', lit ''w'', lit ''new'']) = Inr target \<and>
     resolve_all demo_sandbox [lit ''/w''] = Inr roots \<and> (\<exists>top \<in> set roots. take (length top) target = top)"
proof -
  have "\<forall>m. 2 < m \<and> m \<le> length [lit ''/'', lit ''w'', lit ''new''] \<longrightarrow>
      \<not> fs_exists demo_sandbox (take m [lit ''/'', lit ''w'', lit ''new''])"
  proof (intro allI impI)
    fix m :: nat assume "2 < m \<and> m \<le> length [lit ''/'', lit ''w'', lit ''new'']"
    then have "m = 3" by simp
    then show "\<not> fs_exists demo_sandbox (take m [lit ''/'', lit ''w'', lit ''new''])" by (simp add: demo_sandbox_def)
  qed
  moreover have "fs_exists demo_sandbox (take 2 [lit ''/'', lit ''w'', lit ''new''])"
    by (simp add: demo_sandbox_def)
  moreover obtain roots where r: "resolve_all demo_sandbox [lit ''/w''] = Inr roots"
    and d: "\<forall>n. 0 < n \<and> n < length [lit ''/'', lit ''w'', lit ''new''] \<and> fs_exists demo_sandbox (take n [lit ''/'', lit ''w'', lit ''new'']) \<and>
        (\<forall>m. n < m \<and> m \<le> length [lit ''/'', lit ''w'', lit ''new''] \<longrightarrow>
           \<not> fs_exists demo_sandbox (take m [lit ''/'', lit ''w'', lit ''new''])) \<longrightarrow>
       (\<exists>target. fs_target demo_sandbox (take n [lit ''/'', lit ''w'', lit ''new'']) = Inr target \<and>
          (\<exists>top \<in> set roots. take (length top) target = top))"
    using sandbox_confines [OF demo_allows] by (elim exE conjE) (rule that)
  moreover have "0 < (2::nat) \<and> 2 < length [lit ''/'', lit ''w'', lit ''new'']" by simp
  ultimately have "\<exists>target. fs_target demo_sandbox (take 2 [lit ''/'', lit ''w'', lit ''new'']) = Inr target \<and>
      (\<exists>top \<in> set roots. take (length top) target = top)" by (intro d [rule_format]) (intro conjI, assumption | simp)+
  with r show ?thesis by blast
qed

end
