(* ===== verification/Verification.thy ===== *)
theory Verification
  imports Sandbox Json_Text
begin

text \<open>
  \<open>src/src/agentharness/engine/verification.py\<close>: the validators a candidate answer has to pass
  and the decision drawn from their failures. The command runner, the evaluator's stream,
  \<open>json.loads\<close>, \<open>str\<close>/\<open>repr\<close> on values and number formatting are parameters.
\<close>

section \<open>Candidates and the loop's collaborators\<close>

text \<open>\<open>vn_cancelled\<close>: the answers of the cancel event, the first at entry, then one per check.\<close>

record candidate =
  vn_goal :: utext
  vn_output :: utext
  vn_cwd :: utext
  vn_extra_dirs :: "utext list"
  vn_steps :: int
  vn_tools_ordered :: "utext list"
  vn_tools_succeeded :: "utext list"
  vn_output_assertions :: "pydict option"
  vn_executor_provider :: "string option"
  vn_executor_adapter :: nat
  vn_cancelled :: "nat \<Rightarrow> bool"

datatype judge_item = JI_text "utext option" | JI_error "utext option" | JI_other

text \<open>Adapters are compared by identity, a number here; \<open>ad_stream\<close> answers a prompt.\<close>

record judge_adapter =
  ad_id :: nat
  ad_stream :: "string option \<Rightarrow> utext \<Rightarrow> judge_item list"

record verifier =
  ve_redactor :: redactor
  ve_json :: json_style
  ve_fs :: sandbox_fs
  ve_runner :: "(utext \<Rightarrow> tool_result) option"
  ve_resolver :: "(string \<Rightarrow> judge_adapter option) option"
  ve_loads :: "utext \<Rightarrow> utext + pyval"
  ve_no_get :: "pyval \<Rightarrow> utext"
  ve_str :: "pyval \<Rightarrow> utext"
  ve_repr :: "utext list \<Rightarrow> utext"
  ve_fmt3 :: "real \<Rightarrow> utext"
  ve_dump_failure :: "verification_failure \<Rightarrow> pyval"
  ve_elapsed_ms :: real

type_synonym check_outcome = "verification_failure option \<times> pydict"

definition failure ::
  "string \<Rightarrow> string \<Rightarrow> utext \<Rightarrow> pydict \<Rightarrow> bool \<Rightarrow> utext option \<Rightarrow> verification_failure" where
  "failure validator code msg evidence retryable hint =
     \<lparr>vf_validator = validator, vf_error_code = code, vf_message = msg, vf_evidence = evidence,
      vf_retryable = retryable, vf_recovery_hint = hint\<rparr>"

definition strs :: "utext list \<Rightarrow> pyval" where
  "strs ts = VList (map VStr ts)"

definition err_text :: "py_error \<Rightarrow> utext" where
  "err_text e = (case e of ValueError t \<Rightarrow> t | RuntimeError t \<Rightarrow> t | PermissionError t \<Rightarrow> t
     | FileNotFoundError t \<Rightarrow> t | OSError t \<Rightarrow> t | TypeError t \<Rightarrow> t | KeyError k \<Rightarrow> [39] @ lit k @ [39]
     | IntegrityError \<Rightarrow> lit ''constraint failed'' | ZeroDivisionError \<Rightarrow> lit ''division by zero''
     | AssertionError \<Rightarrow> [] | OverflowError \<Rightarrow> lit ''date value out of range'' | CancelledError \<Rightarrow> [])"

text \<open>\<open>{needle: needle in hay for needle in needles}\<close>: a repeated needle keeps its first place.\<close>

definition found_dict :: "(utext \<Rightarrow> bool) \<Rightarrow> utext list \<Rightarrow> pyval" where
  "found_dict p needles = VDict (fold (\<lambda>n. dict_set n (VBool (p n))) needles [])"

section \<open>The output validator\<close>

fun all_strings :: "pyval list \<Rightarrow> utext list option" where
  "all_strings [] = Some []"
| "all_strings (VStr t # vs) = map_option (\<lambda>ts. t # ts) (all_strings vs)"
| "all_strings (v # vs) = None"

definition string_list :: "string \<Rightarrow> pydict \<Rightarrow> utext option + utext list" where
  "string_list name raw =
     (case map_of raw (lit name) of
        None \<Rightarrow> Inr []
      | Some (VList vs) \<Rightarrow> (case all_strings vs of Some ts \<Rightarrow> Inr ts
                            | None \<Rightarrow> Inl (Some (lit name @ lit '' must be a list of strings'')))
      | Some v \<Rightarrow> Inl (Some (lit name @ lit '' must be a list of strings'')))"

text \<open>The four assertion lists, read in this order; the first malformed one is reported.\<close>

definition assertion_lists :: "pydict \<Rightarrow> utext option + utext list \<times> utext list \<times> utext list \<times> utext list" where
  "assertion_lists raw =
     (case string_list ''contains'' raw of Inl e \<Rightarrow> Inl e | Inr required \<Rightarrow>
     (case string_list ''not_contains'' raw of Inl e \<Rightarrow> Inl e | Inr forbidden \<Rightarrow>
     (case string_list ''tools_ordered'' raw of Inl e \<Rightarrow> Inl e | Inr expected \<Rightarrow>
     (case string_list ''tools_succeeded'' raw of Inl e \<Rightarrow> Inl e | Inr tools \<Rightarrow>
        Inr (required, forbidden, expected, tools)))))"

text \<open>\<open>isinstance(v, int)\<close>, which a bool satisfies; \<open>None\<close> stands for an absent or null bound.\<close>

datatype step_bound = NoBound | BadBound | StepBound int

definition max_steps_of :: "pydict \<Rightarrow> step_bound" where
  "max_steps_of raw =
     (case map_of raw (lit ''max_steps'') of
        None \<Rightarrow> NoBound
      | Some VNone \<Rightarrow> NoBound
      | Some (VInt i) \<Rightarrow> if i < 0 then BadBound else StepBound i
      | Some (VBool b) \<Rightarrow> StepBound (if b then 1 else 0)
      | Some v \<Rightarrow> BadBound)"

definition raw_assertions :: "candidate \<Rightarrow> verification_check \<Rightarrow> pydict" where
  "raw_assertions c k =
     (if vc_assertions k \<noteq> [] then vc_assertions k
      else case vn_output_assertions c of None \<Rightarrow> [] | Some d \<Rightarrow> d)"

definition output_reasons ::
  "verifier \<Rightarrow> candidate \<Rightarrow> utext list \<times> utext list \<times> utext list \<times> utext list \<Rightarrow> step_bound \<Rightarrow> utext list" where
  "output_reasons ve c ls bound =
     (let (required, forbidden, expected, tools) = ls;
          missing = filter (\<lambda>n. \<not> text_in n (vn_output c)) required;
          present = filter (\<lambda>n. text_in n (vn_output c)) forbidden;
          absent = filter (\<lambda>n. n \<notin> set (vn_tools_succeeded c)) tools
      in (if missing = [] then [] else [lit ''output is missing required text: '' @ ve_repr ve missing]) @
         (if present = [] then [] else [lit ''output contains forbidden text: '' @ ve_repr ve present]) @
         (if expected = [] \<or> vn_tools_ordered c = expected then []
          else [lit ''expected tools '' @ ve_repr ve expected @ lit '', actual '' @ ve_repr ve (vn_tools_ordered c)]) @
         (if absent = [] then []
          else [lit ''required successful tools are missing: '' @ ve_repr ve absent @ lit ''; actual '' @
                ve_repr ve (vn_tools_succeeded c)]) @
         (case bound of StepBound m \<Rightarrow>
              if m < vn_steps c
              then [lit ''steps '' @ str_int (vn_steps c) @ lit '' exceed maximum '' @ str_int m] else []
            | _ \<Rightarrow> []))"

definition output_check :: "verifier \<Rightarrow> candidate \<Rightarrow> verification_check \<Rightarrow> check_outcome" where
  "output_check ve c k =
     (let raw = raw_assertions c k; shown = [(lit ''assertions'', VDict raw)]
      in case assertion_lists raw of
           Inl msg \<Rightarrow> (Some (failure ''output'' ''invalid_assertion'' (text_or msg []) [] False
             (Some (lit ''Fix the Verification Policy assertion schema.''))), shown)
         | Inr ls \<Rightarrow>
             let bound = max_steps_of raw
             in if bound = BadBound
                then (Some (failure ''output'' ''invalid_assertion''
                  (lit ''max_steps must be a non-negative integer'') [] False None), shown)
                else
                  let (required, forbidden, expected, tools) = ls;
                      reasons = output_reasons ve c ls bound;
                      evidence = [(lit ''passed'', VBool (reasons = [])), (lit ''reasons'', strs reasons),
                        (lit ''contains'', found_dict (\<lambda>n. text_in n (vn_output c)) required),
                        (lit ''not_contains'', found_dict (\<lambda>n. \<not> text_in n (vn_output c)) forbidden),
                        (lit ''tools_ordered'', strs (vn_tools_ordered c)),
                        (lit ''tools_succeeded'', strs (vn_tools_succeeded c)),
                        (lit ''steps'', VInt (vn_steps c))]
                  in (if reasons = [] then None
                      else Some (failure ''output'' ''assertion_failed'' (join (lit ''; '') reasons)
                        (redact_dict (ve_redactor ve) evidence) True
                        (Some (lit ''Correct the candidate so every deterministic assertion passes.''))), evidence))"

section \<open>The file validator\<close>

definition file_condition_message :: "utext \<Rightarrow> bool \<Rightarrow> bool \<Rightarrow> utext" where
  "file_condition_message p wanted exists =
     lit ''Expected '' @ p @ lit '' to '' @ lit (if wanted then ''exist'' else ''be absent'') @
     lit '', but it '' @ lit (if exists then ''exists'' else ''is absent'') @ lit ''.''"

definition file_check :: "verifier \<Rightarrow> candidate \<Rightarrow> verification_check \<Rightarrow> check_outcome" where
  "file_check ve c k =
     (case vc_path k of
        None \<Rightarrow> (Some (failure ''file'' ''invalid_file_check'' (lit ''File validator requires path.'') [] False
            (Some (lit ''Add a workspace-relative path to the policy.''))), [])
      | Some p \<Rightarrow>
          if p = [] then (Some (failure ''file'' ''invalid_file_check'' (lit ''File validator requires path.'') [] False
            (Some (lit ''Add a workspace-relative path to the policy.''))), [])
          else case assert_in_workspace (ve_fs ve) p (vn_cwd c) (vn_extra_dirs c) False of
            Inl e \<Rightarrow> (Some (failure ''file'' ''workspace_violation'' (err_text e) [] True
               (Some (lit ''Use a path inside the configured workspace.''))), [(lit ''path'', VStr p)])
          | Inr target \<Rightarrow>
              let exists = sf_is_file (ve_fs ve) target;
                  evidence = [(lit ''path'', VStr (path_str target)), (lit ''exists'', VBool exists)]
              in if exists \<noteq> vc_exists k
                 then (Some (failure ''file'' ''file_condition_failed'' (file_condition_message p (vc_exists k) exists)
                   evidence True (Some (lit (if vc_exists k then ''Create or correct the required file.''
                     else ''Remove the file only if the user goal permits it.'')))), evidence)
                 else if \<not> exists then (None, evidence)
                 else case sf_read (ve_fs ve) target of
                     Inl msg \<Rightarrow> (Some (failure ''file'' ''file_read_failed'' msg [] True
                       (Some (lit ''Re-read the file and repair permissions or encoding.''))), evidence)
                   | Inr whole \<Rightarrow>
                       let content = take 1000000 whole;
                           missing = filter (\<lambda>n. \<not> text_in n content) (vc_contains k);
                           evidence' = dict_set (lit ''contains'') (found_dict (\<lambda>n. text_in n content) (vc_contains k)) evidence
                       in (if missing = [] then None
                           else Some (failure ''file'' ''file_content_failed''
                             (p @ lit '' is missing required content: '' @ ve_repr ve missing) evidence' True
                             (Some (lit ''Update the file to include every required content condition.''))), evidence'))"

section \<open>The command validator\<close>

definition command_check :: "verifier \<Rightarrow> candidate \<Rightarrow> verification_check \<Rightarrow> check_outcome" where
  "command_check ve c k =
     (let cmd = text_or (vc_command k) []
      in if cmd = [] then (Some (failure ''command'' ''invalid_command_check''
             (lit ''Command validator requires a command.'') [] False
             (Some (lit ''Add a command to the Verification Policy.''))), [])
         else case ve_runner ve of
           None \<Rightarrow> (Some (failure ''command'' ''governed_runner_unavailable''
             (lit ''Governed command runner is unavailable.'') [] False
             (Some (lit ''Enable the shell tool and its Approval/Sandbox path.''))), [(lit ''command'', VStr cmd)])
         | Some run \<Rightarrow>
             let r = run cmd;
                 duration = (case tr_duration_ms r of Some d \<Rightarrow> if d \<noteq> 0 then d else ve_elapsed_ms ve
                             | None \<Rightarrow> ve_elapsed_ms ve);
                 opt = (\<lambda>s. case s of None \<Rightarrow> VNone | Some x \<Rightarrow> VStr (lit x));
                 evidence = [(lit ''command'', VStr cmd), (lit ''is_error'', VBool (tr_is_error r)),
                   (lit ''output'', VStr (redact_text (ve_redactor ve) (take 2000 (tr_content r)))),
                   (lit ''duration_ms'', VFloat duration), (lit ''error_code'', opt (tr_error_code r)),
                   (lit ''error_category'', opt (tr_error_category r))];
                 missing = filter (\<lambda>n. \<not> text_in n (tr_content r)) (vc_contains k);
                 coded = (case tr_error_code r of None \<Rightarrow> False | Some e \<Rightarrow> e \<noteq> []);
                 shown = redact_text (ve_redactor ve) (take 1000 (tr_content r))
             in if \<not> tr_is_error r \<and> missing = [] then (None, evidence)
                else (Some (failure ''command''
                  (if coded then the (tr_error_code r)
                   else if missing \<noteq> [] then ''command_output_failed'' else ''command_failed'')
                  (if missing \<noteq> [] then lit ''Command output is missing '' @ ve_repr ve missing
                   else if shown \<noteq> [] then shown else lit ''Command failed.'')
                  evidence (if coded then tr_retryable r else True)
                  (Some (text_or (tr_recovery_hint r) (lit ''Inspect the output and correct the failing code.'')))), evidence))"

section \<open>The independent evaluator\<close>

definition evaluator_configuration_failure :: "utext \<Rightarrow> string \<Rightarrow> check_outcome" where
  "evaluator_configuration_failure msg code =
     (Some (failure ''ai'' code msg [] False
        (Some (lit ''Configure a separate read-only evaluator or ask a human to review.''))), [])"

definition judge_prompt :: "verifier \<Rightarrow> candidate \<Rightarrow> utext" where
  "judge_prompt ve c =
     json_dumps ((ve_json ve)\<lparr>js_item_sep := lit '', '', js_key_sep := lit '': ''\<rparr>)
       (VDict [(lit ''goal'', VStr (vn_goal c)), (lit ''candidate_output'', VStr (vn_output c)),
         (lit ''steps'', VInt (vn_steps c)), (lit ''tools_ordered'', strs (vn_tools_ordered c)),
         (lit ''instruction'', VStr (lit (''Return JSON with dimensions.task_completion/correctness/completeness '' @
           ''objects containing score 0..1, plus confidence, '' @
           ''hard_safety_violation, failure_category, evidence and improvements.'')))])"

fun collect_verdict :: "utext list \<Rightarrow> judge_item list \<Rightarrow> utext + utext" where
  "collect_verdict chunks [] = Inr (concat chunks)"
| "collect_verdict chunks (JI_text t # is) =
     collect_verdict (case t of Some x \<Rightarrow> if x = [] then chunks else chunks @ [x] | None \<Rightarrow> chunks) is"
| "collect_verdict chunks (JI_error e # is) = Inl (text_or e (lit ''evaluator provider error''))"
| "collect_verdict chunks (JI_other # is) = collect_verdict chunks is"

definition strip_char :: "nat \<Rightarrow> utext \<Rightarrow> utext" where
  "strip_char ch t = rev (dropWhile (\<lambda>c. c = ch) (rev (dropWhile (\<lambda>c. c = ch) t)))"

definition unfence :: "utext \<Rightarrow> utext" where
  "unfence raw =
     (if take 3 raw = [96, 96, 96]
      then let t = strip_char 96 raw
           in if take 4 t = lit ''json'' then lstrip (drop 4 t) else t
      else raw)"

definition py_get :: "verifier \<Rightarrow> string \<Rightarrow> pyval \<Rightarrow> utext + pyval" where
  "py_get ve k v = (case v of VDict d \<Rightarrow> Inr (dict_get k d) | _ \<Rightarrow> Inl (ve_no_get ve v))"

definition dict_or :: "pyval \<Rightarrow> pyval" where
  "dict_or v = (if truthy v then v else VDict [])"

definition dimension_score :: "verifier \<Rightarrow> pyval \<Rightarrow> string \<Rightarrow> utext + real" where
  "dimension_score ve dims name =
     err_bind (py_get ve name dims) (\<lambda>d. err_bind (py_get ve ''score'' (dict_or d)) (\<lambda>v.
       case v of VInt i \<Rightarrow> Inr (real_of_int i) | VFloat x \<Rightarrow> Inr x
       | _ \<Rightarrow> Inl (lit ''evaluator dimension '' @ lit name @ lit '' has no numeric score'')))"

text \<open>The \<open>try\<close> block: the verdict and its mean score, or the text of the exception.\<close>

definition read_verdict :: "verifier \<Rightarrow> judge_item list \<Rightarrow> utext + pyval \<times> real" where
  "read_verdict ve is =
     err_bind (collect_verdict [] is) (\<lambda>t.
     err_bind (ve_loads ve (unfence (strip t))) (\<lambda>verdict.
     err_bind (py_get ve ''dimensions'' verdict) (\<lambda>d.
     let dims = dict_or d in
     err_bind (dimension_score ve dims ''task_completion'') (\<lambda>s1.
     err_bind (dimension_score ve dims ''correctness'') (\<lambda>s2.
     err_bind (dimension_score ve dims ''completeness'') (\<lambda>s3.
     if list_ex (\<lambda>s. s < 0 \<or> 1 < s) [s1, s2, s3] then Inl (lit ''evaluator scores must be between 0 and 1'')
     else Inr (verdict, (s1 + s2 + s3) / 3)))))))"

text \<open>\<open>[str(item) for item in (value or [])]\<close>, outside the \<open>try\<close>: a truthy value that is not iterable raises.\<close>

definition improvement_texts :: "verifier \<Rightarrow> pyval \<Rightarrow> py_error + utext list" where
  "improvement_texts ve v =
     (if \<not> truthy v then Inr []
      else case v of
         VList xs \<Rightarrow> Inr (map (ve_str ve) xs) | VTuple xs \<Rightarrow> Inr (map (ve_str ve) xs)
       | VSet xs \<Rightarrow> Inr (map (ve_str ve) xs) | VStr t \<Rightarrow> Inr (map (\<lambda>c. [c]) t)
       | VDict d \<Rightarrow> Inr (map fst d) | VBytes b \<Rightarrow> Inr (map (\<lambda>c. str_nat c) b)
       | _ \<Rightarrow> Inl (TypeError (lit ''object is not iterable'')))"

definition list_or :: "pyval \<Rightarrow> pyval" where
  "list_or v = (if truthy v then v else VList [])"

definition ai_check ::
  "verifier \<Rightarrow> candidate \<Rightarrow> verification_policy \<Rightarrow> verification_check \<Rightarrow> py_error + check_outcome" where
  "ai_check ve c pol k =
     (case (vp_evaluator_provider pol, ve_resolver ve) of
        (Some provider, Some resolve) \<Rightarrow>
          if provider = '''' then Inr (evaluator_configuration_failure (lit ''Independent evaluator is not configured.'') ''evaluator_unavailable'')
          else if Some provider = vn_executor_provider c
          then Inr (evaluator_configuration_failure
            (lit ''Evaluator provider must be independent from the executing provider.'') ''evaluator_not_independent'')
          else (case resolve provider of
              None \<Rightarrow> Inr (evaluator_configuration_failure
                (lit ''Evaluator provider '' @ ve_str ve (VStr (lit provider)) @ lit '' is unavailable.'') ''evaluator_unavailable'')
            | Some adapter \<Rightarrow>
                if ad_id adapter = vn_executor_adapter c
                then Inr (evaluator_configuration_failure
                  (lit ''Evaluator adapter must be isolated from the executing adapter.'') ''evaluator_not_independent'')
                else (case read_verdict ve (ad_stream adapter (vp_evaluator_model pol) (judge_prompt ve c)) of
                    Inl msg \<Rightarrow> Inr (Some (failure ''ai'' ''evaluator_failed'' (redact_text (ve_redactor ve) msg) [] False
                      (Some (lit ''Ask a human to review or restore the independent evaluator.''))),
                      [(lit ''provider'', VStr (lit provider))])
                  | Inr (verdict, core) \<Rightarrow>
                      let get = (\<lambda>key. dict_get key (dict_items verdict));
                          hard = truthy (get ''hard_safety_violation'')
                      in err_bind (improvement_texts ve (get ''improvements'')) (\<lambda>improvements.
                         let evidence = [(lit ''provider'', VStr (lit provider)), (lit ''score'', VFloat core),
                               (lit ''confidence'', get ''confidence''), (lit ''hard_safety_violation'', VBool hard),
                               (lit ''failure_category'', get ''failure_category''),
                               (lit ''evidence'', list_or (get ''evidence'')), (lit ''improvements'', strs improvements)]
                         in if vc_min_score k \<le> core \<and> \<not> hard then Inr (None, evidence)
                            else Inr (Some (failure ''ai'' (if hard then ''hard_safety_violation'' else ''ai_score_below_threshold'')
                              (lit ''Independent evaluator score '' @ ve_fmt3 ve core @ lit '' is below '' @
                               ve_fmt3 ve (vc_min_score k) @ lit ''.'')
                              (redact_dict (ve_redactor ve) evidence) (\<not> hard)
                              (Some (case improvements of [] \<Rightarrow> lit ''Correct the cited gaps.'' | i # _ \<Rightarrow> i))), evidence))))
      | _ \<Rightarrow> Inr (evaluator_configuration_failure (lit ''Independent evaluator is not configured.'') ''evaluator_unavailable''))"

section \<open>The decision\<close>

definition run_check ::
  "verifier \<Rightarrow> candidate \<Rightarrow> verification_policy \<Rightarrow> verification_check \<Rightarrow> py_error + check_outcome" where
  "run_check ve c pol k =
     (case vc_kind k of
        VK_output \<Rightarrow> Inr (output_check ve c k)
      | VK_file \<Rightarrow> Inr (file_check ve c k)
      | VK_command \<Rightarrow> Inr (command_check ve c k)
      | VK_ai \<Rightarrow> ai_check ve c pol k)"

definition cancelled_failure :: verification_failure where
  "cancelled_failure = failure ''loop'' ''cancelled'' (lit ''Verification was cancelled.'') [] False None"

fun kind_value :: "check_kind \<Rightarrow> string" where
  "kind_value VK_output = ''output''"
| "kind_value VK_file = ''file''"
| "kind_value VK_command = ''command''"
| "kind_value VK_ai = ''ai''"

definition evidence_key :: "nat \<Rightarrow> verification_check \<Rightarrow> utext" where
  "evidence_key i k = str_nat i @ lit '':'' @ lit (kind_value (vc_kind k))"

fun run_checks ::
  "verifier \<Rightarrow> candidate \<Rightarrow> verification_policy \<Rightarrow> nat \<Rightarrow> verification_check list \<Rightarrow>
   py_error + verification_failure list \<times> pydict" where
  "run_checks ve c pol i [] = Inr ([], [])"
| "run_checks ve c pol i (k # ks) =
     (if vn_cancelled c (Suc i) then Inr ([cancelled_failure], [])
      else err_bind (run_check ve c pol k) (\<lambda>(f, ev).
           err_bind (run_checks ve c pol (Suc i) ks) (\<lambda>(fs, evs).
           Inr ((case f of None \<Rightarrow> [] | Some x \<Rightarrow> [x]) @ fs,
                (evidence_key i k, redact_obj (ve_redactor ve) (VDict ev)) # evs))))"

definition decide_action :: "verification_policy \<Rightarrow> nat \<Rightarrow> verification_failure list \<Rightarrow> verification_action" where
  "decide_action pol attempt failures =
     (if failures = [] then VA_pass
      else if list_ex (\<lambda>f. \<not> vf_retryable f) failures then VA_require_human
      else if attempt < vp_max_retries pol then VA_retry
      else if vp_on_exhausted pol = OE_failed then VA_stop
      else VA_require_human)"

fun action_value :: "verification_action \<Rightarrow> string" where
  "action_value VA_pass = ''pass''"
| "action_value VA_retry = ''retry''"
| "action_value VA_require_human = ''require_human''"
| "action_value VA_stop = ''stop''"

definition feedback_text :: "verifier \<Rightarrow> candidate \<Rightarrow> verification_failure list \<Rightarrow> nat \<Rightarrow> verification_action \<Rightarrow> utext" where
  "feedback_text ve c failures attempt action =
     lit ''[verification_feedback]'' @ [10] @
     json_dumps ((ve_json ve)\<lparr>js_item_sep := lit '', '', js_key_sep := lit '': ''\<rparr>)
       (json_sort (redact_obj (ve_redactor ve)
         (VDict [(lit ''type'', VStr (lit ''verification_feedback'')), (lit ''original_goal'', VStr (vn_goal c)),
           (lit ''attempt'', VInt (int attempt)), (lit ''decision'', VStr (lit (action_value action))),
           (lit ''failures'', VList (map (ve_dump_failure ve) failures)),
           (lit ''instruction'', VStr (lit ''Correct the failed items, gather fresh evidence, and return a new candidate.''))])))"

text \<open>\<open>fresh\<close> and \<open>now\<close> are the id and time of the feedback message.\<close>

definition feedback_message_of :: "string \<Rightarrow> time \<Rightarrow> utext \<Rightarrow> message" where
  "feedback_message_of fresh now t =
     \<lparr>m_id = fresh, m_role = MR_user, m_content = t, m_tool_call_id = None, m_name = None,
      m_tool_calls = None, m_tool_result = None, m_created_at = now\<rparr>"

definition evaluate ::
  "verifier \<Rightarrow> string \<Rightarrow> time \<Rightarrow> candidate \<Rightarrow> verification_policy \<Rightarrow> nat \<Rightarrow> py_error + verification_decision" where
  "evaluate ve fresh now c pol attempt =
     (if vn_cancelled c 0
      then Inr \<lparr>vd_action = VA_stop, vd_feedback = None, vd_feedback_message = None,
                vd_failures = [cancelled_failure], vd_attempt = attempt, vd_evidence = []\<rparr>
      else err_bind (run_checks ve c pol 0 (vp_validators pol)) (\<lambda>(failures, evidence).
        let ev = redact_dict (ve_redactor ve) evidence;
            action = decide_action pol attempt failures
        in if failures = []
           then Inr \<lparr>vd_action = VA_pass, vd_feedback = None, vd_feedback_message = None, vd_failures = [],
                     vd_attempt = attempt, vd_evidence = ev\<rparr>
           else let t = feedback_text ve c failures attempt action
                in Inr \<lparr>vd_action = action, vd_feedback = Some t,
                     vd_feedback_message = (if action = VA_retry then Some (feedback_message_of fresh now t) else None),
                     vd_failures = failures, vd_attempt = attempt, vd_evidence = ev\<rparr>))"

end
