(* ===== verification/Verification_Loop.thy ===== *)
theory Verification_Loop
  imports Verification
begin

text \<open>
  What a verification decision means: a pass is exactly that every validator's condition
  holds, and the other actions follow a table over the failures and the attempt.
\<close>

section \<open>The condition each validator stands for\<close>

definition output_holds :: "candidate \<Rightarrow> verification_check \<Rightarrow> bool" where
  "output_holds c k \<longleftrightarrow>
     (\<exists>required forbidden expected tools. assertion_lists (raw_assertions c k) = Inr (required, forbidden, expected, tools) \<and>
        (\<forall>n \<in> set required. text_in n (vn_output c)) \<and> (\<forall>n \<in> set forbidden. \<not> text_in n (vn_output c)) \<and>
        (expected = [] \<or> vn_tools_ordered c = expected) \<and> set tools \<subseteq> set (vn_tools_succeeded c)) \<and>
     (case max_steps_of (raw_assertions c k) of NoBound \<Rightarrow> True | BadBound \<Rightarrow> False | StepBound m \<Rightarrow> vn_steps c \<le> m)"

definition file_holds :: "verifier \<Rightarrow> candidate \<Rightarrow> verification_check \<Rightarrow> bool" where
  "file_holds ve c k \<longleftrightarrow>
     (\<exists>p target. vc_path k = Some p \<and> p \<noteq> [] \<and>
        assert_in_workspace (ve_fs ve) p (vn_cwd c) (vn_extra_dirs c) False = Inr target \<and>
        sf_is_file (ve_fs ve) target = vc_exists k \<and>
        (vc_exists k \<longrightarrow> (\<exists>whole. sf_read (ve_fs ve) target = Inr whole \<and>
           (\<forall>n \<in> set (vc_contains k). text_in n (take 1000000 whole)))))"

definition command_holds :: "verifier \<Rightarrow> verification_check \<Rightarrow> bool" where
  "command_holds ve k \<longleftrightarrow>
     (\<exists>cmd run. vc_command k = Some cmd \<and> cmd \<noteq> [] \<and> ve_runner ve = Some run \<and> \<not> tr_is_error (run cmd) \<and>
        (\<forall>n \<in> set (vc_contains k). text_in n (tr_content (run cmd))))"

definition ai_holds :: "verifier \<Rightarrow> candidate \<Rightarrow> verification_policy \<Rightarrow> verification_check \<Rightarrow> bool" where
  "ai_holds ve c pol k \<longleftrightarrow>
     (\<exists>provider resolve adapter verdict core. vp_evaluator_provider pol = Some provider \<and> provider \<noteq> '''' \<and>
        vn_executor_provider c \<noteq> Some provider \<and> ve_resolver ve = Some resolve \<and> resolve provider = Some adapter \<and>
        ad_id adapter \<noteq> vn_executor_adapter c \<and>
        read_verdict ve (ad_stream adapter (vp_evaluator_model pol) (judge_prompt ve c)) = Inr (verdict, core) \<and>
        vc_min_score k \<le> core \<and> \<not> truthy (dict_get ''hard_safety_violation'' (dict_items verdict)))"

definition check_holds :: "verifier \<Rightarrow> candidate \<Rightarrow> verification_policy \<Rightarrow> verification_check \<Rightarrow> bool" where
  "check_holds ve c pol k =
     (case vc_kind k of VK_output \<Rightarrow> output_holds c k | VK_file \<Rightarrow> file_holds ve c k
      | VK_command \<Rightarrow> command_holds ve k | VK_ai \<Rightarrow> ai_holds ve c pol k)"

section \<open>Every validator decides its condition\<close>

lemma no_reasons:
  "output_reasons ve c (required, forbidden, expected, tools) bound = [] \<longleftrightarrow>
     (\<forall>n \<in> set required. text_in n (vn_output c)) \<and> (\<forall>n \<in> set forbidden. \<not> text_in n (vn_output c)) \<and>
     (expected = [] \<or> vn_tools_ordered c = expected) \<and> set tools \<subseteq> set (vn_tools_succeeded c) \<and>
     (case bound of StepBound m \<Rightarrow> vn_steps c \<le> m | _ \<Rightarrow> True)"
  by (auto simp: output_reasons_def Let_def filter_empty_conv split: step_bound.splits if_splits)

lemma output_check_decides: "fst (output_check ve c k) = None \<longleftrightarrow> output_holds c k"
proof (cases "assertion_lists (raw_assertions c k)")
  case (Inl e)
  then show ?thesis by (simp add: output_check_def output_holds_def Let_def)
next
  case (Inr ls)
  obtain r f e t where "ls = (r, f, e, t)" by (metis prod_cases4)
  with Inr show ?thesis
    by (cases "max_steps_of (raw_assertions c k)")
      (simp_all add: output_check_def output_holds_def Let_def no_reasons)
qed

lemma file_check_decides: "fst (file_check ve c k) = None \<longleftrightarrow> file_holds ve c k"
proof (cases "vc_path k")
  case (Some p)
  show ?thesis
  proof (cases "assert_in_workspace (ve_fs ve) p (vn_cwd c) (vn_extra_dirs c) False")
    case (Inr target)
    with Some show ?thesis
      by (cases "sf_read (ve_fs ve) target") (auto simp: file_check_def file_holds_def Let_def filter_empty_conv)
  qed (simp add: file_check_def file_holds_def Some)
qed (simp add: file_check_def file_holds_def)

lemma command_check_decides: "fst (command_check ve c k) = None \<longleftrightarrow> command_holds ve k"
proof (cases "vc_command k")
  case (Some cmd)
  then show ?thesis
    by (cases "ve_runner ve") (auto simp: command_check_def command_holds_def Let_def text_or_def filter_empty_conv)
qed (simp add: command_check_def command_holds_def text_or_def)

lemma ai_check_decides:
  assumes "ai_check ve c pol k = Inr out"
  shows "fst out = None \<longleftrightarrow> ai_holds ve c pol k"
proof (cases "\<exists>provider resolve adapter. vp_evaluator_provider pol = Some provider \<and> provider \<noteq> '''' \<and>
    vn_executor_provider c \<noteq> Some provider \<and> ve_resolver ve = Some resolve \<and> resolve provider = Some adapter \<and>
    ad_id adapter \<noteq> vn_executor_adapter c")
  case False
  with assms show ?thesis
    by (auto simp: ai_check_def ai_holds_def evaluator_configuration_failure_def split: option.splits if_splits)
next
  case True
  then obtain provider resolve adapter where p: "vp_evaluator_provider pol = Some provider" "provider \<noteq> ''''"
    "vn_executor_provider c \<noteq> Some provider" "ve_resolver ve = Some resolve" "resolve provider = Some adapter"
    "ad_id adapter \<noteq> vn_executor_adapter c" by blast
  then have p3: "Some provider \<noteq> vn_executor_provider c" by metis
  show ?thesis
  proof (cases "read_verdict ve (ad_stream adapter (vp_evaluator_model pol) (judge_prompt ve c))")
    case (Inl e)
    with assms p p3 show ?thesis by (auto simp: ai_check_def ai_holds_def)
  next
    case (Inr vc)
    obtain verdict core where "vc = (verdict, core)" by fastforce
    with Inr assms p p3 show ?thesis
      by (auto simp: ai_check_def ai_holds_def Let_def err_bind_eq_Inr split: if_splits)
  qed
qed

lemma run_check_decides:
  "run_check ve c pol k = Inr (f, ev) \<Longrightarrow> f = None \<longleftrightarrow> check_holds ve c pol k"
  using output_check_decides [of ve c k] file_check_decides [of ve c k] command_check_decides [of ve c k]
    ai_check_decides [of ve c pol k "(f, ev)"]
  by (auto simp: run_check_def check_holds_def split: check_kind.splits)

lemma run_checks_decides:
  "run_checks ve c pol i ks = Inr (fs, evs) \<Longrightarrow>
   fs = [] \<longleftrightarrow> (\<forall>j < length ks. \<not> vn_cancelled c (Suc (i + j)) \<and> check_holds ve c pol (ks ! j))"
proof (induction ks arbitrary: i fs evs)
  case (Cons k ks)
  show ?case
  proof (cases "vn_cancelled c (Suc i)")
    case True
    with Cons.prems show ?thesis by (auto intro!: exI [of _ 0])
  next
    case False
    with Cons.prems obtain f ev gs evs' where
      r: "run_check ve c pol k = Inr (f, ev)" "run_checks ve c pol (Suc i) ks = Inr (gs, evs')"
      "fs = (case f of None \<Rightarrow> [] | Some x \<Rightarrow> [x]) @ gs"
      by (auto simp: err_bind_eq_Inr)
    from r(3) have "fs = [] \<longleftrightarrow> f = None \<and> gs = []" by (cases f) auto
    with run_check_decides [OF r(1)] Cons.IH [OF r(2)] False show ?thesis
      by (auto simp: less_Suc_eq_0_disj)
  qed
qed simp

lemma evaluate_cases:
  assumes "evaluate ve fresh now c pol attempt = Inr d" "\<not> vn_cancelled c 0"
  obtains failures evidence where "run_checks ve c pol 0 (vp_validators pol) = Inr (failures, evidence)"
    "vd_failures d = failures" "vd_action d = decide_action pol attempt failures" "vd_attempt d = attempt"
    "vd_feedback_message d = (if vd_action d = VA_retry
       then Some (feedback_message_of fresh now (feedback_text ve c failures attempt VA_retry)) else None)"
  using assms by (auto simp: evaluate_def err_bind_eq_Inr Let_def decide_action_def split: if_splits)

text \<open>
  C30. A pass is earned: verification passes a candidate exactly when it was not cancelled on
  the way and the condition of every validator holds: required, forbidden and ordered content
  and tools and the step bound of an output check, the existence and content of a file inside
  the workspace, a governed command that succeeds with the required output, and the score of
  an evaluator that is neither the executing provider nor its adapter, without a hard safety
  violation.
\<close>

theorem verification_pass_iff:
  assumes "evaluate ve fresh now c pol attempt = Inr d"
  shows "vd_action d = VA_pass \<longleftrightarrow>
    (\<forall>i \<le> length (vp_validators pol). \<not> vn_cancelled c i) \<and> (\<forall>k \<in> set (vp_validators pol). check_holds ve c pol k)"
proof (cases "vn_cancelled c 0")
  case True
  with assms show ?thesis by (auto simp: evaluate_def intro!: exI [of _ 0])
next
  case False
  from evaluate_cases [OF assms False] obtain fs ev where
    r: "run_checks ve c pol 0 (vp_validators pol) = Inr (fs, ev)" "vd_action d = decide_action pol attempt fs" .
  have "vd_action d = VA_pass \<longleftrightarrow> fs = []" by (simp add: r(2) decide_action_def)
  also have "\<dots> \<longleftrightarrow> (\<forall>j < length (vp_validators pol). \<not> vn_cancelled c (Suc j) \<and> check_holds ve c pol (vp_validators pol ! j))"
    using run_checks_decides [OF r(1)] by simp
  also have "\<dots> \<longleftrightarrow> (\<forall>i \<le> length (vp_validators pol). \<not> vn_cancelled c i) \<and> (\<forall>k \<in> set (vp_validators pol). check_holds ve c pol k)"
  proof -
    have "(\<forall>j < n. \<not> vn_cancelled c (Suc j)) \<longleftrightarrow> (\<forall>i \<le> n. \<not> vn_cancelled c i)" for n
      using False by (metis Suc_le_eq not0_implies_Suc)
    then show ?thesis by (auto simp: all_set_conv_all_nth)
  qed
  finally show ?thesis .
qed

text \<open>
  C31. The decision table: a retry is asked for exactly when there are failures, all of them
  retryable, and the attempt is below the policy's maximum, and exactly then a user message
  carries the feedback; a failure that is not retryable never leads to a retry, and
  exhausted retries stop or hand over to a human as the policy says. So at most
  \<open>max_retries\<close> corrective attempts follow the first.
\<close>

theorem verification_decision_table:
  assumes "evaluate ve fresh now c pol attempt = Inr d"
  shows "(vd_action d = VA_retry \<longleftrightarrow> vd_failures d \<noteq> [] \<and> list_all vf_retryable (vd_failures d) \<and> attempt < vp_max_retries pol) \<and>
    (vd_feedback_message d \<noteq> None \<longleftrightarrow> vd_action d = VA_retry) \<and>
    (\<forall>m. vd_feedback_message d = Some m \<longrightarrow> m_role m = MR_user \<and> m_tool_calls m = None) \<and>
    (vd_failures d \<noteq> [] \<and> list_all vf_retryable (vd_failures d) \<and> vp_max_retries pol \<le> attempt \<longrightarrow>
       vd_action d = (if vp_on_exhausted pol = OE_failed then VA_stop else VA_require_human)) \<and>
    (\<not> list_all vf_retryable (vd_failures d) \<longrightarrow>
       vd_action d = (if vn_cancelled c 0 then VA_stop else VA_require_human))"
proof (cases "vn_cancelled c 0")
  case True
  with assms show ?thesis by (auto simp: evaluate_def cancelled_failure_def failure_def)
next
  case False
  from evaluate_cases [OF assms False] obtain fs ev where
    r: "vd_failures d = fs" "vd_action d = decide_action pol attempt fs"
    "vd_feedback_message d = (if vd_action d = VA_retry
       then Some (feedback_message_of fresh now (feedback_text ve c fs attempt VA_retry)) else None)" .
  have "list_ex (\<lambda>f. \<not> vf_retryable f) fs \<longleftrightarrow> \<not> list_all vf_retryable fs"
    by (simp add: list_ex_iff list_all_iff)
  with r False show ?thesis by (auto simp: decide_action_def feedback_message_of_def)
qed

text \<open>
  C32. A verdict whose scores pass but whose \<open>improvements\<close> is a non-zero number makes the
  evaluator check raise instead of failing closed, since the list of improvements is built
  outside the guarded block.
\<close>

theorem evaluator_improvements_crash:
  assumes "vp_evaluator_provider pol = Some provider" "provider \<noteq> ''''" "vn_executor_provider c \<noteq> Some provider"
    and "ve_resolver ve = Some resolve" "resolve provider = Some adapter" "ad_id adapter \<noteq> vn_executor_adapter c"
    and "read_verdict ve (ad_stream adapter (vp_evaluator_model pol) (judge_prompt ve c)) = Inr (verdict, core)"
    and "dict_get ''improvements'' (dict_items verdict) = VInt i" "i \<noteq> 0"
    and "vn_cancelled c = (\<lambda>_. False)" "vp_validators pol = [k]" "vc_kind k = VK_ai"
  shows "evaluate ve fresh now c pol attempt = Inl (TypeError (lit ''object is not iterable''))"
proof -
  from assms(3) have "Some provider \<noteq> vn_executor_provider c" by metis
  with assms have "ai_check ve c pol k = Inl (TypeError (lit ''object is not iterable''))"
    by (simp add: ai_check_def improvement_texts_def Let_def)
  with assms(10-12) show ?thesis by (simp add: evaluate_def run_check_def)
qed

section \<open>Concrete runs\<close>

definition demo_verdict :: pyval where
  "demo_verdict = (let s = VDict [(lit ''score'', VInt 1)] in
     VDict [(lit ''dimensions'', VDict [(lit ''task_completion'', s), (lit ''correctness'', s), (lit ''completeness'', s)]),
            (lit ''improvements'', VInt 5)])"

definition demo_verifier :: verifier where
  "demo_verifier = \<lparr>ve_redactor = demo_redactor, ve_json = compact_style (\<lambda>_. []) (\<lambda>_. []), ve_fs = demo_sandbox,
     ve_runner = None, ve_resolver = Some (\<lambda>_. Some \<lparr>ad_id = 1, ad_stream = (\<lambda>_ _. [])\<rparr>),
     ve_loads = (\<lambda>_. Inr demo_verdict), ve_no_get = (\<lambda>_. []), ve_str = (\<lambda>_. []), ve_repr = (\<lambda>_. []),
     ve_fmt3 = (\<lambda>_. []), ve_dump_failure = (\<lambda>_. VNone), ve_elapsed_ms = 1\<rparr>"

definition demo_candidate :: candidate where
  "demo_candidate = \<lparr>vn_goal = [65], vn_output = [65, 66], vn_cwd = lit ''/w'', vn_extra_dirs = [], vn_steps = 1,
     vn_tools_ordered = [], vn_tools_succeeded = [], vn_output_assertions = None, vn_executor_provider = None,
     vn_executor_adapter = 0, vn_cancelled = (\<lambda>_. False)\<rparr>"

definition demo_check :: "check_kind \<Rightarrow> utext \<Rightarrow> verification_check" where
  "demo_check kind needle = \<lparr>vc_kind = kind, vc_assertions = [(lit ''contains'', VList [VStr needle])], vc_path = None,
     vc_exists = True, vc_contains = [], vc_command = None, vc_min_score = 1 / 2\<rparr>"

definition demo_policy :: "verification_check list \<Rightarrow> verification_policy" where
  "demo_policy ks = \<lparr>vp_validators = ks, vp_max_retries = 2, vp_on_exhausted = OE_failed,
     vp_evaluator_provider = Some ''judge'', vp_evaluator_model = None\<rparr>"

lemma demo_output:
  "\<exists>d. evaluate demo_verifier ''m'' 0 demo_candidate (demo_policy [demo_check VK_output [67]]) 0 = Inr d \<and>
     vd_failures d \<noteq> [] \<and> list_all vf_retryable (vd_failures d)"
  by (simp add: evaluate_def demo_policy_def demo_check_def run_check_def output_check_def raw_assertions_def Let_def
      assertion_lists_def string_list_def max_steps_of_def output_reasons_def demo_candidate_def failure_def decide_action_def)

lemma demo_pass:
  "\<exists>d. evaluate demo_verifier ''m'' 0 demo_candidate (demo_policy [demo_check VK_output [66]]) 0 = Inr d \<and> vd_action d = VA_pass"
  by (simp add: evaluate_def demo_policy_def demo_check_def run_check_def output_check_def raw_assertions_def Let_def
      assertion_lists_def string_list_def max_steps_of_def output_reasons_def demo_candidate_def decide_action_def)

theorem verification_pass_iff_witness:
  "check_holds demo_verifier demo_candidate (demo_policy [demo_check VK_output [66]]) (demo_check VK_output [66])"
proof -
  obtain d where d: "evaluate demo_verifier ''m'' 0 demo_candidate (demo_policy [demo_check VK_output [66]]) 0 = Inr d"
    "vd_action d = VA_pass" using demo_pass by blast
  from verification_pass_iff [OF d(1)] d(2) show ?thesis by (simp add: demo_policy_def)
qed

theorem verification_decision_table_witness:
  "\<exists>d. evaluate demo_verifier ''m'' 0 demo_candidate (demo_policy [demo_check VK_output [67]]) 0 = Inr d \<and> vd_action d = VA_retry"
proof -
  obtain d where d: "evaluate demo_verifier ''m'' 0 demo_candidate (demo_policy [demo_check VK_output [67]]) 0 = Inr d"
    "vd_failures d \<noteq> [] \<and> list_all vf_retryable (vd_failures d)" using demo_output by blast
  have "0 < vp_max_retries (demo_policy [demo_check VK_output [67]])" by (simp add: demo_policy_def)
  with verification_decision_table [OF d(1)] d show ?thesis by blast
qed

theorem evaluator_improvements_crash_witness:
  "evaluate demo_verifier ''m'' 0 demo_candidate (demo_policy [demo_check VK_ai []]) 0 =
   Inl (TypeError (lit ''object is not iterable''))"
  by (rule evaluator_improvements_crash [where provider = "''judge''" and resolve = "\<lambda>_. Some \<lparr>ad_id = 1, ad_stream = (\<lambda>_ _. [])\<rparr>"
        and adapter = "\<lparr>ad_id = 1, ad_stream = (\<lambda>_ _. [])\<rparr>" and verdict = demo_verdict and core = 1 and i = 5
        and k = "demo_check VK_ai []"])
    (simp_all add: demo_policy_def demo_candidate_def demo_verifier_def demo_check_def demo_verdict_def read_verdict_def
      py_get_def dict_get_def dict_or_def dimension_score_def Let_def)

end
