(* ===== verification/Lease_Heartbeat.thy ===== *)
theory Lease_Heartbeat
  imports Storage_Leases
begin

text \<open>
  \<open>src/src/agentharness/engine/lease.py\<close>: the lease manager of a process. Times are in
  microseconds, as in the lease table; one beat of the loop is what the storage call did.
\<close>

record lease_manager =
  lm_owner :: string
  lm_ttl :: time
  lm_heartbeat :: time

text \<open>\<open>max(5.0, ttl_s)\<close> and \<open>max(0.5, min(heartbeat_s, ttl / 2))\<close>.\<close>

definition new_manager :: "string \<Rightarrow> time \<Rightarrow> time \<Rightarrow> lease_manager" where
  "new_manager owner ttl heartbeat =
     (let t = max 5000000 ttl
      in \<lparr>lm_owner = owner, lm_ttl = t, lm_heartbeat = max 500000 (min heartbeat (t div 2))\<rparr>)"

definition manager_acquire :: "lease_manager \<Rightarrow> time \<Rightarrow> string \<Rightarrow> db \<Rightarrow> py_error + db" where
  "manager_acquire lm now rid db =
     (case acquire_run_lease now rid (lm_owner lm) (lm_ttl lm) db of
        Inl e \<Rightarrow> Inl e
      | Inr (db', got) \<Rightarrow>
          if got then Inr db'
          else Inl (RuntimeError (lit ''run '' @ lit rid @ lit '' is leased by another active process'')))"

definition manager_release :: "lease_manager \<Rightarrow> string \<Rightarrow> db \<Rightarrow> db" where
  "manager_release lm rid db = release_run_lease rid (lm_owner lm) db"

text \<open>A beat renews, finds the lease gone, or the storage raises.\<close>

datatype beat = Renewed bool | StorageFailed

definition manager_beat :: "lease_manager \<Rightarrow> time \<Rightarrow> string \<Rightarrow> bool \<Rightarrow> db \<Rightarrow> db \<times> beat" where
  "manager_beat lm now rid fails db =
     (if fails then (db, StorageFailed)
      else let (db', ok) = heartbeat_run_lease now rid (lm_owner lm) (lm_ttl lm) db in (db', Renewed ok))"

definition max_heartbeat_failures :: nat where
  "max_heartbeat_failures = 3"

text \<open>
  The loop over the beats so far: the number of the beat that called \<open>on_lost\<close>, or \<open>None\<close>
  while the run goes on.
\<close>

fun heartbeat_loop :: "nat \<Rightarrow> nat \<Rightarrow> beat list \<Rightarrow> nat option" where
  "heartbeat_loop n failures [] = None"
| "heartbeat_loop n failures (StorageFailed # bs) =
     (if max_heartbeat_failures \<le> Suc failures then Some (Suc n) else heartbeat_loop (Suc n) (Suc failures) bs)"
| "heartbeat_loop n failures (Renewed ok # bs) =
     (if ok then heartbeat_loop (Suc n) 0 bs else Some (Suc n))"

text \<open>The number of the last beat that renewed (0 is the acquisition).\<close>

fun last_renewal :: "nat \<Rightarrow> nat \<Rightarrow> beat list \<Rightarrow> nat" where
  "last_renewal n best [] = best"
| "last_renewal n best (b # bs) = last_renewal (Suc n) (if b = Renewed True then Suc n else best) bs"

lemma loop_running:
  "heartbeat_loop n f bs = None \<Longrightarrow> n = best + f \<Longrightarrow> f < max_heartbeat_failures \<Longrightarrow>
   n + length bs < last_renewal n best bs + max_heartbeat_failures"
proof (induction n f bs arbitrary: best rule: heartbeat_loop.induct)
  case (2 n f bs)
  then show ?case by (auto simp: not_le split: if_splits)
next
  case (3 n f ok bs)
  then show ?case using "3.IH" [of "Suc n"] by (auto simp: max_heartbeat_failures_def split: if_splits)
qed simp

text \<open>
  The heartbeat gives a run back in time when three periods fit the lease: as long as the
  loop goes on, the next beat comes at most three periods after the last renewal, so the
  lease, which runs for \<open>ttl\<close> after that renewal, has not expired when the process next looks.
\<close>

theorem heartbeat_in_time:
  assumes "heartbeat_loop 0 0 bs = None" and "3 * lm_heartbeat lm < lm_ttl lm"
  shows "Suc (length bs) \<le> last_renewal 0 0 bs + 3 \<and>
    t0 + Suc (length bs) * lm_heartbeat lm < t0 + last_renewal 0 0 bs * lm_heartbeat lm + lm_ttl lm"
proof -
  have le: "Suc (length bs) \<le> last_renewal 0 0 bs + 3"
    using loop_running [OF assms(1), of 0] by (simp add: max_heartbeat_failures_def)
  then have "Suc (length bs) * lm_heartbeat lm \<le> (last_renewal 0 0 bs + 3) * lm_heartbeat lm"
    by (rule mult_le_mono1)
  with assms(2) le show ?thesis by (simp add: algebra_simps)
qed

theorem heartbeat_in_time_witness:
  "Suc (length [Renewed True, StorageFailed]) * lm_heartbeat (new_manager ''p'' 60000000 10000000) <
   1 * lm_heartbeat (new_manager ''p'' 60000000 10000000) + 60000000"
  using heartbeat_in_time [of "[Renewed True, StorageFailed]" "new_manager ''p'' 60000000 10000000" 0]
  by (simp add: max_heartbeat_failures_def new_manager_def Let_def)



end
