(* ===== verification/Run_Contracts.thy ===== *)
theory Run_Contracts
  imports Contracts Py_Text
begin

text \<open>
  The run-level models of \<open>src/src/agentharness/contracts.py\<close>: requests, prices, retry settings
  and the shell configuration with its image check, and the usage line of the status display.
  \<open>co_lower\<close>-style case mapping is a parameter.
\<close>

record retry_config =
  rt_max_retries :: nat
  rt_base_delay_s :: real
  rt_max_delay_s :: real
  rt_jitter_ratio :: real

definition default_retry :: retry_config where
  "default_retry = \<lparr>rt_max_retries = 3, rt_base_delay_s = 1 / 2, rt_max_delay_s = 8, rt_jitter_ratio = 1 / 4\<rparr>"

definition valid_retry :: "retry_config \<Rightarrow> bool" where
  "valid_retry c \<longleftrightarrow> rt_max_retries c \<le> 3 \<and> 0 \<le> rt_base_delay_s c \<and> rt_base_delay_s c \<le> 60 \<and>
     0 \<le> rt_max_delay_s c \<and> rt_max_delay_s c \<le> 120 \<and> 0 \<le> rt_jitter_ratio c \<and> rt_jitter_ratio c \<le> 1"

record pricing =
  pr_input :: "real option"
  pr_output :: "real option"
  pr_cached_input :: "real option"

definition pricing_known :: "pricing \<Rightarrow> bool" where
  "pricing_known p \<longleftrightarrow> pr_input p \<noteq> None \<and> pr_output p \<noteq> None"

definition valid_pricing :: "pricing \<Rightarrow> bool" where
  "valid_pricing p \<longleftrightarrow> list_all (\<lambda>x. case x of None \<Rightarrow> True | Some v \<Rightarrow> (0::real) \<le> v)
     [pr_input p, pr_output p, pr_cached_input p]"

datatype executor = EX_local | EX_docker

record shell_config =
  sh_executor :: executor
  sh_docker_image :: utext
  sh_docker_network :: bool
  sh_docker_cpus :: real
  sh_docker_memory_mb :: nat
  sh_docker_pids_limit :: nat

definition default_shell :: shell_config where
  "default_shell = \<lparr>sh_executor = EX_local, sh_docker_image = lit ''python:3.12.4-slim-bookworm'',
     sh_docker_network = False, sh_docker_cpus = 1, sh_docker_memory_mb = 512, sh_docker_pids_limit = 128\<rparr>"

text \<open>\<open>image.rsplit("/", 1)[-1]\<close>: what follows the last slash.\<close>

definition after_last_slash :: "utext \<Rightarrow> utext" where
  "after_last_slash t = rev (takeWhile (\<lambda>c. c \<noteq> 47) (rev t))"

definition text_ends_with :: "utext \<Rightarrow> utext \<Rightarrow> bool" where
  "text_ends_with suf t \<longleftrightarrow> length suf \<le> length t \<and> drop (length t - length suf) t = suf"

definition require_version_locked_docker_image :: "(utext \<Rightarrow> utext) \<Rightarrow> shell_config \<Rightarrow> py_error + shell_config" where
  "require_version_locked_docker_image lower s =
     (if sh_executor s \<noteq> EX_docker then Inr s
      else let image = strip (sh_docker_image s);
               leaf = after_last_slash image;
               digest = text_in (lit ''@sha256:'') image;
               tag = (58 \<in> set leaf \<and> \<not> text_ends_with (lit '':latest'') (lower leaf))
           in if image = [] \<or> (\<not> digest \<and> \<not> tag)
              then Inl (ValueError (lit ''docker_image must use a version tag or sha256 digest''))
              else Inr s)"

record run_request =
  rq_message :: utext
  rq_session_id :: "string option"
  rq_system :: "utext option"
  rq_model :: "string option"
  rq_reasoning_effort :: "string option"
  rq_provider :: string
  rq_approval :: approval_mode
  rq_budget :: budget_config
  rq_retry :: retry_config
  rq_pricing :: pricing
  rq_shell :: shell_config
  rq_cwd :: "utext option"
  rq_extra_dirs :: "utext list"
  rq_skills_dirs :: "utext list"
  rq_metadata :: pydict
  rq_verification :: "verification_policy option"
  rq_parent_run_id :: "string option"
  rq_root_run_id :: "string option"
  rq_delegate_depth :: int
  rq_allow_write :: bool
  rq_tools :: "string list option"

record run_result =
  rr_run_id :: string
  rr_session_id :: string
  rr_status :: run_status
  rr_output :: utext
  rr_error :: "utext option"
  rr_usage :: usage
  rr_steps :: int
  rr_parent_run_id :: "string option"
  rr_root_run_id :: "string option"
  rr_finished_at :: "time option"

definition format_usage_brief :: "usage option \<Rightarrow> int option \<Rightarrow> utext" where
  "format_usage_brief u budget_max =
     (case u of
        None \<Rightarrow> []
      | Some u \<Rightarrow>
          if u_input_tokens u = 0 \<and> u_output_tokens u = 0 \<and> u_last_input_tokens u = 0 \<and> u_last_local_estimate u = 0
          then []
          else join (lit ''  '')
            ([lit ''tokens='' @ str_int (u_input_tokens u) @ lit ''/'' @ str_int (u_output_tokens u)] @
             (if 0 < u_model_turns u \<or> u_last_input_tokens u \<noteq> 0 \<or> u_last_output_tokens u \<noteq> 0
              then [lit ''last='' @ str_int (u_last_input_tokens u) @ lit ''/'' @ str_int (u_last_output_tokens u)] else []) @
             (if u_last_local_estimate u \<noteq> 0
              then [lit ''est'' @ [8776] @ str_int (u_last_local_estimate u)] else []) @
             (if u_model_turns u \<noteq> 0 then [lit ''turns='' @ str_int (u_model_turns u)] else []) @
             (case budget_max of None \<Rightarrow> [] | Some b \<Rightarrow>
                if 0 < b then [lit ''budget='' @ str_int (u_total_tokens u) @ lit ''/'' @ str_int b] else []) @
             (if u_estimated u \<and> u_input_tokens u = 0 then [lit ''estimated'']
              else if u_estimated u then [lit ''est-fallback''] else [])))"

lemma docker_image_pinned:
  assumes "require_version_locked_docker_image lower s = Inr s'" "sh_executor s = EX_docker"
  shows "s' = s \<and> (text_in (lit ''@sha256:'') (strip (sh_docker_image s)) \<or>
     58 \<in> set (after_last_slash (strip (sh_docker_image s))) \<and>
     \<not> text_ends_with (lit '':latest'') (lower (after_last_slash (strip (sh_docker_image s)))))"
  using assms by (auto simp: require_version_locked_docker_image_def Let_def split: if_splits)

end
