(* ===== verification/Engine_World.thy ===== *)
theory Engine_World
  imports Storage_Tools Storage_Misc Storage_Runs Tool_Results Run_Contracts
begin

text \<open>
  The world the engine runs in: the store, the artifact files and the registry of run
  contexts (\<open>src/src/agentharness/engine/run_state.py\<close>), threaded through operations that may
  raise. Everything outside (clocks, fresh ids, the cancel event, tools, people, crashes) is
  an oracle read at the next tick. Also the event emitter (\<open>engine/events.py\<close>).
\<close>

section \<open>Operations\<close>

type_synonym ('s, 'a) op = "'s \<Rightarrow> (py_error + 'a) \<times> 's"

definition ret :: "'a \<Rightarrow> ('s, 'a) op" where
  "ret a = (\<lambda>s. (Inr a, s))"

definition raise :: "py_error \<Rightarrow> ('s, 'a) op" where
  "raise e = (\<lambda>s. (Inl e, s))"

definition bind :: "('s, 'a) op \<Rightarrow> ('a \<Rightarrow> ('s, 'b) op) \<Rightarrow> ('s, 'b) op" where
  "bind m f = (\<lambda>s. case m s of (Inl e, s') \<Rightarrow> (Inl e, s') | (Inr a, s') \<Rightarrow> f a s')"

definition andthen :: "('s, 'a) op \<Rightarrow> ('s, 'b) op \<Rightarrow> ('s, 'b) op" where
  "andthen m n = bind m (\<lambda>_. n)"

definition get_with :: "('s \<Rightarrow> 'a) \<Rightarrow> ('s, 'a) op" where
  "get_with f = (\<lambda>s. (Inr (f s), s))"

definition modify :: "('s \<Rightarrow> 's) \<Rightarrow> ('s, unit) op" where
  "modify f = (\<lambda>s. (Inr (), f s))"

definition when_op :: "bool \<Rightarrow> ('s, unit) op \<Rightarrow> ('s, unit) op" where
  "when_op b m = (if b then m else ret ())"

text \<open>
  \<open>keeps I m\<close>: whatever the outcome, \<open>m\<close> preserves \<open>I\<close>; its rules follow the combinators.
\<close>

named_theorems keeps_intros "rules that decompose keeps along the combinators"

definition keeps :: "('s \<Rightarrow> bool) \<Rightarrow> ('s, 'a) op \<Rightarrow> bool" where
  "keeps I m \<longleftrightarrow> (\<forall>s. I s \<longrightarrow> I (snd (m s)))"

lemma keepsD: "keeps I m \<Longrightarrow> I s \<Longrightarrow> m s = (r, s') \<Longrightarrow> I s'"
  by (metis keeps_def snd_conv)

lemma keeps_ret [keeps_intros]: "keeps I (ret a)"
  by (simp add: keeps_def ret_def)

lemma keeps_raise [keeps_intros]: "keeps I (raise e)"
  by (simp add: keeps_def raise_def)

lemma keeps_get [keeps_intros]: "keeps I (get_with f)"
  by (simp add: keeps_def get_with_def)

lemma keeps_bind [keeps_intros]: "keeps I m \<Longrightarrow> (\<And>a. keeps I (f a)) \<Longrightarrow> keeps I (bind m f)"
  by (auto simp: keeps_def bind_def split: prod.splits sum.splits)

lemma keeps_andthen [keeps_intros]: "keeps I m \<Longrightarrow> keeps I n \<Longrightarrow> keeps I (andthen m n)"
  by (simp add: andthen_def keeps_intros)

lemma keeps_when [keeps_intros]: "(b \<Longrightarrow> keeps I m) \<Longrightarrow> keeps I (when_op b m)"
  by (simp add: when_op_def keeps_intros)

lemma keeps_if [keeps_intros]: "(b \<Longrightarrow> keeps I m) \<Longrightarrow> (\<not> b \<Longrightarrow> keeps I n) \<Longrightarrow> keeps I (if b then m else n)"
  by simp

lemma bind_Inr: "bind m f s = (Inr b, s'') \<longleftrightarrow> (\<exists>a s'. m s = (Inr a, s') \<and> f a s' = (Inr b, s''))"
  by (auto simp: bind_def split: prod.splits sum.splits)

lemma bind_ret [simp]: "bind (ret a) f = f a" "bind m ret = m"
  by (auto simp: bind_def ret_def fun_eq_iff split: prod.splits sum.splits)

lemma bind_assoc: "bind (bind m f) g = bind m (\<lambda>a. bind (f a) g)"
  by (auto simp: bind_def fun_eq_iff split: prod.splits sum.splits)

section \<open>Per-run state\<close>

text \<open>
  \<open>RunContext\<close>. The task handles are asyncio's; sets of ids are lists without repetition
  where the code later lists them.
\<close>

record run_context =
  rc_approval_scopes :: "utext set"
  rc_child_runs :: "string list"
  rc_delta_buf :: "utext list"
  rc_delta_buf_size :: nat
  rc_delta_last_flush :: real
  rc_completed :: "string list"
  rc_pending :: "tool_call list"
  rc_stop_mode :: "string option"
  rc_messages :: "message list"
  rc_context_state :: "context_state option"
  rc_verification_attempt :: nat
  rc_tool_call_count :: nat
  rc_indeterminate_reason :: "utext option"

definition new_context :: run_context where
  "new_context = \<lparr>rc_approval_scopes = {}, rc_child_runs = [], rc_delta_buf = [], rc_delta_buf_size = 0,
     rc_delta_last_flush = 0, rc_completed = [], rc_pending = [], rc_stop_mode = None, rc_messages = [],
     rc_context_state = None, rc_verification_attempt = 0, rc_tool_call_count = 0, rc_indeterminate_reason = None\<rparr>"

text \<open>\<open>w_calls\<close> records each start of a tool handler: the invocation and the attempt.\<close>

record world =
  w_db :: db
  w_files :: file_map
  w_runs :: "string \<rightharpoonup> run_context"
  w_tick :: nat
  w_calls :: "(string \<times> nat) list"

datatype approval_answer = AnswerDecision approval_decision | AnswerRaised | CancelledWaiting

datatype run_outcome = Returned tool_result | TimedOut | TaskCancelled | RaisedExc utext

datatype reconcile_outcome = Reconciled tool_result | NotAResult | ReconcileTimeout | ReconcileRaised utext

record engine_env =
  en_redactor :: redactor
  en_json :: json_style
  en_codec :: codec
  en_hash :: "nat list \<Rightarrow> string"
  en_path :: "string \<Rightarrow> string"
  en_str :: "pyval \<Rightarrow> utext"
  en_fmt_g :: "real \<Rightarrow> utext"
  en_dump_call :: "tool_call \<Rightarrow> pyval"
  en_dump_result :: "tool_result \<Rightarrow> pyval"
  en_load_result :: "pyval \<Rightarrow> py_error + tool_result"
  en_load_messages :: "string \<Rightarrow> db \<Rightarrow> message list option"
  en_dump_checkpoint :: "checkpoint \<Rightarrow> pyval"
  en_load_checkpoint :: "string \<Rightarrow> db \<Rightarrow> py_error + checkpoint option"
  en_dump_state :: "context_state \<Rightarrow> pyval"
  en_dump_usage :: "usage \<Rightarrow> pyval"
  en_validate :: "tool_spec \<Rightarrow> pydict \<Rightarrow> utext list"
  en_id :: "nat \<Rightarrow> string"
  en_clock :: "nat \<Rightarrow> time"
  en_mono :: "nat \<Rightarrow> real"
  en_jitter :: "nat \<Rightarrow> real"
  en_cancelled :: "nat \<Rightarrow> bool"
  en_crash :: "nat \<Rightarrow> bool"
  en_order :: "nat list list \<Rightarrow> nat list"
  en_approve :: "(approval_dict \<Rightarrow> nat \<Rightarrow> approval_answer) option"
  en_run :: "string \<Rightarrow> pydict \<Rightarrow> nat \<Rightarrow> run_outcome"
  en_reconcile :: "string \<Rightarrow> pydict \<Rightarrow> nat \<Rightarrow> reconcile_outcome"

type_synonym 'a wop = "(world, 'a) op"

definition tick :: "nat wop" where
  "tick = (\<lambda>w. (Inr (w_tick w), w\<lparr>w_tick := Suc (w_tick w)\<rparr>))"

definition read_clock :: "engine_env \<Rightarrow> time wop" where
  "read_clock env = bind tick (\<lambda>n. ret (en_clock env n))"

definition read_mono :: "engine_env \<Rightarrow> real wop" where
  "read_mono env = bind tick (\<lambda>n. ret (en_mono env n))"

definition new_id :: "engine_env \<Rightarrow> string wop" where
  "new_id env = bind tick (\<lambda>n. ret (en_id env n))"

definition is_cancelled :: "engine_env \<Rightarrow> bool wop" where
  "is_cancelled env = bind tick (\<lambda>n. ret (en_cancelled env n))"

text \<open>
  One storage transaction. At a tick where \<open>en_crash\<close> holds the process dies before it, which
  no handler of the engine catches.
\<close>

definition crashed :: py_error where
  "crashed = RuntimeError (lit ''process lost'')"

definition storage :: "engine_env \<Rightarrow> (db \<Rightarrow> py_error + 'a \<times> db) \<Rightarrow> 'a wop" where
  "storage env f = (\<lambda>w.
     let w' = w\<lparr>w_tick := Suc (w_tick w)\<rparr>
     in if en_crash env (w_tick w) then (Inl crashed, w')
        else case f (w_db w) of
            Inl e \<Rightarrow> (Inl e, w')
          | Inr (a, db) \<Rightarrow> (Inr a, w'\<lparr>w_db := db\<rparr>))"

definition write_db :: "engine_env \<Rightarrow> (db \<Rightarrow> py_error + db) \<Rightarrow> unit wop" where
  "write_db env f = storage env (\<lambda>db. map_sum id (\<lambda>db'. ((), db')) (f db))"

definition query :: "engine_env \<Rightarrow> (db \<Rightarrow> py_error + 'a) \<Rightarrow> 'a wop" where
  "query env f = storage env (\<lambda>db. map_sum id (\<lambda>a. (a, db)) (f db))"

definition context_of :: "string \<Rightarrow> world \<Rightarrow> run_context" where
  "context_of rid w = (case w_runs w rid of None \<Rightarrow> new_context | Some c \<Rightarrow> c)"

text \<open>\<open>ensure_ctx(runs, run_id)\<close> followed by an assignment to the context.\<close>

definition ensure_ctx :: "string \<Rightarrow> run_context wop" where
  "ensure_ctx rid = (\<lambda>w. (Inr (context_of rid w), w\<lparr>w_runs := (w_runs w)(rid \<mapsto> context_of rid w)\<rparr>))"

definition set_ctx :: "string \<Rightarrow> (run_context \<Rightarrow> run_context) \<Rightarrow> unit wop" where
  "set_ctx rid f = modify (\<lambda>w. w\<lparr>w_runs := (w_runs w)(rid \<mapsto> f (context_of rid w))\<rparr>)"

section \<open>Events\<close>

definition make_event ::
  "engine_env \<Rightarrow> run_view \<Rightarrow> event_type \<Rightarrow> pydict \<Rightarrow> string option \<Rightarrow> event_envelope wop" where
  "make_event env run ty payload sp =
     bind (new_id env) (\<lambda>eid. bind (read_clock env) (\<lambda>now. ret
       \<lparr>ev_schema_version = 1, ev_event_id = eid, ev_global_seq = 0, ev_run_seq = 0,
        ev_session_id = rn_session_id (rv_row run), ev_root_run_id = rn_root_run_id (rv_row run),
        ev_run_id = rn_id (rv_row run), ev_parent_run_id = rn_parent_run_id (rv_row run),
        ev_span_id = sp, ev_parent_span_id = None, ev_type = ty, ev_timestamp = now, ev_payload = payload\<rparr>))"

fun make_events ::
  "engine_env \<Rightarrow> run_view \<Rightarrow> string option \<Rightarrow> (event_type \<times> pydict) list \<Rightarrow> event_envelope list wop" where
  "make_events env run sp [] = ret []"
| "make_events env run sp ((ty, payload) # rest) =
     bind (make_event env run ty payload sp) (\<lambda>e. bind (make_events env run sp rest) (\<lambda>es. ret (e # es)))"

text \<open>The assigned events go to live observers; what these do is outside.\<close>

definition emit_and_update ::
  "engine_env \<Rightarrow> string \<Rightarrow> run_update \<Rightarrow> event_envelope list \<Rightarrow> event_envelope list wop" where
  "emit_and_update env rid u events =
     bind (read_clock env) (\<lambda>now.
       storage env (\<lambda>db. map_sum id (\<lambda>(db', es). (es, db')) (update_run (en_redactor env) now rid u events db)))"

definition emit ::
  "engine_env \<Rightarrow> run_view \<Rightarrow> string option \<Rightarrow> (event_type \<times> pydict) list \<Rightarrow> unit wop" where
  "emit env run sp evs =
     bind (make_events env run sp evs) (\<lambda>es.
       bind (emit_and_update env (rn_id (rv_row run)) no_update es) (\<lambda>_. ret ()))"

subsection \<open>The text-delta buffer\<close>

definition push_delta :: "utext \<Rightarrow> run_context \<Rightarrow> run_context" where
  "push_delta t c = c\<lparr>rc_delta_buf := rc_delta_buf c @ [t], rc_delta_buf_size := rc_delta_buf_size c + length t\<rparr>"

definition flush_due :: "real \<Rightarrow> run_context \<Rightarrow> bool" where
  "flush_due now c \<longleftrightarrow> 256 \<le> rc_delta_buf_size c \<or> 15 / 100 \<le> now - rc_delta_last_flush c"

definition clear_delta :: "real \<Rightarrow> run_context \<Rightarrow> run_context" where
  "clear_delta now c = c\<lparr>rc_delta_buf := [], rc_delta_buf_size := 0, rc_delta_last_flush := now\<rparr>"

definition flush_delta :: "engine_env \<Rightarrow> string \<Rightarrow> run_view \<Rightarrow> string option \<Rightarrow> unit wop" where
  "flush_delta env rid run sp =
     bind (get_with (\<lambda>w. w_runs w rid)) (\<lambda>co.
       case co of
         None \<Rightarrow> ret ()
       | Some c \<Rightarrow>
           if rc_delta_buf c = [] then ret ()
           else bind (read_mono env) (\<lambda>now.
             andthen (set_ctx rid (clear_delta now))
               (emit env run sp [(ET_text_delta,
                  [(lit ''text'', VStr (redact_text (en_redactor env) (concat (rc_delta_buf c))))])])))"

definition buffer_delta :: "engine_env \<Rightarrow> string \<Rightarrow> run_view \<Rightarrow> utext \<Rightarrow> string option \<Rightarrow> unit wop" where
  "buffer_delta env rid run t sp =
     andthen (set_ctx rid (push_delta t))
       (bind (read_mono env) (\<lambda>now. bind (ensure_ctx rid) (\<lambda>c.
         when_op (flush_due now c) (flush_delta env rid run sp))))"

section \<open>A concrete environment\<close>

definition demo_env :: engine_env where
  "demo_env = \<lparr>en_redactor = demo_redactor, en_json = compact_style (\<lambda>_. []) (\<lambda>_. []), en_codec = demo_codec,
     en_hash = (\<lambda>_. ''h''), en_path = (\<lambda>h. h), en_str = (\<lambda>_. []), en_fmt_g = (\<lambda>_. []), en_dump_call = (\<lambda>_. VNone),
     en_dump_result = (\<lambda>_. VNone), en_load_result = (\<lambda>_. Inr (new_tool_result [] [] [])), en_load_messages = (\<lambda>_ _. Some []),
     en_dump_checkpoint = (\<lambda>_. VNone), en_load_checkpoint = (\<lambda>_ _. Inr None), en_dump_state = (\<lambda>_. VNone),
     en_dump_usage = (\<lambda>_. VNone), en_validate = (\<lambda>_ _. []), en_id = (\<lambda>n. replicate n (CHR ''i'')), en_clock = (\<lambda>n. n),
     en_mono = real, en_jitter = (\<lambda>_. 1), en_cancelled = (\<lambda>_. False), en_crash = (\<lambda>_. False), en_order = concat, en_approve = None,
     en_run = (\<lambda>_ _ _. Returned (new_tool_result ''c'' ''t'' [65])), en_reconcile = (\<lambda>_ _ _. NotAResult)\<rparr>"

definition demo_world :: world where
  "demo_world = \<lparr>w_db = demo_db, w_files = Map.empty, w_runs = Map.empty, w_tick = 0, w_calls = []\<rparr>"

end
