(* ===== verification/Run_Lifecycle.thy ===== *)
theory Run_Lifecycle
  imports Engine_World
begin

text \<open>
  \<open>src/src/agentharness/engine/lifecycle.py\<close>: checkpoints and terminal states of a run. The
  checkpoint each operation stores is computed by a definition of its own
  (\<open>preserved_checkpoint\<close>, \<open>next_checkpoint\<close>), so that what it keeps can be stated.
\<close>

definition resumable :: "run_status \<Rightarrow> bool" where
  "resumable s \<longleftrightarrow> s \<in> {RS_interrupted, RS_cancelled, RS_waiting_approval, RS_require_human}"

text \<open>\<open>completed |= other\<close> on the listed ids.\<close>

definition union_ids :: "string list \<Rightarrow> string list \<Rightarrow> string list" where
  "union_ids xs ys = xs @ filter (\<lambda>y. y \<notin> set xs) (remdups ys)"

lemma set_union_ids [simp]: "set (union_ids xs ys) = set xs \<union> set ys"
  by (auto simp: union_ids_def)

definition not_completed :: "string list \<Rightarrow> tool_call list \<Rightarrow> tool_call list" where
  "not_completed completed tcs = filter (\<lambda>tc. \<not> tool_call_completed tc (set completed)) tcs"

text \<open>\<open>max(candidates, key=len)\<close>: the first of the longest.\<close>

fun longest :: "'a list \<Rightarrow> 'a list list \<Rightarrow> 'a list" where
  "longest best [] = best"
| "longest best (c # cs) = longest (if length best < length c then c else best) cs"

definition best_messages :: "message list \<Rightarrow> checkpoint option \<Rightarrow> message list \<Rightarrow> message list" where
  "best_messages mem cp stored =
     longest [] (filter (\<lambda>c. c \<noteq> []) [mem, case cp of None \<Rightarrow> [] | Some c \<Rightarrow> ck_messages c, stored])"

definition checkpoint_messages :: "engine_env \<Rightarrow> string \<Rightarrow> message list wop" where
  "checkpoint_messages env rid =
     bind (get_with (\<lambda>w. case w_runs w rid of None \<Rightarrow> [] | Some c \<Rightarrow> rc_messages c)) (\<lambda>mem.
     bind (query env (en_load_checkpoint env rid)) (\<lambda>cp.
     bind (query env (\<lambda>db. case en_load_messages env rid db of
                              Some ms \<Rightarrow> Inr ms | None \<Rightarrow> Inl (ValueError (lit ''ValidationError'')))) (\<lambda>stored.
     ret (best_messages mem cp stored))))"

definition checkpoint_metadata :: "engine_env \<Rightarrow> checkpoint option \<Rightarrow> run_context \<Rightarrow> pydict" where
  "checkpoint_metadata env cp c =
     (let d = (case cp of None \<Rightarrow> [] | Some x \<Rightarrow> ck_metadata x);
          d' = (case rc_context_state c of None \<Rightarrow> d
                | Some s \<Rightarrow> dict_set (lit ''context_state'') (en_dump_state env s) d)
      in dict_set (lit ''verification_attempt'') (VInt (int (rc_verification_attempt c))) d')"

definition preserved_checkpoint ::
  "engine_env \<Rightarrow> string \<Rightarrow> run_status \<Rightarrow> checkpoint_phase \<Rightarrow> checkpoint option \<Rightarrow> run_context \<Rightarrow> message list \<Rightarrow>
   time \<Rightarrow> checkpoint" where
  "preserved_checkpoint env rid status phase cp c ms now =
     (let completed = (case cp of None \<Rightarrow> rc_completed c | Some x \<Rightarrow> union_ids (rc_completed c) (ck_completed_tool_call_ids x));
          pending = (if rc_pending c \<noteq> [] then rc_pending c
                     else case cp of None \<Rightarrow> [] | Some x \<Rightarrow> not_completed completed (ck_pending_tool_calls x))
      in \<lparr>ck_run_id = rid, ck_phase = phase, ck_step = (case cp of None \<Rightarrow> 0 | Some x \<Rightarrow> ck_step x), ck_messages = ms,
          ck_pending_tool_calls = pending, ck_completed_tool_call_ids = completed, ck_partial_text = [],
          ck_usage = (case cp of None \<Rightarrow> default_usage | Some x \<Rightarrow> ck_usage x), ck_status = status,
          ck_approval_token = None, ck_metadata = checkpoint_metadata env cp c, ck_created_at = now\<rparr>)"

definition store_checkpoint :: "engine_env \<Rightarrow> checkpoint \<Rightarrow> unit wop" where
  "store_checkpoint env c =
     bind (read_clock env) (\<lambda>now. write_db env (save_checkpoint (en_redactor env) (en_dump_checkpoint env) now c))"

definition preserve_checkpoint :: "engine_env \<Rightarrow> string \<Rightarrow> run_status \<Rightarrow> checkpoint_phase \<Rightarrow> unit wop" where
  "preserve_checkpoint env rid status phase =
     bind (query env (en_load_checkpoint env rid)) (\<lambda>cp.
     bind (ensure_ctx rid) (\<lambda>c.
     bind (checkpoint_messages env rid) (\<lambda>ms.
     bind (read_clock env) (\<lambda>now.
     let ck = preserved_checkpoint env rid status phase cp c ms now in
     andthen (store_checkpoint env ck)
       (set_ctx rid (\<lambda>x. x\<lparr>rc_completed := ck_completed_tool_call_ids ck\<rparr>))))))"

fun phase_value :: "checkpoint_phase \<Rightarrow> string" where
  "phase_value CP_model_turn = ''model_turn''"
| "phase_value CP_tool_batch = ''tool_batch''"
| "phase_value CP_waiting_approval = ''waiting_approval''"
| "phase_value CP_terminal = ''terminal''"

definition next_checkpoint ::
  "engine_env \<Rightarrow> string \<Rightarrow> checkpoint_phase \<Rightarrow> nat \<Rightarrow> message list \<Rightarrow> tool_call list \<Rightarrow> string list \<Rightarrow> usage \<Rightarrow>
   run_status \<Rightarrow> string option \<Rightarrow> checkpoint option \<Rightarrow> run_context \<Rightarrow> time \<Rightarrow> checkpoint" where
  "next_checkpoint env rid phase step ms pending completed u status token cp c now =
     \<lparr>ck_run_id = rid, ck_phase = phase, ck_step = step, ck_messages = ms, ck_pending_tool_calls = pending,
      ck_completed_tool_call_ids = completed, ck_partial_text = [], ck_usage = u, ck_status = status,
      ck_approval_token = token, ck_metadata = checkpoint_metadata env cp c, ck_created_at = now\<rparr>"

definition write_checkpoint ::
  "engine_env \<Rightarrow> string \<Rightarrow> checkpoint_phase \<Rightarrow> nat \<Rightarrow> message list \<Rightarrow> tool_call list \<Rightarrow> string list \<Rightarrow> usage \<Rightarrow>
   run_status \<Rightarrow> string option \<Rightarrow> unit wop" where
  "write_checkpoint env rid phase step ms pending completed u status token =
     bind (query env (en_load_checkpoint env rid)) (\<lambda>cp.
     bind (ensure_ctx rid) (\<lambda>c.
     bind (read_clock env) (\<lambda>now.
     bind (store_checkpoint env (next_checkpoint env rid phase step ms pending completed u status token cp c now)) (\<lambda>_.
     bind (query env (\<lambda>db. Inr (get_run rid db))) (\<lambda>run.
     case run of
       None \<Rightarrow> ret ()
     | Some r \<Rightarrow> emit env r None [(ET_checkpoint,
         [(lit ''phase'', VStr (lit (phase_value phase))), (lit ''step'', VInt (int step))])])))))"

section \<open>Terminal states\<close>

definition finish_event :: "run_status \<Rightarrow> event_type" where
  "finish_event s = (case s of RS_completed \<Rightarrow> ET_run_completed | RS_failed \<Rightarrow> ET_run_failed
     | RS_cancelled \<Rightarrow> ET_run_cancelled | RS_interrupted \<Rightarrow> ET_run_interrupted | _ \<Rightarrow> ET_run_status)"

text \<open>What \<open>finish\<close> hands to \<open>checkpoint\<close>: the completed ids and the pending calls.\<close>

definition finish_completed :: "run_context option \<Rightarrow> checkpoint option \<Rightarrow> string list" where
  "finish_completed ctx cp =
     union_ids (case ctx of None \<Rightarrow> [] | Some c \<Rightarrow> rc_completed c)
       (case cp of None \<Rightarrow> [] | Some x \<Rightarrow> ck_completed_tool_call_ids x)"

definition finish_pending :: "run_status \<Rightarrow> run_context option \<Rightarrow> checkpoint option \<Rightarrow> tool_call list" where
  "finish_pending status ctx cp =
     (if resumable status
      then let mem = (case ctx of None \<Rightarrow> [] | Some c \<Rightarrow> rc_pending c);
               old = (case cp of None \<Rightarrow> [] | Some x \<Rightarrow> ck_pending_tool_calls x)
           in not_completed (finish_completed ctx cp) (if mem \<noteq> [] then mem else old)
      else [])"

definition finish_messages :: "message list option \<Rightarrow> message list \<Rightarrow> message list" where
  "finish_messages given best =
     (case given of None \<Rightarrow> best | Some ms \<Rightarrow> if length best \<le> length ms then ms else best)"

definition opt_text_val :: "utext option \<Rightarrow> pyval" where
  "opt_text_val t = (case t of None \<Rightarrow> VNone | Some x \<Rightarrow> VStr x)"

definition finish_stored ::
  "engine_env \<Rightarrow> string \<Rightarrow> run_view \<Rightarrow> run_status \<Rightarrow> utext \<Rightarrow> usage \<Rightarrow> nat \<Rightarrow> utext option \<Rightarrow> message list option \<Rightarrow> unit wop" where
  "finish_stored env rid run status out u steps err ms =
     bind (get_with (\<lambda>w. w_runs w rid)) (\<lambda>ctx.
     bind (query env (en_load_checkpoint env rid)) (\<lambda>cp.
     bind (case ms of None \<Rightarrow> ret () | Some l \<Rightarrow> set_ctx rid (\<lambda>x. x\<lparr>rc_messages := l\<rparr>)) (\<lambda>_.
     bind (checkpoint_messages env rid) (\<lambda>best.
     bind (write_checkpoint env rid (if status = RS_completed then CP_terminal else CP_tool_batch) steps
             (finish_messages ms best) (finish_pending status ctx cp) (finish_completed ctx cp) u status None) (\<lambda>_.
     bind (make_event env run (finish_event status)
             [(lit ''status'', VStr (lit (run_status_value status))), (lit ''error'', opt_text_val err),
              (lit ''output_len'', VInt (int (length out))), (lit ''usage'', en_dump_usage env u)] None) (\<lambda>ev.
     bind (emit_and_update env rid (no_update\<lparr>ru_status := Some status, ru_finished := True, ru_error := err,
             ru_output_summary := Some (take 2000 out), ru_usage := Some u, ru_steps := Some (int steps)\<rparr>) [ev]) (\<lambda>_.
     write_db env (\<lambda>db. Inr (clear_stop_request rid db)))))))))"

definition finish ::
  "engine_env \<Rightarrow> string \<Rightarrow> string \<Rightarrow> string \<Rightarrow> string option \<Rightarrow> run_status \<Rightarrow> utext \<Rightarrow> usage \<Rightarrow> nat \<Rightarrow> utext option \<Rightarrow>
   message list option \<Rightarrow> run_result wop" where
  "finish env rid sid root_id parent status out u steps err ms =
     bind (query env (\<lambda>db. Inr (get_run rid db))) (\<lambda>run.
     bind (case run of None \<Rightarrow> ret () | Some r \<Rightarrow> finish_stored env rid r status out u steps err ms) (\<lambda>_.
     bind (read_clock env) (\<lambda>now. ret
       \<lparr>rr_run_id = rid, rr_session_id = sid, rr_status = status, rr_output = redact_text (en_redactor env) out,
        rr_error = err, rr_usage = u, rr_steps = int steps, rr_parent_run_id = parent,
        rr_root_run_id = Some root_id, rr_finished_at = Some now\<rparr>)))"

definition mark_run :: "engine_env \<Rightarrow> run_status \<Rightarrow> event_type \<Rightarrow> string \<Rightarrow> string \<Rightarrow> utext \<Rightarrow> unit wop" where
  "mark_run env status ty key rid reason =
     bind (query env (\<lambda>db. Inr (get_run rid db))) (\<lambda>run.
     case run of
       None \<Rightarrow> ret ()
     | Some r \<Rightarrow>
         bind (make_event env r ty [(lit key, VStr reason)] None) (\<lambda>ev.
         bind (emit_and_update env rid (no_update\<lparr>ru_status := Some status, ru_finished := True, ru_error := Some reason\<rparr>) [ev]) (\<lambda>_.
         write_db env (\<lambda>db. Inr (clear_stop_request rid db)))))"

definition mark_interrupted :: "engine_env \<Rightarrow> string \<Rightarrow> utext \<Rightarrow> unit wop" where
  "mark_interrupted env = mark_run env RS_interrupted ET_run_interrupted ''reason''"

definition mark_failed :: "engine_env \<Rightarrow> string \<Rightarrow> utext \<Rightarrow> unit wop" where
  "mark_failed env = mark_run env RS_failed ET_run_failed ''error''"

end
