(* ===== verification/Run_Progress.thy ===== *)
theory Run_Progress
  imports Run_Lifecycle
begin

text \<open>
  What the engine's bookkeeping guarantees: a finished run keeps the progress that a resume
  needs, and the delta buffer emits the streamed text without loss (but redacts it piecewise).
\<close>

section \<open>Inversion of the operations\<close>

lemma query_Inr:
  "query env f w = (Inr a, w') \<longleftrightarrow>
     \<not> en_crash env (w_tick w) \<and> f (w_db w) = Inr a \<and> w' = w\<lparr>w_tick := Suc (w_tick w)\<rparr>"
  by (cases "f (w_db w)") (auto simp: query_def storage_def Let_def)

lemma write_Inr:
  "write_db env f w = (Inr u, w') \<longleftrightarrow>
     \<not> en_crash env (w_tick w) \<and> (\<exists>db. f (w_db w) = Inr db \<and> w' = w\<lparr>w_tick := Suc (w_tick w), w_db := db\<rparr>)"
  by (cases "f (w_db w)") (auto simp: write_db_def storage_def Let_def)

lemma read_clock_Inr: "read_clock env w = (Inr n, w') \<longleftrightarrow> n = en_clock env (w_tick w) \<and> w' = w\<lparr>w_tick := Suc (w_tick w)\<rparr>"
  by (auto simp: read_clock_def tick_def bind_def ret_def)

lemma new_id_Inr: "new_id env w = (Inr n, w') \<longleftrightarrow> n = en_id env (w_tick w) \<and> w' = w\<lparr>w_tick := Suc (w_tick w)\<rparr>"
  by (auto simp: new_id_def tick_def bind_def ret_def)

lemma get_with_Inr: "get_with f w = (Inr a, w') \<longleftrightarrow> a = f w \<and> w' = w"
  by (auto simp: get_with_def)

lemma set_ctx_Inr: "set_ctx rid f w = (Inr u, w') \<longleftrightarrow> w' = w\<lparr>w_runs := (w_runs w)(rid \<mapsto> f (context_of rid w))\<rparr>"
  by (auto simp: set_ctx_def modify_def)

lemma ensure_ctx_Inr:
  "ensure_ctx rid w = (Inr c, w') \<longleftrightarrow> c = context_of rid w \<and> w' = w\<lparr>w_runs := (w_runs w)(rid \<mapsto> context_of rid w)\<rparr>"
  by (auto simp: ensure_ctx_def)

lemma ret_Inr: "ret a w = (Inr b, w') \<longleftrightarrow> b = a \<and> w' = w"
  by (auto simp: ret_def)

lemmas op_Inr = bind_Inr query_Inr write_Inr read_clock_Inr new_id_Inr get_with_Inr set_ctx_Inr ensure_ctx_Inr ret_Inr

text \<open>What appending events leaves alone.\<close>

lemma append_unlocked_frame:
  assumes "append_unlocked rd evs db = Inr (db', outs)"
  shows "d_runs db' = d_runs db" "d_checkpoints db' = d_checkpoints db" "d_stops db' = d_stops db"
    "d_invocations db' = d_invocations db" "d_attempts db' = d_attempts db" "d_messages db' = d_messages db"
    "d_approvals db' = d_approvals db" "d_sessions db' = d_sessions db" "d_artifacts db' = d_artifacts db"
proof -
  from assms obtain db1 where a: "append_rows rd evs db = Inr (db1, outs)"
    and db': "db' = (if outs = [] then db1 else bump_global_seq_unlocked (foldr max (map ev_global_seq outs) 0) db1)"
    by (auto simp: append_unlocked_def split: sum.splits)
  from append_rows_effect [OF a] have
    db1: "db1 = db\<lparr>d_events := d_events db @ outs, d_event_seq := d_event_seq db + length evs\<rparr>" by blast
  show "d_runs db' = d_runs db" "d_checkpoints db' = d_checkpoints db" "d_stops db' = d_stops db"
    "d_invocations db' = d_invocations db" "d_attempts db' = d_attempts db" "d_messages db' = d_messages db"
    "d_approvals db' = d_approvals db" "d_sessions db' = d_sessions db" "d_artifacts db' = d_artifacts db"
    by (simp_all add: db' db1 bump_global_seq_unlocked_def)
qed

lemma update_run_frame:
  assumes "update_run rd now rid u evs db = Inr (db', outs)"
  shows "d_runs db' = sql_update (\<lambda>r. rn_id r = rid) (set_run_fields rd now u) (d_runs db)"
    "d_checkpoints db' = d_checkpoints db" "d_stops db' = d_stops db" "d_invocations db' = d_invocations db"
    "d_attempts db' = d_attempts db" "d_messages db' = d_messages db" "d_approvals db' = d_approvals db"
    "d_sessions db' = d_sessions db" "d_artifacts db' = d_artifacts db"
  using assms append_unlocked_frame by (fastforce simp: update_run_def Let_def split: if_splits)+

lemma emit_and_update_Inr:
  "emit_and_update env rid u evs w = (Inr outs, w') \<Longrightarrow>
   \<exists>now db. update_run (en_redactor env) now rid u evs (w_db w) = Inr (db, outs) \<and>
     w_db w' = db \<and> w_runs w' = w_runs w \<and> w_calls w' = w_calls w \<and> w_files w' = w_files w"
  by (cases "update_run (en_redactor env) (en_clock env (w_tick w)) rid u evs (w_db w)")
    (auto simp: emit_and_update_def bind_Inr read_clock_Inr storage_def Let_def split: if_splits)

lemma make_event_Inr:
  "make_event env run ty payload sp w = (Inr e, w') \<Longrightarrow>
   w_db w' = w_db w \<and> w_runs w' = w_runs w \<and> w_calls w' = w_calls w \<and> ev_type e = ty \<and> ev_payload e = payload"
  by (auto simp: make_event_def op_Inr)

lemma make_events_Inr: "make_events env run sp evs w = (Inr es, w') \<Longrightarrow> \<exists>n. w' = w\<lparr>w_tick := n\<rparr>"
proof (induction env run sp evs arbitrary: w es rule: make_events.induct)
  case (1 env run sp)
  then show ?case by (metis make_events.simps(1) ret_Inr world.surjective world.update_convs(4))
next
  case (2 env run sp ty payload rest)
  from "2.prems" obtain e w1 es1 where "make_event env run ty payload sp w = (Inr e, w1)"
    "make_events env run sp rest w1 = (Inr es1, w')" by (auto simp: op_Inr)
  moreover from this(1) have "w1 = w\<lparr>w_tick := w_tick w1\<rparr>" by (auto simp: make_event_def op_Inr)
  ultimately show ?case using "2.IH" [of w1 es1] by (metis world.update_convs(4) world.surjective world.fold_congs(4))
qed

lemma emit_Inr:
  assumes "emit env run sp evs w = (Inr u, w')"
  shows "\<exists>now es outs. update_run (en_redactor env) now (rn_id (rv_row run)) no_update es (w_db w) = Inr (w_db w', outs) \<and>
     w_runs w' = w_runs w \<and> w_calls w' = w_calls w"
proof -
  from assms obtain es w1 outs where m: "make_events env run sp evs w = (Inr es, w1)"
    and e: "emit_and_update env (rn_id (rv_row run)) no_update es w1 = (Inr outs, w')"
    by (auto simp: emit_def op_Inr)
  from make_events_Inr [OF m] have "w_db w1 = w_db w" "w_runs w1 = w_runs w" "w_calls w1 = w_calls w" by auto
  with emit_and_update_Inr [OF e] show ?thesis by auto
qed

lemma run_kept:
  assumes "update_run rd now rid u evs db = Inr (db', outs)"
  shows "sql_find rn_id rid (d_runs db') = map_option (set_run_fields rd now u) (sql_find rn_id rid (d_runs db))"
proof -
  have "sql_find rn_id rid (d_runs db') =
      map_option (\<lambda>r. if rn_id r = rid then set_run_fields rd now u r else r) (sql_find rn_id rid (d_runs db))"
    unfolding update_run_frame(1) [OF assms] by (rule sql_find_update_same) (simp add: set_run_fields_def)
  then show ?thesis by (cases "sql_find rn_id rid (d_runs db)") (auto dest: sql_find_SomeD)
qed

section \<open>Checkpoints\<close>

lemma checkpoint_stores:
  assumes "write_checkpoint env rid phase step ms pending completed u status token w = (Inr v, w')"
  shows "\<exists>cp now row. en_load_checkpoint env rid (w_db w) = Inr cp \<and>
     sql_find cr_run_id rid (d_checkpoints (w_db w')) = Some row \<and>
     cr_data row = JsonText (redact_obj (en_redactor env) (en_dump_checkpoint env
       (next_checkpoint env rid phase step ms pending completed u status token cp (context_of rid w) now)))"
    and "d_runs (w_db w') = d_runs (w_db w) \<or>
      (\<exists>now. d_runs (w_db w') = sql_update (\<lambda>r. rn_id r = rid) (set_run_fields (en_redactor env) now no_update) (d_runs (w_db w)))"
    and "d_stops (w_db w') = d_stops (w_db w)"
proof -
  from assms obtain cp w1 w2 run w3 now now' db where
    cp: "en_load_checkpoint env rid (w_db w) = Inr cp" and
    sv: "save_checkpoint (en_redactor env) (en_dump_checkpoint env) now'
       (next_checkpoint env rid phase step ms pending completed u status token cp (context_of rid w) now) (w_db w) = Inr db" and
    w2: "w_db w2 = db" and run: "run = get_run rid db" and
    e: "(case run of None \<Rightarrow> ret () | Some r \<Rightarrow> emit env r None [(ET_checkpoint,
         [(lit ''phase'', VStr (lit (phase_value phase))), (lit ''step'', VInt (int step))])]) w2 = (Inr v, w')"
    unfolding write_checkpoint_def store_checkpoint_def
    by (auto simp: op_Inr context_of_def) (metis (no_types, lifting) world.select_convs(1) world.surjective world.update_convs(1,3,4))
  have same: "d_checkpoints (w_db w') = d_checkpoints db \<and> d_stops (w_db w') = d_stops db \<and>
    (d_runs (w_db w') = d_runs db \<or>
     (\<exists>now. d_runs (w_db w') = sql_update (\<lambda>r. rn_id r = rid) (set_run_fields (en_redactor env) now no_update) (d_runs db)))"
  proof (cases run)
    case None
    with e w2 show ?thesis by (simp add: ret_Inr)
  next
    case (Some r)
    with run obtain row where "sql_find rn_id rid (d_runs db) = Some row" "r = decorate_run db row"
      by (cases "sql_find rn_id rid (d_runs db)") (auto simp: get_run_def)
    moreover from this(1) have "rn_id row = rid" by (blast dest: sql_find_SomeD)
    ultimately have "rn_id (rv_row r) = rid" by (simp add: decorate_run_def)
    moreover have "emit env r None [(ET_checkpoint,
         [(lit ''phase'', VStr (lit (phase_value phase))), (lit ''step'', VInt (int step))])] w2 = (Inr v, w')"
      using e Some by simp
    from emit_Inr [OF this] obtain t es outs where
      "update_run (en_redactor env) t (rn_id (rv_row r)) no_update es (w_db w2) = Inr (w_db w', outs)" by blast
    ultimately have "update_run (en_redactor env) t rid no_update es db = Inr (w_db w', outs)" using w2 by simp
    from update_run_frame [OF this] show ?thesis by auto
  qed
  from sv have db: "d_runs db = d_runs (w_db w)" "d_stops db = d_stops (w_db w)"
    by (auto simp: save_checkpoint_def split: if_splits)
  from load_after_save_row [OF sv] cp same
  show "\<exists>cp now row. en_load_checkpoint env rid (w_db w) = Inr cp \<and>
     sql_find cr_run_id rid (d_checkpoints (w_db w')) = Some row \<and>
     cr_data row = JsonText (redact_obj (en_redactor env) (en_dump_checkpoint env
       (next_checkpoint env rid phase step ms pending completed u status token cp (context_of rid w) now)))"
    by (auto simp: next_checkpoint_def)
  show "d_runs (w_db w') = d_runs (w_db w) \<or>
      (\<exists>now. d_runs (w_db w') = sql_update (\<lambda>r. rn_id r = rid) (set_run_fields (en_redactor env) now no_update) (d_runs (w_db w)))"
    using same db by simp
  show "d_stops (w_db w') = d_stops (w_db w)" using same db by simp
qed

lemma longest_covers: "length best \<le> length (longest best cs) \<and> (\<forall>c \<in> set cs. length c \<le> length (longest best cs))"
proof (induction cs arbitrary: best)
  case (Cons c cs)
  show ?case using Cons [of "if length best < length c then c else best"] by (auto split: if_splits)
qed simp

lemma best_messages_covers:
  "length mem \<le> length (best_messages mem cp stored)"
  "cp = Some c \<Longrightarrow> length (ck_messages c) \<le> length (best_messages mem cp stored)"
  "length stored \<le> length (best_messages mem cp stored)"
proof -
  have "length c \<le> length (longest best (filter (\<lambda>c. c \<noteq> []) cs))" if "c \<in> set cs" for c best and cs :: "message list list"
    using longest_covers [of best "filter (\<lambda>c. c \<noteq> []) cs"] that by (cases "c = []") auto
  then show "length mem \<le> length (best_messages mem cp stored)"
    "cp = Some c \<Longrightarrow> length (ck_messages c) \<le> length (best_messages mem cp stored)"
    "length stored \<le> length (best_messages mem cp stored)"
    unfolding best_messages_def by simp_all
qed

text \<open>The rows of the run after the store's part of \<open>finish\<close>.\<close>

lemma finish_stored_effect:
  assumes "finish_stored env rid run status out u steps err ms w = (Inr v, w')"
    and "sql_find rn_id rid (d_runs (w_db w)) = Some row0"
  shows "\<exists>cp best cp2 c now row. en_load_checkpoint env rid (w_db w) = Inr cp \<and>
      sql_find cr_run_id rid (d_checkpoints (w_db w')) = Some row \<and>
      cr_data row = JsonText (redact_obj (en_redactor env) (en_dump_checkpoint env
        (next_checkpoint env rid (if status = RS_completed then CP_terminal else CP_tool_batch) steps
          (finish_messages ms best) (finish_pending status (w_runs w rid) cp) (finish_completed (w_runs w rid) cp)
          u status None cp2 c now))) \<and>
      (\<exists>stored. best = best_messages (case ms of None \<Rightarrow> (case w_runs w rid of None \<Rightarrow> [] | Some x \<Rightarrow> rc_messages x)
         | Some l \<Rightarrow> l) cp stored)"
    and "\<exists>row. sql_find rn_id rid (d_runs (w_db w')) = Some row \<and> rn_status row = status \<and> rn_finished_at row \<noteq> None"
    and "get_stop_request rid (w_db w') = None"
proof -
  from assms(1) obtain cp w1 w2 best w3 w4 ev w5 outs w6 where
    cp: "en_load_checkpoint env rid (w_db w) = Inr cp" and w1: "w1 = w\<lparr>w_tick := Suc (w_tick w)\<rparr>" and
    m: "(case ms of None \<Rightarrow> ret () | Some l \<Rightarrow> set_ctx rid (\<lambda>x. x\<lparr>rc_messages := l\<rparr>)) w1 = (Inr (), w2)" and
    b: "checkpoint_messages env rid w2 = (Inr best, w3)" and
    c: "write_checkpoint env rid (if status = RS_completed then CP_terminal else CP_tool_batch) steps
             (finish_messages ms best) (finish_pending status (w_runs w rid) cp) (finish_completed (w_runs w rid) cp) u status None w3
        = (Inr (), w4)" and
    mk: "make_event env run (finish_event status)
             [(lit ''status'', VStr (lit (run_status_value status))), (lit ''error'', opt_text_val err),
              (lit ''output_len'', VInt (int (length out))), (lit ''usage'', en_dump_usage env u)] None w4 = (Inr ev, w5)" and
    e: "emit_and_update env rid (no_update\<lparr>ru_status := Some status, ru_finished := True, ru_error := err,
             ru_output_summary := Some (take 2000 out), ru_usage := Some u, ru_steps := Some (int steps)\<rparr>) [ev] w5 = (Inr outs, w6)" and
    w': "w_db w' = clear_stop_request rid (w_db w6)"
    unfolding finish_stored_def by (auto simp: bind_Inr query_Inr get_with_Inr write_Inr)
  have ev: "w_db w5 = w_db w4" using make_event_Inr [OF mk] by simp
  have w2: "w_db w2 = w_db w" using m w1 by (auto simp: ret_Inr set_ctx_Inr split: option.splits)
  have mem: "(case w_runs w2 rid of None \<Rightarrow> [] | Some c \<Rightarrow> rc_messages c) =
      (case ms of None \<Rightarrow> (case w_runs w rid of None \<Rightarrow> [] | Some x \<Rightarrow> rc_messages x) | Some l \<Rightarrow> l)"
    using m w1 by (auto simp: ret_Inr set_ctx_Inr split: option.splits)
  from b obtain stored where best: "best = best_messages (case w_runs w2 rid of None \<Rightarrow> [] | Some c \<Rightarrow> rc_messages c) cp stored"
    and w3: "w_db w3 = w_db w"
    using cp w2 by (auto simp: checkpoint_messages_def op_Inr)
  from emit_and_update_Inr [OF e] ev obtain t where
    up: "update_run (en_redactor env) t rid (no_update\<lparr>ru_status := Some status, ru_finished := True, ru_error := err,
             ru_output_summary := Some (take 2000 out), ru_usage := Some u, ru_steps := Some (int steps)\<rparr>) [ev] (w_db w4) = Inr (w_db w6, outs)"
    by auto
  note st = checkpoint_stores [OF c]
  have ck': "d_checkpoints (w_db w') = d_checkpoints (w_db w4)"
    using update_run_frame(2) [OF up] by (simp add: w' clear_stop_request_def)
  from st(1) mem best cp show "\<exists>cp best cp2 c now row. en_load_checkpoint env rid (w_db w) = Inr cp \<and>
      sql_find cr_run_id rid (d_checkpoints (w_db w')) = Some row \<and>
      cr_data row = JsonText (redact_obj (en_redactor env) (en_dump_checkpoint env
        (next_checkpoint env rid (if status = RS_completed then CP_terminal else CP_tool_batch) steps
          (finish_messages ms best) (finish_pending status (w_runs w rid) cp) (finish_completed (w_runs w rid) cp)
          u status None cp2 c now))) \<and>
      (\<exists>stored. best = best_messages (case ms of None \<Rightarrow> (case w_runs w rid of None \<Rightarrow> [] | Some x \<Rightarrow> rc_messages x)
         | Some l \<Rightarrow> l) cp stored)"
    unfolding ck' by metis
  have "\<exists>row. sql_find rn_id rid (d_runs (w_db w4)) = Some row"
    using st(2) assms(2) w3
    by (auto simp: sql_find_update_same [where key = rn_id] set_run_fields_def)
  then obtain row where row: "sql_find rn_id rid (d_runs (w_db w4)) = Some row" ..
  have "d_runs (w_db w') = d_runs (w_db w6)" by (simp add: w' clear_stop_request_def)
  with run_kept [OF up] row
  have "sql_find rn_id rid (d_runs (w_db w')) = Some (set_run_fields (en_redactor env) t (no_update\<lparr>ru_status := Some status,
      ru_finished := True, ru_error := err, ru_output_summary := Some (take 2000 out), ru_usage := Some u,
      ru_steps := Some (int steps)\<rparr>) row)" by simp
  then show "\<exists>row. sql_find rn_id rid (d_runs (w_db w')) = Some row \<and> rn_status row = status \<and> rn_finished_at row \<noteq> None"
    by (simp add: set_run_fields_def)
  show "get_stop_request rid (w_db w') = None"
    by (simp add: w' get_stop_request_def clear_stop_request_def sql_find_delete_key)
qed


lemma demo_finish:
  "\<not> isl (fst (finish demo_env ''r'' ''s'' ''r'' None RS_interrupted [65] default_usage 1 None None demo_world))"
  by code_simp


section \<open>The text-delta buffer\<close>

text \<open>A delta that finds the buffer empty and the flush interval over is emitted at once, on its own.\<close>

lemma buffer_delta_due:
  assumes "rc_delta_buf (context_of rid w) = []" and "t \<noteq> []"
    and "15 / 100 \<le> en_mono env (w_tick w) - rc_delta_last_flush (context_of rid w)"
  shows "buffer_delta env rid run t sp w =
     emit env run sp [(ET_text_delta, [(lit ''text'', VStr (redact_text (en_redactor env) t))])]
       (w\<lparr>w_tick := Suc (Suc (w_tick w)),
          w_runs := (w_runs w)(rid \<mapsto> clear_delta (en_mono env (Suc (w_tick w))) (push_delta t (context_of rid w)))\<rparr>)"
  using assms
  by (simp add: buffer_delta_def flush_delta_def andthen_def bind_def set_ctx_def modify_def read_mono_def tick_def ret_def
      ensure_ctx_def get_with_def when_op_def context_of_def push_delta_def clear_delta_def flush_due_def fun_upd_def
      cong: if_cong)

text \<open>What a reader of the store gets as the streamed text of a run: its text deltas in order.\<close>

definition delta_text :: "event_envelope \<Rightarrow> utext" where
  "delta_text e = (case dict_get ''text'' (ev_payload e) of VStr t \<Rightarrow> t | _ \<Rightarrow> [])"

definition streamed :: "string \<Rightarrow> db \<Rightarrow> utext" where
  "streamed rid db = concat (map delta_text (filter (\<lambda>e. ev_run_id e = rid \<and> ev_type e = ET_text_delta) (d_events db)))"

lemma update_run_events:
  assumes "update_run rd now rid u evs db = Inr (db', outs)"
  shows "d_events db' = d_events db @ outs \<and> map ev_run_id outs = map ev_run_id evs \<and> map ev_type outs = map ev_type evs \<and>
     map ev_payload outs = map (redact_dict rd \<circ> ev_payload) evs"
proof -
  let ?db0 = "db\<lparr>d_runs := sql_update (\<lambda>r. rn_id r = rid) (set_run_fields rd now u) (d_runs db)\<rparr>"
  have "append_unlocked rd evs ?db0 = Inr (db', outs) \<or> evs = [] \<and> outs = [] \<and> d_events db' = d_events db"
    using assms by (auto simp: update_run_def Let_def split: if_splits)
  then show ?thesis
  proof
    assume "append_unlocked rd evs ?db0 = Inr (db', outs)"
    then obtain db1 where a: "append_rows rd evs ?db0 = Inr (db1, outs)"
      and db': "db' = (if outs = [] then db1 else bump_global_seq_unlocked (foldr max (map ev_global_seq outs) 0) db1)"
      by (auto simp: append_unlocked_def split: sum.splits)
    from append_rows_effect [OF a] show ?thesis by (simp add: db' bump_global_seq_unlocked_def)
  qed simp
qed

lemma emit_one_Inr:
  assumes "emit env run sp [(ty, payload)] w = (Inr u, w')"
  shows "\<exists>e. d_events (w_db w') = d_events (w_db w) @ [e] \<and> ev_run_id e = rn_id (rv_row run) \<and> ev_type e = ty \<and>
     ev_payload e = redact_dict (en_redactor env) payload"
proof -
  from assms obtain e w1 outs where m: "make_event env run ty payload sp w = (Inr e, w1)"
    and o: "emit_and_update env (rn_id (rv_row run)) no_update [e] w1 = (Inr outs, w')"
    by (auto simp: emit_def op_Inr)
  from m have e: "ev_run_id e = rn_id (rv_row run)" "ev_type e = ty" "ev_payload e = payload" "w_db w1 = w_db w"
    by (auto simp: make_event_def op_Inr)
  from emit_and_update_Inr [OF o] obtain now where
    "update_run (en_redactor env) now (rn_id (rv_row run)) no_update [e] (w_db w1) = Inr (w_db w', outs)" by auto
  from update_run_events [OF this] e show ?thesis by (cases outs) auto
qed

lemma emit_context:
  "emit env run sp evs w = (Inr u, w') \<Longrightarrow> context_of rid w' = context_of rid w"
  using emit_Inr [of env run sp evs w u w'] by (auto simp: context_of_def)

text \<open>One flushed delta: its redacted text is what the store gains, and the buffer is empty again.\<close>

lemma flushed_delta:
  assumes "buffer_delta env (rn_id (rv_row run)) run t sp w = (Inr u, w')"
    and "rc_delta_buf (context_of (rn_id (rv_row run)) w) = []" and "t \<noteq> []"
    and "15 / 100 \<le> en_mono env (w_tick w) - rc_delta_last_flush (context_of (rn_id (rv_row run)) w)"
    and "redact_text (en_redactor env) t = t" and "redact_text (en_redactor env) (lit ''text'') = lit ''text''"
  shows "streamed (rn_id (rv_row run)) (w_db w') = streamed (rn_id (rv_row run)) (w_db w) @ t \<and>
     rc_delta_buf (context_of (rn_id (rv_row run)) w') = [] \<and>
     rc_delta_last_flush (context_of (rn_id (rv_row run)) w') = en_mono env (Suc (w_tick w))"
proof -
  let ?r = "rn_id (rv_row run)"
  let ?c = "clear_delta (en_mono env (Suc (w_tick w))) (push_delta t (context_of ?r w))"
  let ?w = "w\<lparr>w_tick := Suc (Suc (w_tick w)), w_runs := (w_runs w)(?r \<mapsto> ?c)\<rparr>"
  have em: "emit env run sp [(ET_text_delta, [(lit ''text'', VStr t)])] ?w = (Inr u, w')"
    using assms(1) unfolding buffer_delta_due [OF assms(2-4)] assms(5) .
  have "\<not> sensitive_key (lit ''text'')"
    by (simp add: sensitive_key_def normalize_key_def normalize_key_char_def sensitive_keys_def lit_def)
  then have p: "redact_dict (en_redactor env) [(lit ''text'', VStr t)] = [(lit ''text'', VStr t)]"
    using assms(5,6) by (simp add: redact_dict_def redact_obj_def)
  from emit_one_Inr [OF em] obtain e where e: "d_events (w_db w') = d_events (w_db w) @ [e]" "ev_run_id e = ?r"
    "ev_type e = ET_text_delta" "ev_payload e = [(lit ''text'', VStr t)]" by (auto simp: p)
  have "streamed ?r (w_db w') = streamed ?r (w_db w) @ t"
    by (simp add: streamed_def e delta_text_def dict_get_def)
  moreover have "context_of ?r w' = ?c"
    unfolding emit_context [OF em, of ?r] by (simp add: context_of_def)
  ultimately show ?thesis by (simp add: clear_delta_def)
qed

text \<open>
  C28. Redaction of streamed text is piecewise. Let a registered secret arrive in two deltas, at
  times when the buffer is due to be flushed (each half by itself is harmless: it contains no
  registered secret and matches no pattern). Then the events that the engine stores give the
  complete secret, unredacted, to whoever reads the run's text deltas in order.
\<close>

theorem split_secret_emitted:
  fixes env :: engine_env and run :: run_view
  defines "rd \<equiv> en_redactor env" and "rid \<equiv> rn_id (rv_row run)"
  assumes "s1 @ s2 \<in> set (rd_sentinels rd)" "s1 \<noteq> []" "s2 \<noteq> []"
    and "\<And>s t. s \<in> set (rd_sentinels rd) \<Longrightarrow> t \<in> {s1, s2, lit ''text''} \<Longrightarrow> \<not> text_in s t"
    and "\<And>sub t. sub \<in> set (rd_patterns rd) \<Longrightarrow> t \<in> {s1, s2, lit ''text''} \<Longrightarrow> sub t = t"
    and "buffer_delta env rid run s1 sp w = (Inr (), w1)" "buffer_delta env rid run s2 sp w1 = (Inr (), w2)"
    and "rc_delta_buf (context_of rid w) = []"
    and "15 / 100 \<le> en_mono env (w_tick w) - rc_delta_last_flush (context_of rid w)"
    and "15 / 100 \<le> en_mono env (w_tick w1) - en_mono env (Suc (w_tick w))"
  shows "streamed rid (w_db w2) = streamed rid (w_db w) @ (s1 @ s2) \<and> text_in (s1 @ s2) (streamed rid (w_db w2))"
proof -
  have pats: "list_all (\<lambda>sub. sub t = t) ps \<Longrightarrow> fold (\<lambda>sub out. sub out) ps t = t" for ps :: "(utext \<Rightarrow> utext) list" and t
    by (induction ps) simp_all
  have id: "redact_text rd t = t" if t: "t \<in> {s1, s2, lit ''text''}" for t
  proof -
    have "fold redact_sentinel (rd_sentinels rd) t = t"
      using assms(6) t by (intro redact_sentinels_absent) blast
    then show ?thesis using pats [of t "rd_patterns rd"] assms(7) t by (simp add: redact_text_def list_all_iff)
  qed
  have 1: "streamed rid (w_db w1) = streamed rid (w_db w) @ s1 \<and> rc_delta_buf (context_of rid w1) = [] \<and>
      rc_delta_last_flush (context_of rid w1) = en_mono env (Suc (w_tick w))"
    unfolding rid_def
    by (rule flushed_delta [OF assms(8) [unfolded rid_def]])
      (use assms(4,10,11) id in \<open>simp_all add: rid_def rd_def\<close>)
  have "streamed rid (w_db w2) = streamed rid (w_db w1) @ s2"
    unfolding rid_def
    by (rule flushed_delta [OF assms(9) [unfolded rid_def], THEN conjunct1])
      (use 1 assms(5,12) id in \<open>simp_all add: rid_def rd_def\<close>)
  with 1 have s: "streamed rid (w_db w2) = streamed rid (w_db w) @ (s1 @ s2)" by simp
  moreover have "text_in (s1 @ s2) (streamed rid (w_db w) @ (s1 @ s2))"
    by (metis append_Nil2 text_in_iff)
  ultimately show ?thesis by simp
qed

text \<open>A store with one run, and an engine in which the secret 1 2 3 4 is registered.\<close>

definition secret_env :: engine_env where
  "secret_env = demo_env\<lparr>en_redactor := demo_redactor\<lparr>rd_sentinels := [[1, 2, 3, 4]]\<rparr>\<rparr>"

definition secret_run :: run_view where
  "secret_run = \<lparr>rv_row = demo_run ''r'' RS_running, rv_user_summary = None, rv_depth = 0, rv_child_count = 0, rv_actor = VNone\<rparr>"

definition late_world :: world where
  "late_world = demo_world\<lparr>w_tick := 1\<rparr>"

lemmas secret_eval = secret_env_def late_world_def demo_world_def demo_env_def demo_redactor_def secret_run_def
  bind_def ret_def andthen_def get_with_def modify_def when_op_def tick_def read_clock_def read_mono_def new_id_def
  storage_def ensure_ctx_def set_ctx_def make_event_def emit_and_update_def emit_def context_of_def Let_def fun_upd_def
  new_context_def update_run_def append_unlocked_def bump_global_seq_unlocked_def no_update_def set_run_fields_def
  max_run_seq_def demo_eval

lemma late_deltas:
  "\<exists>w1 w2. buffer_delta secret_env ''r'' secret_run [1, 2] None late_world = (Inr (), w1) \<and> 5 \<le> w_tick w1 \<and>
     buffer_delta secret_env ''r'' secret_run [3, 4] None w1 = (Inr (), w2)"
  by (simp add: secret_eval buffer_delta_def flush_delta_def push_delta_def clear_delta_def flush_due_def)

theorem split_secret_emitted_witness:
  "\<exists>w1 w2. buffer_delta secret_env ''r'' secret_run [1, 2] None late_world = (Inr (), w1) \<and>
     buffer_delta secret_env ''r'' secret_run [3, 4] None w1 = (Inr (), w2) \<and>
     streamed ''r'' (w_db w2) = [1, 2, 3, 4]"
proof -
  from late_deltas obtain w1 w2 where w: "buffer_delta secret_env ''r'' secret_run [1, 2] None late_world = (Inr (), w1)"
    "5 \<le> w_tick w1" "buffer_delta secret_env ''r'' secret_run [3, 4] None w1 = (Inr (), w2)" by blast
  have r: "rn_id (rv_row secret_run) = ''r''" by (simp add: secret_run_def demo_run_def)
  have rd: "rd_sentinels (en_redactor secret_env) = [[1, 2, 3, 4]]" "rd_patterns (en_redactor secret_env) = []"
    "en_mono secret_env = real"
    by (simp_all add: secret_env_def demo_env_def demo_redactor_def)
  have absent: "\<not> text_in s t" if "s \<in> set (rd_sentinels (en_redactor secret_env))" "t \<in> {[1, 2], [3, 4], lit ''text''}" for s t
    using that unfolding rd by (auto simp: lit_def)
  have c: "context_of ''r'' late_world = new_context" by (simp add: context_of_def late_world_def demo_world_def)
  have tick: "w_tick late_world = 1" by (simp add: late_world_def)
  have "streamed ''r'' (w_db w2) = streamed ''r'' (w_db late_world) @ ([1, 2] @ [3, 4]) \<and>
      text_in ([1, 2] @ [3, 4]) (streamed ''r'' (w_db w2))"
    by (rule split_secret_emitted [of "[1, 2]" "[3, 4]" secret_env secret_run None late_world w1 w2, unfolded r,
          OF _ _ _ absent _ w(1,3)])
      (use w(2) in \<open>simp_all add: rd c tick new_context_def\<close>)
  then show ?thesis using w by (simp add: streamed_def late_world_def demo_world_def demo_eval)
qed

end
