(* ===== verification/Tool_Summary.thy ===== *)
theory Tool_Summary
  imports Contracts Py_Text
begin

text \<open>
  \<open>src/src/agentharness/tools/summary.py\<close>: the one-line summary of tool arguments shown in
  events. \<open>str\<close> on values and lower-casing of keys are parameters.
\<close>

definition preferred_keys :: "utext list" where
  "preferred_keys = map lit [''action'', ''url'', ''path'', ''command'', ''query'', ''method'', ''selector'',
     ''name'', ''skill'', ''memory'', ''context_id'']"

definition secret_keys :: "utext list" where
  "secret_keys = map lit [''api_key'', ''token'', ''password'', ''authorization'', ''secret'', ''key'']"

definition ellipsize :: "nat \<Rightarrow> utext \<Rightarrow> utext" where
  "ellipsize n t = (if length t \<le> n then t else take (n - 1) t @ [8230])"

definition shown_value :: "(pyval \<Rightarrow> utext) \<Rightarrow> nat \<Rightarrow> pyval \<Rightarrow> utext" where
  "shown_value str n v = (case v of VStr t \<Rightarrow> ellipsize n t | _ \<Rightarrow> str v)"

definition preferred_parts :: "(pyval \<Rightarrow> utext) \<Rightarrow> pydict \<Rightarrow> utext list" where
  "preferred_parts str d =
     concat (map (\<lambda>k. case map_of d k of
        None \<Rightarrow> []
      | Some v \<Rightarrow> if v = VNone \<or> v = VStr [] then [] else [k @ [61] @ shown_value str 80 v]) preferred_keys)"

definition is_secret_key :: "(utext \<Rightarrow> utext) \<Rightarrow> utext \<Rightarrow> bool" where
  "is_secret_key lower k \<longleftrightarrow> lower k \<in> set secret_keys \<or> text_in (lit ''token'') (lower k)"

definition generic_parts :: "(pyval \<Rightarrow> utext) \<Rightarrow> (utext \<Rightarrow> utext) \<Rightarrow> pydict \<Rightarrow> utext list" where
  "generic_parts str lower d =
     map (\<lambda>(k, v). k @ [61] @ (if is_secret_key lower k then lit ''[REDACTED]'' else shown_value str 60 v)) (take 4 d)"

definition summarize_tool_arguments :: "(pyval \<Rightarrow> utext) \<Rightarrow> (utext \<Rightarrow> utext) \<Rightarrow> pyval \<Rightarrow> utext" where
  "summarize_tool_arguments str lower args =
     (case args of
        VNone \<Rightarrow> []
      | VDict d \<Rightarrow>
          let parts = preferred_parts str d
          in ellipsize 160 (join [32] (if parts = [] then generic_parts str lower d else parts))
      | _ \<Rightarrow> ellipsize 160 (str args))"

lemma ellipsize_length: "1 \<le> n \<Longrightarrow> length (ellipsize n t) \<le> n"
  by (auto simp: ellipsize_def)

text \<open>
  The summary is at most 160 characters, and it does not depend on the values under
  secret keys when it falls back to the generic rendering.
\<close>

lemma summary_length: "length (summarize_tool_arguments str lower args) \<le> 160"
  using ellipsize_length [of 160] by (cases args) (simp_all add: summarize_tool_arguments_def Let_def)

definition same_public :: "(utext \<Rightarrow> utext) \<Rightarrow> utext \<times> pyval \<Rightarrow> utext \<times> pyval \<Rightarrow> bool" where
  "same_public lower p q \<longleftrightarrow> fst p = fst q \<and> (is_secret_key lower (fst p) \<or> snd p = snd q)"

lemma generic_parts_secret:
  assumes "list_all2 (same_public lower) d d'"
  shows "generic_parts str lower d = generic_parts str lower d'"
proof -
  have "list_all2 (same_public lower) (take n d) (take n d')" for n using assms by (rule list_all2_takeI)
  then have "list_all2 (same_public lower) (take 4 d) (take 4 d')" .
  then show ?thesis
    unfolding generic_parts_def by (induction rule: list_all2_induct) (auto simp: same_public_def)
qed

end
