(* ===== verification/Tool_Execution.thy ===== *)
theory Tool_Execution
  imports Run_Lifecycle Scheduler Approval_Policy Tool_Summary
begin

text \<open>
  \<open>src/src/agentharness/engine/tool_execution.py\<close>, \<open>ToolInvocationExecutor\<close>: the gate every call
  of a batch passes (stored outcomes, recovery, validation, write permission, approval), the
  governed execution with retries and reconciliation, and the batch that ties them together.
\<close>

record batch =
  ba_run_id :: string
  ba_session_id :: string
  ba_request :: run_request
  ba_tools :: "string \<Rightarrow> tool option"
  ba_step :: nat
  ba_usage :: usage

text \<open>What the loop over the calls carries along.\<close>

record gate_state =
  gt_messages :: "message list"
  gt_completed :: "string list"
  gt_results :: "tool_result list"
  gt_allowed :: "(tool_call \<times> tool_invocation) list"
  gt_recovering :: "string list"

definition add_id :: "string \<Rightarrow> string list \<Rightarrow> string list" where
  "add_id i xs = (if i \<in> set xs then xs else xs @ [i])"

definition no_code :: "string option \<Rightarrow> bool" where
  "no_code c \<longleftrightarrow> c = None \<or> c = Some ''''"

definition call_error ::
  "tool_call \<Rightarrow> utext \<Rightarrow> string \<Rightarrow> string \<Rightarrow> bool \<Rightarrow> string \<Rightarrow> nat \<Rightarrow> tool_result" where
  "call_error tc content code category retryable hint attempts =
     (new_tool_result (tc_id tc) (tc_name tc) content)
       \<lparr>tr_invocation_id := Some (tc_invocation_id tc), tr_is_error := True, tr_error_code := Some code,
        tr_error_category := Some category, tr_retryable := retryable,
        tr_recovery_hint := (if hint = [] then None else Some (lit hint)), tr_attempts := attempts\<rparr>"

section \<open>Operations of the executor\<close>

definition save_invocation :: "engine_env \<Rightarrow> tool_invocation \<Rightarrow> unit wop" where
  "save_invocation env ti = write_db env (save_tool_invocation (en_redactor env) (en_dump_result env) ti)"

definition append_result :: "engine_env \<Rightarrow> batch \<Rightarrow> message list \<Rightarrow> tool_result \<Rightarrow> message list wop" where
  "append_result env b ms r =
     bind (new_id env) (\<lambda>i. bind (read_clock env) (\<lambda>now.
       storage env (append_tool_result (en_redactor env) (en_json env) (en_dump_call env) (en_dump_result env)
         i now (ba_run_id b) (ba_session_id b) ms r)))"

definition drop_results :: "engine_env \<Rightarrow> batch \<Rightarrow> message list \<Rightarrow> tool_call \<Rightarrow> message list wop" where
  "drop_results env b ms tc = storage env (\<lambda>db. Inr (drop_tool_result_messages (ba_run_id b) ms tc db))"

text \<open>\<open>model_copy\<close> to a final status with a result.\<close>

definition concluded :: "invocation_status \<Rightarrow> tool_result \<Rightarrow> time \<Rightarrow> tool_invocation \<Rightarrow> tool_invocation" where
  "concluded status r now ti = ti\<lparr>ti_status := status, ti_result := Some r, ti_error_code := tr_error_code r,
     ti_error_category := tr_error_category r, ti_updated_at := now, ti_finished_at := Some now\<rparr>"

text \<open>A call that ends in the gate: stored as failed, answered, completed.\<close>

definition reject_call ::
  "engine_env \<Rightarrow> batch \<Rightarrow> gate_state \<Rightarrow> tool_call \<Rightarrow> tool_invocation \<Rightarrow> tool_result \<Rightarrow> gate_state wop" where
  "reject_call env b st tc ti r =
     bind (read_clock env) (\<lambda>now.
     bind (save_invocation env (concluded TI_failed r now ti)) (\<lambda>_.
     bind (append_result env b (gt_messages st) r) (\<lambda>ms.
     ret (st\<lparr>gt_messages := ms, gt_results := gt_results st @ [r],
             gt_completed := add_id (tc_invocation_id tc) (gt_completed st)\<rparr>))))"

definition fresh_invocation ::
  "engine_env \<Rightarrow> batch \<Rightarrow> tool_call \<Rightarrow> string \<Rightarrow> effect_kind \<Rightarrow> replay_policy \<Rightarrow> time \<Rightarrow> tool_invocation" where
  "fresh_invocation env b tc version e policy now =
     \<lparr>ti_id = tc_invocation_id tc, ti_run_id = ba_run_id b, ti_session_id = ba_session_id b, ti_step = ba_step b,
      ti_ordinal = tc_ordinal tc, ti_provider_call_id = tc_id tc, ti_tool_name = tc_name tc,
      ti_tool_version = version, ti_status = TI_received, ti_effect = e, ti_replay_policy = policy,
      ti_arguments = tc_arguments tc, ti_arguments_sha256 = arguments_sha256 (en_hash env) (en_json env) (tc_arguments tc),
      ti_approval_id = None, ti_attempt_count = 0, ti_result = None, ti_error_code = None,
      ti_error_category = None, ti_created_at = now, ti_updated_at = now, ti_started_at = None, ti_finished_at = None\<rparr>"

text \<open>
  Where a call stands after its stored invocation was looked at: settled in the gate, or to go
  on with this invocation.
\<close>

datatype gate_step = Settled gate_state | GoOn tool_invocation gate_state

definition unknown_tool :: "engine_env \<Rightarrow> batch \<Rightarrow> gate_state \<Rightarrow> tool_call \<Rightarrow> gate_state wop" where
  "unknown_tool env b st tc =
     bind (read_clock env) (\<lambda>now.
       reject_call env b st tc (fresh_invocation env b tc ''1'' EK_destructive RP_never now)
         (call_error tc (lit ''Unknown tool: '' @ lit (tc_name tc)) ''unknown_tool'' ''configuration'' False
            ''Choose one of the enabled tool schemas.'' 0))"

text \<open>A stored outcome is answered again, unless the transcript already holds it.\<close>

definition replay_stored :: "engine_env \<Rightarrow> batch \<Rightarrow> gate_state \<Rightarrow> tool_call \<Rightarrow> tool_result \<Rightarrow> gate_state wop" where
  "replay_stored env b st tc r =
     (let existing = tool_result_messages_for_call (gt_messages st) tc;
          stale = (existing \<noteq> [] \<and> \<not> list_ex (\<lambda>m. m_tool_result m = Some r) existing)
      in bind (if stale then drop_results env b (gt_messages st) tc else ret (gt_messages st)) (\<lambda>ms.
         bind (if stale \<or> existing = [] then append_result env b ms r else ret ms) (\<lambda>ms'.
         ret (st\<lparr>gt_messages := ms', gt_results := gt_results st @ [r],
                 gt_completed := add_id (tc_invocation_id tc) (gt_completed st)\<rparr>))))"

text \<open>An outcome that cannot be known: attempts and invocation are marked, the call stays open.\<close>

definition mark_indeterminate ::
  "engine_env \<Rightarrow> batch \<Rightarrow> run_view \<Rightarrow> gate_state \<Rightarrow> tool_call \<Rightarrow> tool_invocation \<Rightarrow> gate_state wop" where
  "mark_indeterminate env b run st tc ti =
     bind (read_clock env) (\<lambda>now.
     bind (storage env (\<lambda>db. let (db', n) = finish_running_tool_attempts now (ti_id ti) AT_indeterminate
                               ''outcome_indeterminate'' ''recovery'' db in Inr (n, db'))) (\<lambda>_.
     bind (read_clock env) (\<lambda>now'.
     bind (save_invocation env (ti\<lparr>ti_status := TI_indeterminate, ti_error_code := Some ''outcome_indeterminate'',
             ti_error_category := Some ''recovery'', ti_updated_at := now', ti_finished_at := Some now'\<rparr>)) (\<lambda>_.
     bind (set_ctx (ba_run_id b) (\<lambda>c. c\<lparr>rc_indeterminate_reason := Some (lit ''Tool '' @ lit (tc_name tc) @
             lit '' may have produced an external side effect before interruption'')\<rparr>)) (\<lambda>_.
     bind (emit env run None [(ET_tool_execution_indeterminate,
             [(lit ''tool_call_id'', VStr (lit (tc_id tc))), (lit ''invocation_id'', VStr (lit (tc_invocation_id tc))),
              (lit ''name'', VStr (lit (tc_name tc))), (lit ''error_code'', VStr (lit ''outcome_indeterminate''))])]) (\<lambda>_.
     bind (drop_results env b (gt_messages st) tc) (\<lambda>ms. ret (st\<lparr>gt_messages := ms\<rparr>))))))))"

text \<open>A call whose invocation is stored already.\<close>

definition resume_found ::
  "engine_env \<Rightarrow> batch \<Rightarrow> run_view \<Rightarrow> gate_state \<Rightarrow> tool_call \<Rightarrow> tool_invocation \<Rightarrow> gate_step wop" where
  "resume_found env b run st tc ti =
     (case (if ti_status ti \<in> {TI_succeeded, TI_failed} then ti_result ti else None) of
        Some r \<Rightarrow> bind (replay_stored env b st tc r) (\<lambda>st'. ret (Settled st'))
      | None \<Rightarrow>
          if ti_status ti = TI_indeterminate \<or> (ti_status ti = TI_running \<and> ti_replay_policy ti = RP_never)
          then bind (mark_indeterminate env b run st tc ti) (\<lambda>st'. ret (Settled st'))
          else if ti_status ti \<in> {TI_running, TI_cancelled}
          then bind (drop_results env b (gt_messages st) tc) (\<lambda>ms.
                 ret (GoOn ti (st\<lparr>gt_messages := ms, gt_recovering := gt_recovering st @ [ti_id ti]\<rparr>)))
          else ret (GoOn ti st))"

definition resume_invocation ::
  "engine_env \<Rightarrow> batch \<Rightarrow> run_view \<Rightarrow> gate_state \<Rightarrow> tool_call \<Rightarrow> tool \<Rightarrow> gate_step wop" where
  "resume_invocation env b run st tc tool =
     (let e = effect_for tool tc; policy = replay_policy_for tool tc e
      in bind (query env (get_tool_invocation (en_load_result env) (tc_invocation_id tc))) (\<lambda>found.
         case found of
           None \<Rightarrow>
             bind (read_clock env) (\<lambda>now.
             let ti = fresh_invocation env b tc (ts_version (tl_spec tool)) e policy now
             in bind (save_invocation env ti) (\<lambda>_. ret (GoOn ti st)))
         | Some ti \<Rightarrow> resume_found env b run st tc ti))"

section \<open>Approval\<close>

text \<open>The decision before anybody is asked: policy, then the scopes allowed for the run.\<close>

definition requires_confirmation :: "tool \<Rightarrow> effect_kind \<Rightarrow> bool" where
  "requires_confirmation tool e \<longleftrightarrow> tl_requires_confirmation tool \<or> e = EK_destructive"

definition force_approval :: "tool \<Rightarrow> effect_kind \<Rightarrow> bool" where
  "force_approval tool e \<longleftrightarrow> requires_confirmation tool e \<or> ts_requires_approval (tl_spec tool)"

definition gate_decision ::
  "tool \<Rightarrow> effect_kind \<Rightarrow> approval_mode \<Rightarrow> bool \<Rightarrow> approval_decision option" where
  "gate_decision tool e mode scope_allowed =
     (let d = (if force_approval tool e then (if mode = AM_never then Some AD_deny else None)
               else auto_decision e mode)
      in if \<not> requires_confirmation tool e \<and> d = None \<and> scope_allowed then Some AD_allow_once else d)"

fun decision_value :: "approval_decision \<Rightarrow> string" where
  "decision_value AD_allow_once = ''allow_once''"
| "decision_value AD_allow_run = ''allow_run''"
| "decision_value AD_deny = ''deny''"

text \<open>
  What the wait yields: without a callback a denial; a callback that raises denies; the cancel
  event denies and ends the batch. A confirmation is never stretched over the run.
\<close>

definition settle_answer :: "bool \<Rightarrow> approval_answer option \<Rightarrow> approval_decision \<times> bool" where
  "settle_answer confirm answer =
     (let (d, cancelled) = (case answer of
            None \<Rightarrow> (AD_deny, False)
          | Some (AnswerDecision d) \<Rightarrow> (d, False)
          | Some AnswerRaised \<Rightarrow> (AD_deny, False)
          | Some CancelledWaiting \<Rightarrow> (AD_deny, True))
      in (if confirm \<and> d = AD_allow_run then AD_allow_once else d, cancelled))"

definition approval_record ::
  "string \<Rightarrow> batch \<Rightarrow> tool_call \<Rightarrow> tool \<Rightarrow> effect_kind \<Rightarrow> utext \<Rightarrow> string \<Rightarrow> utext \<Rightarrow> time \<Rightarrow> approval_dict" where
  "approval_record aid b tc tool e summary sha scope now =
     \<lparr>ai_id = aid, ai_run_id = ba_run_id b, ai_tool_call_id = tc_id tc, ai_tool_name = tc_name tc, ai_effect = e,
      ai_arguments_summary = Some summary, ai_requires_confirmation = Some (requires_confirmation tool e),
      ai_decision = None, ai_created_at = Some now, ai_resolved_at = None, ai_invocation_id = Some (tc_invocation_id tc),
      ai_tool_version = Some (ts_version (tl_spec tool)), ai_arguments_sha256 = Some sha, ai_approval_scope = Some scope,
      ai_status = None\<rparr>"

definition set_status :: "engine_env \<Rightarrow> string \<Rightarrow> run_status \<Rightarrow> unit wop" where
  "set_status env rid s =
     bind (emit_and_update env rid (no_update\<lparr>ru_status := Some s\<rparr>) []) (\<lambda>_. ret ())"

text \<open>The request is stored and announced, and the run checkpointed as waiting for it.\<close>

definition open_approval ::
  "engine_env \<Rightarrow> batch \<Rightarrow> run_view \<Rightarrow> tool_call list \<Rightarrow> gate_state \<Rightarrow> tool_call \<Rightarrow> effect_kind \<Rightarrow> bool \<Rightarrow> approval_dict \<Rightarrow>
   tool_invocation \<Rightarrow> time \<Rightarrow> unit wop" where
  "open_approval env b run pending st tc e confirm apr ti now =
     bind (save_invocation env ti) (\<lambda>_.
     bind (write_db env (save_approval (en_redactor env) now apr)) (\<lambda>_.
     bind (set_status env (ba_run_id b) RS_waiting_approval) (\<lambda>_.
     bind (emit env run None [(ET_approval_requested,
       [(lit ''approval_id'', VStr (lit (ai_id apr))), (lit ''tool_call_id'', VStr (lit (tc_id tc))),
        (lit ''invocation_id'', VStr (lit (tc_invocation_id tc))), (lit ''tool'', VStr (lit (tc_name tc))),
        (lit ''effect'', VStr (lit (effect_value e))), (lit ''arguments_summary'', opt_text (ai_arguments_summary apr)),
        (lit ''requires_confirmation'', VBool confirm), (lit ''arguments_sha256'', opt_str (ai_arguments_sha256 apr)),
        (lit ''approval_scope'', opt_text (ai_approval_scope apr))])]) (\<lambda>_.
     write_checkpoint env (ba_run_id b) CP_waiting_approval (ba_step b) (gt_messages st) pending (gt_completed st) (ba_usage b)
       RS_waiting_approval (Some (ai_id apr))))))"

definition await_answer :: "engine_env \<Rightarrow> approval_dict \<Rightarrow> approval_answer option wop" where
  "await_answer env apr =
     (case en_approve env of None \<Rightarrow> ret None | Some ask \<Rightarrow> bind tick (\<lambda>n. ret (Some (ask apr n))))"

definition close_approval ::
  "engine_env \<Rightarrow> batch \<Rightarrow> run_view \<Rightarrow> tool_call \<Rightarrow> bool \<Rightarrow> utext \<Rightarrow> approval_dict \<Rightarrow> approval_decision \<Rightarrow> bool \<Rightarrow> unit wop" where
  "close_approval env b run tc confirm scope apr d cancelled =
     bind (read_clock env) (\<lambda>now.
     bind (write_db env (save_approval (en_redactor env) now (apr\<lparr>ai_decision := Some d, ai_resolved_at := Some now\<rparr>))) (\<lambda>_.
     bind (when_op (\<not> cancelled) (set_status env (ba_run_id b) RS_running)) (\<lambda>_.
     bind (emit env run None [(ET_approval_resolved,
       [(lit ''approval_id'', VStr (lit (ai_id apr))), (lit ''tool_call_id'', VStr (lit (tc_id tc))),
        (lit ''decision'', VStr (lit (decision_value d))), (lit ''tool'', VStr (lit (tc_name tc)))])]) (\<lambda>_.
     when_op (d = AD_allow_run \<and> \<not> confirm)
       (set_ctx (ba_run_id b) (\<lambda>c. c\<lparr>rc_approval_scopes := insert scope (rc_approval_scopes c)\<rparr>))))))"

definition ask_approval ::
  "engine_env \<Rightarrow> batch \<Rightarrow> run_view \<Rightarrow> tool_call list \<Rightarrow> gate_state \<Rightarrow> tool_call \<Rightarrow> tool \<Rightarrow> tool_invocation \<Rightarrow>
   (approval_decision \<times> bool \<times> tool_invocation) wop" where
  "ask_approval env b run pending st tc tool ti =
     (let e = effect_for tool tc; confirm = requires_confirmation tool e;
          scope = approval_scope (en_str env) (tc_name tc) e (tc_arguments tc);
          sha = arguments_sha256 (en_hash env) (en_json env) (tc_arguments tc);
          summary = redact_text (en_redactor env) (take 500
            (json_dumps ((en_json env)\<lparr>js_item_sep := lit '', '', js_key_sep := lit '': ''\<rparr>) (VDict (tc_arguments tc))))
      in
      bind (new_id env) (\<lambda>aid.
      bind (read_clock env) (\<lambda>now.
      let apr = approval_record aid b tc tool e summary sha scope now;
          ti' = ti\<lparr>ti_status := TI_waiting_approval, ti_approval_id := Some aid, ti_updated_at := now\<rparr>
      in
      bind (open_approval env b run pending st tc e confirm apr ti' now) (\<lambda>_.
      bind (await_answer env apr) (\<lambda>answer.
      let (d, cancelled) = settle_answer confirm answer in
      bind (close_approval env b run tc confirm scope apr d cancelled) (\<lambda>_.
      ret (d, cancelled, ti')))))))"

section \<open>The gate\<close>

definition is_write :: "effect_kind \<Rightarrow> bool" where
  "is_write e \<longleftrightarrow> e \<in> {EK_workspace_write, EK_destructive}"

text \<open>After approval: a denial is answered, anything else queues the call for execution.\<close>

definition admit_call ::
  "engine_env \<Rightarrow> batch \<Rightarrow> gate_state \<Rightarrow> tool_call \<Rightarrow> tool_invocation \<Rightarrow> approval_decision \<Rightarrow> gate_state wop" where
  "admit_call env b st tc ti d =
     (if d = AD_deny
      then reject_call env b st tc ti (call_error tc (lit ''Approval denied'') ''approval_denied'' ''approval'' False
             ''Ask a human to approve this governed action.'' 0)
      else bind (read_clock env) (\<lambda>now.
           let ti' = ti\<lparr>ti_status := TI_approved, ti_updated_at := now\<rparr>
           in bind (save_invocation env ti') (\<lambda>_. ret (st\<lparr>gt_allowed := gt_allowed st @ [(tc, ti')]\<rparr>))))"

text \<open>One call of the loop; the flag says that the batch ends here (cancelled while waiting).\<close>

definition gate_open ::
  "engine_env \<Rightarrow> batch \<Rightarrow> run_view \<Rightarrow> tool_call list \<Rightarrow> gate_state \<Rightarrow> tool_call \<Rightarrow> tool \<Rightarrow> tool_invocation \<Rightarrow>
   (gate_state \<times> bool) wop" where
  "gate_open env b run pending st tc tool ti0 =
     (let e = effect_for tool tc; policy = replay_policy_for tool tc e;
          sha = arguments_sha256 (en_hash env) (en_json env) (tc_arguments tc);
          errors = en_validate env (tl_spec tool) (tc_arguments tc)
      in
      if errors \<noteq> []
      then bind (reject_call env b st tc ti0
             (invalid_arguments_result (tc_id tc) (tc_invocation_id tc) (tc_name tc) errors)) (\<lambda>st'. ret (st', False))
      else
        bind (read_clock env) (\<lambda>now.
        let ti = ti0\<lparr>ti_status := TI_validated, ti_effect := e, ti_replay_policy := policy,
                       ti_arguments_sha256 := sha, ti_updated_at := now\<rparr> in
        bind (save_invocation env ti) (\<lambda>_.
        bind (emit env run None [(ET_tool_call_validated,
          [(lit ''tool_call_id'', VStr (lit (tc_id tc))), (lit ''invocation_id'', VStr (lit (tc_invocation_id tc))),
           (lit ''name'', VStr (lit (tc_name tc))), (lit ''effect'', VStr (lit (effect_value e))),
           (lit ''arguments_sha256'', VStr (lit sha))])]) (\<lambda>_.
        if \<not> rq_allow_write (ba_request b) \<and> is_write e
        then bind (reject_call env b st tc ti (call_error tc (lit ''Write permission not granted for this run'')
               ''write_not_allowed'' ''permission'' False ''Request a writable run or use read-only verification.'' 0))
               (\<lambda>st'. ret (st', False))
        else
          bind (get_with (\<lambda>w. case w_runs w (ba_run_id b) of None \<Rightarrow> False
                  | Some c \<Rightarrow> approval_scope (en_str env) (tc_name tc) e (tc_arguments tc) \<in> rc_approval_scopes c)) (\<lambda>scoped.
          case gate_decision tool e (rq_approval (ba_request b)) scoped of
            Some d \<Rightarrow> bind (admit_call env b st tc ti d) (\<lambda>st'. ret (st', False))
          | None \<Rightarrow>
              bind (ask_approval env b run pending st tc tool ti) (\<lambda>(d, cancelled, ti').
              if cancelled then ret (st, True)
              else bind (admit_call env b st tc ti' d) (\<lambda>st'. ret (st', False))))))))"

definition gate_call ::
  "engine_env \<Rightarrow> batch \<Rightarrow> run_view \<Rightarrow> tool_call list \<Rightarrow> gate_state \<Rightarrow> tool_call \<Rightarrow> (gate_state \<times> bool) wop" where
  "gate_call env b run pending st tc =
     (case ba_tools b (tc_name tc) of
        None \<Rightarrow> bind (unknown_tool env b st tc) (\<lambda>st'. ret (st', False))
      | Some tool \<Rightarrow>
          bind (resume_invocation env b run st tc tool) (\<lambda>step.
          case step of
            Settled st' \<Rightarrow> ret (st', False)
          | GoOn ti st' \<Rightarrow> gate_open env b run pending st' tc tool ti))"

fun gate_all ::
  "engine_env \<Rightarrow> batch \<Rightarrow> run_view \<Rightarrow> tool_call list \<Rightarrow> gate_state \<Rightarrow> tool_call list \<Rightarrow> (gate_state \<times> bool) wop" where
  "gate_all env b run pending st [] = ret (st, False)"
| "gate_all env b run pending st (tc # tcs) =
     bind (gate_call env b run pending st tc) (\<lambda>(st', stop).
       if stop then ret (st', True) else gate_all env b run pending st' tcs)"

end
