(* ===== verification/Tool_Run.thy ===== *)
theory Tool_Run
  imports Tool_Execution
begin

text \<open>
  The second half of \<open>src/src/agentharness/engine/tool_execution.py\<close>: running one admitted call
  (\<open>_run_tool_invocation\<close>: recovery, attempts with retries, reconciliation, the terminal
  status), and the batch (\<open>execute_batch\<close>) that gates, schedules and records.
\<close>

section \<open>Results of the engine's own making\<close>

text \<open>A failed result with the default attempt count.\<close>

definition plain_error :: "tool_call \<Rightarrow> utext \<Rightarrow> string \<Rightarrow> string \<Rightarrow> bool \<Rightarrow> string \<Rightarrow> tool_result" where
  "plain_error tc content code category retryable hint = call_error tc content code category retryable hint 1"

definition uncertain_error :: "tool_call \<Rightarrow> utext \<Rightarrow> tool_result" where
  "uncertain_error tc content = plain_error tc content ''outcome_indeterminate'' ''recovery'' False
     ''Inspect the target state before deciding whether to retry.''"

definition stamp :: "tool_call \<Rightarrow> nat \<Rightarrow> tool_result \<Rightarrow> tool_result" where
  "stamp tc attempts r = r\<lparr>tr_tool_call_id := tc_id tc, tr_invocation_id := Some (tc_invocation_id tc),
     tr_name := tc_name tc, tr_attempts := attempts\<rparr>"

text \<open>What the handler's outcome becomes; a cancellation not asked for goes on up.\<close>

definition handler_result :: "engine_env \<Rightarrow> tool \<Rightarrow> tool_call \<Rightarrow> bool \<Rightarrow> run_outcome \<Rightarrow> tool_result option" where
  "handler_result env tool tc cancelled out =
     (case out of
        Returned r \<Rightarrow> Some r
      | TimedOut \<Rightarrow> Some (plain_error tc
          (lit ''Tool timed out after '' @ en_fmt_g env (ts_timeout_s (tl_spec tool)) @ lit ''s'') ''tool_timeout'' ''timeout''
          True ''Retry only if the tool is safe or its outcome can be reconciled.'')
      | TaskCancelled \<Rightarrow>
          if cancelled then Some (plain_error tc (lit ''cancelled'') ''cancelled'' ''cancellation'' True '''') else None
      | RaisedExc t \<Rightarrow> Some (plain_error tc (lit ''Tool error: '' @ t) ''tool_exception'' ''tool'' False
          ''Inspect the tool error before deciding whether to retry.''))"

section \<open>Reconciliation\<close>

text \<open>
  \<open>_invoke_reconciler\<close>: a cancel event set while the reconciler runs turns its answer into an
  exception; one that was set before does not.
\<close>

definition invoke_reconciler :: "engine_env \<Rightarrow> tool_call \<Rightarrow> reconcile_outcome wop" where
  "invoke_reconciler env tc =
     bind (is_cancelled env) (\<lambda>early.
     bind tick (\<lambda>n.
     bind (is_cancelled env) (\<lambda>late.
     ret (if \<not> early \<and> late then ReconcileRaised (lit ''reconciliation cancelled'')
          else en_reconcile env (tc_name tc) (tc_arguments tc) n))))"

text \<open>The answer of a tool that is asked; \<open>what\<close> names the outcome in the message.\<close>

definition reconcile_answer ::
  "engine_env \<Rightarrow> tool \<Rightarrow> tool_call \<Rightarrow> string \<Rightarrow> reconcile_outcome \<Rightarrow> tool_result option" where
  "reconcile_answer env tool tc what out =
     (case out of
        Reconciled r \<Rightarrow> Some r
      | NotAResult \<Rightarrow> None
      | ReconcileTimeout \<Rightarrow> Some (uncertain_error tc
          (lit ''Reconciliation timed out after '' @ en_fmt_g env (ts_timeout_s (tl_spec tool)) @ lit ''s''))
      | ReconcileRaised t \<Rightarrow> Some (uncertain_error tc (lit ''Could not reconcile '' @ lit what @ lit '' tool outcome: '' @ t)))"

definition reconcile :: "engine_env \<Rightarrow> tool \<Rightarrow> tool_call \<Rightarrow> string \<Rightarrow> tool_result option wop" where
  "reconcile env tool tc what =
     (if tl_has_reconcile tool
      then bind (invoke_reconciler env tc) (\<lambda>out. ret (reconcile_answer env tool tc what out))
      else ret (Some (uncertain_error tc (lit ''Tool declares reconcile recovery but provides no reconciler''))))"

text \<open>
  A call recovered from a crash or a cancellation whose policy is to reconcile: its stored
  attempts are closed and, when the reconciler answers, the answer is the outcome.
\<close>

definition reconciled_invocation :: "tool_result \<Rightarrow> time \<Rightarrow> tool_invocation \<Rightarrow> tool_invocation" where
  "reconciled_invocation r now ti = concluded (if tr_is_error r then TI_indeterminate else TI_succeeded) r now ti"

definition recover ::
  "engine_env \<Rightarrow> batch \<Rightarrow> string list \<Rightarrow> tool \<Rightarrow> tool_call \<Rightarrow> tool_invocation \<Rightarrow> tool_result option wop" where
  "recover env b recovering tool tc ti =
     (if ti_id ti \<notin> set recovering then ret None
      else
        bind (read_clock env) (\<lambda>now.
        bind (storage env (\<lambda>db. let (db', n) = finish_running_tool_attempts now (ti_id ti) AT_interrupted
                                  ''process_lost'' ''recovery'' db in Inr (n, db'))) (\<lambda>_.
        if ti_replay_policy ti \<noteq> RP_reconcile then ret None
        else
          bind (reconcile env tool tc ''interrupted'') (\<lambda>answer.
          case answer of
            None \<Rightarrow> ret None
          | Some r0 \<Rightarrow>
              let r = stamp tc (ti_attempt_count ti) r0 in
              bind (when_op (tr_is_error r0) (set_ctx (ba_run_id b) (\<lambda>c. c\<lparr>rc_indeterminate_reason :=
                Some (lit ''Could not reconcile the previous '' @ lit (tc_name tc) @ lit '' outcome'')\<rparr>))) (\<lambda>_.
              bind (read_clock env) (\<lambda>now'.
              bind (save_invocation env (reconciled_invocation r now' ti)) (\<lambda>_. ret (Some r))))))))"

section \<open>One attempt\<close>

text \<open>After a timeout or a cancellation under the reconcile policy, the reconciler decides.\<close>

definition after_interruption ::
  "engine_env \<Rightarrow> tool \<Rightarrow> tool_call \<Rightarrow> replay_policy \<Rightarrow> nat \<Rightarrow> tool_result \<Rightarrow> tool_result wop" where
  "after_interruption env tool tc policy attempt r =
     (if tr_is_error r \<and> tr_error_code r \<in> {Some ''tool_timeout'', Some ''cancelled''} \<and> policy = RP_reconcile
      then bind (reconcile env tool tc ''timed out'') (\<lambda>answer. ret
        (case answer of
           Some a \<Rightarrow>
             let s = stamp tc attempt a
             in if tr_is_error a
                then s\<lparr>tr_error_code := Some ''outcome_indeterminate'', tr_error_category := Some ''recovery'',
                       tr_retryable := False\<rparr>
                else s
         | None \<Rightarrow> r\<lparr>tr_retryable := False, tr_recovery_hint := Some
             (lit ''Reconciliation found no completed side effect; retry explicitly.'')\<rparr>))
      else ret r)"

definition hint_or :: "utext option \<Rightarrow> string \<Rightarrow> utext option" where
  "hint_or h d = Some (case h of None \<Rightarrow> lit d | Some t \<Rightarrow> if t = [] then lit d else t)"

text \<open>An error without a code gets one.\<close>

definition name_error :: "bool \<Rightarrow> tool_result \<Rightarrow> tool_result" where
  "name_error cancelled r =
     (let r' = (if tr_is_error r \<and> cancelled \<and> no_code (tr_error_code r)
                then r\<lparr>tr_error_code := Some ''cancelled'', tr_error_category := Some ''cancellation'', tr_retryable := True,
                       tr_recovery_hint := hint_or (tr_recovery_hint r)
                         ''Resume the run to retry this incomplete tool call.''\<rparr>
                else r)
      in if tr_is_error r' \<and> no_code (tr_error_code r')
         then r'\<lparr>tr_error_code := Some ''tool_failed'', tr_error_category := Some (str_or (tr_error_category r') ''tool''),
                 tr_recovery_hint := hint_or (tr_recovery_hint r')
                   ''Inspect the tool result and retry with corrected arguments.''\<rparr>
         else r')"

definition started :: "nat \<Rightarrow> time \<Rightarrow> tool_invocation \<Rightarrow> tool_invocation" where
  "started attempt now ti = ti\<lparr>ti_status := TI_running, ti_attempt_count := attempt, ti_updated_at := now,
     ti_started_at := Some (case ti_started_at ti of None \<Rightarrow> now | Some t \<Rightarrow> t)\<rparr>"

text \<open>The handler itself: from here on the world outside may have changed.\<close>

definition call_handler :: "engine_env \<Rightarrow> tool_call \<Rightarrow> string \<Rightarrow> nat \<Rightarrow> run_outcome wop" where
  "call_handler env tc iid attempt =
     andthen (modify (\<lambda>w. w\<lparr>w_calls := w_calls w @ [(iid, attempt)]\<rparr>))
       (bind tick (\<lambda>n. ret (en_run env (tc_name tc) (tc_arguments tc) n)))"

definition run_attempt ::
  "engine_env \<Rightarrow> tool \<Rightarrow> tool_call \<Rightarrow> nat \<Rightarrow> tool_invocation \<Rightarrow> (tool_result \<times> tool_invocation) wop" where
  "run_attempt env tool tc attempt ti0 =
     bind (read_mono env) (\<lambda>t0.
     bind (read_clock env) (\<lambda>now.
     let ti = started attempt now ti0 in
     bind (save_invocation env ti) (\<lambda>_.
     bind (new_id env) (\<lambda>aid.
     bind (read_clock env) (\<lambda>now'.
     bind (write_db env (start_tool_attempt now' aid (ti_id ti) attempt)) (\<lambda>_.
     bind (call_handler env tc (ti_id ti) attempt) (\<lambda>out.
     bind (is_cancelled env) (\<lambda>cancelled.
     case handler_result env tool tc cancelled out of
       None \<Rightarrow> raise CancelledError
     | Some r0 \<Rightarrow>
         bind (after_interruption env tool tc (ti_replay_policy ti) attempt (stamp tc attempt r0)) (\<lambda>r1.
         bind (is_cancelled env) (\<lambda>cancelled'.
         let r = name_error cancelled' r1 in
         bind (read_mono env) (\<lambda>t1.
         bind (read_clock env) (\<lambda>now''.
         bind (write_db env (\<lambda>db. Inr (finish_tool_attempt now'' aid (if tr_is_error r then AT_failed else AT_succeeded)
                 ((t1 - t0) * 1000) (tr_error_code r) (tr_error_category r) db))) (\<lambda>_.
         ret (r, ti))))))))))))))"

section \<open>Attempts\<close>

definition can_retry :: "tool_result \<Rightarrow> replay_policy \<Rightarrow> nat \<Rightarrow> bool \<Rightarrow> bool" where
  "can_retry r policy left cancelled \<longleftrightarrow> tr_is_error r \<and> tr_retryable r \<and> policy = RP_safe \<and> 0 < left \<and> \<not> cancelled"

definition retry_delay_s :: "nat \<Rightarrow> real \<Rightarrow> real" where
  "retry_delay_s attempt jitter = min 2 (1 / 4 * 2 ^ (attempt - 1)) * jitter"

text \<open>\<open>left\<close> counts the attempts that remain after this one.\<close>

primrec attempt_loop ::
  "engine_env \<Rightarrow> run_view \<Rightarrow> string \<Rightarrow> tool \<Rightarrow> tool_call \<Rightarrow> nat \<Rightarrow> nat \<Rightarrow> tool_invocation \<Rightarrow> tool_result \<Rightarrow>
   (tool_result \<times> tool_invocation) wop" where
  "attempt_loop env run sp tool tc 0 attempt ti r = ret (r, ti)"
| "attempt_loop env run sp tool tc (Suc left) attempt ti r =
     bind (run_attempt env tool tc attempt ti) (\<lambda>(r', ti').
     bind (is_cancelled env) (\<lambda>cancelled.
     if can_retry r' (ti_replay_policy ti') left cancelled
     then
       bind tick (\<lambda>n.
       bind (emit env run (Some sp) [(ET_tool_retry,
         [(lit ''tool_call_id'', VStr (lit (tc_id tc))), (lit ''invocation_id'', VStr (lit (tc_invocation_id tc))),
          (lit ''name'', VStr (lit (tc_name tc))), (lit ''attempt'', VInt (int attempt)),
          (lit ''delay_s'', VFloat (retry_delay_s attempt (en_jitter env n))), (lit ''error_code'', opt_str (tr_error_code r'))])])
         (\<lambda>_. attempt_loop env run sp tool tc left (Suc attempt) ti' r'))
     else ret (r', ti')))"

section \<open>The terminal status\<close>

definition outcome_uncertain :: "replay_policy \<Rightarrow> tool_result \<Rightarrow> bool" where
  "outcome_uncertain policy r \<longleftrightarrow> tr_error_code r = Some ''outcome_indeterminate'' \<or>
     (policy = RP_never \<and> tr_is_error r \<and> tr_error_code r \<in> {Some ''tool_timeout'', Some ''cancelled''})"

definition terminal_status :: "replay_policy \<Rightarrow> tool_result \<Rightarrow> invocation_status" where
  "terminal_status policy r =
     (if outcome_uncertain policy r then TI_indeterminate
      else if tr_error_code r = Some ''cancelled'' then TI_cancelled
      else if tr_is_error r then TI_failed else TI_succeeded)"

definition final_result :: "replay_policy \<Rightarrow> tool_result \<Rightarrow> tool_result" where
  "final_result policy r =
     (if outcome_uncertain policy r
      then r\<lparr>tr_error_code := Some ''outcome_indeterminate'', tr_error_category := Some ''recovery'',
             tr_retryable := False,
             tr_recovery_hint := Some (lit ''Inspect the external system before deciding whether to retry.'')\<rparr>
      else r)"

definition bound_result :: "engine_env \<Rightarrow> batch \<Rightarrow> tool \<Rightarrow> tool_result \<Rightarrow> tool_result wop" where
  "bound_result env b tool r =
     bind (read_clock env) (\<lambda>now. bind (new_id env) (\<lambda>i. bind tick (\<lambda>_. (\<lambda>w.
       case bound_tool_result (en_codec env) (en_redactor env) (en_json env) (en_path env) now i (tl_spec tool)
              (rq_budget (ba_request b)) r (w_files w, w_db w) of
         (r', files, db) \<Rightarrow> (Inr r', w\<lparr>w_files := files, w_db := db\<rparr>)))))"

fun invocation_status_value :: "invocation_status \<Rightarrow> string" where
  "invocation_status_value TI_received = ''received''"
| "invocation_status_value TI_validated = ''validated''"
| "invocation_status_value TI_waiting_approval = ''waiting_approval''"
| "invocation_status_value TI_approved = ''approved''"
| "invocation_status_value TI_running = ''running''"
| "invocation_status_value TI_succeeded = ''succeeded''"
| "invocation_status_value TI_failed = ''failed''"
| "invocation_status_value TI_cancelled = ''cancelled''"
| "invocation_status_value TI_indeterminate = ''indeterminate''"

definition call_fields :: "tool_call \<Rightarrow> pydict" where
  "call_fields tc = [(lit ''tool_call_id'', VStr (lit (tc_id tc))), (lit ''invocation_id'', VStr (lit (tc_invocation_id tc))),
     (lit ''name'', VStr (lit (tc_name tc)))]"

text \<open>The three events that report a result, after the one that reports an open outcome.\<close>

definition report ::
  "engine_env \<Rightarrow> (utext \<Rightarrow> utext) \<Rightarrow> run_view \<Rightarrow> string \<Rightarrow> tool_call \<Rightarrow> invocation_status \<Rightarrow> real \<Rightarrow> tool_result \<Rightarrow> unit wop" where
  "report env lower run sp tc status duration r =
     bind (when_op (status \<in> {TI_cancelled, TI_indeterminate})
       (emit env run (Some sp)
         [(if status = TI_indeterminate then ET_tool_execution_indeterminate else ET_tool_execution_cancelled,
           call_fields tc @ [(lit ''error_code'', opt_str (tr_error_code r))])])) (\<lambda>_.
     emit env run (Some sp)
       [(ET_tool_result, call_fields tc @
          [(lit ''is_error'', VBool (tr_is_error r)),
           (lit ''content_preview'', VStr (redact_text (en_redactor env) (take 300 (tr_content r)))),
           (lit ''duration_ms'', VFloat duration), (lit ''attempts'', VInt (int (tr_attempts r))),
           (lit ''artifact_id'', opt_str (tr_artifact_id r)), (lit ''error_code'', opt_str (tr_error_code r)),
           (lit ''error_category'', opt_str (tr_error_category r)), (lit ''retryable'', VBool (tr_retryable r)),
           (lit ''recovery_hint'', VStr (redact_text (en_redactor env)
              (case tr_recovery_hint r of None \<Rightarrow> [] | Some t \<Rightarrow> t)))]),
        (ET_span_end, [(lit ''kind'', VStr (lit ''tool'')), (lit ''name'', VStr (lit (tc_name tc))),
           (lit ''status'', VStr (lit (invocation_status_value status)))]),
        (ET_tool_call_end, call_fields tc @
          [(lit ''is_error'', VBool (tr_is_error r)),
           (lit ''arguments_summary'', VStr (redact_text (en_redactor env)
              (summarize_tool_arguments (en_str env) lower (VDict (tc_arguments tc)))))])])"

section \<open>One admitted call\<close>

definition cancelled_before_start :: "tool_call \<Rightarrow> tool_result" where
  "cancelled_before_start tc = call_error tc (lit ''cancelled'') ''cancelled'' ''cancellation'' True
     ''Resume the run when cancellation is cleared.'' 0"

definition not_run :: "tool_call \<Rightarrow> tool_result" where
  "not_run tc = plain_error tc (lit ''Tool did not run'') ''tool_not_run'' ''tool'' False ''''"

definition executor_value :: "executor \<Rightarrow> string" where
  "executor_value e = (case e of EX_local \<Rightarrow> ''local'' | EX_docker \<Rightarrow> ''docker'')"

definition announce_start :: "engine_env \<Rightarrow> batch \<Rightarrow> run_view \<Rightarrow> string \<Rightarrow> tool_call \<Rightarrow> unit wop" where
  "announce_start env b run sp tc =
     (let kind = [(lit ''kind'', VStr (lit ''tool'')), (lit ''name'', VStr (lit (tc_name tc))),
                  (lit ''tool_call_id'', VStr (lit (tc_id tc))), (lit ''invocation_id'', VStr (lit (tc_invocation_id tc)))]
      in emit env run (Some sp)
           [(ET_tool_execution_started, kind @
              (if tc_name tc = ''shell''
               then [(lit ''executor'', VStr (lit (executor_value (sh_executor (rq_shell (ba_request b))))))] else [])),
            (ET_span_start, kind)])"

text \<open>After the attempts: bound the result, settle the terminal status, store and report it.\<close>

definition conclude ::
  "engine_env \<Rightarrow> (utext \<Rightarrow> utext) \<Rightarrow> batch \<Rightarrow> run_view \<Rightarrow> string \<Rightarrow> tool \<Rightarrow> tool_call \<Rightarrow> real \<Rightarrow> tool_result \<Rightarrow>
   tool_invocation \<Rightarrow> tool_result wop" where
  "conclude env lower b run sp tool tc t0 r ti =
     bind (read_mono env) (\<lambda>t1.
     let duration = (t1 - t0) * 1000 in
     bind (bound_result env b tool (r\<lparr>tr_duration_ms := Some duration\<rparr>)) (\<lambda>r1.
     let status = terminal_status (ti_replay_policy ti) r1; r2 = final_result (ti_replay_policy ti) r1 in
     bind (when_op (outcome_uncertain (ti_replay_policy ti) r1) (set_ctx (ba_run_id b) (\<lambda>c. c\<lparr>rc_indeterminate_reason :=
       Some (lit ''Outcome of '' @ lit (tc_name tc) @ lit '' is indeterminate after timeout or cancellation'')\<rparr>))) (\<lambda>_.
     bind (read_clock env) (\<lambda>now.
     bind (save_invocation env (concluded status r2 now ti)) (\<lambda>_.
     bind (report env lower run sp tc status duration r2) (\<lambda>_. ret r2))))))"

definition run_tool_invocation ::
  "engine_env \<Rightarrow> (utext \<Rightarrow> utext) \<Rightarrow> batch \<Rightarrow> run_view \<Rightarrow> string list \<Rightarrow> tool \<Rightarrow> tool_call \<Rightarrow> tool_invocation \<Rightarrow> tool_result wop" where
  "run_tool_invocation env lower b run recovering tool tc ti =
     bind (is_cancelled env) (\<lambda>cancelled.
     if cancelled then ret (cancelled_before_start tc)
     else
       bind (new_id env) (\<lambda>sp.
       bind (read_mono env) (\<lambda>t0.
       bind (announce_start env b run sp tc) (\<lambda>_.
       bind (recover env b recovering tool tc ti) (\<lambda>recovered.
       case recovered of
         Some r \<Rightarrow> ret r
       | None \<Rightarrow>
           bind (attempt_loop env run sp tool tc (ts_max_attempts (tl_spec tool)) (Suc (ti_attempt_count ti)) ti (not_run tc))
             (\<lambda>(r, ti'). conclude env lower b run sp tool tc t0 r ti'))))))"

section \<open>The batch\<close>

type_synonym queued = "(world, py_error + tool_result) batch_item"

text \<open>
  An admitted call as the scheduler sees it. \<open>self.tools[tc.name]\<close> is there: the gate found it.
\<close>

definition queue_item ::
  "engine_env \<Rightarrow> (utext \<Rightarrow> utext) \<Rightarrow> batch \<Rightarrow> run_view \<Rightarrow> string list \<Rightarrow> tool \<Rightarrow> tool_call \<Rightarrow> tool_invocation \<Rightarrow> queued" where
  "queue_item env lower b run recovering tool tc ti =
     (let e = effect_for tool tc
      in \<lparr>bi_effect = e,
          bi_fn = (\<lambda>w. case run_tool_invocation env lower b run recovering tool tc ti w of (r, w') \<Rightarrow> (w', r)),
          bi_browser = resolve_browser_context_id (en_str env) (ba_tools b) tc,
          bi_parallel_safe = Some (parallel_safe_for tool tc e)\<rparr>)"

fun queue_calls ::
  "engine_env \<Rightarrow> (utext \<Rightarrow> utext) \<Rightarrow> batch \<Rightarrow> run_view \<Rightarrow> string list \<Rightarrow> (tool_call \<times> tool_invocation) list \<Rightarrow> queued list wop" where
  "queue_calls env lower b run recovering [] = ret []"
| "queue_calls env lower b run recovering ((tc, ti) # rest) =
     (case ba_tools b (tc_name tc) of
        None \<Rightarrow> raise (KeyError (tc_name tc))
      | Some tool \<Rightarrow>
          let e = effect_for tool tc in
          bind (emit env run None [(ET_tool_execution_queued,
            call_fields tc @ [(lit ''effect'', VStr (lit (effect_value e))),
                              (lit ''parallel_safe'', VBool (parallel_safe_for tool tc e))])]) (\<lambda>_.
          bind (queue_calls env lower b run recovering rest) (\<lambda>items.
          ret (queue_item env lower b run recovering tool tc ti # items))))"

text \<open>
  The scheduler's groups, run in the order the event loop completes them: \<open>en_order\<close> picks an
  order of the slots inside the groups. Each slot gets its result; an exception ends the batch.
\<close>

fun run_slots :: "queued list \<Rightarrow> nat list \<Rightarrow> tool_result option list \<Rightarrow> tool_result option list wop" where
  "run_slots items [] rs = ret rs"
| "run_slots items (i # is) rs =
     bind (\<lambda>w. case bi_fn (items ! i) w of (w', r) \<Rightarrow> (r, w')) (\<lambda>r. run_slots items is (rs[i := Some r]))"

definition run_queue :: "engine_env \<Rightarrow> queued list \<Rightarrow> tool_result list wop" where
  "run_queue env items =
     bind (run_slots items (en_order env (map (map fst) (plan_batch items))) (replicate (length items) None))
       (\<lambda>rs. ret (concat (map (case_option [] (\<lambda>r. [r])) rs)))"

text \<open>Recording: an incomplete result leaves its call pending, so that a resume runs it again.\<close>

definition incomplete_result :: "tool_invocation option \<Rightarrow> bool \<Rightarrow> tool_result \<Rightarrow> bool" where
  "incomplete_result saved cancelled r \<longleftrightarrow>
     (case saved of None \<Rightarrow> False | Some ti \<Rightarrow> ti_status ti = TI_indeterminate) \<or> (cancelled \<and> tr_is_error r)"

definition completed_key :: "tool_result \<Rightarrow> string" where
  "completed_key r = str_or (tr_invocation_id r) (tr_tool_call_id r)"

fun record_results ::
  "engine_env \<Rightarrow> batch \<Rightarrow> message list \<Rightarrow> string list \<Rightarrow> tool_result list \<Rightarrow> (message list \<times> string list) wop" where
  "record_results env b ms completed [] = ret (ms, completed)"
| "record_results env b ms completed (r # rs) =
     bind (case tr_invocation_id r of
             None \<Rightarrow> ret None
           | Some i \<Rightarrow> if i = '''' then ret None else query env (get_tool_invocation (en_load_result env) i)) (\<lambda>saved.
     bind (is_cancelled env) (\<lambda>cancelled.
     if incomplete_result saved cancelled r then record_results env b ms completed rs
     else
       bind (append_result env b ms r) (\<lambda>ms'.
       bind (set_ctx (ba_run_id b) (\<lambda>c. c\<lparr>rc_completed := add_id (completed_key r) (rc_completed c)\<rparr>)) (\<lambda>_.
       record_results env b ms' (add_id (completed_key r) completed) rs))))"

text \<open>What a batch hands back: the results, and the caller's messages and completed ids.\<close>

type_synonym batch_outcome = "tool_result list \<times> message list \<times> string list"

definition finish_batch ::
  "engine_env \<Rightarrow> (utext \<Rightarrow> utext) \<Rightarrow> batch \<Rightarrow> run_view \<Rightarrow> tool_call list \<Rightarrow> gate_state \<Rightarrow> batch_outcome wop" where
  "finish_batch env lower b run pending st =
     bind (queue_calls env lower b run (gt_recovering st) (gt_allowed st)) (\<lambda>items.
     bind (run_queue env items) (\<lambda>results.
     bind (record_results env b (gt_messages st) (gt_completed st) results) (\<lambda>(ms, completed).
     let left = not_completed completed pending in
     bind (set_ctx (ba_run_id b) (\<lambda>c. c\<lparr>rc_pending := left, rc_completed := completed\<rparr>)) (\<lambda>_.
     bind (write_checkpoint env (ba_run_id b) CP_tool_batch (ba_step b) ms left completed (ba_usage b) RS_running None) (\<lambda>_.
     ret (gt_results st @ results, ms, completed))))))"

definition execute_batch ::
  "engine_env \<Rightarrow> (utext \<Rightarrow> utext) \<Rightarrow> batch \<Rightarrow> message list \<Rightarrow> tool_call list \<Rightarrow> string list \<Rightarrow> batch_outcome wop" where
  "execute_batch env lower b ms tcs completed =
     bind (query env (\<lambda>db. Inr (get_run (ba_run_id b) db))) (\<lambda>found.
     case found of
       None \<Rightarrow> raise AssertionError
     | Some run \<Rightarrow>
         let pending = not_completed completed tcs in
         if pending = [] then ret ([], ms, completed)
         else
           bind (set_ctx (ba_run_id b) (\<lambda>c. c\<lparr>rc_completed := completed, rc_pending := pending\<rparr>)) (\<lambda>_.
           bind (write_checkpoint env (ba_run_id b) CP_tool_batch (ba_step b) ms pending completed (ba_usage b) RS_running None) (\<lambda>_.
           bind (gate_all env b run pending
                   \<lparr>gt_messages = ms, gt_completed = completed, gt_results = [], gt_allowed = [], gt_recovering = []\<rparr> pending)
             (\<lambda>(st, stop).
               if stop then ret (gt_results st, gt_messages st, gt_completed st)
               else finish_batch env lower b run pending st))))"

section \<open>A concrete batch\<close>

text \<open>Small numbers: evaluation writes naturals in unary.\<close>

definition demo_budget :: budget_config where
  "demo_budget =
     \<lparr>b_max_steps = 50, b_max_wall_time_s = 600, b_max_tokens = 200, b_max_context_tokens = 100,
      b_max_output_length = 50, b_max_delegate_depth = 3, b_max_concurrent_children = 4, b_max_cost_usd = None,
      b_max_tool_calls_per_turn = 16, b_max_tool_calls = 18, b_max_concurrent_tools = 4, b_max_tool_argument_bytes = 90,
      b_max_tool_result_bytes = 90, b_max_inline_tool_result_bytes = 90, b_context_compact_enabled = True,
      b_context_compact_ratio = 1, b_context_compact_keep_recent = 2\<rparr>"

definition demo_request :: run_request where
  "demo_request = \<lparr>rq_message = lit ''do it'', rq_session_id = None, rq_system = None, rq_model = None,
     rq_reasoning_effort = None, rq_provider = ''p'', rq_approval = AM_auto, rq_budget = demo_budget,
     rq_retry = default_retry, rq_pricing = \<lparr>pr_input = None, pr_output = None, pr_cached_input = None\<rparr>,
     rq_shell = \<lparr>sh_executor = EX_local, sh_docker_image = [], sh_docker_network = False,
       sh_docker_cpus = 1, sh_docker_memory_mb = 5, sh_docker_pids_limit = 1\<rparr>, rq_cwd = None, rq_extra_dirs = [], rq_skills_dirs = [], rq_metadata = [],
     rq_verification = None, rq_parent_run_id = None, rq_root_run_id = None, rq_delegate_depth = 0,
     rq_allow_write = True, rq_tools = None\<rparr>"

definition demo_tool :: tool where
  "demo_tool = \<lparr>tl_spec = \<lparr>ts_name = ''t'', ts_description = [], ts_parameters = [], ts_effect = EK_destructive,
       ts_requires_approval = True, ts_version = ''1'', ts_timeout_s = 1, ts_max_attempts = 2,
       ts_replay_policy = Some RP_never, ts_parallel_safe = None, ts_max_result_bytes = 90\<rparr>,
     tl_effect_for = None, tl_replay_policy_for = None, tl_parallel_safe_for = None, tl_browser_bound = False,
     tl_has_reconcile = False, tl_requires_confirmation = False\<rparr>"

definition demo_call :: tool_call where
  "demo_call = \<lparr>tc_id = ''c'', tc_invocation_id = ''i'', tc_name = ''t'', tc_arguments = [], tc_arguments_raw = [],
     tc_ordinal = 0, tc_status = CS_pending\<rparr>"

definition demo_batch :: batch where
  "demo_batch = \<lparr>ba_run_id = ''r'', ba_session_id = ''s'', ba_request = demo_request,
     ba_tools = (\<lambda>n. if n = ''t'' then Some demo_tool else None), ba_step = 1, ba_usage = default_usage\<rparr>"

definition asked_env :: engine_env where
  "asked_env = demo_env\<lparr>en_approve := Some (\<lambda>_ _. AnswerDecision AD_allow_once)\<rparr>"

definition demo_view :: run_view where
  "demo_view = \<lparr>rv_row = demo_run ''r'' RS_running, rv_user_summary = None, rv_depth = 0, rv_child_count = 0, rv_actor = VNone\<rparr>"

definition empty_gate :: gate_state where
  "empty_gate = \<lparr>gt_messages = [], gt_completed = [], gt_results = [], gt_allowed = [], gt_recovering = []\<rparr>"

definition allowed_ids :: "py_error + gate_state \<times> bool \<Rightarrow> string list" where
  "allowed_ids r = (case r of Inl _ \<Rightarrow> [] | Inr (st, _) \<Rightarrow> map (tc_invocation_id \<circ> fst) (gt_allowed st))"


text \<open>What unfolds when an operation is run on a concrete world; redaction stays as it is.\<close>

lemmas op_eval = bind_def ret_def raise_def andthen_def get_with_def modify_def when_op_def tick_def read_clock_def
  read_mono_def new_id_def is_cancelled_def storage_def write_db_def query_def ensure_ctx_def set_ctx_def make_event_def
  emit_and_update_def emit_def context_of_def Let_def fun_upd_def new_context_def

lemmas store_eval = update_run_def append_unlocked_def bump_global_seq_unlocked_def get_run_def decorate_run_def
  save_tool_invocation_def invocation_of_def sql_upsert_def sql_find_def sql_has_def get_tool_invocation_def
  sql_update_def save_approval_def save_checkpoint_def sql_replace_def max_run_seq_def no_update_def
  set_run_fields_def merge_invocation_def tool_invocation_from_row_def

lemmas gate_eval = resume_invocation_def resume_found_def gate_open_def gate_call_def admit_call_def ask_approval_def open_approval_def
  await_answer_def close_approval_def settle_answer_def save_invocation_def fresh_invocation_def effect_for_def
  replay_policy_for_def resolved_replay_policy_def set_status_def write_checkpoint_def store_checkpoint_def gate_decision_def
  force_approval_def requires_confirmation_def is_write_def next_checkpoint_def approval_record_def

lemmas demo_batch_eval = demo_env_def demo_world_def demo_db_def demo_run_def empty_db_def demo_batch_def demo_request_def
  demo_tool_def demo_call_def demo_view_def empty_gate_def asked_env_def

end
