(* ===== verification/Tool_Frames.thy ===== *)
theory Tool_Frames
  imports Run_Progress Tool_Run
begin

text \<open>
  Reasoning about the tool executor: which of its operations leave the stored invocations, the
  handler calls and the granted scopes alone (\<open>frames\<close>), and a calculus of triples whose third
  part is what holds when an operation raises or the process dies.
\<close>

section \<open>Frames\<close>

definition frames :: "(world \<Rightarrow> 'v) \<Rightarrow> 'a wop \<Rightarrow> bool" where
  "frames f m \<longleftrightarrow> (\<forall>w. f (snd (m w)) = f w)"

named_theorems frames_intros "rules that decompose frames along the combinators"

lemma framesD: "frames f m \<Longrightarrow> m w = (r, w') \<Longrightarrow> f w' = f w"
  by (metis frames_def snd_conv)

lemma frames_ret [frames_intros]: "frames f (ret a)"
  by (simp add: frames_def ret_def)

lemma frames_raise [frames_intros]: "frames f (raise e)"
  by (simp add: frames_def raise_def)

lemma frames_get [frames_intros]: "frames f (get_with g)"
  by (simp add: frames_def get_with_def)

lemma frames_bind [frames_intros]: "frames f m \<Longrightarrow> (\<And>a. frames f (g a)) \<Longrightarrow> frames f (bind m g)"
  unfolding frames_def
proof
  fix w
  assume m: "\<forall>w. f (snd (m w)) = f w" and g: "\<And>a. \<forall>w. f (snd (g a w)) = f w"
  obtain r w' where r: "m w = (r, w')" by (cases "m w")
  with m have "f w' = f w" by (metis snd_conv)
  with g r show "f (snd (bind m g w)) = f w" by (cases r) (simp_all add: bind_def)
qed

lemma frames_when [frames_intros]: "frames f m \<Longrightarrow> frames f (when_op b m)"
  by (cases b) (simp_all add: when_op_def frames_ret)

lemma frames_if [frames_intros]: "(b \<Longrightarrow> frames f m) \<Longrightarrow> (\<not> b \<Longrightarrow> frames f n) \<Longrightarrow> frames f (if b then m else n)"
  by simp

lemma frames_option [frames_intros]:
  "frames f m \<Longrightarrow> (\<And>a. frames f (g a)) \<Longrightarrow> frames f (case x of None \<Rightarrow> m | Some a \<Rightarrow> g a)"
  by (cases x) simp_all

lemma frames_prod [frames_intros]: "(\<And>a b. frames f (g a b)) \<Longrightarrow> frames f (case p of (a, b) \<Rightarrow> g a b)"
  by (cases p) simp

lemma frames_Let [frames_intros]: "(\<And>a. frames f (g a)) \<Longrightarrow> frames f (Let x g)"
  by (simp add: Let_def)

lemma frames_mono: "frames f m \<Longrightarrow> (\<And>w w'. f w = f w' \<Longrightarrow> g w = g w') \<Longrightarrow> frames g m"
  unfolding frames_def by blast

text \<open>What the executor's guarantees depend on.\<close>

definition core :: "world \<Rightarrow> invocation_row list \<times> (string \<times> nat) list \<times> (string \<Rightarrow> utext set)" where
  "core w = (d_invocations (w_db w), w_calls w, \<lambda>rid. rc_approval_scopes (context_of rid w))"

lemma core_tick [simp]: "core (w\<lparr>w_tick := n\<rparr>) = core w"
  by (simp add: core_def context_of_def)

lemma frames_tick [frames_intros]: "frames core tick"
  by (simp add: frames_def tick_def)

lemma frames_clock [frames_intros]: "frames core (read_clock env)"
  unfolding read_clock_def by (intro frames_intros)

lemma frames_mono_clock [frames_intros]: "frames core (read_mono env)"
  unfolding read_mono_def by (intro frames_intros)

lemma frames_new_id [frames_intros]: "frames core (new_id env)"
  unfolding new_id_def by (intro frames_intros)

lemma frames_cancelled [frames_intros]: "frames core (is_cancelled env)"
  unfolding is_cancelled_def by (intro frames_intros)

lemma frames_storage:
  assumes "\<And>db a db'. f db = Inr (a, db') \<Longrightarrow> d_invocations db' = d_invocations db"
  shows "frames core (storage env f)"
proof -
  have "core (snd (storage env f w)) = core w" for w
  proof (cases "f (w_db w)")
    case (Inl e)
    then show ?thesis by (simp add: storage_def Let_def)
  next
    case (Inr p)
    then obtain a db where "f (w_db w) = Inr (a, db)" by (cases p) simp
    with assms [OF this] show ?thesis by (simp add: storage_def Let_def core_def context_of_def)
  qed
  then show ?thesis by (simp add: frames_def)
qed

lemma frames_query [frames_intros]: "frames core (query env f)"
  unfolding query_def by (rule frames_storage) (auto simp: map_sum_def split: sum.splits)

lemma frames_write:
  assumes "\<And>db db'. f db = Inr db' \<Longrightarrow> d_invocations db' = d_invocations db"
  shows "frames core (write_db env f)"
  unfolding write_db_def by (rule frames_storage) (auto simp: map_sum_def assms split: sum.splits)

lemma frames_set_ctx [frames_intros]:
  assumes "\<And>c. rc_approval_scopes (f c) = rc_approval_scopes c"
  shows "frames core (set_ctx rid f)"
  using assms by (auto simp: frames_def set_ctx_def modify_def core_def context_of_def fun_eq_iff)

lemma frames_ensure_ctx [frames_intros]: "frames core (ensure_ctx rid)"
  by (auto simp: frames_def ensure_ctx_def core_def context_of_def fun_eq_iff)

section \<open>Frames of the engine's operations\<close>

lemma frames_make_event [frames_intros]: "frames core (make_event env run ty p sp)"
  unfolding make_event_def by (intro frames_intros)

lemma frames_make_events [frames_intros]: "frames core (make_events env run sp evs)"
  by (induction env run sp evs rule: make_events.induct) (simp_all only: make_events.simps, intro frames_intros, intro frames_intros)

lemma frames_emit_and_update [frames_intros]: "frames core (emit_and_update env rid u evs)"
  unfolding emit_and_update_def
  by (intro frames_intros frames_storage) (auto simp: map_sum_def dest: update_run_frame(4) split: sum.splits)

lemma frames_emit [frames_intros]: "frames core (emit env run sp evs)"
  unfolding emit_def by (intro frames_intros)

lemma frames_checkpoint [frames_intros]: "frames core (write_checkpoint env rid phase step ms pending completed u status token)"
  unfolding write_checkpoint_def store_checkpoint_def
  by (intro frames_intros frames_write) (auto simp: save_checkpoint_def split: if_splits)

lemma frames_set_status [frames_intros]: "frames core (set_status env rid s)"
  unfolding set_status_def by (intro frames_intros)

lemma frames_append_result [frames_intros]: "frames core (append_result env b ms r)"
  unfolding append_result_def
  by (intro frames_intros frames_storage)
    (auto simp: append_tool_result_def save_message_def Let_def split: if_splits sum.splits)

lemma frames_drop_results [frames_intros]: "frames core (drop_results env b ms tc)"
  unfolding drop_results_def
  by (intro frames_storage) (auto simp: drop_tool_result_messages_def delete_messages_def Let_def split: if_splits)

lemma frames_finish_running [frames_intros]:
  "frames core (storage env (\<lambda>db. let (db', n) = finish_running_tool_attempts now i s c g db in Inr (n, db')))"
  by (intro frames_storage) (auto simp: finish_running_tool_attempts_def Let_def)

lemma frames_start_attempt [frames_intros]: "frames core (write_db env (start_tool_attempt now aid iid n))"
  by (intro frames_write) (auto simp: start_tool_attempt_def split: if_splits)

lemma frames_finish_attempt [frames_intros]:
  "frames core (write_db env (\<lambda>db. Inr (finish_tool_attempt now aid s d c g db)))"
  by (intro frames_write) (auto simp: finish_tool_attempt_def)

lemma frames_save_approval [frames_intros]: "frames core (write_db env (save_approval rd now a))"
  by (intro frames_write) (auto simp: save_approval_def split: if_splits)

lemma frames_replay_stored [frames_intros]: "frames core (replay_stored env b st tc r)"
  unfolding replay_stored_def by (intro frames_intros)

lemma frames_reconcile [frames_intros]: "frames core (reconcile env tool tc what)"
  unfolding reconcile_def invoke_reconciler_def by (intro frames_intros)

lemma frames_after_interruption [frames_intros]: "frames core (after_interruption env tool tc policy n r)"
  unfolding after_interruption_def by (intro frames_intros)

lemma frames_report [frames_intros]: "frames core (report env lower run sp tc s d r)"
  unfolding report_def by (intro frames_intros)

lemma frames_announce [frames_intros]: "frames core (announce_start env b run sp tc)"
  unfolding announce_start_def Let_def by (intro frames_intros)

lemma bound_tool_result_frame:
  "bound_tool_result co rd js path now i spec bud r (files, db) = (r', files', db') \<Longrightarrow> d_invocations db' = d_invocations db"
  by (auto simp: bound_tool_result_def register_artifact_def Let_def split: if_splits prod.splits option.splits)

lemma frames_bound_result [frames_intros]: "frames core (bound_result env b tool r)"
proof -
  have "frames core (\<lambda>w. case bound_tool_result (en_codec env) (en_redactor env) (en_json env) (en_path env) now i (tl_spec tool)
              (rq_budget (ba_request b)) r (w_files w, w_db w) of
         (r', files, db) \<Rightarrow> (Inr r', w\<lparr>w_files := files, w_db := db\<rparr>))" for now i
    by (auto simp: frames_def core_def context_of_def dest: bound_tool_result_frame split: prod.splits)
  then show ?thesis unfolding bound_result_def by (intro frames_intros)
qed

section \<open>Projections\<close>

definition scopes :: "world \<Rightarrow> string \<Rightarrow> utext set" where
  "scopes w = (\<lambda>rid. rc_approval_scopes (context_of rid w))"

definition invs :: "world \<Rightarrow> invocation_row list" where
  "invs w = d_invocations (w_db w)"

lemma core_eq: "core w = (invs w, w_calls w, scopes w)"
  by (simp add: core_def invs_def scopes_def)

lemma frames_scopes: "frames core m \<Longrightarrow> frames scopes m"
  by (erule frames_mono) (simp add: core_eq)

lemma frames_calls: "frames core m \<Longrightarrow> frames w_calls m"
  by (erule frames_mono) (simp add: core_eq)

lemma frames_invs: "frames core m \<Longrightarrow> frames (\<lambda>w. (invs w, w_calls w)) m"
  by (erule frames_mono) (simp add: core_eq)

lemmas core_leaves = frames_tick frames_clock frames_mono_clock frames_new_id frames_cancelled frames_query
  frames_ensure_ctx frames_emit_and_update frames_emit frames_checkpoint frames_set_status frames_append_result
  frames_drop_results frames_finish_running frames_start_attempt frames_finish_attempt frames_save_approval
  frames_replay_stored frames_reconcile frames_after_interruption frames_report frames_announce frames_bound_result

lemmas scopes_leaves = core_leaves [THEN frames_scopes] frames_set_ctx [THEN frames_scopes]
lemmas calls_leaves = core_leaves [THEN frames_calls] frames_set_ctx [THEN frames_calls]
lemmas invs_leaves = core_leaves [THEN frames_invs] frames_set_ctx [THEN frames_invs]

lemma save_invocation_effect:
  "fst (save_invocation env ti w) = Inl e \<Longrightarrow> core (snd (save_invocation env ti w)) = core w"
  "w_calls (snd (save_invocation env ti w)) = w_calls w"
  "scopes (snd (save_invocation env ti w)) = scopes w"
  by (auto simp: save_invocation_def write_db_def storage_def Let_def core_def scopes_def context_of_def
      split: sum.splits)

lemma frames_save_scopes: "frames scopes (save_invocation env ti)"
  by (simp add: frames_def save_invocation_effect)

lemma frames_save_calls: "frames w_calls (save_invocation env ti)"
  by (simp add: frames_def save_invocation_effect)

section \<open>Returned values\<close>

definition returns :: "('a \<Rightarrow> bool) \<Rightarrow> 'a wop \<Rightarrow> bool" where
  "returns V m \<longleftrightarrow> (\<forall>w a w'. m w = (Inr a, w') \<longrightarrow> V a)"

named_theorems returns_intros "rules that decompose returns along the combinators"

lemma returnsD: "returns V m \<Longrightarrow> m w = (Inr a, w') \<Longrightarrow> V a"
  unfolding returns_def by blast

lemma returns_ret [returns_intros]: "V a \<Longrightarrow> returns V (ret a)"
  by (simp add: returns_def ret_Inr)

lemma returns_raise [returns_intros]: "returns V (raise e)"
  by (simp add: returns_def raise_def)

lemma returns_bind_with:
  assumes "\<And>w a w'. m w = (Inr a, w') \<Longrightarrow> U a" and "\<And>a. U a \<Longrightarrow> returns V (f a)"
  shows "returns V (bind m f)"
  using assms unfolding returns_def bind_Inr by metis

lemma returns_bind_returns: "returns U m \<Longrightarrow> (\<And>a. U a \<Longrightarrow> returns V (f a)) \<Longrightarrow> returns V (bind m f)"
  by (rule returns_bind_with) (auto dest: returnsD)

lemma returns_bind [returns_intros]: "(\<And>a. returns V (f a)) \<Longrightarrow> returns V (bind m f)"
  by (rule returns_bind_with [where U = "\<lambda>_. True"]) simp_all

lemma returns_if [returns_intros]: "(c \<Longrightarrow> returns V m) \<Longrightarrow> (\<not> c \<Longrightarrow> returns V n) \<Longrightarrow> returns V (if c then m else n)"
  by simp

lemma returns_option [returns_intros]:
  "(x = None \<Longrightarrow> returns V m) \<Longrightarrow> (\<And>a. x = Some a \<Longrightarrow> returns V (g a)) \<Longrightarrow> returns V (case x of None \<Rightarrow> m | Some a \<Rightarrow> g a)"
  by (cases x) simp_all

lemma returns_prod [returns_intros]: "(\<And>a b. p = (a, b) \<Longrightarrow> returns V (g a b)) \<Longrightarrow> returns V (case p of (a, b) \<Rightarrow> g a b)"
  by (cases p) simp

lemma returns_Let [returns_intros]: "(\<And>a. a = x \<Longrightarrow> returns V (g a)) \<Longrightarrow> returns V (Let x g)"
  by (simp add: Let_def)

section \<open>Triples\<close>

text \<open>
  \<open>triple I P m Q\<close>: started where \<open>P\<close> holds, \<open>m\<close> returns with \<open>Q\<close>, or stops (an exception, the
  death of the process) where \<open>I\<close> holds.
\<close>

definition triple :: "(world \<Rightarrow> bool) \<Rightarrow> (world \<Rightarrow> bool) \<Rightarrow> 'a wop \<Rightarrow> ('a \<Rightarrow> world \<Rightarrow> bool) \<Rightarrow> bool" where
  "triple I P m Q \<longleftrightarrow> (\<forall>w. P w \<longrightarrow> (case m w of (Inl _, w') \<Rightarrow> I w' | (Inr a, w') \<Rightarrow> Q a w'))"

lemma tripleI:
  "(\<And>w e w'. P w \<Longrightarrow> m w = (Inl e, w') \<Longrightarrow> I w') \<Longrightarrow> (\<And>w a w'. P w \<Longrightarrow> m w = (Inr a, w') \<Longrightarrow> Q a w') \<Longrightarrow> triple I P m Q"
  by (auto simp: triple_def split: prod.splits sum.splits)

lemma triple_Inr: "triple I P m Q \<Longrightarrow> P w \<Longrightarrow> m w = (Inr a, w') \<Longrightarrow> Q a w'"
  by (force simp: triple_def)

lemma triple_Inl: "triple I P m Q \<Longrightarrow> P w \<Longrightarrow> m w = (Inl e, w') \<Longrightarrow> I w'"
  by (force simp: triple_def)

lemma triple_any: "triple I P m Q \<Longrightarrow> P w \<Longrightarrow> (\<And>a w'. Q a w' \<Longrightarrow> I w') \<Longrightarrow> I (snd (m w))"
  by (cases "m w"; cases "fst (m w)") (auto simp: triple_def split: sum.splits)

lemma triple_bind: "triple I P m Q \<Longrightarrow> (\<And>a. triple I (Q a) (f a) R) \<Longrightarrow> triple I P (bind m f) R"
  by (rule tripleI) (auto simp: bind_def dest: triple_Inr triple_Inl split: prod.splits sum.splits)

lemma triple_conseq: "triple I P m Q \<Longrightarrow> (\<And>w. P' w \<Longrightarrow> P w) \<Longrightarrow> (\<And>a w. Q a w \<Longrightarrow> Q' a w) \<Longrightarrow> triple I P' m Q'"
  by (rule tripleI) (auto dest: triple_Inr triple_Inl)

lemma triple_ret: "(\<And>w. P w \<Longrightarrow> Q a w) \<Longrightarrow> triple I P (ret a) Q"
  by (simp add: triple_def ret_def)

lemma triple_raise: "(\<And>w. P w \<Longrightarrow> I w) \<Longrightarrow> triple I P (raise e) Q"
  by (simp add: triple_def raise_def)

text \<open>An operation that frames what the assertion reads.\<close>

lemma triple_frame:
  assumes "frames f m" and "\<And>w. P (f w) \<Longrightarrow> I w"
  shows "triple I (\<lambda>w. P (f w)) m (\<lambda>_ w. P (f w))"
  using assms by (intro tripleI) (auto dest: framesD)

lemma triple_step:
  assumes "frames f m" and "\<And>w. P (f w) \<Longrightarrow> I w" and "\<And>a. triple I (\<lambda>w. P (f w)) (g a) R"
  shows "triple I (\<lambda>w. P (f w)) (bind m g) R"
  by (rule triple_bind [OF triple_frame [OF assms(1,2)] assms(3)])

lemma triple_assume: "(c \<Longrightarrow> triple I P m Q) \<Longrightarrow> triple I (\<lambda>w. c \<and> P w) m Q"
  by (auto simp: triple_def)

end
