(* ===== verification/Tool_Once.thy ===== *)
theory Tool_Once
  imports Tool_Frames Lease_Recovery
begin

text \<open>
  How often a tool's handler is started: within one execution the attempts are bounded, and
  across crashes and resumes a call that must not be replayed is started at most once.
\<close>

section \<open>Attempts of one execution\<close>

lemmas calls_frames = frames_intros calls_leaves frames_save_calls

lemma recover_calls: "frames w_calls (recover env b rec tool tc ti)"
  unfolding recover_def Let_def reconciled_invocation_def
  by (intro calls_frames frames_finish_running [THEN frames_calls, unfolded Let_def]) simp

lemma conclude_calls: "frames w_calls (conclude env lower b run sp tool tc t0 r ti)"
  unfolding conclude_def Let_def by (intro calls_frames) simp

definition same_call :: "tool_invocation \<Rightarrow> tool_invocation \<Rightarrow> bool" where
  "same_call ti ti' \<longleftrightarrow> ti_id ti' = ti_id ti \<and> ti_replay_policy ti' = ti_replay_policy ti"

lemma same_call_started [simp]: "same_call ti (started n now ti)"
  by (simp add: same_call_def started_def)

lemma run_attempt_returns: "returns (\<lambda>(r, ti'). same_call ti ti') (run_attempt env tool tc n ti)"
  unfolding run_attempt_def Let_def by (intro returns_intros) simp_all

definition started_upto :: "tool_invocation \<Rightarrow> nat \<Rightarrow> nat \<Rightarrow> (string \<times> nat) list" where
  "started_upto ti n k = map (\<lambda>j. (ti_id ti, n + j)) [0..<k]"

lemma started_upto_0 [simp]: "started_upto ti n 0 = []"
  by (simp add: started_upto_def)

lemma started_upto_Suc: "same_call ti ti' \<Longrightarrow> started_upto ti n (Suc k) = (ti_id ti, n) # started_upto ti' (Suc n) k"
  by (simp add: started_upto_def same_call_def upt_conv_Cons map_Suc_upt [symmetric] del: upt_Suc map_Suc_upt)

lemma calls_step:
  assumes "frames w_calls m" and "\<And>w. w_calls w = c \<Longrightarrow> I w"
    and "\<And>a. triple I (\<lambda>w. w_calls w = c) (g a) R"
  shows "triple I (\<lambda>w. w_calls w = c) (bind m g) R"
  using triple_step [where f = w_calls and P = "\<lambda>x. x = c", OF assms(1)] assms(2,3) by blast

lemma handler_step:
  assumes "\<And>a. triple I (\<lambda>w. w_calls w = c @ [(iid, n)]) (g a) R"
  shows "triple I (\<lambda>w. w_calls w = c) (bind (call_handler env tc iid n) g) R"
proof (rule triple_bind)
  show "triple I (\<lambda>w. w_calls w = c) (call_handler env tc iid n) (\<lambda>_ w. w_calls w = c @ [(iid, n)])"
    by (auto simp: triple_def call_handler_def andthen_def bind_def modify_def tick_def ret_def)
qed (rule assms)

lemma run_attempt_calls:
  "triple (\<lambda>w. w_calls w \<in> {c, c @ [(ti_id ti, n)]}) (\<lambda>w. w_calls w = c) (run_attempt env tool tc n ti)
     (\<lambda>_ w. w_calls w = c @ [(ti_id ti, n)])"
proof -
  have after: "triple (\<lambda>w. w_calls w \<in> {c, c @ [(ti_id ti, n)]}) (\<lambda>w. w_calls w = c @ [(ti_id ti, n)])
    (case x of None \<Rightarrow> raise CancelledError
     | Some r0 \<Rightarrow>
         bind (after_interruption env tool tc policy n (stamp tc n r0)) (\<lambda>r1.
         bind (is_cancelled env) (\<lambda>c'.
         bind (read_mono env) (\<lambda>t1.
         bind (read_clock env) (\<lambda>now''.
         bind (write_db env (\<lambda>db. Inr (finish_tool_attempt now'' aid (if tr_is_error (name_error c' r1) then AT_failed else AT_succeeded)
                 ((t1 - t0) * 1000) (tr_error_code (name_error c' r1)) (tr_error_category (name_error c' r1)) db))) (\<lambda>_.
         ret (name_error c' r1, ti')))))))
    (\<lambda>_ w. w_calls w = c @ [(ti_id ti, n)])" for x policy aid t0 ti'
  proof (cases x)
    case None
    then show ?thesis by (simp add: triple_raise)
  next
    case (Some r0)
    show ?thesis unfolding Some option.case
      by (rule calls_step, (intro calls_frames)[1], simp)+ (simp add: triple_ret)
  qed
  have "ti_id (started n now ti) = ti_id ti" for now by (simp add: started_def)
  then show ?thesis
    unfolding run_attempt_def Let_def
    by (simp only:) ((rule calls_step, (intro calls_frames)[1], simp)+, rule handler_step,
      rule calls_step, (intro calls_frames)[1], simp, rule after)
qed

definition attempts_within :: "(string \<times> nat) list \<Rightarrow> tool_invocation \<Rightarrow> nat \<Rightarrow> nat \<Rightarrow> world \<Rightarrow> bool" where
  "attempts_within c ti n m w \<longleftrightarrow> (\<exists>k \<le> m. w_calls w = c @ started_upto ti n k)"

definition attempt_bound :: "replay_policy \<Rightarrow> nat \<Rightarrow> nat" where
  "attempt_bound policy left = (if policy = RP_safe then left else min 1 left)"

lemma attempts_within_0: "w_calls w = c \<Longrightarrow> attempts_within c ti n m w"
  by (auto simp: attempts_within_def intro: exI [of _ 0])

lemma attempts_within_Suc:
  assumes "attempts_within (c @ [(ti_id ti, n)]) ti' (Suc n) m w" and "same_call ti ti'"
  shows "attempts_within c ti n (Suc m) w"
proof -
  from assms obtain k where "k \<le> m" "w_calls w = c @ started_upto ti n (Suc k)"
    by (auto simp: attempts_within_def started_upto_Suc)
  then show ?thesis unfolding attempts_within_def by (intro exI [of _ "Suc k"]) simp
qed

lemma attempts_within_1: "w_calls w = c @ [(ti_id ti, n)] \<Longrightarrow> attempts_within c ti n (Suc m) w"
  using attempts_within_Suc [OF attempts_within_0] by (simp add: same_call_def)

lemma attempts_within_frame:
  assumes "frames w_calls m"
  shows "triple (attempts_within c ti n k) (attempts_within c ti n k) m (\<lambda>_. attempts_within c ti n k)"
  by (rule tripleI) (metis attempts_within_def framesD [OF assms])+

lemma triple_returns: "triple I P m Q \<Longrightarrow> returns V m \<Longrightarrow> triple I P m (\<lambda>a w. V a \<and> Q a w)"
  by (rule tripleI) (auto dest: triple_Inr triple_Inl returnsD)

lemma triple_error: "triple I P m Q \<Longrightarrow> (\<And>w. I w \<Longrightarrow> J w) \<Longrightarrow> triple J P m Q"
  by (rule tripleI) (auto dest: triple_Inr triple_Inl)

lemma attempt_loop_calls:
  "triple (attempts_within c ti n (attempt_bound (ti_replay_policy ti) left)) (\<lambda>w. w_calls w = c)
     (attempt_loop env run sp tool tc left n ti r)
     (\<lambda>_. attempts_within c ti n (attempt_bound (ti_replay_policy ti) left))"
proof (induction left arbitrary: c n ti r)
  case 0
  then show ?case by (auto intro: triple_ret attempts_within_0)
next
  case (Suc left)
  let ?I = "attempts_within c ti n (attempt_bound (ti_replay_policy ti) (Suc left))"
  obtain m where m: "attempt_bound (ti_replay_policy ti) (Suc left) = Suc m"
    by (cases "ti_replay_policy ti = RP_safe") (auto simp: attempt_bound_def)
  have one: "w_calls w = c @ [(ti_id ti, n)] \<Longrightarrow> ?I w" for w by (simp add: m attempts_within_1)
  have retry: "triple ?I (\<lambda>w. w_calls w = c @ [(ti_id ti, n)]) (attempt_loop env run sp tool tc left (Suc n) ti' r') (\<lambda>_. ?I)"
    if same: "same_call ti ti'" and safe: "ti_replay_policy ti' = RP_safe" for ti' r'
  proof -
    have b: "attempt_bound (ti_replay_policy ti) (Suc left) = Suc left" "attempt_bound (ti_replay_policy ti') left = left"
      using same safe by (simp_all add: same_call_def attempt_bound_def)
    have "attempts_within (c @ [(ti_id ti, n)]) ti' (Suc n) left w \<Longrightarrow> ?I w" for w
      unfolding b by (rule attempts_within_Suc [OF _ same])
    with Suc.IH [of "c @ [(ti_id ti, n)]" ti' "Suc n" r', unfolded b] show ?thesis
      by (blast intro: triple_conseq triple_error)
  qed
  have body: "triple ?I (\<lambda>w. (case p of (r', ti') \<Rightarrow> same_call ti ti') \<and> w_calls w = c @ [(ti_id ti, n)])
      (case p of (r', ti') \<Rightarrow>
        bind (is_cancelled env) (\<lambda>cancelled.
        if can_retry r' (ti_replay_policy ti') left cancelled
        then bind tick (\<lambda>n'. bind (emit env run (Some sp) (evs r' n')) (\<lambda>_. attempt_loop env run sp tool tc left (Suc n) ti' r'))
        else ret (r', ti'))) (\<lambda>_. ?I)" for p evs
  proof (rule triple_assume, cases p)
    fix r' ti'
    assume "case p of (r', ti') \<Rightarrow> same_call ti ti'" and p: "p = (r', ti')"
    then have same: "same_call ti ti'" by simp
    have "triple ?I (\<lambda>w. w_calls w = c @ [(ti_id ti, n)])
        (if can_retry r' (ti_replay_policy ti') left cc
         then bind tick (\<lambda>n'. bind (emit env run (Some sp) (evs r' n')) (\<lambda>_. attempt_loop env run sp tool tc left (Suc n) ti' r'))
         else ret (r', ti')) (\<lambda>_. ?I)" for cc
    proof (cases "can_retry r' (ti_replay_policy ti') left cc")
      case True
      then have "ti_replay_policy ti' = RP_safe" by (simp add: can_retry_def)
      note go = retry [OF same this]
      have "triple ?I (\<lambda>w. w_calls w = c @ [(ti_id ti, n)])
         (bind tick (\<lambda>n'. bind (emit env run (Some sp) (evs r' n')) (\<lambda>_. attempt_loop env run sp tool tc left (Suc n) ti' r')))
         (\<lambda>_. ?I)"
        by (rule calls_step, (intro calls_frames)[1], erule one, rule calls_step, (intro calls_frames)[1], erule one, rule go)
      then show ?thesis by (simp add: True)
    next
      case False
      then show ?thesis using one by (auto intro: triple_ret)
    qed
    then show "triple ?I (\<lambda>w. w_calls w = c @ [(ti_id ti, n)])
      (case p of (r', ti') \<Rightarrow>
        bind (is_cancelled env) (\<lambda>cancelled.
        if can_retry r' (ti_replay_policy ti') left cancelled
        then bind tick (\<lambda>n'. bind (emit env run (Some sp) (evs r' n')) (\<lambda>_. attempt_loop env run sp tool tc left (Suc n) ti' r'))
        else ret (r', ti'))) (\<lambda>_. ?I)"
      unfolding p prod.case using one
      by (intro calls_step [OF frames_cancelled [THEN frames_calls]]) simp_all
  qed
  have first: "triple ?I (\<lambda>w. w_calls w = c) (run_attempt env tool tc n ti)
      (\<lambda>p w. (case p of (r', ti') \<Rightarrow> same_call ti ti') \<and> w_calls w = c @ [(ti_id ti, n)])"
    by (rule triple_returns [OF triple_error [OF run_attempt_calls] run_attempt_returns])
      (auto simp: m intro: attempts_within_1 attempts_within_0)
  show ?case unfolding attempt_loop.simps by (rule triple_bind [OF first body])
qed

text \<open>
  C11. However the handler, the retries and the process end, one execution of a call starts its
  handler only for consecutive attempts after the stored count, at most as often as the tool
  allows, and at most once unless its replay policy is safe.
\<close>

theorem attempts_bounded:
  "\<exists>k \<le> (if ti_replay_policy ti = RP_safe then ts_max_attempts (tl_spec tool) else min 1 (ts_max_attempts (tl_spec tool))).
     w_calls (snd (run_tool_invocation env lower b run recovering tool tc ti w)) =
     w_calls w @ map (\<lambda>j. (ti_id ti, Suc (ti_attempt_count ti) + j)) [0..<k]"
proof -
  let ?c = "w_calls w"
  let ?I = "attempts_within ?c ti (Suc (ti_attempt_count ti)) (attempt_bound (ti_replay_policy ti) (ts_max_attempts (tl_spec tool)))"
  have z: "w_calls w' = ?c \<Longrightarrow> ?I w'" for w' by (rule attempts_within_0)
  have fin: "triple ?I ?I (conclude env lower b run sp tool tc t0 r ti') (\<lambda>_. ?I)" for sp t0 r ti'
    by (rule attempts_within_frame [OF conclude_calls])
  have loop: "triple ?I (\<lambda>w. w_calls w = ?c)
      (bind (attempt_loop env run sp tool tc (ts_max_attempts (tl_spec tool)) (Suc (ti_attempt_count ti)) ti (not_run tc))
         (\<lambda>(r, ti'). conclude env lower b run sp tool tc t0 r ti')) (\<lambda>_. ?I)" for sp t0
  proof (rule triple_bind [OF attempt_loop_calls])
    show "triple ?I ?I (case p of (r, ti') \<Rightarrow> conclude env lower b run sp tool tc t0 r ti') (\<lambda>_. ?I)" for p
      using fin by (cases p) simp
  qed
  have "triple ?I (\<lambda>w. w_calls w = ?c) (run_tool_invocation env lower b run recovering tool tc ti) (\<lambda>_. ?I)"
    unfolding run_tool_invocation_def
  proof (rule calls_step [OF frames_cancelled [THEN frames_calls]], erule z)
    fix cancelled
    have rest: "triple ?I (\<lambda>w. w_calls w = ?c)
       (case recovered of Some r \<Rightarrow> ret r
        | None \<Rightarrow> bind (attempt_loop env run sp tool tc (ts_max_attempts (tl_spec tool)) (Suc (ti_attempt_count ti)) ti (not_run tc))
             (\<lambda>(r, ti'). conclude env lower b run sp tool tc t0 r ti')) (\<lambda>_. ?I)" for recovered sp t0
      using loop z by (cases recovered) (auto intro: triple_ret)
    show "triple ?I (\<lambda>w. w_calls w = ?c)
       (if cancelled then ret (cancelled_before_start tc)
        else bind (new_id env) (\<lambda>sp. bind (read_mono env) (\<lambda>t0. bind (announce_start env b run sp tc) (\<lambda>_.
          bind (recover env b recovering tool tc ti) (\<lambda>recovered. case recovered of Some r \<Rightarrow> ret r
            | None \<Rightarrow> bind (attempt_loop env run sp tool tc (ts_max_attempts (tl_spec tool)) (Suc (ti_attempt_count ti)) ti (not_run tc))
             (\<lambda>(r, ti'). conclude env lower b run sp tool tc t0 r ti')))))) (\<lambda>_. ?I)"
    proof (cases cancelled)
      case True
      then show ?thesis using z by (auto intro: triple_ret)
    next
      case False
      show ?thesis unfolding if_not_P [OF False]
        by (rule calls_step, (intro calls_frames)[1], erule z, rule calls_step, (intro calls_frames)[1], erule z,
            rule calls_step, (intro calls_frames)[1], erule z, rule calls_step, rule recover_calls, erule z, rule rest)
    qed
  qed
  from triple_any [OF this refl] have "?I (snd (run_tool_invocation env lower b run recovering tool tc ti w))" by simp
  then show ?thesis by (simp add: attempts_within_def attempt_bound_def started_upto_def)
qed

end
