(* ===== verification/Tool_Gate.thy ===== *)
theory Tool_Gate
  imports Tool_Frames
begin

text \<open>
  What a call has passed when the gate of \<open>execute_batch\<close> queues it for execution, and how often
  the attempt loop may start its handler.
\<close>

section \<open>Approval\<close>

text \<open>Somebody allowed exactly this call (by its invocation and the hash of its arguments).\<close>

definition confirmed :: "engine_env \<Rightarrow> tool_call \<Rightarrow> bool" where
  "confirmed env tc \<longleftrightarrow> (\<exists>ask apr n d. en_approve env = Some ask \<and> ask apr n = AnswerDecision d \<and> d \<noteq> AD_deny \<and>
     ai_invocation_id apr = Some (tc_invocation_id tc) \<and>
     ai_arguments_sha256 apr = Some (arguments_sha256 (en_hash env) (en_json env) (tc_arguments tc)))"

text \<open>Somebody allowed a scope for the rest of the run.\<close>

definition scope_granted :: "engine_env \<Rightarrow> utext \<Rightarrow> bool" where
  "scope_granted env s \<longleftrightarrow> (\<exists>ask apr n. en_approve env = Some ask \<and> ask apr n = AnswerDecision AD_allow_run \<and>
     ai_approval_scope apr = Some s)"

definition call_scope :: "engine_env \<Rightarrow> tool_call \<Rightarrow> effect_kind \<Rightarrow> utext" where
  "call_scope env tc e = approval_scope (en_str env) (tc_name tc) e (tc_arguments tc)"

definition may_run :: "engine_env \<Rightarrow> approval_mode \<Rightarrow> tool \<Rightarrow> tool_call \<Rightarrow> bool" where
  "may_run env mode tool tc \<longleftrightarrow>
     (let e = effect_for tool tc in
      (\<not> force_approval tool e \<and> (\<exists>d. auto_decision e mode = Some d \<and> d \<noteq> AD_deny)) \<or>
      ((force_approval tool e \<longrightarrow> mode \<noteq> AM_never) \<and>
       (confirmed env tc \<or> (\<not> requires_confirmation tool e \<and> scope_granted env (call_scope env tc e)))))"

definition admitted :: "engine_env \<Rightarrow> batch \<Rightarrow> tool_call \<Rightarrow> bool" where
  "admitted env b tc \<longleftrightarrow> (\<exists>tool. ba_tools b (tc_name tc) = Some tool \<and>
     en_validate env (tl_spec tool) (tc_arguments tc) = [] \<and>
     (is_write (effect_for tool tc) \<longrightarrow> rq_allow_write (ba_request b)) \<and>
     may_run env (rq_approval (ba_request b)) tool tc)"

text \<open>Every scope a run context holds was granted.\<close>

definition scopes_granted :: "engine_env \<Rightarrow> (string \<Rightarrow> utext set) \<Rightarrow> bool" where
  "scopes_granted env f \<longleftrightarrow> (\<forall>rid. \<forall>s \<in> f rid. scope_granted env s)"

abbreviation any :: "world \<Rightarrow> bool" where
  "any \<equiv> \<lambda>_. True"

lemmas scope_step = triple_step [where f = scopes and I = any, OF _ TrueI]
lemmas scope_frames = frames_intros scopes_leaves frames_save_scopes

lemma settle_answer_allows:
  "settle_answer confirm answer = (d, c) \<Longrightarrow> d \<noteq> AD_deny \<Longrightarrow> \<exists>d'. answer = Some (AnswerDecision d') \<and> d' \<noteq> AD_deny"
  "settle_answer confirm answer = (AD_allow_run, c) \<Longrightarrow> answer = Some (AnswerDecision AD_allow_run)"
  by (auto simp: settle_answer_def Let_def split: option.splits approval_answer.splits if_splits)

definition answered :: "engine_env \<Rightarrow> approval_dict \<Rightarrow> approval_answer option \<Rightarrow> bool" where
  "answered env apr answer \<longleftrightarrow> (\<forall>x. answer = Some x \<longrightarrow> (\<exists>ask n. en_approve env = Some ask \<and> x = ask apr n))"

lemma await_triple:
  "triple any (\<lambda>w. P (scopes w))
     (await_answer env apr) (\<lambda>answer w. answered env apr answer \<and> P (scopes w))"
proof (cases "en_approve env")
  case None
  then show ?thesis by (auto simp: await_answer_def answered_def intro: triple_ret)
next
  case (Some ask)
  have "triple any (\<lambda>w. P (scopes w)) (bind tick (\<lambda>n. ret (Some (ask apr n))))
      (\<lambda>answer w. answered env apr answer \<and> P (scopes w))"
    by (rule scope_step) (auto simp: answered_def Some intro!: scope_frames triple_ret)
  then show ?thesis by (simp add: await_answer_def Some)
qed

definition allows :: "engine_env \<Rightarrow> tool_call \<Rightarrow> approval_decision \<times> bool \<times> tool_invocation \<Rightarrow> bool" where
  "allows env tc r \<longleftrightarrow> (fst r \<noteq> AD_deny \<longrightarrow> confirmed env tc)"

lemma grant_triple:
  assumes "d = AD_allow_run \<Longrightarrow> scope_granted env s"
  shows "triple any (\<lambda>w. scopes_granted env (scopes w))
     (when_op (d = AD_allow_run \<and> \<not> confirm) (set_ctx rid (\<lambda>c. c\<lparr>rc_approval_scopes := insert s (rc_approval_scopes c)\<rparr>)))
     (\<lambda>_ w. scopes_granted env (scopes w))"
  using assms
  by (auto simp: triple_def when_op_def ret_def set_ctx_def modify_def scopes_granted_def scopes_def context_of_def
      split: option.splits)

lemma approval_outcome:
  assumes "answered env apr answer" and "settle_answer confirm answer = (d, c)"
    and "ai_invocation_id apr = Some (tc_invocation_id tc)"
    and "ai_arguments_sha256 apr = Some (arguments_sha256 (en_hash env) (en_json env) (tc_arguments tc))"
  shows "d \<noteq> AD_deny \<Longrightarrow> confirmed env tc"
    and "d = AD_allow_run \<Longrightarrow> ai_approval_scope apr = Some s \<Longrightarrow> scope_granted env s"
proof -
  assume "d \<noteq> AD_deny"
  with settle_answer_allows(1) [OF assms(2)] obtain d' where "answer = Some (AnswerDecision d')" "d' \<noteq> AD_deny" by auto
  with assms(1) obtain ask n where "en_approve env = Some ask" "ask apr n = AnswerDecision d'"
    by (auto simp: answered_def)
  with assms(3,4) \<open>d' \<noteq> AD_deny\<close> show "confirmed env tc" unfolding confirmed_def by blast
next
  assume "d = AD_allow_run" and s: "ai_approval_scope apr = Some s"
  with assms(2) have "answer = Some (AnswerDecision AD_allow_run)" using settle_answer_allows(2) by blast
  with assms(1) obtain ask n where "en_approve env = Some ask" "ask apr n = AnswerDecision AD_allow_run"
    by (auto simp: answered_def)
  with s show "scope_granted env s" unfolding scope_granted_def by blast
qed

lemma open_approval_frame: "frames scopes (open_approval env b run pending st tc e confirm apr ti now)"
  unfolding open_approval_def by (intro scope_frames)

lemma close_approval_triple:
  assumes "d = AD_allow_run \<Longrightarrow> scope_granted env s"
  shows "triple any (\<lambda>w. scopes_granted env (scopes w)) (close_approval env b run tc confirm s apr d c)
     (\<lambda>_ w. scopes_granted env (scopes w))"
  unfolding close_approval_def
  by (rule scope_step, (intro scope_frames)[1])+ (rule grant_triple [OF assms])

lemma ask_approval_triple:
  "triple any (\<lambda>w. scopes_granted env (scopes w)) (ask_approval env b run pending st tc tool ti)
     (\<lambda>r w. allows env tc r \<and> scopes_granted env (scopes w))"
proof -
  let ?P = "\<lambda>w. scopes_granted env (scopes w)"
  let ?e = "effect_for tool tc"
  let ?scope = "approval_scope (en_str env) (tc_name tc) ?e (tc_arguments tc)"
  let ?sha = "arguments_sha256 (en_hash env) (en_json env) (tc_arguments tc)"
  have body: "triple any (\<lambda>w. answered env apr answer \<and> ?P w)
      (case settle_answer confirm answer of (d, c) \<Rightarrow> bind (close_approval env b run tc confirm ?scope apr d c) (\<lambda>_. ret (d, c, ti')))
      (\<lambda>r w. allows env tc r \<and> ?P w)"
    if apr: "apr = approval_record aid b tc tool ?e summary ?sha ?scope now" for apr aid summary now answer confirm ti'
  proof (rule triple_assume)
    assume a: "answered env apr answer"
    obtain d c where s: "settle_answer confirm answer = (d, c)" by (cases "settle_answer confirm answer")
    have i: "ai_invocation_id apr = Some (tc_invocation_id tc)" "ai_arguments_sha256 apr = Some ?sha"
      "ai_approval_scope apr = Some ?scope" by (simp_all add: apr approval_record_def)
    note outcome = approval_outcome [OF a s i(1,2)]
    have "triple any ?P (bind (close_approval env b run tc confirm ?scope apr d c) (\<lambda>_. ret (d, c, ti')))
        (\<lambda>r w. allows env tc r \<and> ?P w)"
      by (rule triple_bind [OF close_approval_triple], rule outcome(2) [OF _ i(3)], assumption)
        (rule triple_ret, simp add: allows_def outcome(1))
    then show "triple any ?P (case settle_answer confirm answer of (d, c) \<Rightarrow>
        bind (close_approval env b run tc confirm ?scope apr d c) (\<lambda>_. ret (d, c, ti'))) (\<lambda>r w. allows env tc r \<and> ?P w)"
      by (simp add: s)
  qed
  show ?thesis
    unfolding ask_approval_def Let_def
    by (rule scope_step, (intro scope_frames)[1], rule scope_step, (intro scope_frames)[1],
        rule scope_step, rule open_approval_frame, rule triple_bind, rule await_triple, rule body, rule refl)
qed

section \<open>Admission\<close>

lemma triple_value:
  assumes "frames scopes m" and "\<And>w a w'. m w = (Inr a, w') \<Longrightarrow> V a"
  shows "triple any (\<lambda>w. P (scopes w)) m (\<lambda>a w. V a \<and> P (scopes w))"
  using assms by (intro tripleI) (auto dest: framesD)

lemma reject_allowed: "reject_call env b st tc ti r w = (Inr st', w') \<Longrightarrow> gt_allowed st' = gt_allowed st"
  by (auto simp: reject_call_def bind_Inr ret_Inr)

lemma replay_allowed: "replay_stored env b st tc r w = (Inr st', w') \<Longrightarrow> gt_allowed st' = gt_allowed st"
  by (auto simp: replay_stored_def Let_def bind_Inr ret_Inr)

lemma mark_allowed: "mark_indeterminate env b run st tc ti w = (Inr st', w') \<Longrightarrow> gt_allowed st' = gt_allowed st"
  by (auto simp: mark_indeterminate_def bind_Inr ret_Inr)

fun step_allowed :: "gate_step \<Rightarrow> (tool_call \<times> tool_invocation) list" where
  "step_allowed (Settled st) = gt_allowed st"
| "step_allowed (GoOn ti st) = gt_allowed st"

lemma resume_returns: "returns (\<lambda>s. step_allowed s = gt_allowed st) (resume_invocation env b run st tc tool)"
  unfolding resume_invocation_def resume_found_def Let_def
  by (intro returns_intros returns_bind_with [OF replay_allowed] returns_bind_with [OF mark_allowed]) simp_all

lemma resume_allowed: "resume_invocation env b run st tc tool w = (Inr s, w') \<Longrightarrow> step_allowed s = gt_allowed st"
  using resume_returns by (rule returnsD)

lemma reject_frames: "frames scopes (reject_call env b st tc ti r)"
  unfolding reject_call_def by (intro scope_frames)

lemma mark_frames: "frames scopes (mark_indeterminate env b run st tc ti)"
  unfolding mark_indeterminate_def by (intro scope_frames) simp

lemma unknown_frames: "frames scopes (unknown_tool env b st tc)"
  unfolding unknown_tool_def by (intro scope_frames reject_frames)

lemma resume_frames: "frames scopes (resume_invocation env b run st tc tool)"
  unfolding resume_invocation_def resume_found_def Let_def by (intro scope_frames mark_frames)

definition all_admitted :: "engine_env \<Rightarrow> batch \<Rightarrow> (tool_call \<times> tool_invocation) list \<Rightarrow> bool" where
  "all_admitted env b xs \<longleftrightarrow> (\<forall>x \<in> set xs. admitted env b (fst x))"

abbreviation gate_ok :: "engine_env \<Rightarrow> batch \<Rightarrow> gate_state \<times> bool \<Rightarrow> world \<Rightarrow> bool" where
  "gate_ok env b r w \<equiv> all_admitted env b (gt_allowed (fst r)) \<and> scopes_granted env (scopes w)"

lemma rejected_triple:
  assumes "all_admitted env b (gt_allowed st)"
  shows "triple any (\<lambda>w. scopes_granted env (scopes w))
     (bind (reject_call env b st tc ti r) (\<lambda>st'. ret (st', False))) (gate_ok env b)"
  by (rule triple_bind [OF triple_value [where V = "\<lambda>st'. gt_allowed st' = gt_allowed st", OF reject_frames reject_allowed]])
    (auto intro!: triple_ret simp: assms)

lemma admit_triple:
  assumes "all_admitted env b (gt_allowed st)" and "d \<noteq> AD_deny \<Longrightarrow> admitted env b tc"
  shows "triple any (\<lambda>w. scopes_granted env (scopes w))
     (bind (admit_call env b st tc ti d) (\<lambda>st'. ret (st', False))) (gate_ok env b)"
proof (cases "d = AD_deny")
  case True
  then show ?thesis using rejected_triple [OF assms(1)] by (simp add: admit_call_def)
next
  case False
  have v: "admit_call env b st tc ti d w = (Inr st', w') \<Longrightarrow> all_admitted env b (gt_allowed st')" for w st' w'
    using False assms by (auto simp: admit_call_def Let_def bind_Inr ret_Inr all_admitted_def)
  have "frames scopes (admit_call env b st tc ti d)"
    unfolding admit_call_def Let_def by (intro scope_frames reject_frames)
  from triple_value [OF this v] show ?thesis by (rule triple_bind) (auto intro!: triple_ret)
qed

lemma gate_decision_admits:
  assumes "gate_decision tool (effect_for tool tc) mode scoped = Some d" and "d \<noteq> AD_deny"
    and "scoped \<Longrightarrow> scope_granted env (call_scope env tc (effect_for tool tc))"
  shows "may_run env mode tool tc"
  using assms
  by (auto simp: gate_decision_def may_run_def Let_def force_approval_def split: if_splits)

lemma gate_decision_asks:
  assumes "gate_decision tool (effect_for tool tc) mode scoped = None" and "confirmed env tc"
  shows "may_run env mode tool tc"
  using assms by (auto simp: gate_decision_def may_run_def Let_def split: if_splits)

lemma scoped_triple:
  "triple any (\<lambda>w. scopes_granted env (scopes w))
     (get_with (\<lambda>w. case w_runs w rid of None \<Rightarrow> False | Some c \<Rightarrow> s \<in> rc_approval_scopes c))
     (\<lambda>scoped w. (scoped \<longrightarrow> scope_granted env s) \<and> scopes_granted env (scopes w))"
  by (rule tripleI) (auto simp: get_with_def scopes_granted_def scopes_def context_of_def split: option.splits)

lemma decision_triple:
  assumes "all_admitted env b (gt_allowed st)" and "ba_tools b (tc_name tc) = Some tool"
    and "en_validate env (tl_spec tool) (tc_arguments tc) = []"
    and "is_write (effect_for tool tc) \<Longrightarrow> rq_allow_write (ba_request b)"
    and "scoped \<Longrightarrow> scope_granted env (call_scope env tc (effect_for tool tc))"
  shows "triple any (\<lambda>w. scopes_granted env (scopes w))
     (case gate_decision tool (effect_for tool tc) (rq_approval (ba_request b)) scoped of
        Some d \<Rightarrow> bind (admit_call env b st tc ti d) (\<lambda>st'. ret (st', False))
      | None \<Rightarrow>
          bind (ask_approval env b run pending st tc tool ti) (\<lambda>(d, cancelled, ti').
          if cancelled then ret (st, True)
          else bind (admit_call env b st tc ti' d) (\<lambda>st'. ret (st', False)))) (gate_ok env b)"
proof -
  have adm: "admitted env b tc" if "may_run env (rq_approval (ba_request b)) tool tc"
    using assms(2-4) that unfolding admitted_def by blast
  show ?thesis
  proof (cases "gate_decision tool (effect_for tool tc) (rq_approval (ba_request b)) scoped")
    case None
    have "triple any (\<lambda>w. allows env tc r \<and> scopes_granted env (scopes w))
        (case r of (d, cancelled, ti') \<Rightarrow> if cancelled then ret (st, True)
          else bind (admit_call env b st tc ti' d) (\<lambda>st'. ret (st', False))) (gate_ok env b)" for r
    proof (rule triple_assume)
      assume a: "allows env tc r"
      obtain d c ti' where r: "r = (d, c, ti')" by (cases r)
      have "admitted env b tc" if "d \<noteq> AD_deny"
        using adm gate_decision_asks [OF None] a that by (simp add: allows_def r)
      from admit_triple [OF assms(1) this] show "triple any (\<lambda>w. scopes_granted env (scopes w))
          (case r of (d, cancelled, ti') \<Rightarrow> if cancelled then ret (st, True)
            else bind (admit_call env b st tc ti' d) (\<lambda>st'. ret (st', False))) (gate_ok env b)"
        by (auto simp: r assms(1) intro!: triple_ret)
    qed
    then show ?thesis by (simp add: None triple_bind [OF ask_approval_triple])
  next
    case (Some d)
    have "admitted env b tc" if "d \<noteq> AD_deny" using adm gate_decision_admits [OF Some that] assms(5) by blast
    from admit_triple [OF assms(1) this] show ?thesis by (simp add: Some)
  qed
qed

lemma gate_open_triple:
  assumes "all_admitted env b (gt_allowed st)" and "ba_tools b (tc_name tc) = Some tool"
  shows "triple any (\<lambda>w. scopes_granted env (scopes w)) (gate_open env b run pending st tc tool ti) (gate_ok env b)"
proof (cases "en_validate env (tl_spec tool) (tc_arguments tc) = []")
  case False
  then show ?thesis using rejected_triple [OF assms(1)] by (simp add: gate_open_def Let_def)
next
  case True
  show ?thesis
  proof (cases "\<not> rq_allow_write (ba_request b) \<and> is_write (effect_for tool tc)")
    case w: True
    show ?thesis
      unfolding gate_open_def Let_def by (simp add: True w)
        (rule scope_step, (intro scope_frames)[1], rule scope_step, (intro scope_frames)[1],
         rule scope_step, (intro scope_frames)[1], rule rejected_triple [OF assms(1)])
  next
    case w: False
    have "triple any (\<lambda>w. (scoped \<longrightarrow> scope_granted env (approval_scope (en_str env) (tc_name tc) (effect_for tool tc) (tc_arguments tc))) \<and>
          scopes_granted env (scopes w))
     (case gate_decision tool (effect_for tool tc) (rq_approval (ba_request b)) scoped of
        Some d \<Rightarrow> bind (admit_call env b st tc t1 d) (\<lambda>st'. ret (st', False))
      | None \<Rightarrow>
          bind (ask_approval env b run pending st tc tool t1) (\<lambda>(d, cancelled, ti').
          if cancelled then ret (st, True)
          else bind (admit_call env b st tc ti' d) (\<lambda>st'. ret (st', False)))) (gate_ok env b)" for scoped t1
      by (rule triple_assume, rule decision_triple) (use assms True w in \<open>auto simp: call_scope_def\<close>)
    then show ?thesis
      unfolding gate_open_def Let_def by (simp add: True w)
        (rule scope_step, (intro scope_frames)[1], rule scope_step, (intro scope_frames)[1],
         rule scope_step, (intro scope_frames)[1], rule triple_bind, rule scoped_triple, assumption)
  qed
qed

lemma gate_call_triple:
  assumes "all_admitted env b (gt_allowed st)"
  shows "triple any (\<lambda>w. scopes_granted env (scopes w)) (gate_call env b run pending st tc) (gate_ok env b)"
proof (cases "ba_tools b (tc_name tc)")
  case None
  have "unknown_tool env b st tc w = (Inr st', w') \<Longrightarrow> gt_allowed st' = gt_allowed st" for w st' w'
    by (auto simp: unknown_tool_def bind_Inr reject_allowed)
  from triple_value [OF unknown_frames this]
  have "triple any (\<lambda>w. scopes_granted env (scopes w)) (bind (unknown_tool env b st tc) (\<lambda>st'. ret (st', False))) (gate_ok env b)"
    by (rule triple_bind) (auto intro!: triple_ret simp: assms)
  then show ?thesis by (simp add: gate_call_def None)
next
  case (Some tool)
  have "triple any (\<lambda>w. step_allowed s = gt_allowed st \<and> scopes_granted env (scopes w))
     (case s of Settled st' \<Rightarrow> ret (st', False) | GoOn ti st' \<Rightarrow> gate_open env b run pending st' tc tool ti) (gate_ok env b)" for s
    by (rule triple_assume, cases s) (auto intro!: triple_ret gate_open_triple simp: assms Some)
  then show ?thesis
    unfolding gate_call_def by (simp add: Some triple_bind [OF triple_value [OF resume_frames resume_allowed]])
qed

lemma gate_all_triple:
  "all_admitted env b (gt_allowed st) \<Longrightarrow>
   triple any (\<lambda>w. scopes_granted env (scopes w)) (gate_all env b run pending st tcs) (gate_ok env b)"
proof (induction env b run pending st tcs rule: gate_all.induct)
  case (1 env b run pending st)
  then show ?case by (auto intro!: triple_ret)
next
  case (2 env b run pending st tc tcs)
  have "triple any (gate_ok env b r) (case r of (st', stop) \<Rightarrow> if stop then ret (st', True) else gate_all env b run pending st' tcs)
     (gate_ok env b)" for r
    by (rule triple_assume, cases r) (auto intro!: triple_ret "2.IH")
  then show ?case by (simp add: triple_bind [OF gate_call_triple [OF "2.prems"]])
qed

text \<open>
  C10. Nothing runs without permission: every call the gate queues for execution is of a known
  tool, with arguments that validate, has the write permission its effect needs, and was
  allowed: by the policy, when neither the effect nor the tool's declaration asks for an
  approval; by somebody who was asked about exactly this call; or by a scope granted for the
  run, which never covers a call that needs confirmation. In mode never a call that needs an
  approval is not queued at all. The approvals of the run context must be granted ones, as
  they are in a new context.
\<close>

theorem gate_admits_permitted:
  assumes "gate_all env b run pending st tcs w = (Inr (st', stop), w')"
    and "gt_allowed st = []" and "\<And>rid s. s \<in> rc_approval_scopes (context_of rid w) \<Longrightarrow> scope_granted env s"
    and "(tc, ti) \<in> set (gt_allowed st')"
  shows "\<exists>tool. ba_tools b (tc_name tc) = Some tool \<and>
     en_validate env (tl_spec tool) (tc_arguments tc) = [] \<and>
     (is_write (effect_for tool tc) \<longrightarrow> rq_allow_write (ba_request b)) \<and>
     may_run env (rq_approval (ba_request b)) tool tc"
proof -
  have "scopes_granted env (scopes w)" using assms(3) by (auto simp: scopes_granted_def scopes_def)
  from triple_Inr [OF gate_all_triple this assms(1)] assms(2) have "all_admitted env b (gt_allowed st')"
    by (simp add: all_admitted_def)
  with assms(4) show ?thesis unfolding all_admitted_def admitted_def by force
qed

lemma demo_gate: "allowed_ids (fst (gate_all asked_env demo_batch demo_view [demo_call] empty_gate [demo_call] demo_world)) = [''i'']"
  by (simp add: op_eval store_eval gate_eval demo_batch_eval allowed_ids_def)

theorem gate_admits_permitted_witness:
  "\<exists>st' stop w' tc ti tool. gate_all asked_env demo_batch demo_view [demo_call] empty_gate [demo_call] demo_world = (Inr (st', stop), w') \<and>
     (tc, ti) \<in> set (gt_allowed st') \<and> ba_tools demo_batch (tc_name tc) = Some tool \<and> may_run asked_env (rq_approval (ba_request demo_batch)) tool tc"
proof -
  let ?g = "gate_all asked_env demo_batch demo_view [demo_call] empty_gate [demo_call] demo_world"
  obtain r w' where g: "?g = (r, w')" by (cases ?g)
  with demo_gate obtain st' stop where r: "r = Inr (st', stop)" and ids: "map (tc_invocation_id \<circ> fst) (gt_allowed st') = [''i'']"
    by (cases r) (auto simp: allowed_ids_def)
  then obtain tc ti where m: "(tc, ti) \<in> set (gt_allowed st')" by (cases "gt_allowed st'") auto
  have "\<exists>tool. ba_tools demo_batch (tc_name tc) = Some tool \<and>
     en_validate asked_env (tl_spec tool) (tc_arguments tc) = [] \<and>
     (is_write (effect_for tool tc) \<longrightarrow> rq_allow_write (ba_request demo_batch)) \<and>
     may_run asked_env (rq_approval (ba_request demo_batch)) tool tc"
    by (rule gate_admits_permitted [OF g [unfolded r] _ _ m])
      (simp_all add: empty_gate_def demo_world_def context_of_def new_context_def)
  with g [unfolded r] m show ?thesis by blast
qed

end
