(* ===== verification/Replay_Safety.thy ===== *)
theory Replay_Safety
  imports Tool_Once Tool_Gate
begin

text \<open>
  Calls that must not be replayed, first part: the invariant of one invocation id and its
  preservation by the gate of a batch.
\<close>

section \<open>One invocation\<close>

text \<open>How often the handler of \<open>i\<close> was started, and the stored row.\<close>

definition iview :: "string \<Rightarrow> world \<Rightarrow> nat \<times> invocation_row option" where
  "iview i w = (length (filter (\<lambda>c. fst c = i) (w_calls w)), sql_find ir_id i (invs w))"

definition row_never :: "invocation_row \<Rightarrow> bool" where
  "row_never r \<longleftrightarrow> ir_replay_policy r = RP_never"

text \<open>Not started yet, and recorded, if at all, as never to be replayed.\<close>

definition clean :: "nat \<times> invocation_row option \<Rightarrow> bool" where
  "clean v \<longleftrightarrow> fst v = 0 \<and> (\<forall>r. snd v = Some r \<longrightarrow> row_never r)"

text \<open>Started once, and recorded in a state that the gate does not start again.\<close>

definition closed_row :: "invocation_status \<Rightarrow> bool \<Rightarrow> bool" where
  "closed_row s has_result \<longleftrightarrow> s \<in> {TI_running, TI_indeterminate} \<or> (s \<in> {TI_succeeded, TI_failed} \<and> has_result)"

definition spent :: "nat \<times> invocation_row option \<Rightarrow> bool" where
  "spent v \<longleftrightarrow> fst v = 1 \<and> (\<exists>r. snd v = Some r \<and> row_never r \<and> closed_row (ir_status r) (ir_result r \<noteq> None))"

definition once :: "nat \<times> invocation_row option \<Rightarrow> bool" where
  "once v \<longleftrightarrow> clean v \<or> spent v"

lemma once_count: "once v \<Longrightarrow> fst v \<le> 1"
  by (auto simp: once_def clean_def spent_def)

lemma frames_iview: "frames (\<lambda>w. (invs w, w_calls w)) m \<Longrightarrow> frames (iview i) m"
  by (erule frames_mono) (simp add: iview_def)

lemma frames_set_ctx_iview: "frames (iview i) (set_ctx rid f)"
  by (simp add: frames_def set_ctx_def modify_def iview_def invs_def)

lemmas iview_leaves = core_leaves [THEN frames_invs, THEN frames_iview] frames_set_ctx_iview
lemmas iview_frames = frames_intros iview_leaves

section \<open>Saving an invocation\<close>

lemma sql_find_upsert_other:
  assumes "key new \<noteq> k" and "\<And>r. key (merge r new) = key r"
  shows "sql_find key k (sql_upsert key merge new rows) = sql_find key k rows"
proof (cases "sql_has key (key new) rows")
  case True
  then have "sql_find key k (sql_upsert key merge new rows) =
      map_option (\<lambda>r. if key r = key new then merge r new else r) (sql_find key k rows)"
    by (simp add: sql_upsert_def sql_find_update_same assms(2))
  also have "\<dots> = sql_find key k rows" using assms(1) by (cases "sql_find key k rows") (auto dest: sql_find_SomeD)
  finally show ?thesis .
next
  case False
  then show ?thesis using assms(1) by (simp add: sql_upsert_def sql_find_append split: option.split) (simp add: sql_find_def)
qed

lemma sql_find_upsert_same:
  assumes "\<And>r. key (merge r new) = key r"
  shows "sql_find key (key new) (sql_upsert key merge new rows) =
    Some (case sql_find key (key new) rows of None \<Rightarrow> new | Some r \<Rightarrow> merge r new)"
proof (cases "sql_find key (key new) rows")
  case None
  then have "\<not> sql_has key (key new) rows" by (simp add: sql_has_image sql_find_None_iff)
  with None show ?thesis by (simp add: sql_upsert_def sql_find_append) (simp add: sql_find_def)
next
  case (Some r)
  then have "sql_has key (key new) rows" using sql_find_None_iff [of key "key new" rows] by (auto simp: sql_has_image)
  then have "sql_find key (key new) (sql_upsert key merge new rows) =
      map_option (\<lambda>r. if key r = key new then merge r new else r) (sql_find key (key new) rows)"
    by (simp add: sql_upsert_def sql_find_update_same assms)
  with Some show ?thesis by (auto dest: sql_find_SomeD)
qed

definition saved_row :: "engine_env \<Rightarrow> tool_invocation \<Rightarrow> invocation_row option \<Rightarrow> invocation_row" where
  "saved_row env ti old =
     (let new = invocation_of (en_redactor env) (en_dump_result env) ti
      in case old of None \<Rightarrow> new | Some r \<Rightarrow> merge_invocation r new)"

lemma saved_row_fields:
  "ir_status (saved_row env ti old) = ti_status ti"
  "ir_result (saved_row env ti old) \<noteq> None \<longleftrightarrow> ti_result ti \<noteq> None"
  "(\<And>r. old = Some r \<Longrightarrow> row_never r) \<Longrightarrow> ti_replay_policy ti = RP_never \<Longrightarrow> row_never (saved_row env ti old)"
  by (auto simp: saved_row_def Let_def merge_invocation_def invocation_of_def row_never_def split: option.splits)

lemma save_invocation_cases:
  obtains e where "fst (save_invocation env ti w) = Inl e" "core (snd (save_invocation env ti w)) = core w"
  | "fst (save_invocation env ti w) = Inr ()" "w_calls (snd (save_invocation env ti w)) = w_calls w"
    "invs (snd (save_invocation env ti w)) =
       sql_upsert ir_id merge_invocation (invocation_of (en_redactor env) (en_dump_result env) ti) (invs w)"
proof (cases "fst (save_invocation env ti w)")
  case (Inl e)
  then show ?thesis using that(1) save_invocation_effect(1) by blast
next
  case (Inr u)
  then have "fst (save_invocation env ti w) = Inr ()" by simp
  moreover have "invs (snd (save_invocation env ti w)) =
       sql_upsert ir_id merge_invocation (invocation_of (en_redactor env) (en_dump_result env) ti) (invs w)"
    using Inr by (auto simp: save_invocation_def write_db_def storage_def Let_def save_tool_invocation_def invs_def
        split: sum.splits if_splits)
  ultimately show ?thesis using that(2) save_invocation_effect(2) by blast
qed

lemma invocation_keys:
  "ir_id (invocation_of rd dump ti) = ti_id ti" "ir_id (merge_invocation r new) = ir_id r"
  by (simp_all add: invocation_of_def merge_invocation_def)

lemma frames_save_other: "ti_id ti \<noteq> i \<Longrightarrow> frames (iview i) (save_invocation env ti)"
proof -
  assume ne: "ti_id ti \<noteq> i"
  have "iview i (snd (save_invocation env ti w)) = iview i w" for w
  proof (cases rule: save_invocation_cases [of env ti w])
    case (1 e)
    then show ?thesis by (simp add: core_eq iview_def)
  next
    case 2
    then show ?thesis using ne by (simp add: iview_def sql_find_upsert_other invocation_keys)
  qed
  then show ?thesis by (simp add: frames_def)
qed

lemma save_triple:
  assumes "ti_id ti = i"
  shows "triple (\<lambda>w. iview i w = v) (\<lambda>w. iview i w = v) (save_invocation env ti)
     (\<lambda>_ w. iview i w = (fst v, Some (saved_row env ti (snd v))))"
proof (rule tripleI)
  fix w e w'
  assume v: "iview i w = v" and m: "save_invocation env ti w = (Inl e, w')"
  then have "core w' = core w" using save_invocation_effect(1) [of env ti w e] by simp
  with v show "iview i w' = v" by (simp add: core_eq iview_def)
next
  fix w u w'
  assume v: "iview i w = v" and m: "save_invocation env ti w = (Inr u, w')"
  show "iview i w' = (fst v, Some (saved_row env ti (snd v)))"
  proof (cases rule: save_invocation_cases [of env ti w])
    case (1 e)
    with m show ?thesis by simp
  next
    case 2
    let ?new = "invocation_of (en_redactor env) (en_dump_result env) ti"
    have "sql_find ir_id (ir_id ?new) (sql_upsert ir_id merge_invocation ?new (invs w)) =
        Some (case sql_find ir_id (ir_id ?new) (invs w) of None \<Rightarrow> ?new | Some r \<Rightarrow> merge_invocation r ?new)"
      by (rule sql_find_upsert_same) (simp add: invocation_keys)
    with 2 m v assms show ?thesis by (auto simp: iview_def saved_row_def invocation_keys Let_def)
  qed
qed

text \<open>A save before the handler was started keeps the invocation clean.\<close>

lemma save_clean:
  assumes "ti_id ti = i" and "ti_replay_policy ti = RP_never"
  shows "triple (\<lambda>w. once (iview i w)) (\<lambda>w. clean (iview i w)) (save_invocation env ti) (\<lambda>_ w. clean (iview i w))"
proof (rule tripleI)
  fix w e w'
  assume "clean (iview i w)" and "save_invocation env ti w = (Inl e, w')"
  then show "once (iview i w')" using triple_Inl [OF save_triple [OF assms(1)] refl] by (simp add: once_def)
next
  fix w u w'
  assume c: "clean (iview i w)" and "save_invocation env ti w = (Inr u, w')"
  then have "iview i w' = (fst (iview i w), Some (saved_row env ti (snd (iview i w))))"
    using triple_Inr [OF save_triple [OF assms(1)] refl] by blast
  with c show "clean (iview i w')" using saved_row_fields(3) [of "snd (iview i w)" ti env] assms(2) by (auto simp: clean_def)
qed

text \<open>A save in a closed state keeps an invocation spent.\<close>

lemma save_spent:
  assumes "ti_id ti = i" and "ti_replay_policy ti = RP_never" and "closed_row (ti_status ti) (ti_result ti \<noteq> None)"
  shows "triple (\<lambda>w. once (iview i w)) (\<lambda>w. spent (iview i w)) (save_invocation env ti) (\<lambda>_ w. spent (iview i w))"
proof (rule tripleI)
  fix w e w'
  assume "spent (iview i w)" and "save_invocation env ti w = (Inl e, w')"
  then show "once (iview i w')" using triple_Inl [OF save_triple [OF assms(1)] refl] by (simp add: once_def)
next
  fix w u w'
  assume c: "spent (iview i w)" and "save_invocation env ti w = (Inr u, w')"
  then have "iview i w' = (fst (iview i w), Some (saved_row env ti (snd (iview i w))))"
    using triple_Inr [OF save_triple [OF assms(1)] refl] by blast
  with c show "spent (iview i w')"
    using saved_row_fields(1,2) [of env ti "snd (iview i w)"] saved_row_fields(3) [of "snd (iview i w)" ti env] assms(2,3) by (auto simp: spent_def)
qed

lemma save_once:
  assumes "ti_id ti = i" and "ti_replay_policy ti = RP_never" and "closed_row (ti_status ti) (ti_result ti \<noteq> None)"
  shows "triple (\<lambda>w. once (iview i w)) (\<lambda>w. once (iview i w)) (save_invocation env ti) (\<lambda>_ w. once (iview i w))"
  using save_clean [OF assms(1,2), of env] save_spent [OF assms, of env]
  unfolding triple_def once_def by (fastforce split: prod.splits sum.splits)

section \<open>The gate, for the call itself\<close>

text \<open>Assertions on one invocation id, with \<open>once\<close> wherever an operation may stop.\<close>

definition itriple :: "string \<Rightarrow> (nat \<times> invocation_row option \<Rightarrow> bool) \<Rightarrow> 'a wop \<Rightarrow> ('a \<Rightarrow> nat \<times> invocation_row option \<Rightarrow> bool) \<Rightarrow> bool" where
  "itriple i P m Q \<longleftrightarrow> triple (\<lambda>w. once (iview i w)) (\<lambda>w. P (iview i w)) m (\<lambda>a w. Q a (iview i w))"

lemma itriple_bind: "itriple i P m Q \<Longrightarrow> (\<And>a. itriple i (Q a) (f a) R) \<Longrightarrow> itriple i P (bind m f) R"
  unfolding itriple_def by (rule triple_bind)

lemma itriple_ret: "(\<And>v. P v \<Longrightarrow> Q a v) \<Longrightarrow> itriple i P (ret a) Q"
  unfolding itriple_def by (rule triple_ret)

lemma itriple_raise: "(\<And>v. P v \<Longrightarrow> once v) \<Longrightarrow> itriple i P (raise e) Q"
  unfolding itriple_def by (rule triple_raise)

lemma itriple_conseq: "itriple i P m Q \<Longrightarrow> (\<And>v. P' v \<Longrightarrow> P v) \<Longrightarrow> (\<And>a v. Q a v \<Longrightarrow> Q' a v) \<Longrightarrow> itriple i P' m Q'"
  unfolding itriple_def by (rule triple_conseq)

lemma itriple_frame: "frames (iview i) m \<Longrightarrow> (\<And>v. P v \<Longrightarrow> once v) \<Longrightarrow> itriple i P m (\<lambda>_. P)"
  unfolding itriple_def by (rule triple_frame)

lemma itriple_step:
  "frames (iview i) m \<Longrightarrow> (\<And>v. P v \<Longrightarrow> once v) \<Longrightarrow> (\<And>a. itriple i P (g a) R) \<Longrightarrow> itriple i P (bind m g) R"
  by (rule itriple_bind [OF itriple_frame])

lemma itriple_assume: "(c \<Longrightarrow> itriple i P m Q) \<Longrightarrow> itriple i (\<lambda>v. c \<and> P v) m Q"
  unfolding itriple_def by (rule triple_assume)

lemma itriple_returns: "itriple i P m Q \<Longrightarrow> returns V m \<Longrightarrow> itriple i P m (\<lambda>a v. V a \<and> Q a v)"
  unfolding itriple_def by (rule triple_returns)

lemma itriple_if: "(c \<Longrightarrow> itriple i P m Q) \<Longrightarrow> (\<not> c \<Longrightarrow> itriple i P n Q) \<Longrightarrow> itriple i P (if c then m else n) Q"
  by simp

lemma once_clean: "clean v \<Longrightarrow> once v"
  by (simp add: once_def)

lemma once_spent: "spent v \<Longrightarrow> once v"
  by (simp add: once_def)

lemma clean_step: "frames (iview i) m \<Longrightarrow> (\<And>a. itriple i clean (g a) R) \<Longrightarrow> itriple i clean (bind m g) R"
  by (rule itriple_step) (simp_all add: once_def)

lemma spent_step: "frames (iview i) m \<Longrightarrow> (\<And>a. itriple i spent (g a) R) \<Longrightarrow> itriple i spent (bind m g) R"
  by (rule itriple_step) (simp_all add: once_def)

lemma once_step: "frames (iview i) m \<Longrightarrow> (\<And>a. itriple i once (g a) R) \<Longrightarrow> itriple i once (bind m g) R"
  by (rule itriple_step) simp_all

lemma isave_clean:
  "ti_id ti = i \<Longrightarrow> ti_replay_policy ti = RP_never \<Longrightarrow> itriple i clean (save_invocation env ti) (\<lambda>_. clean)"
  unfolding itriple_def by (rule save_clean)

lemma isave_once:
  "ti_id ti = i \<Longrightarrow> ti_replay_policy ti = RP_never \<Longrightarrow> closed_row (ti_status ti) (ti_result ti \<noteq> None) \<Longrightarrow>
   itriple i once (save_invocation env ti) (\<lambda>_. once)"
  unfolding itriple_def by (rule save_once)

lemma isave_spent:
  "ti_id ti = i \<Longrightarrow> ti_replay_policy ti = RP_never \<Longrightarrow> closed_row (ti_status ti) (ti_result ti \<noteq> None) \<Longrightarrow>
   itriple i spent (save_invocation env ti) (\<lambda>_. spent)"
  unfolding itriple_def by (rule save_spent)

text \<open>A queue holds the invocation at most once, and only while it is clean.\<close>

definition queued :: "string \<Rightarrow> (tool_call \<times> tool_invocation) \<Rightarrow> bool" where
  "queued i x \<longleftrightarrow> ti_id (snd x) = i"

definition entry_ok :: "string \<Rightarrow> (tool_call \<times> tool_invocation) \<Rightarrow> bool" where
  "entry_ok i x \<longleftrightarrow> (queued i x \<longrightarrow> ti_replay_policy (snd x) = RP_never)"

lemma concluded_fields:
  "ti_id (concluded s r now ti) = ti_id ti" "ti_replay_policy (concluded s r now ti) = ti_replay_policy ti"
  "ti_status (concluded s r now ti) = s" "ti_result (concluded s r now ti) = Some r"
  by (simp_all add: concluded_def)

lemma fresh_fields:
  "ti_id (fresh_invocation env b tc v e p now) = tc_invocation_id tc"
  "ti_replay_policy (fresh_invocation env b tc v e p now) = p"
  by (simp_all add: fresh_invocation_def)

lemma reject_clean:
  assumes "ti_id ti = i" and "ti_replay_policy ti = RP_never"
  shows "itriple i clean (reject_call env b st tc ti r) (\<lambda>_. clean)"
  unfolding reject_call_def
  by (rule clean_step, (intro iview_frames)[1], rule itriple_bind, rule isave_clean)
    (simp_all add: concluded_fields assms clean_step [OF frames_append_result [THEN frames_invs, THEN frames_iview]] itriple_ret)

lemma reject_once:
  assumes "ti_id ti = i" and "ti_replay_policy ti = RP_never"
  shows "itriple i once (reject_call env b st tc ti r) (\<lambda>_. once)"
  unfolding reject_call_def
  by (rule once_step, (intro iview_frames)[1], rule itriple_bind, rule isave_once)
    (simp_all add: concluded_fields assms closed_row_def once_step [OF frames_append_result [THEN frames_invs, THEN frames_iview]] itriple_ret)

lemma unknown_once: "tc_invocation_id tc = i \<Longrightarrow> itriple i once (unknown_tool env b st tc) (\<lambda>_. once)"
  unfolding unknown_tool_def
  by (rule once_step, (intro iview_frames)[1], rule reject_once) (simp_all add: fresh_fields)

lemma mark_once:
  assumes "ti_id ti = i" and "ti_replay_policy ti = RP_never"
  shows "itriple i once (mark_indeterminate env b run st tc ti) (\<lambda>_. once)"
  unfolding mark_indeterminate_def
  by (rule once_step, (intro iview_frames)[1])+
    (rule itriple_bind, rule isave_once, (simp_all add: assms closed_row_def)[3],
      rule once_step, (intro iview_frames; simp)[1], (rule once_step, (intro iview_frames)[1])+, simp add: itriple_ret)

text \<open>What the stored invocation says about the row it came from.\<close>

definition found_row :: "tool_invocation option \<Rightarrow> nat \<times> invocation_row option \<Rightarrow> bool" where
  "found_row found v \<longleftrightarrow>
     (case found of None \<Rightarrow> snd v = None
      | Some ti \<Rightarrow> \<exists>r. snd v = Some r \<and> ti_id ti = ir_id r \<and> ti_status ti = ir_status r \<and>
          ti_replay_policy ti = ir_replay_policy r \<and> (ti_result ti \<noteq> None \<longleftrightarrow> ir_result r \<noteq> None))"

lemma query_found:
  "itriple i once (query env (get_tool_invocation load i)) (\<lambda>found v. found_row found v \<and> once v)"
  unfolding itriple_def
proof (rule tripleI)
  fix w e w'
  assume "once (iview i w)" "query env (get_tool_invocation load i) w = (Inl e, w')"
  then show "once (iview i w')" using framesD [OF frames_query [THEN frames_invs, THEN frames_iview]] by metis
next
  fix w found w'
  assume o: "once (iview i w)" and m: "query env (get_tool_invocation load i) w = (Inr found, w')"
  have same: "iview i w' = iview i w" using framesD [OF frames_query [THEN frames_invs, THEN frames_iview] m] .
  have "found_row found (iview i w)"
  proof (cases "sql_find ir_id i (invs w)")
    case None
    with m show ?thesis by (auto simp: query_Inr get_tool_invocation_def found_row_def iview_def invs_def)
  next
    case (Some r)
    with m show ?thesis
      by (auto simp: query_Inr get_tool_invocation_def found_row_def iview_def invs_def tool_invocation_from_row_def
          err_bind_eq_Inr map_sum_def split: sum.splits option.splits)
  qed
  with o same show "found_row found (iview i w') \<and> once (iview i w')" by simp
qed

definition step_ok :: "string \<Rightarrow> gate_step \<Rightarrow> nat \<times> invocation_row option \<Rightarrow> bool" where
  "step_ok i s v \<longleftrightarrow>
     (case s of Settled _ \<Rightarrow> once v | GoOn ti _ \<Rightarrow> ti_id ti = i \<and> ti_replay_policy ti = RP_never \<and> clean v)"

lemma found_open:
  assumes "found_row (Some ti) v" and "once v"
    and "\<not> (ti_status ti \<in> {TI_succeeded, TI_failed} \<and> ti_result ti \<noteq> None)"
    and "\<not> (ti_status ti = TI_indeterminate \<or> (ti_status ti = TI_running \<and> ti_replay_policy ti = RP_never))"
  shows "clean v \<and> ti_replay_policy ti = RP_never"
  using assms by (auto simp: found_row_def once_def clean_def spent_def closed_row_def row_never_def)

lemma found_never: "found_row (Some ti) v \<Longrightarrow> once v \<Longrightarrow> ti_replay_policy ti = RP_never"
  by (auto simp: found_row_def once_def clean_def spent_def row_never_def)

lemma found_none: "found_row None v \<Longrightarrow> once v \<Longrightarrow> clean v"
  by (auto simp: found_row_def once_def spent_def)

lemma query_found_id:
  "query env (get_tool_invocation load i) w = (Inr (Some ti), w') \<Longrightarrow> ti_id ti = i"
  by (auto simp: query_Inr get_tool_invocation_def tool_invocation_from_row_def err_bind_eq_Inr map_sum_def
      dest: sql_find_SomeD split: sum.splits option.splits)

definition found_id :: "string \<Rightarrow> tool_invocation option \<Rightarrow> bool" where
  "found_id i found \<longleftrightarrow> (\<forall>ti. found = Some ti \<longrightarrow> ti_id ti = i)"

lemma query_returns: "returns (found_id i) (query env (get_tool_invocation load i))"
  unfolding returns_def found_id_def using query_found_id by blast

lemma goon_ok: "ti_id ti = i \<Longrightarrow> ti_replay_policy ti = RP_never \<Longrightarrow> itriple i clean (ret (GoOn ti st)) (step_ok i)"
  by (rule itriple_ret) (simp add: step_ok_def)

lemma settled_ok: "itriple i once m (\<lambda>_. once) \<Longrightarrow> itriple i once (bind m (\<lambda>st'. ret (Settled st'))) (step_ok i)"
  by (erule itriple_bind) (rule itriple_ret, simp add: step_ok_def)

lemma resume_found_ok:
  assumes "ti_id ti = i"
  shows "itriple i (\<lambda>v. found_row (Some ti) v \<and> once v) (resume_found env b run st tc ti) (step_ok i)"
proof -
  let ?P = "\<lambda>v. found_row (Some ti) v \<and> once v"
  let ?stored = "if ti_status ti \<in> {TI_succeeded, TI_failed} then ti_result ti else None"
  let ?open = "ti_status ti = TI_indeterminate \<or> (ti_status ti = TI_running \<and> ti_replay_policy ti = RP_never)"
  consider (stored) r where "?stored = Some r" | (indet) "?stored = None" "?open" | (go) "?stored = None" "\<not> ?open"
    by (cases ?stored) auto
  then show ?thesis
  proof cases
    case (stored r)
    have "itriple i once (bind (replay_stored env b st tc r) (\<lambda>st'. ret (Settled st'))) (step_ok i)"
      by (rule settled_ok, rule itriple_frame) ((intro iview_frames)[1], assumption)
    then have "itriple i ?P (bind (replay_stored env b st tc r) (\<lambda>st'. ret (Settled st'))) (step_ok i)"
      by (rule itriple_conseq) simp_all
    then show ?thesis unfolding resume_found_def stored option.case .
  next
    case indet
    have "itriple i (\<lambda>v. ti_replay_policy ti = RP_never \<and> once v)
        (bind (mark_indeterminate env b run st tc ti) (\<lambda>st'. ret (Settled st'))) (step_ok i)"
      by (rule itriple_assume, rule settled_ok, rule mark_once [OF assms])
    then have "itriple i ?P (bind (mark_indeterminate env b run st tc ti) (\<lambda>st'. ret (Settled st'))) (step_ok i)"
      by (rule itriple_conseq) (auto dest: found_never)
    then show ?thesis unfolding resume_found_def indet(1) option.case using indet(2) by simp
  next
    case go
    let ?go = "if ti_status ti \<in> {TI_running, TI_cancelled}
         then bind (drop_results env b (gt_messages st) tc)
                (\<lambda>ms. ret (GoOn ti (st\<lparr>gt_messages := ms, gt_recovering := gt_recovering st @ [ti_id ti]\<rparr>)))
         else ret (GoOn ti st)"
    have "itriple i (\<lambda>v. ti_replay_policy ti = RP_never \<and> clean v) ?go (step_ok i)"
    proof (rule itriple_assume)
      assume "ti_replay_policy ti = RP_never"
      note g = goon_ok [OF assms this]
      have "itriple i clean (bind (drop_results env b (gt_messages st) tc)
                (\<lambda>ms. ret (GoOn ti (st\<lparr>gt_messages := ms, gt_recovering := gt_recovering st @ [ti_id ti]\<rparr>)))) (step_ok i)"
        by (rule clean_step, (intro iview_frames)[1], rule g)
      with g show "itriple i clean ?go (step_ok i)" by simp
    qed
    moreover have "ti_replay_policy ti = RP_never \<and> clean v" if "?P v" for v
      using found_open [of ti v] that go by (auto split: if_splits)
    ultimately have "itriple i ?P ?go (step_ok i)" by (rule itriple_conseq) simp_all
    then show ?thesis unfolding resume_found_def go(1) option.case if_not_P [OF go(2)] .
  qed
qed

lemma resume_ok:
  assumes "tc_invocation_id tc = i" and "replay_policy_for tool tc (effect_for tool tc) = RP_never"
  shows "itriple i once (resume_invocation env b run st tc tool) (step_ok i)"
  unfolding resume_invocation_def Let_def assms
proof (rule itriple_bind [OF itriple_returns [OF query_found query_returns]])
  fix found
  let ?fresh = "\<lambda>now. fresh_invocation env b tc (ts_version (tl_spec tool)) (effect_for tool tc) RP_never now"
  let ?none = "bind (read_clock env) (\<lambda>now. bind (save_invocation env (?fresh now)) (\<lambda>_. ret (GoOn (?fresh now) st)))"
  show "itriple i (\<lambda>v. found_id i found \<and> found_row found v \<and> once v)
     (case found of None \<Rightarrow> ?none | Some ti \<Rightarrow> resume_found env b run st tc ti) (step_ok i)"
  proof (rule itriple_assume, cases found)
    case None
    have "itriple i clean ?none (step_ok i)"
      by (rule clean_step, (intro iview_frames)[1], rule itriple_bind, rule isave_clean)
        (simp_all add: fresh_fields assms(1) goon_ok)
    then have "itriple i (\<lambda>v. found_row None v \<and> once v) ?none (step_ok i)"
      by (rule itriple_conseq) (auto dest: found_none)
    then show "itriple i (\<lambda>v. found_row found v \<and> once v)
       (case found of None \<Rightarrow> ?none | Some ti \<Rightarrow> resume_found env b run st tc ti) (step_ok i)" by (simp add: None)
  next
    case (Some ti)
    assume "found_id i found"
    with Some have "ti_id ti = i" by (simp add: found_id_def)
    from resume_found_ok [OF this] show "itriple i (\<lambda>v. found_row found v \<and> once v)
       (case found of None \<Rightarrow> ?none | Some ti \<Rightarrow> resume_found env b run st tc ti) (step_ok i)" by (simp add: Some)
  qed
qed

lemma open_approval_clean:
  assumes "ti_id ti = i" and "ti_replay_policy ti = RP_never"
  shows "itriple i clean (open_approval env b run pending st tc e confirm apr ti now) (\<lambda>_. clean)"
  unfolding open_approval_def
  by (rule itriple_bind, rule isave_clean [OF assms], (rule clean_step, (intro iview_frames)[1])+,
      rule itriple_frame, (intro iview_frames)[1], rule once_clean)

lemma close_approval_iview: "frames (iview i) (close_approval env b run tc confirm s apr d c)"
  unfolding close_approval_def by (intro iview_frames)

definition asked_ok :: "string \<Rightarrow> approval_decision \<times> bool \<times> tool_invocation \<Rightarrow> bool" where
  "asked_ok i r \<longleftrightarrow> ti_id (snd (snd r)) = i \<and> ti_replay_policy (snd (snd r)) = RP_never"

lemma ask_approval_clean:
  assumes "ti_id ti = i" and "ti_replay_policy ti = RP_never"
  shows "itriple i clean (ask_approval env b run pending st tc tool ti) (\<lambda>r v. asked_ok i r \<and> clean v)"
  unfolding ask_approval_def Let_def await_answer_def
  by (rule clean_step, (intro iview_frames)[1], rule clean_step, (intro iview_frames)[1],
      rule itriple_bind, rule open_approval_clean, simp add: assms, simp add: assms,
      rule clean_step, (intro iview_frames)[1], simp only: case_prod_unfold,
      rule clean_step, rule close_approval_iview, rule itriple_ret, simp add: assms asked_ok_def)

lemma admit_clean:
  assumes "ti_id ti = i" and "ti_replay_policy ti = RP_never"
  shows "itriple i clean (bind (admit_call env b st tc ti d) (\<lambda>st'. ret (st', False))) (\<lambda>_. clean)"
proof (rule itriple_bind [where Q = "\<lambda>_. clean"])
  show "itriple i clean (admit_call env b st tc ti d) (\<lambda>_. clean)"
  proof (cases "d = AD_deny")
    case True
    then show ?thesis by (simp add: admit_call_def reject_clean assms)
  next
    case False
    show ?thesis
      unfolding admit_call_def Let_def if_not_P [OF False]
      by (rule clean_step, (intro iview_frames)[1])
        (rule itriple_bind, rule isave_clean, simp_all add: assms itriple_ret)
  qed
qed (rule itriple_ret)

lemma gate_open_clean:
  assumes "ti_id ti0 = i" and "ti_replay_policy ti0 = RP_never"
    and "replay_policy_for tool tc (effect_for tool tc) = RP_never"
  shows "itriple i clean (gate_open env b run pending st tc tool ti0) (\<lambda>_. clean)"
proof -
  have rej: "itriple i clean (bind (reject_call env b st tc ti r) (\<lambda>st'. ret (st', False))) (\<lambda>_. clean)"
    if "ti_id ti = i" "ti_replay_policy ti = RP_never" for ti r
    by (rule itriple_bind [OF reject_clean [OF that]]) (rule itriple_ret)
  have dec: "itriple i clean
     (case g of
        Some d \<Rightarrow> bind (admit_call env b st tc ti d) (\<lambda>st'. ret (st', False))
      | None \<Rightarrow>
          bind (ask_approval env b run pending st tc tool ti) (\<lambda>(d, cancelled, ti').
          if cancelled then ret (st, True)
          else bind (admit_call env b st tc ti' d) (\<lambda>st'. ret (st', False)))) (\<lambda>_. clean)"
    if "ti_id ti = i" "ti_replay_policy ti = RP_never" for ti g
  proof (cases g)
    case None
    have "itriple i (\<lambda>v. asked_ok i p \<and> clean v)
       (case p of (d, cancelled, ti') \<Rightarrow> if cancelled then ret (st, True)
          else bind (admit_call env b st tc ti' d) (\<lambda>st'. ret (st', False))) (\<lambda>_. clean)" for p
      by (rule itriple_assume, cases p) (simp add: asked_ok_def admit_clean itriple_ret)
    with itriple_bind [OF ask_approval_clean [OF that]] show ?thesis unfolding None option.case by blast
  next
    case (Some d)
    then show ?thesis by (simp add: admit_clean that)
  qed
  show ?thesis
    unfolding gate_open_def Let_def assms(3)
    by (rule itriple_if, rule rej [OF assms(1,2)], rule clean_step, (intro iview_frames)[1], rule itriple_bind,
        rule isave_clean, simp add: assms, simp, rule clean_step, (intro iview_frames)[1], rule itriple_if,
        rule rej, simp add: assms, simp, rule clean_step, (intro iview_frames)[1], rule dec, simp_all add: assms)
qed

section \<open>The gate, for every call\<close>

text \<open>What the gate's loop keeps for the invocation: it is queued at most once, and then clean.\<close>

definition gate_inv :: "string \<Rightarrow> (tool_call \<times> tool_invocation) list \<Rightarrow> nat \<times> invocation_row option \<Rightarrow> bool" where
  "gate_inv i xs v \<longleftrightarrow> once v \<and> list_all (entry_ok i) xs \<and> length (filter (queued i) xs) \<le> 1 \<and>
     (filter (queued i) xs \<noteq> [] \<longrightarrow> clean v)"

text \<open>A call adds nothing to the queue or itself.\<close>

definition grows :: "tool_call \<Rightarrow> replay_policy option \<Rightarrow> gate_state \<Rightarrow> gate_state \<Rightarrow> bool" where
  "grows tc policy st st' \<longleftrightarrow> gt_allowed st' = gt_allowed st \<or>
     (\<exists>ti. gt_allowed st' = gt_allowed st @ [(tc, ti)] \<and> ti_id ti = tc_invocation_id tc \<and> Some (ti_replay_policy ti) = policy)"

lemma grows_same: "gt_allowed st' = gt_allowed st \<Longrightarrow> grows tc p st st'"
  by (simp add: grows_def)

definition same_fields :: "tool_invocation \<Rightarrow> tool_invocation \<Rightarrow> bool" where
  "same_fields ti ti' \<longleftrightarrow> ti_id ti' = ti_id ti \<and> ti_replay_policy ti' = ti_replay_policy ti"

lemma admit_grows:
  "admit_call env b st tc ti d w = (Inr st', w') \<Longrightarrow> ti_id ti = tc_invocation_id tc \<Longrightarrow>
   grows tc (Some (ti_replay_policy ti)) st st'"
  by (auto simp: admit_call_def Let_def bind_Inr ret_Inr grows_def reject_allowed split: if_splits)

lemma ask_same: "returns (\<lambda>r. same_fields ti (snd (snd r))) (ask_approval env b run pending st tc tool ti)"
  unfolding ask_approval_def Let_def by (intro returns_intros) (simp add: same_fields_def)

lemma gate_open_grows:
  assumes "ti_id ti0 = tc_invocation_id tc" and "gt_allowed st = gt_allowed st0"
  shows "returns (\<lambda>r. grows tc (Some (replay_policy_for tool tc (effect_for tool tc))) st0 (fst r))
     (gate_open env b run pending st tc tool ti0)"
proof -
  let ?p = "replay_policy_for tool tc (effect_for tool tc)"
  have g: "grows tc p st0 st' = grows tc p st st'" for p st' using assms(2) by (simp add: grows_def)
  have rej: "returns (\<lambda>r. grows tc (Some ?p) st0 (fst r)) (bind (reject_call env b st tc ti r0) (\<lambda>st'. ret (st', False)))" for ti r0
    by (rule returns_bind_with [where U = "\<lambda>st'. gt_allowed st' = gt_allowed st"], erule reject_allowed, rule returns_ret)
      (simp add: grows_def assms(2))
  have adm: "returns (\<lambda>r. grows tc (Some ?p) st0 (fst r)) (bind (admit_call env b st tc ti d) (\<lambda>st'. ret (st', False)))"
    if "ti_id ti = tc_invocation_id tc" "ti_replay_policy ti = ?p" for ti d
    by (rule returns_bind_with [where U = "grows tc (Some ?p) st"], use admit_grows that in metis, rule returns_ret, simp add: g)
  have dec: "returns (\<lambda>r. grows tc (Some ?p) st0 (fst r))
     (case dc of
        Some d \<Rightarrow> bind (admit_call env b st tc ti d) (\<lambda>st'. ret (st', False))
      | None \<Rightarrow>
          bind (ask_approval env b run pending st tc tool ti) (\<lambda>(d, cancelled, ti').
          if cancelled then ret (st, True)
          else bind (admit_call env b st tc ti' d) (\<lambda>st'. ret (st', False))))"
    if t: "ti_id ti = tc_invocation_id tc" "ti_replay_policy ti = ?p" for ti dc
  proof (cases dc)
    case None
    have "returns (\<lambda>r. grows tc (Some ?p) st0 (fst r)) (case p of (d, cancelled, ti') \<Rightarrow> if cancelled then ret (st, True)
          else bind (admit_call env b st tc ti' d) (\<lambda>st'. ret (st', False)))" if "same_fields ti (snd (snd p))" for p
      using that t by (cases p) (auto intro!: returns_ret adm grows_same simp: same_fields_def assms(2))
    then show ?thesis unfolding None option.case by (rule returns_bind_returns [OF ask_same])
  next
    case (Some d)
    then show ?thesis by (simp add: adm t)
  qed
  show ?thesis
    unfolding gate_open_def Let_def
    by (rule returns_if, rule rej, (rule returns_bind)+, rule returns_if, rule rej, rule returns_bind, rule dec)
      (simp_all add: assms)
qed

lemma resume_id:
  "returns (\<lambda>s. \<forall>ti st'. s = GoOn ti st' \<longrightarrow> ti_id ti = tc_invocation_id tc) (resume_invocation env b run st tc tool)"
  unfolding resume_invocation_def Let_def
proof (rule returns_bind_returns [OF query_returns])
  fix found
  assume f: "found_id (tc_invocation_id tc) found"
  show "returns (\<lambda>s. \<forall>ti st'. s = GoOn ti st' \<longrightarrow> ti_id ti = tc_invocation_id tc)
     (case found of None \<Rightarrow> bind (read_clock env) (\<lambda>now. bind (save_invocation env
          (fresh_invocation env b tc (ts_version (tl_spec tool)) (effect_for tool tc) (replay_policy_for tool tc (effect_for tool tc)) now))
          (\<lambda>_. ret (GoOn (fresh_invocation env b tc (ts_version (tl_spec tool)) (effect_for tool tc)
              (replay_policy_for tool tc (effect_for tool tc)) now) st)))
      | Some ti \<Rightarrow> resume_found env b run st tc ti)"
    using f unfolding resume_found_def
    by (intro returns_intros) (auto simp: fresh_fields found_id_def)
qed

definition call_policy :: "batch \<Rightarrow> tool_call \<Rightarrow> replay_policy option" where
  "call_policy b tc = map_option (\<lambda>tool. replay_policy_for tool tc (effect_for tool tc)) (ba_tools b (tc_name tc))"

lemma gate_call_grows:
  "returns (\<lambda>r. grows tc (call_policy b tc) st (fst r)) (gate_call env b run pending st tc)"
proof (cases "ba_tools b (tc_name tc)")
  case None
  have "unknown_tool env b st tc w = (Inr st', w') \<Longrightarrow> gt_allowed st' = gt_allowed st" for w st' w'
    by (auto simp: unknown_tool_def bind_Inr reject_allowed)
  then show ?thesis unfolding gate_call_def None option.case
    by (intro returns_bind_with [where U = "\<lambda>st'. gt_allowed st' = gt_allowed st"] returns_ret) (auto intro: grows_same)
next
  case (Some tool)
  let ?p = "replay_policy_for tool tc (effect_for tool tc)"
  have u: "returns (\<lambda>s. step_allowed s = gt_allowed st \<and> (\<forall>ti st'. s = GoOn ti st' \<longrightarrow> ti_id ti = tc_invocation_id tc))
      (resume_invocation env b run st tc tool)"
    using resume_returns resume_id unfolding returns_def by blast
  show ?thesis unfolding gate_call_def Some option.case
  proof (rule returns_bind_returns [OF u])
    fix s
    assume s: "step_allowed s = gt_allowed st \<and> (\<forall>ti st'. s = GoOn ti st' \<longrightarrow> ti_id ti = tc_invocation_id tc)"
    then show "returns (\<lambda>r. grows tc (call_policy b tc) st (fst r))
        (case s of Settled st' \<Rightarrow> ret (st', False) | GoOn ti st' \<Rightarrow> gate_open env b run pending st' tc tool ti)"
      using gate_open_grows [of _ tc _ st tool]
      by (cases s) (auto intro!: returns_ret grows_same simp: call_policy_def Some)
  qed
qed

text \<open>The call itself: from \<open>once\<close> to \<open>once\<close>, and clean when it was queued.\<close>

lemma gate_call_self:
  assumes "tc_invocation_id tc = i" and "call_policy b tc \<in> {None, Some RP_never}"
  shows "itriple i once (gate_call env b run pending st tc)
     (\<lambda>r v. once v \<and> (gt_allowed (fst r) \<noteq> gt_allowed st \<longrightarrow> clean v))"
proof (cases "ba_tools b (tc_name tc)")
  case None
  have "unknown_tool env b st tc w = (Inr st', w') \<Longrightarrow> gt_allowed st' = gt_allowed st" for w st' w'
    by (auto simp: unknown_tool_def bind_Inr reject_allowed)
  then have "returns (\<lambda>st'. gt_allowed st' = gt_allowed st) (unknown_tool env b st tc)" unfolding returns_def by blast
  from itriple_returns [OF unknown_once [OF assms(1)] this] show ?thesis
    unfolding gate_call_def None option.case by (rule itriple_bind) (rule itriple_ret, simp)
next
  case (Some tool)
  then have p: "replay_policy_for tool tc (effect_for tool tc) = RP_never" using assms(2) by (simp add: call_policy_def)
  have rest: "itriple i (\<lambda>v. step_allowed s = gt_allowed st \<and> step_ok i s v)
      (case s of Settled st' \<Rightarrow> ret (st', False) | GoOn ti st' \<Rightarrow> gate_open env b run pending st' tc tool ti)
      (\<lambda>r v. once v \<and> (gt_allowed (fst r) \<noteq> gt_allowed st \<longrightarrow> clean v))" for s
  proof (rule itriple_assume, cases s)
    case (Settled st')
    assume "step_allowed s = gt_allowed st"
    with Settled show "itriple i (step_ok i s)
        (case s of Settled st' \<Rightarrow> ret (st', False) | GoOn ti st' \<Rightarrow> gate_open env b run pending st' tc tool ti)
        (\<lambda>r v. once v \<and> (gt_allowed (fst r) \<noteq> gt_allowed st \<longrightarrow> clean v))"
      by (auto simp: step_ok_def intro!: itriple_ret)
  next
    case (GoOn ti st')
    have "itriple i (\<lambda>v. (ti_id ti = i \<and> ti_replay_policy ti = RP_never) \<and> clean v) (gate_open env b run pending st' tc tool ti) (\<lambda>_. clean)"
      by (rule itriple_assume) (simp add: gate_open_clean p)
    then have "itriple i (step_ok i (GoOn ti st')) (gate_open env b run pending st' tc tool ti)
        (\<lambda>r v. once v \<and> (gt_allowed (fst r) \<noteq> gt_allowed st \<longrightarrow> clean v))"
      by (rule itriple_conseq) (auto simp: step_ok_def once_clean)
    then show "itriple i (step_ok i s)
        (case s of Settled st' \<Rightarrow> ret (st', False) | GoOn ti st' \<Rightarrow> gate_open env b run pending st' tc tool ti)
        (\<lambda>r v. once v \<and> (gt_allowed (fst r) \<noteq> gt_allowed st \<longrightarrow> clean v))"
      by (simp add: GoOn)
  qed
  show ?thesis unfolding gate_call_def Some option.case
    by (rule itriple_bind [OF itriple_returns [OF resume_ok [OF assms(1) p] resume_returns] rest])
qed

subsection \<open>Other calls leave the invocation alone\<close>

lemma reject_other: "ti_id ti \<noteq> i \<Longrightarrow> frames (iview i) (reject_call env b st tc ti r)"
  unfolding reject_call_def by (intro iview_frames frames_save_other) (simp_all add: concluded_fields)

lemma mark_other: "ti_id ti \<noteq> i \<Longrightarrow> frames (iview i) (mark_indeterminate env b run st tc ti)"
  unfolding mark_indeterminate_def by (intro iview_frames frames_save_other) simp_all

lemma frames_bind_with:
  assumes "frames f m" and "returns V m" and "\<And>a. V a \<Longrightarrow> frames f (g a)"
  shows "frames f (bind m g)"
  unfolding frames_def
proof
  fix w
  obtain r w' where r: "m w = (r, w')" by (cases "m w")
  with assms(1) have "f w' = f w" by (rule framesD)
  with r assms(2,3) show "f (snd (bind m g w)) = f w"
    by (cases r) (auto simp: bind_def frames_def dest: returnsD)
qed

lemma resume_other:
  assumes "tc_invocation_id tc \<noteq> i"
  shows "frames (iview i) (resume_invocation env b run st tc tool)"
  unfolding resume_invocation_def Let_def
proof (rule frames_bind_with [OF _ query_returns])
  fix found
  assume "found_id (tc_invocation_id tc) found"
  then show "frames (iview i) (case found of None \<Rightarrow> bind (read_clock env) (\<lambda>now. bind (save_invocation env
          (fresh_invocation env b tc (ts_version (tl_spec tool)) (effect_for tool tc) (replay_policy_for tool tc (effect_for tool tc)) now))
          (\<lambda>_. ret (GoOn (fresh_invocation env b tc (ts_version (tl_spec tool)) (effect_for tool tc)
              (replay_policy_for tool tc (effect_for tool tc)) now) st)))
      | Some ti \<Rightarrow> resume_found env b run st tc ti)"
    using assms unfolding resume_found_def
    by (cases found)
      (auto simp: fresh_fields found_id_def intro!: iview_frames frames_save_other mark_other split: option.splits)
qed (intro iview_frames)

lemma ask_other: "ti_id ti \<noteq> i \<Longrightarrow> frames (iview i) (ask_approval env b run pending st tc tool ti)"
  unfolding ask_approval_def Let_def await_answer_def open_approval_def
  by (intro iview_frames frames_save_other close_approval_iview) simp_all

lemma admit_other: "ti_id ti \<noteq> i \<Longrightarrow> frames (iview i) (admit_call env b st tc ti d)"
  unfolding admit_call_def Let_def by (intro iview_frames frames_save_other reject_other) simp_all

lemma gate_open_other:
  assumes "ti_id ti0 \<noteq> i"
  shows "frames (iview i) (gate_open env b run pending st tc tool ti0)"
proof -
  have ask: "frames (iview i) (bind (ask_approval env b run pending st tc tool ti) (\<lambda>(d, cancelled, ti').
          if cancelled then ret (st, True) else bind (admit_call env b st tc ti' d) (\<lambda>st'. ret (st', False))))"
    if "ti_id ti \<noteq> i" for ti
  proof (rule frames_bind_with [OF ask_other [OF that] ask_same])
    fix r :: "approval_decision \<times> bool \<times> tool_invocation"
    assume "same_fields ti (snd (snd r))"
    with that show "frames (iview i) (case r of (d, cancelled, ti') \<Rightarrow>
        if cancelled then ret (st, True) else bind (admit_call env b st tc ti' d) (\<lambda>st'. ret (st', False)))"
      by (cases r) (auto simp: same_fields_def intro!: iview_frames admit_other)
  qed
  show ?thesis
    unfolding gate_open_def Let_def
    by (intro frames_if frames_bind frames_ret frames_option iview_leaves frames_get frames_save_other reject_other admit_other ask)
      (simp_all add: assms)
qed

lemma gate_call_other:
  assumes "tc_invocation_id tc \<noteq> i"
  shows "frames (iview i) (gate_call env b run pending st tc)"
proof (cases "ba_tools b (tc_name tc)")
  case None
  then show ?thesis unfolding gate_call_def unknown_tool_def option.case
    by (simp, intro iview_frames reject_other) (simp add: fresh_fields assms)
next
  case (Some tool)
  show ?thesis unfolding gate_call_def Some option.case
  proof (rule frames_bind_with [OF resume_other [OF assms] resume_id])
    fix s
    assume "\<forall>ti st'. s = GoOn ti st' \<longrightarrow> ti_id ti = tc_invocation_id tc"
    then show "frames (iview i) (case s of Settled st' \<Rightarrow> ret (st', False) | GoOn ti st' \<Rightarrow> gate_open env b run pending st' tc tool ti)"
      using assms by (cases s) (auto intro: frames_ret gate_open_other)
  qed
qed

section \<open>The gate's loop\<close>

lemma gate_inv_once: "gate_inv i xs v \<Longrightarrow> once v"
  by (simp add: gate_inv_def)

lemma gate_inv_clean: "clean v \<Longrightarrow> list_all (entry_ok i) xs \<Longrightarrow> length (filter (queued i) xs) \<le> 1 \<Longrightarrow> gate_inv i xs v"
  by (simp add: gate_inv_def once_def)

text \<open>A call with another id keeps the invariant whatever it queues.\<close>

lemma grows_other:
  assumes "grows tc p st st'" and "tc_invocation_id tc \<noteq> i" and "gate_inv i (gt_allowed st) v"
  shows "gate_inv i (gt_allowed st') v \<and> filter (queued i) (gt_allowed st') = filter (queued i) (gt_allowed st)"
  using assms by (auto simp: grows_def gate_inv_def queued_def entry_ok_def)

text \<open>The call itself, when it is not queued yet.\<close>

lemma grows_self:
  assumes "grows tc p st st'" and "tc_invocation_id tc = i" and "p \<in> {None, Some RP_never}"
    and "list_all (entry_ok i) (gt_allowed st)" and "filter (queued i) (gt_allowed st) = []"
    and "once v" and "gt_allowed st' \<noteq> gt_allowed st \<longrightarrow> clean v"
  shows "gate_inv i (gt_allowed st') v"
  using assms by (auto simp: grows_def gate_inv_def entry_ok_def queued_def)

definition never_replayed :: "batch \<Rightarrow> string \<Rightarrow> tool_call list \<Rightarrow> bool" where
  "never_replayed b i tcs \<longleftrightarrow> distinct (map tc_invocation_id tcs) \<and>
     (\<forall>tc \<in> set tcs. tc_invocation_id tc = i \<longrightarrow> call_policy b tc \<in> {None, Some RP_never})"

lemma gate_call_inv:
  assumes "tc_invocation_id tc = i \<Longrightarrow> call_policy b tc \<in> {None, Some RP_never} \<and> filter (queued i) (gt_allowed st) = []"
  shows "itriple i (gate_inv i (gt_allowed st)) (gate_call env b run pending st tc)
     (\<lambda>r v. gate_inv i (gt_allowed (fst r)) v \<and>
        (tc_invocation_id tc \<noteq> i \<longrightarrow> filter (queued i) (gt_allowed (fst r)) = filter (queued i) (gt_allowed st)))"
proof (cases "tc_invocation_id tc = i")
  case True
  have "itriple i (\<lambda>v. list_all (entry_ok i) (gt_allowed st) \<and> once v) (gate_call env b run pending st tc)
      (\<lambda>r v. gate_inv i (gt_allowed (fst r)) v)"
  proof (rule itriple_assume)
    assume e: "list_all (entry_ok i) (gt_allowed st)"
    from True assms have p: "call_policy b tc \<in> {None, Some RP_never}" and q: "filter (queued i) (gt_allowed st) = []" by simp_all
    show "itriple i once (gate_call env b run pending st tc) (\<lambda>r v. gate_inv i (gt_allowed (fst r)) v)"
      by (rule itriple_conseq [OF itriple_returns [OF gate_call_self [OF True p] gate_call_grows]])
        (use grows_self [OF _ True p e q] in auto)
  qed
  then show ?thesis by (rule itriple_conseq) (auto simp: gate_inv_def True)
next
  case False
  show ?thesis
    by (rule itriple_conseq [OF itriple_returns [OF itriple_frame [OF gate_call_other [OF False] gate_inv_once] gate_call_grows]])
      (use grows_other False in blast)+
qed

lemma gate_all_inv:
  assumes "never_replayed b i tcs"
    and "i \<in> tc_invocation_id ` set tcs \<Longrightarrow> filter (queued i) (gt_allowed st) = []"
  shows "itriple i (gate_inv i (gt_allowed st)) (gate_all env b run pending st tcs) (\<lambda>r. gate_inv i (gt_allowed (fst r)))"
  using assms
proof (induction env b run pending st tcs rule: gate_all.induct)
  case (1 env b run pending st)
  then show ?case by (simp add: itriple_ret)
next
  case (2 env b run pending st tc tcs)
  let ?Q = "\<lambda>r v. gate_inv i (gt_allowed (fst r)) v \<and>
        (tc_invocation_id tc \<noteq> i \<longrightarrow> filter (queued i) (gt_allowed (fst r)) = filter (queued i) (gt_allowed st))"
  have nr: "never_replayed b i tcs" and out: "tc_invocation_id tc \<notin> tc_invocation_id ` set tcs"
    using "2.prems"(1) by (auto simp: never_replayed_def)
  have one: "itriple i (gate_inv i (gt_allowed st)) (gate_call env b run pending st tc) ?Q"
    using "2.prems" by (intro gate_call_inv) (auto simp: never_replayed_def)
  have rest: "itriple i (?Q r) (case r of (st', stop) \<Rightarrow> if stop then ret (st', True) else gate_all env b run pending st' tcs)
      (\<lambda>r. gate_inv i (gt_allowed (fst r)))" for r
  proof (cases r)
    case (Pair st' stop)
    have "itriple i (\<lambda>v. (tc_invocation_id tc \<noteq> i \<longrightarrow> filter (queued i) (gt_allowed st') = filter (queued i) (gt_allowed st)) \<and>
        gate_inv i (gt_allowed st') v)
        (if stop then ret (st', True) else gate_all env b run pending st' tcs) (\<lambda>r. gate_inv i (gt_allowed (fst r)))"
    proof (rule itriple_assume, rule itriple_if)
      show "itriple i (gate_inv i (gt_allowed st')) (ret (st', True)) (\<lambda>r. gate_inv i (gt_allowed (fst r)))"
        by (simp add: itriple_ret)
    next
      assume same: "tc_invocation_id tc \<noteq> i \<longrightarrow> filter (queued i) (gt_allowed st') = filter (queued i) (gt_allowed st)"
        and go: "\<not> stop"
      have "filter (queued i) (gt_allowed st') = []" if "i \<in> tc_invocation_id ` set tcs"
        using that out same "2.prems"(2) by auto
      then show "itriple i (gate_inv i (gt_allowed st')) (gate_all env b run pending st' tcs) (\<lambda>r. gate_inv i (gt_allowed (fst r)))"
        using "2.IH" [OF go nr] by blast
    qed
    then show ?thesis unfolding Pair prod.case fst_conv by (rule itriple_conseq) auto
  qed
  show ?case unfolding gate_all.simps by (rule itriple_bind [OF one rest])
qed

end
