(* ===== verification/Replay_Once.thy ===== *)
theory Replay_Once
  imports Replay_Safety
begin

text \<open>
  Calls that must not be replayed, second part: whatever crashes, resumes and concurrent orders
  occur, the handler of such a call is started at most once. The proof follows one invocation
  through its execution, the queue of a batch and the lives of the process.
\<close>

section \<open>Running the call\<close>

text \<open>A successful result carries no error code, as the handlers of the code base return it.\<close>

definition honest :: "tool_result \<Rightarrow> bool" where
  "honest r \<longleftrightarrow> tr_is_error r \<or> tr_error_code r = None"

definition honest_env :: "engine_env \<Rightarrow> bool" where
  "honest_env env \<longleftrightarrow> (\<forall>name args n r. en_run env name args n = Returned r \<longrightarrow> honest r)"

lemma honest_stamp: "honest r \<Longrightarrow> honest (stamp tc n r)"
  by (simp add: honest_def stamp_def)

lemma honest_name_error: "honest r \<Longrightarrow> honest (name_error c r)"
  by (auto simp: honest_def name_error_def Let_def)

lemma honest_handler:
  "honest_env env \<Longrightarrow> handler_result env tool tc c (en_run env name args n) = Some r \<Longrightarrow> honest r"
  by (cases "en_run env name args n")
    (auto simp: handler_result_def honest_env_def honest_def plain_error_def call_error_def split: if_splits)

lemma handler_returns:
  "returns (\<lambda>out. \<exists>n. out = en_run env (tc_name tc) (tc_arguments tc) n) (call_handler env tc iid k)"
  unfolding call_handler_def andthen_def by (intro returns_intros) blast

lemma interruption_never: "after_interruption env tool tc RP_never n r = ret r"
  by (simp add: after_interruption_def)

lemma run_attempt_honest:
  assumes "honest_env env" and "ti_replay_policy ti = RP_never"
  shows "returns (\<lambda>(r, ti'). honest r) (run_attempt env tool tc k ti)"
proof -
  have p: "ti_replay_policy (started k now ti) = RP_never" for now by (simp add: started_def assms(2))
  have rest: "returns (\<lambda>(r, ti'). honest r)
     (case handler_result env tool tc c out of
       None \<Rightarrow> raise CancelledError
     | Some r0 \<Rightarrow> bind (ret (stamp tc k r0)) (\<lambda>r1. bind (is_cancelled env) (\<lambda>c'. bind (read_mono env) (\<lambda>t1.
         bind (read_clock env) (\<lambda>now''.
         bind (write_db env (\<lambda>db. Inr (finish_tool_attempt now'' aid (if tr_is_error (name_error c' r1) then AT_failed else AT_succeeded)
                 ((t1 - t0) * 1000) (tr_error_code (name_error c' r1)) (tr_error_category (name_error c' r1)) db))) (\<lambda>_.
         ret (name_error c' r1, ti')))))))"
    if "\<exists>n. out = en_run env (tc_name tc) (tc_arguments tc) n" for out c aid t0 ti'
    using that honest_handler [OF assms(1)]
    by (intro returns_option returns_raise) (auto intro!: returns_intros honest_name_error honest_stamp)
  show ?thesis
    unfolding run_attempt_def Let_def p interruption_never
    by (rule returns_bind, rule returns_bind, rule returns_bind, rule returns_bind, rule returns_bind, rule returns_bind,
        rule returns_bind_returns [OF handler_returns], rule returns_bind, rule rest)
qed

definition ready :: "nat \<times> invocation_row option \<Rightarrow> bool" where
  "ready v \<longleftrightarrow> clean v \<and> (\<exists>r. snd v = Some r \<and> ir_status r = TI_running)"

lemma once_ready: "ready v \<Longrightarrow> once v"
  by (simp add: ready_def once_def)

lemma save_ready:
  assumes "ti_id ti = i" and "ti_replay_policy ti = RP_never" and "ti_status ti = TI_running"
  shows "itriple i clean (save_invocation env ti) (\<lambda>_. ready)"
  unfolding itriple_def
proof (rule tripleI)
  fix w e w'
  assume "clean (iview i w)" and "save_invocation env ti w = (Inl e, w')"
  then show "once (iview i w')" using triple_Inl [OF save_clean [OF assms(1,2)]] by blast
next
  fix w u w'
  assume c: "clean (iview i w)" and m: "save_invocation env ti w = (Inr u, w')"
  then have "iview i w' = (fst (iview i w), Some (saved_row env ti (snd (iview i w))))"
    using triple_Inr [OF save_triple [OF assms(1)] refl] by blast
  moreover have "clean (iview i w')" using triple_Inr [OF save_clean [OF assms(1,2)] c m] .
  ultimately show "ready (iview i w')" using assms(3) saved_row_fields(1) by (simp add: ready_def)
qed

lemma handler_spent: "itriple i ready (call_handler env tc i k) (\<lambda>_. spent)"
  by (auto simp: itriple_def triple_def call_handler_def andthen_def bind_def modify_def tick_def ret_def iview_def
      invs_def ready_def clean_def spent_def closed_row_def)

lemma run_attempt_spent:
  assumes "ti_id ti = i" and "ti_replay_policy ti = RP_never"
  shows "itriple i clean (run_attempt env tool tc k ti) (\<lambda>_. spent)"
proof -
  have f: "ti_id (started k now ti) = i" "ti_replay_policy (started k now ti) = RP_never" "ti_status (started k now ti) = TI_running" for now
    by (simp_all add: started_def assms)
  have after: "itriple i spent
    (case x of None \<Rightarrow> raise CancelledError
     | Some r0 \<Rightarrow> bind (ret (stamp tc k r0)) (\<lambda>r1. bind (is_cancelled env) (\<lambda>c'. bind (read_mono env) (\<lambda>t1.
         bind (read_clock env) (\<lambda>now''.
         bind (write_db env (\<lambda>db. Inr (finish_tool_attempt now'' aid (if tr_is_error (name_error c' r1) then AT_failed else AT_succeeded)
                 ((t1 - t0) * 1000) (tr_error_code (name_error c' r1)) (tr_error_category (name_error c' r1)) db))) (\<lambda>_.
         ret (name_error c' r1, ti'))))))) (\<lambda>_. spent)" for x aid t0 ti'
  proof (cases x)
    case None
    then show ?thesis by (simp add: itriple_raise once_spent)
  next
    case (Some r0)
    show ?thesis unfolding Some option.case by (rule spent_step, (intro iview_frames)[1])+ (simp add: itriple_ret)
  qed
  show ?thesis
    unfolding run_attempt_def Let_def f interruption_never
    by (rule clean_step, (intro iview_frames)[1], rule clean_step, (intro iview_frames)[1],
        rule itriple_bind, rule save_ready, simp_all only: f,
        (rule itriple_step, (intro iview_frames)[1], erule once_ready)+,
        rule itriple_bind, rule handler_spent, rule spent_step, (intro iview_frames)[1], rule after)
qed

lemma not_safe_no_retry: "policy = RP_never \<Longrightarrow> \<not> can_retry r policy left c"
  by (simp add: can_retry_def)

lemma attempt_loop_once:
  assumes "ti_id ti = i" and "ti_replay_policy ti = RP_never" and "honest_env env" and "honest r"
  shows "itriple i clean (attempt_loop env run sp tool tc left k ti r) (\<lambda>(r', ti') v. (honest r' \<and> same_call ti ti') \<and> once v)"
proof (cases left)
  case 0
  then show ?thesis by (simp add: itriple_ret once_def assms(4) same_call_def)
next
  case (Suc n)
  have "returns (\<lambda>p. (case p of (r', ti') \<Rightarrow> same_call ti ti') \<and> (case p of (r', ti') \<Rightarrow> honest r')) (run_attempt env tool tc k ti)"
    using run_attempt_returns run_attempt_honest [OF assms(3,2)] unfolding returns_def by blast
  note first = itriple_returns [OF run_attempt_spent [OF assms(1,2)] this]
  have rest: "itriple i (\<lambda>v. ((case p of (r', ti') \<Rightarrow> same_call ti ti') \<and> (case p of (r', ti') \<Rightarrow> honest r')) \<and> spent v)
     (case p of (r', ti') \<Rightarrow> bind (is_cancelled env) (\<lambda>cancelled.
       if can_retry r' (ti_replay_policy ti') n cancelled then go r' ti' else ret (r', ti')))
     (\<lambda>(r', ti') v. (honest r' \<and> same_call ti ti') \<and> once v)" for p go
  proof (rule itriple_assume, cases p)
    fix r' ti'
    assume h: "(case p of (r', ti') \<Rightarrow> same_call ti ti') \<and> (case p of (r', ti') \<Rightarrow> honest r')" and p: "p = (r', ti')"
    then have "ti_replay_policy ti' = RP_never" using assms(2) by (simp add: same_call_def)
    then have no: "\<not> can_retry r' (ti_replay_policy ti') n c" for c by (rule not_safe_no_retry)
    show "itriple i spent (case p of (r', ti') \<Rightarrow> bind (is_cancelled env) (\<lambda>cancelled.
       if can_retry r' (ti_replay_policy ti') n cancelled then go r' ti' else ret (r', ti')))
       (\<lambda>(r', ti') v. (honest r' \<and> same_call ti ti') \<and> once v)"
      unfolding p prod.case if_not_P [OF no]
      by (rule spent_step, (intro iview_frames)[1]) (use h p in \<open>auto intro!: itriple_ret once_spent\<close>)
  qed
  show ?thesis unfolding Suc attempt_loop.simps by (rule itriple_bind [OF first rest])
qed

lemma bound_fields_codes:
  "tr_is_error (bound_fields spec bud r) = tr_is_error r" "tr_error_code (bound_fields spec bud r) = clip_str (tr_error_code r) 128"
  by (simp_all add: bound_fields_def Let_def)

lemma fit_codes:
  "tr_is_error (fit_serialized_tool_result js r n) = tr_is_error r" "tr_error_code (fit_serialized_tool_result js r n) = tr_error_code r"
  by (simp_all add: fit_serialized_tool_result_def Let_def)

lemma bound_tool_result_codes:
  assumes "bound_tool_result co rd js path now i spec bud r (files, db) = (r', files', db')"
  shows "tr_is_error r' = tr_is_error r" "tr_error_code r' = clip_str (tr_error_code r) 128"
proof -
  obtain f m where put: "artifact_put co rd now i (PBytes (serialized_tool_result js (fit_serialized_tool_result js
      (bound_fields spec bud r) (int (b_max_tool_result_bytes bud))))) (lit ''application/json'')
      (Some (take 200 (tr_content (fit_serialized_tool_result js (bound_fields spec bud r) (int (b_max_tool_result_bytes bud)))))) files = (f, m)"
    by (meson surj_pair)
  from assms show "tr_is_error r' = tr_is_error r" "tr_error_code r' = clip_str (tr_error_code r) 128"
    by (auto simp: bound_tool_result_def Let_def put case_prod_unfold fit_codes bound_fields_codes split: if_splits)
qed

lemma bound_result_honest:
  assumes "honest r"
  shows "returns honest (bound_result env b tool r)"
proof -
  have "honest r'" if "bound_tool_result co rd js path now i spec bud r st = (r', st')" for co rd js path now i spec bud st r' st'
    using bound_tool_result_codes [of co rd js path now i spec bud r "fst st" "snd st" r' "fst st'" "snd st'"] that assms
    by (auto simp: honest_def clip_str_def)
  then have "returns honest (\<lambda>w. case bound_tool_result (en_codec env) (en_redactor env) (en_json env) (en_path env) now i (tl_spec tool)
              (rq_budget (ba_request b)) r (w_files w, w_db w) of
         (r', files, db) \<Rightarrow> (Inr r', w\<lparr>w_files := files, w_db := db\<rparr>))" for now i
    unfolding returns_def by (auto split: prod.splits)
  then show ?thesis unfolding bound_result_def by (intro returns_bind)
qed

lemma terminal_closed: "honest r \<Longrightarrow> closed_row (terminal_status RP_never r) True"
  by (auto simp: terminal_status_def outcome_uncertain_def closed_row_def honest_def)

lemma conclude_once:
  assumes "ti_id ti = i" and "ti_replay_policy ti = RP_never" and "honest r"
  shows "itriple i once (conclude env lower b run sp tool tc t0 r ti) (\<lambda>_. once)"
proof -
  have h: "honest (r\<lparr>tr_duration_ms := Some d\<rparr>)" for d using assms(3) by (simp add: honest_def)
  have save: "itriple i once (save_invocation env (concluded (terminal_status RP_never r1) r2 now ti)) (\<lambda>_. once)"
    if "honest r1" for r1 r2 now
    by (rule isave_once) (simp_all add: concluded_fields assms terminal_closed that)
  have rest: "itriple i (\<lambda>v. honest r1 \<and> once v)
     (bind (when_op u (set_ctx rid f)) (\<lambda>_. bind (read_clock env) (\<lambda>now.
      bind (save_invocation env (concluded (terminal_status RP_never r1) r2 now ti)) (\<lambda>_.
      bind (report env lower run sp tc s d r2) (\<lambda>_. ret r2))))) (\<lambda>_. once)" for r1 r2 u rid f s d
    by (rule itriple_assume, rule once_step, (intro iview_frames)[1], rule once_step, (intro iview_frames)[1],
        rule itriple_bind, rule save, assumption, rule once_step, (intro iview_frames)[1]) (simp add: itriple_ret)
  have bd: "itriple i once (bound_result env b tool (r\<lparr>tr_duration_ms := Some d\<rparr>)) (\<lambda>r1 v. honest r1 \<and> once v)" for d
    by (rule itriple_returns [OF itriple_frame bound_result_honest [OF h]]) ((intro iview_frames)[1], assumption)
  show ?thesis unfolding conclude_def Let_def assms(2)
    by (rule once_step, (intro iview_frames)[1], rule itriple_bind [OF bd], rule rest)
qed

lemma recover_none: "ti_replay_policy ti = RP_never \<Longrightarrow> returns (\<lambda>x. x = None) (recover env b rec tool tc ti)"
  unfolding recover_def Let_def by (intro returns_intros) simp_all

lemma recover_iview: "ti_replay_policy ti = RP_never \<Longrightarrow> frames (iview i) (recover env b rec tool tc ti)"
  unfolding recover_def Let_def
  by (intro frames_if iview_frames frames_finish_running [THEN frames_invs, THEN frames_iview, unfolded Let_def]) simp_all

lemma run_once:
  assumes "ti_id ti = i" and "ti_replay_policy ti = RP_never" and "honest_env env"
  shows "itriple i clean (run_tool_invocation env lower b run rec tool tc ti) (\<lambda>_. once)"
proof -
  have nr: "honest (not_run tc)" by (simp add: honest_def not_run_def plain_error_def call_error_def)
  have fin: "itriple i (\<lambda>v. (case p of (r', ti') \<Rightarrow> honest r' \<and> same_call ti ti') \<and> once v)
     (case p of (r, ti') \<Rightarrow> conclude env lower b run sp tool tc t0 r ti') (\<lambda>_. once)" for p sp t0
    by (rule itriple_assume, cases p) (use assms in \<open>auto simp: same_call_def intro!: conclude_once\<close>)
  have loop: "itriple i clean (bind (attempt_loop env run sp tool tc left k ti (not_run tc))
      (\<lambda>(r, ti'). conclude env lower b run sp tool tc t0 r ti')) (\<lambda>_. once)" for sp t0 left k
    by (rule itriple_bind [OF itriple_conseq [OF attempt_loop_once [OF assms nr]] fin]) auto
  have rec: "itriple i clean (recover env b rec tool tc ti) (\<lambda>x v. x = None \<and> clean v)"
    by (rule itriple_returns [OF itriple_frame [OF recover_iview [OF assms(2)] once_clean] recover_none [OF assms(2)]])
  have rest: "itriple i (\<lambda>v. x = None \<and> clean v)
     (case x of Some r \<Rightarrow> ret r | None \<Rightarrow> bind (attempt_loop env run sp tool tc left k ti (not_run tc))
      (\<lambda>(r, ti'). conclude env lower b run sp tool tc t0 r ti')) (\<lambda>_. once)" for x sp t0 left k
    by (rule itriple_assume) (simp add: loop)
  show ?thesis
    unfolding run_tool_invocation_def
    by (rule clean_step, (intro iview_frames)[1], rule itriple_if, simp add: itriple_ret once_clean,
        rule clean_step, (intro iview_frames)[1], rule clean_step, (intro iview_frames)[1],
        rule clean_step, (intro iview_frames)[1], rule itriple_bind [OF rec rest])
qed

subsection \<open>Running another call\<close>

lemma run_attempt_other:
  assumes "ti_id ti \<noteq> i"
  shows "frames (iview i) (run_attempt env tool tc k ti)"
proof -
  have f: "ti_id (started k now ti) = ti_id ti" for now by (simp add: started_def)
  have h: "frames (iview i) (call_handler env tc (ti_id ti) k)"
    using assms by (simp add: frames_def call_handler_def andthen_def bind_def modify_def tick_def ret_def iview_def invs_def)
  show ?thesis unfolding run_attempt_def Let_def f
    by (intro frames_bind frames_option frames_raise frames_ret iview_leaves frames_save_other h) (simp add: f assms)
qed

lemma attempt_loop_other: "ti_id ti \<noteq> i \<Longrightarrow> frames (iview i) (attempt_loop env run sp tool tc left k ti r)"
proof (induction left arbitrary: k ti r)
  case 0
  then show ?case by (simp add: frames_ret)
next
  case (Suc left)
  show ?case unfolding attempt_loop.simps
  proof (rule frames_bind_with [OF run_attempt_other [OF Suc.prems] run_attempt_returns])
    fix p :: "tool_result \<times> tool_invocation"
    assume "case p of (r', ti') \<Rightarrow> same_call ti ti'"
    then have "ti_id (snd p) \<noteq> i" using Suc.prems by (cases p) (simp add: same_call_def)
    from Suc.IH [OF this] show "frames (iview i) (case p of (r', ti') \<Rightarrow> bind (is_cancelled env) (\<lambda>cancelled.
       if can_retry r' (ti_replay_policy ti') left cancelled
       then bind tick (\<lambda>n. bind (emit env run (Some sp) [(ET_tool_retry,
         [(lit ''tool_call_id'', VStr (lit (tc_id tc))), (lit ''invocation_id'', VStr (lit (tc_invocation_id tc))),
          (lit ''name'', VStr (lit (tc_name tc))), (lit ''attempt'', VInt (int k)),
          (lit ''delay_s'', VFloat (retry_delay_s k (en_jitter env n))), (lit ''error_code'', opt_str (tr_error_code r'))])])
         (\<lambda>_. attempt_loop env run sp tool tc left (Suc k) ti' r'))
       else ret (r', ti')))"
      by (cases p) (simp only: prod.case snd_conv, intro frames_bind frames_if frames_ret iview_leaves, simp)
  qed
qed

lemma attempt_loop_same: "returns (\<lambda>(r', ti'). same_call ti ti') (attempt_loop env run sp tool tc left k ti r)"
proof (induction left arbitrary: k ti r)
  case 0
  then show ?case by (simp add: returns_ret same_call_def)
next
  case (Suc left)
  have "returns (\<lambda>(r', ti'). same_call ti ti') (case p of (r', ti') \<Rightarrow> bind m (\<lambda>cancelled.
       if c r' ti' cancelled then bind tick (\<lambda>n. bind (e r' n) (\<lambda>_. attempt_loop env run sp tool tc left (Suc k) ti' r'))
       else ret (r', ti')))" if s: "case p of (r', ti') \<Rightarrow> same_call ti ti'" for p m e c
  proof (cases p)
    case (Pair r' ti')
    have go: "returns (\<lambda>(r', ti''). same_call ti ti'') (attempt_loop env run sp tool tc left (Suc k) ti' r')"
      using Suc.IH [of ti' "Suc k" r'] s Pair unfolding returns_def by (fastforce simp: same_call_def)
    show ?thesis unfolding Pair prod.case
      by (intro returns_bind returns_if returns_ret go) (use s Pair in simp)
  qed
  then show ?case unfolding attempt_loop.simps by (rule returns_bind_returns [OF run_attempt_returns])
qed

lemma conclude_other: "ti_id ti \<noteq> i \<Longrightarrow> frames (iview i) (conclude env lower b run sp tool tc t0 r ti)"
  unfolding conclude_def Let_def by (intro iview_frames frames_save_other) (simp add: concluded_fields)

lemma recover_other: "ti_id ti \<noteq> i \<Longrightarrow> frames (iview i) (recover env b rec tool tc ti)"
  unfolding recover_def Let_def reconciled_invocation_def
  by (intro iview_frames frames_save_other frames_finish_running [THEN frames_invs, THEN frames_iview, unfolded Let_def])
    (simp add: concluded_fields)

lemma run_other:
  assumes "ti_id ti \<noteq> i"
  shows "frames (iview i) (run_tool_invocation env lower b run rec tool tc ti)"
proof -
  have loop: "frames (iview i) (bind (attempt_loop env run sp tool tc left k ti r) (\<lambda>(r, ti'). conclude env lower b run sp tool tc t0 r ti'))" for sp left k r t0
  proof (rule frames_bind_with [OF attempt_loop_other [OF assms] attempt_loop_same])
    fix p :: "tool_result \<times> tool_invocation"
    assume "case p of (r', ti') \<Rightarrow> same_call ti ti'"
    then have "ti_id (snd p) \<noteq> i" using assms by (cases p) (simp add: same_call_def)
    then show "frames (iview i) (case p of (r, ti') \<Rightarrow> conclude env lower b run sp tool tc t0 r ti')"
      by (cases p) (simp add: conclude_other)
  qed
  show ?thesis unfolding run_tool_invocation_def
    by (rule frames_bind, (intro iview_leaves)[1], rule frames_if, rule frames_ret, rule frames_bind, (intro iview_leaves)[1],
        rule frames_bind, (intro iview_leaves)[1], rule frames_bind, (intro iview_leaves)[1],
        rule frames_bind, rule recover_other, rule assms, rule frames_option, rule loop, rule frames_ret)
qed

section \<open>The queue\<close>

text \<open>The slots that hold the invocation, and the items a queue of calls becomes.\<close>

definition item_of :: "engine_env \<Rightarrow> (utext \<Rightarrow> utext) \<Rightarrow> batch \<Rightarrow> run_view \<Rightarrow> string list \<Rightarrow> tool_call \<times> tool_invocation \<Rightarrow> queued" where
  "item_of env lower b run rec x = queue_item env lower b run rec (the (ba_tools b (tc_name (fst x)))) (fst x) (snd x)"

lemma queue_calls_returns:
  "returns (\<lambda>items. items = map (item_of env lower b run rec) xs) (queue_calls env lower b run rec xs)"
proof (induction xs)
  case Nil
  then show ?case by (simp add: returns_ret)
next
  case (Cons x xs)
  obtain tc ti where x: "x = (tc, ti)" by (cases x)
  show ?case
  proof (cases "ba_tools b (tc_name tc)")
    case None
    then show ?thesis by (simp add: x returns_raise)
  next
    case (Some tool)
    show ?thesis unfolding x queue_calls.simps Some option.case Let_def
      by (rule returns_bind, rule returns_bind_returns [OF Cons.IH], rule returns_ret) (simp add: item_of_def Some)
  qed
qed

lemma queue_calls_frames: "frames core (queue_calls env lower b run rec xs)"
proof (induction xs)
  case Nil
  then show ?case by (simp add: frames_ret)
next
  case (Cons x xs)
  then show ?case by (cases x) (simp add: Let_def, intro frames_intros)
qed

definition run_item_op :: "queued \<Rightarrow> tool_result wop" where
  "run_item_op it = (\<lambda>w. case bi_fn it w of (w', r) \<Rightarrow> (r, w'))"

lemma run_item_op_item:
  "run_item_op (item_of env lower b run rec x) =
   run_tool_invocation env lower b run rec (the (ba_tools b (tc_name (fst x)))) (fst x) (snd x)"
  by (simp add: run_item_op_def item_of_def queue_item_def Let_def case_prod_unfold fun_eq_iff)

text \<open>A slot that holds the invocation runs once; what was clean before is once after.\<close>

lemma run_slots_keeps:
  assumes "\<And>j. j \<in> set js \<Longrightarrow> j < length xs \<and> \<not> queued i (xs ! j)"
  shows "itriple i once (run_slots (map (item_of env lower b run rec) xs) js rs) (\<lambda>_. once)"
  using assms
proof (induction js arbitrary: rs)
  case Nil
  then show ?case by (simp add: itriple_ret)
next
  case (Cons j js)
  then have j: "j < length xs" "ti_id (snd (xs ! j)) \<noteq> i" by (auto simp: queued_def)
  show ?case unfolding run_slots.simps nth_map [OF j(1)] run_item_op_def [symmetric] run_item_op_item
    by (rule once_step [OF run_other [OF j(2)]], rule Cons.IH) (use Cons.prems in auto)
qed

lemma run_slots_once:
  assumes "distinct js" and "\<And>j. j \<in> set js \<Longrightarrow> j < length xs" and "list_all (entry_ok i) xs"
    and "length (filter (queued i) xs) \<le> 1" and "honest_env env"
  shows "itriple i clean (run_slots (map (item_of env lower b run rec) xs) js rs) (\<lambda>_. once)"
  using assms(1,2)
proof (induction js arbitrary: rs)
  case Nil
  then show ?case by (simp add: itriple_ret once_clean)
next
  case (Cons j js)
  then have j: "j < length xs" by simp
  show ?case
  proof (cases "queued i (xs ! j)")
    case False
    then have "ti_id (snd (xs ! j)) \<noteq> i" by (simp add: queued_def)
    from run_other [OF this] show ?thesis
      unfolding run_slots.simps nth_map [OF j] run_item_op_def [symmetric] run_item_op_item
      by (rule clean_step, intro Cons.IH) (use Cons.prems in auto)
  next
    case True
    with assms(3) j have own: "ti_id (snd (xs ! j)) = i" "ti_replay_policy (snd (xs ! j)) = RP_never"
      by (auto simp: queued_def entry_ok_def list_all_length)
    have others: "k < length xs \<and> \<not> queued i (xs ! k)" if k: "k \<in> set js" for k
    proof
      show lk: "k < length xs" using Cons.prems k by simp
      have "k \<noteq> j" using Cons.prems k by auto
      show "\<not> queued i (xs ! k)"
      proof
        assume "queued i (xs ! k)"
        with True have "{j, k} \<subseteq> {m. m < length xs \<and> queued i (xs ! m)}" using j lk by auto
        then have "card {j, k} \<le> card {m. m < length xs \<and> queued i (xs ! m)}" by (intro card_mono) auto
        with \<open>k \<noteq> j\<close> assms(4) show False by (simp add: length_filter_conv_card)
      qed
    qed
    show ?thesis
      unfolding run_slots.simps nth_map [OF j] run_item_op_def [symmetric] run_item_op_item
      by (rule itriple_bind [OF run_once [OF own assms(5)]], rule run_slots_keeps, rule others)
  qed
qed

text \<open>The order in which the scheduler finishes the slots of a batch: each slot once.\<close>

definition fair_order :: "engine_env \<Rightarrow> bool" where
  "fair_order env \<longleftrightarrow> (\<forall>gs. mset (en_order env gs) = mset (concat gs))"

lemma order_slots:
  assumes "fair_order env"
  shows "distinct (en_order env (map (map fst) (plan_batch items)))"
    and "set (en_order env (map (map fst) (plan_batch items))) = {0..<length items}"
proof -
  have "concat (map (map fst) (plan_batch items)) = [0..<length items]"
    by (simp add: map_concat [symmetric] plan_batch_def plan_loop_concat)
  with assms have m: "mset (en_order env (map (map fst) (plan_batch items))) = mset [0..<length items]"
    by (simp add: fair_order_def)
  show "distinct (en_order env (map (map fst) (plan_batch items)))" using mset_eq_imp_distinct_iff [OF m] by simp
  show "set (en_order env (map (map fst) (plan_batch items))) = {0..<length items}" using mset_eq_setD [OF m] by simp
qed

lemma run_queue_once:
  assumes "honest_env env" and "fair_order env"
  shows "itriple i (gate_inv i xs) (run_queue env (map (item_of env lower b run rec) xs)) (\<lambda>_. once)"
proof -
  let ?items = "map (item_of env lower b run rec) xs"
  let ?js = "en_order env (map (map fst) (plan_batch ?items))"
  note slots = order_slots [OF assms(2), of ?items]
  have "itriple i (gate_inv i xs) (run_slots ?items ?js (replicate (length ?items) None)) (\<lambda>_. once)"
  proof (cases "filter (queued i) xs = []")
    case True
    have "j < length xs \<and> \<not> queued i (xs ! j)" if "j \<in> set ?js" for j
      using that slots(2) True by (auto simp: filter_empty_conv)
    from run_slots_keeps [OF this] show ?thesis by (rule itriple_conseq) (auto dest: gate_inv_once)
  next
    case False
    have "itriple i (\<lambda>v. (list_all (entry_ok i) xs \<and> length (filter (queued i) xs) \<le> 1) \<and> clean v)
        (run_slots ?items ?js (replicate (length ?items) None)) (\<lambda>_. once)"
      by (rule itriple_assume, rule run_slots_once) (use slots assms(1) in auto)
    then show ?thesis by (rule itriple_conseq) (use False in \<open>auto simp: gate_inv_def\<close>)
  qed
  then show ?thesis unfolding run_queue_def by (rule itriple_bind) (simp add: itriple_ret)
qed

lemma record_results_iview: "frames (iview i) (record_results env b ms done rs)"
proof (induction rs arbitrary: ms "done")
  case Nil
  then show ?case by (simp add: frames_ret)
next
  case (Cons r rs)
  show ?case unfolding record_results.simps by (intro iview_frames Cons.IH)
qed

lemma finish_batch_once:
  assumes "honest_env env" and "fair_order env"
  shows "itriple i (gate_inv i (gt_allowed st)) (finish_batch env lower b run pending st) (\<lambda>_. once)"
proof -
  have q: "itriple i (gate_inv i (gt_allowed st)) (queue_calls env lower b run (gt_recovering st) (gt_allowed st))
     (\<lambda>items v. items = map (item_of env lower b run (gt_recovering st)) (gt_allowed st) \<and> gate_inv i (gt_allowed st) v)"
    by (rule itriple_returns [OF itriple_frame [OF queue_calls_frames [THEN frames_invs, THEN frames_iview] gate_inv_once] queue_calls_returns])
  have rest: "itriple i once (bind (record_results env b ms done rs) (\<lambda>(ms, completed). bind (f completed) (\<lambda>_. bind (g ms completed) (\<lambda>_. ret (h ms completed)))))
     (\<lambda>_. once)" if "\<And>c. frames (iview i) (f c)" "\<And>m c. frames (iview i) (g m c)" for ms "done" rs f g h
    by (rule once_step [OF record_results_iview], simp only: case_prod_unfold, rule once_step, rule that, rule once_step, rule that)
      (simp add: itriple_ret)
  have body: "itriple i (\<lambda>v. items = map (item_of env lower b run (gt_recovering st)) (gt_allowed st) \<and> gate_inv i (gt_allowed st) v)
     (bind (run_queue env items) k) (\<lambda>_. once)" if "\<And>rs. itriple i once (k rs) (\<lambda>_. once)" for items k
    by (rule itriple_assume) (simp add: itriple_bind [OF run_queue_once [OF assms] that])
  show ?thesis unfolding finish_batch_def Let_def
    by (rule itriple_bind [OF q], rule body, rule rest) (intro iview_leaves)+
qed

section \<open>Process lives\<close>

lemma execute_batch_once:
  assumes "honest_env env" and "fair_order env" and "never_replayed b i tcs"
  shows "itriple i once (execute_batch env lower b ms tcs completed) (\<lambda>_. once)"
proof -
  have never: "never_replayed b i (not_completed completed tcs)"
    using assms(3) by (auto simp: never_replayed_def not_completed_def distinct_map_filter)
  let ?st = "\<lparr>gt_messages = ms, gt_completed = completed, gt_results = [], gt_allowed = [], gt_recovering = []\<rparr>"
  have gate: "itriple i once (gate_all env b run (not_completed completed tcs) ?st (not_completed completed tcs))
      (\<lambda>r. gate_inv i (gt_allowed (fst r)))" for run
    by (rule itriple_conseq [OF gate_all_inv [OF never, of ?st]]) (simp_all add: gate_inv_def)
  have rest: "itriple i (gate_inv i (gt_allowed (fst r)))
     (case r of (st, stop) \<Rightarrow> if stop then ret (gt_results st, gt_messages st, gt_completed st)
        else finish_batch env lower b run pending st) (\<lambda>_. once)" for r run pending
    by (cases r) (auto intro!: itriple_ret finish_batch_once assms dest: gate_inv_once)
  show ?thesis unfolding execute_batch_def
  proof (rule once_step)
    show "frames (iview i) (query env (\<lambda>db. Inr (get_run (ba_run_id b) db)))" by (intro iview_leaves)
  next
    fix found
    show "itriple i once (case found of None \<Rightarrow> raise AssertionError
       | Some run \<Rightarrow> let pending = not_completed completed tcs in
         if pending = [] then ret ([], ms, completed)
         else
           bind (set_ctx (ba_run_id b) (\<lambda>c. c\<lparr>rc_completed := completed, rc_pending := pending\<rparr>)) (\<lambda>_.
           bind (write_checkpoint env (ba_run_id b) CP_tool_batch (ba_step b) ms pending completed (ba_usage b) RS_running None) (\<lambda>_.
           bind (gate_all env b run pending ?st pending)
             (\<lambda>(st, stop). if stop then ret (gt_results st, gt_messages st, gt_completed st)
               else finish_batch env lower b run pending st)))) (\<lambda>_. once)"
    proof (cases found)
      case None
      then show ?thesis by (simp add: itriple_raise)
    next
      case (Some run)
      show ?thesis unfolding Some option.case Let_def
        by (rule itriple_if, simp add: itriple_ret, rule once_step, (intro iview_leaves)[1], rule once_step, (intro iview_leaves)[1],
            rule itriple_bind [OF gate rest])
    qed
  qed
qed

text \<open>
  One life of the process: it starts with no run contexts, sweeps the expired leases, and runs
  one batch; a crash, an exception or a return ends it. The next life finds the store as it is.
\<close>

record life =
  lf_env :: engine_env
  lf_lower :: "utext \<Rightarrow> utext"
  lf_now :: time
  lf_event_id :: "string \<Rightarrow> string"
  lf_batch :: batch
  lf_messages :: "message list"
  lf_calls :: "tool_call list"
  lf_completed :: "string list"

definition start_life :: "life \<Rightarrow> world \<Rightarrow> world" where
  "start_life l w =
     (let w' = w\<lparr>w_runs := Map.empty\<rparr>
      in case recover_expired_run_leases (en_redactor (lf_env l)) (lf_now l) (lf_event_id l) (w_db w) of
           Inl _ \<Rightarrow> w'
         | Inr (db, _) \<Rightarrow> w'\<lparr>w_db := db\<rparr>)"

definition live :: "life \<Rightarrow> world \<Rightarrow> world" where
  "live l w = snd (execute_batch (lf_env l) (lf_lower l) (lf_batch l) (lf_messages l) (lf_calls l) (lf_completed l) (start_life l w))"

definition life_ok :: "string \<Rightarrow> life \<Rightarrow> bool" where
  "life_ok i l \<longleftrightarrow> honest_env (lf_env l) \<and> fair_order (lf_env l) \<and> never_replayed (lf_batch l) i (lf_calls l)"

lemma sql_find_map:
  assumes "\<And>r. key (f r) = key r"
  shows "sql_find key k (map f rows) = map_option f (sql_find key k rows)"
  by (induction rows) (simp_all add: sql_find_def assms)

lemma once_recovered: "once (n, r) \<Longrightarrow> once (n, map_option (recovered_invocation now ids) r)"
  by (cases r) (auto simp: once_def clean_def spent_def row_never_def closed_row_def recovered_invocation_def mark_invocation_lost_def)

lemma recover_invocations:
  assumes "recover_expired_run_leases rd now eid db = Inr (db', ids)"
  shows "\<exists>S. d_invocations db' = map (recovered_invocation now S) (d_invocations db)"
proof -
  from assms obtain d where l: "recover_loop rd now eid (expired_runs now db) db = Inr d"
    and db': "db' = d\<lparr>d_leases := sql_delete (\<lambda>l. lr_expires_at l \<le> now) (d_leases d)\<rparr>"
    by (auto simp: recover_expired_run_leases_def Let_def split: sum.splits)
  from recover_loop_effect [OF l] have
    "d_invocations d = map (recovered_invocation now (rn_id ` set (expired_runs now db))) (d_invocations db)" by blast
  with db' show ?thesis by auto
qed

lemma start_life_once:
  assumes "once (iview i w)"
  shows "once (iview i (start_life l w))"
proof (cases "recover_expired_run_leases (en_redactor (lf_env l)) (lf_now l) (lf_event_id l) (w_db w)")
  case (Inl e)
  then show ?thesis using assms by (simp add: start_life_def iview_def invs_def Let_def)
next
  case (Inr p)
  then obtain db ids where r: "recover_expired_run_leases (en_redactor (lf_env l)) (lf_now l) (lf_event_id l) (w_db w) = Inr (db, ids)"
    by (cases p) simp
  obtain S where "d_invocations db = map (recovered_invocation (lf_now l) S) (d_invocations (w_db w))"
    using recover_invocations [OF r] by blast
  moreover have "ir_id (recovered_invocation (lf_now l) S x) = ir_id x" for x
    by (simp add: recovered_invocation_def mark_invocation_lost_def)
  ultimately have "iview i (start_life l w) = (fst (iview i w), map_option (recovered_invocation (lf_now l) S) (snd (iview i w)))"
    by (simp add: start_life_def r iview_def invs_def Let_def sql_find_map)
  with once_recovered [of "fst (iview i w)" "snd (iview i w)"] assms show ?thesis by simp
qed

lemma live_once: "life_ok i l \<Longrightarrow> once (iview i w) \<Longrightarrow> once (iview i (live l w))"
  unfolding live_def life_ok_def
  by (rule triple_any [OF execute_batch_once [unfolded itriple_def]]) (auto intro: start_life_once)

text \<open>
  C12. At most once: take any sequence of process lives, each sweeping expired leases and then
  running a batch, each ended by a crash before any write to the store, by an exception or by
  its return, with any answers of the people, clocks, reconcilers and handlers and any order of
  the concurrent calls. A call whose tool declares that it must not be replayed has its handler
  started at most once over all of them, provided its invocation was not started before, no batch
  lists it twice, and handlers put no error code on a success.
\<close>

theorem replay_at_most_once:
  assumes "\<And>l. l \<in> set lives \<Longrightarrow> life_ok i l"
    and "i \<notin> fst ` set (w_calls w)" and "i \<notin> ir_id ` set (d_invocations (w_db w))"
  shows "length (filter (\<lambda>c. fst c = i) (w_calls (fold live lives w))) \<le> 1"
proof -
  have start: "once (iview i w)"
    using assms(2,3) by (auto simp: once_def clean_def iview_def invs_def filter_empty_conv dest: sql_find_SomeD)
  have "once (iview i w) \<Longrightarrow> once (iview i (fold live lives w))"
    using assms(1) by (induction lives arbitrary: w) (auto intro: live_once)
  from once_count [OF this [OF start]] show ?thesis by (simp add: iview_def)
qed

definition demo_life :: life where
  "demo_life = \<lparr>lf_env = asked_env, lf_lower = (\<lambda>t. t), lf_now = 1, lf_event_id = (\<lambda>r. r), lf_batch = demo_batch,
     lf_messages = [], lf_calls = [demo_call], lf_completed = []\<rparr>"

theorem replay_at_most_once_witness:
  "length (filter (\<lambda>c. fst c = ''i'') (w_calls (fold live [demo_life, demo_life] demo_world))) \<le> 1"
proof (rule replay_at_most_once)
  show "life_ok ''i'' l" if "l \<in> set [demo_life, demo_life]" for l
    using that
    by (auto simp: life_ok_def demo_life_def honest_env_def honest_def asked_env_def demo_env_def new_tool_result_def
        fair_order_def never_replayed_def call_policy_def demo_batch_def demo_tool_def demo_call_def replay_policy_for_def
        resolved_replay_policy_def)
qed (simp_all add: demo_world_def demo_eval)

end
