(* ===== verification/Recovery_Gap.thy ===== *)
theory Recovery_Gap
  imports Replay_Once
begin

text \<open>
  A gap in the recovery of calls that must be reconciled: the gate rewrites the stored status of
  a recovered call before its reconciler is asked, and only memory knows that it is recovering.
\<close>

definition rec_tool :: tool where
  "rec_tool = demo_tool\<lparr>tl_spec := (tl_spec demo_tool)\<lparr>ts_effect := EK_pure, ts_requires_approval := False,
     ts_max_attempts := 1, ts_replay_policy := Some RP_reconcile\<rparr>, tl_has_reconcile := True\<rparr>"

definition rec_batch :: batch where
  "rec_batch = demo_batch\<lparr>ba_tools := (\<lambda>n. if n = ''t'' then Some rec_tool else None)\<rparr>"

text \<open>The process dies before its store operation at tick \<open>n\<close>; the reconciler always knows the outcome.\<close>

definition rec_env :: "nat \<Rightarrow> engine_env" where
  "rec_env n = demo_env\<lparr>en_crash := (\<lambda>k. k = n),
     en_reconcile := (\<lambda>_ _ _. Reconciled (new_tool_result ''c'' ''t'' [66]))\<rparr>"

definition rec_life :: "nat \<Rightarrow> life" where
  "rec_life n = demo_life\<lparr>lf_env := rec_env n, lf_batch := rec_batch\<rparr>"

text \<open>The store after a first process died in the handler of call \<open>i\<close>.\<close>

definition rec_row :: invocation_row where
  "rec_row = \<lparr>ir_id = ''i'', ir_run_id = ''r'', ir_session_id = ''s'', ir_step = 1, ir_ordinal = 0, ir_provider_call_id = ''c'',
     ir_tool_name = ''t'', ir_tool_version = ''1'', ir_status = TI_running, ir_effect = EK_pure, ir_replay_policy = RP_reconcile,
     ir_arguments = [], ir_arguments_sha256 = ''h'', ir_approval_id = None, ir_attempt_count = 1, ir_result = None,
     ir_error_code = None, ir_error_category = None, ir_created_at = 0, ir_updated_at = 0, ir_started_at = Some 0,
     ir_finished_at = None\<rparr>"

definition rec_world :: world where
  "rec_world = demo_world\<lparr>w_db := demo_db\<lparr>d_invocations := [rec_row]\<rparr>\<rparr>"

lemmas run_eval = run_tool_invocation_def announce_start_def recover_def run_attempt_def started_def call_handler_def
  handler_result_def queue_item_def run_queue_def plan_batch_def finish_batch_def execute_batch_def
  start_life_def live_def recover_expired_run_leases_def expired_runs_def parallel_safe_for_def resolved_parallel_safe_def
  not_completed_def tool_call_completed_def drop_results_def drop_tool_result_messages_def tool_result_messages_for_call_def
  item_parallel_safe_def sql_delete_def finish_running_tool_attempts_def start_tool_attempt_def reconcile_def
  invoke_reconciler_def after_interruption_def name_error_def finish_tool_attempt_def reconcile_answer_def stamp_def reconciled_invocation_def concluded_def new_tool_result_def
  incomplete_result_def append_result_def append_tool_result_def save_message_def add_id_def completed_key_def str_or_def

lemmas rec_eval = op_eval store_eval gate_eval demo_batch_eval run_eval rec_life_def rec_env_def rec_batch_def rec_tool_def
  rec_world_def rec_row_def demo_life_def auto_decision_def

text \<open>A life's batch with its outcome; ticks beyond the last one used: the process does not die.\<close>

definition life_batch :: "life \<Rightarrow> world \<Rightarrow> (py_error + batch_outcome) \<times> world" where
  "life_batch l w = execute_batch (lf_env l) (lf_lower l) (lf_batch l) (lf_messages l) (lf_calls l) (lf_completed l) (start_life l w)"

lemma live_batch: "live l w = snd (life_batch l w)"
  by (simp add: live_def life_batch_def)


end
