(* ===== verification/Run_Cost.thy ===== *)
theory Run_Cost
  imports Engine_World Message_Groups
begin

text \<open>
  The helpers at the head of \<open>src/src/agentharness/engine/runtime.py\<close>: what kind of failure a
  provider's exception is, how long to wait before the next attempt, and what a turn costs.
  Floats are reals; the \<open>round(_, 10)\<close> of the cost is a parameter.
\<close>

section \<open>Failures of a provider\<close>

text \<open>
  The attributes the code reads off an exception. \<open>px_headers\<close> holds the two headers objects
  that are looked at (of the response, of the exception), each as its \<open>get\<close>.
\<close>

record provider_exc =
  px_status :: "int option"
  px_code :: "string option"
  px_text :: utext
  px_class :: utext
  px_retry_after :: "real option"
  px_headers :: "(string \<Rightarrow> utext option) option list"

definition provider_exception_kind :: "(utext \<Rightarrow> utext) \<Rightarrow> provider_exc \<Rightarrow> string" where
  "provider_exception_kind lower x =
     (let low = lower (px_text x); name = lower (px_class x)
      in case px_code x of
           Some ''rate_limited'' \<Rightarrow> ''rate_limited''
         | Some ''circuit_open'' \<Rightarrow> ''circuit_open''
         | _ \<Rightarrow>
             if px_status x = Some 429 \<or> text_in (lit ''rate limit'') low then ''rate_limit''
             else if text_in (lit ''timeout'') low \<or> text_in (lit ''timeout'') name then ''timeout''
             else if (case px_status x of None \<Rightarrow> False | Some s \<Rightarrow> 500 \<le> s \<and> s \<le> 599) then ''server_error''
             else if text_in (lit ''connection'') low \<or> text_in (lit ''connect'') name then ''connection''
             else ''provider'')"

definition retryable_provider_errors :: "string set" where
  "retryable_provider_errors =
     {''rate_limit'', ''rate_limited'', ''circuit_open'', ''timeout'', ''connection'', ''server_error''}"

text \<open>\<open>u\<close> is the draw of \<open>random.uniform\<close>.\<close>

definition provider_retry_delay :: "retry_config \<Rightarrow> nat \<Rightarrow> real \<Rightarrow> real" where
  "provider_retry_delay c n u =
     (let base = min (rt_max_delay_s c) (rt_base_delay_s c * 2 ^ (n - 1))
      in if base \<le> 0 \<or> rt_jitter_ratio c \<le> 0 then base else max 0 (base * u))"

text \<open>\<open>parse\<close> is \<open>float(str.strip())\<close>, \<open>None\<close> its \<open>ValueError\<close>; NaN is not modelled.\<close>

fun header_retry_after :: "(utext \<Rightarrow> real option) \<Rightarrow> (string \<Rightarrow> utext option) option list \<Rightarrow> real option" where
  "header_retry_after parse [] = None"
| "header_retry_after parse (None # hs) = header_retry_after parse hs"
| "header_retry_after parse (Some get # hs) =
     (let raw = (case get ''retry-after'' of
                   Some t \<Rightarrow> if t = [] then get ''Retry-After'' else Some t
                 | None \<Rightarrow> get ''Retry-After'')
      in case raw of
           None \<Rightarrow> header_retry_after parse hs
         | Some t \<Rightarrow> (case parse t of None \<Rightarrow> None | Some v \<Rightarrow> Some (min 86400 (max 0 v))))"

definition exception_retry_after_s :: "(utext \<Rightarrow> real option) \<Rightarrow> provider_exc \<Rightarrow> real option" where
  "exception_retry_after_s parse x =
     (case px_retry_after x of
        Some r \<Rightarrow> if 0 \<le> r then Some (min 86400 r) else header_retry_after parse (px_headers x)
      | None \<Rightarrow> header_retry_after parse (px_headers x))"

section \<open>Costs\<close>

definition input_cost :: "int \<Rightarrow> int \<Rightarrow> real \<Rightarrow> real option \<Rightarrow> real" where
  "input_cost input cached rate cached_rate =
     (case cached_rate of
        Some rc \<Rightarrow> if cached \<noteq> 0 then real_of_int (input - cached) * rate + real_of_int cached * rc
                   else real_of_int input * rate
      | None \<Rightarrow> real_of_int input * rate)"

definition cost_usd :: "int \<Rightarrow> int \<Rightarrow> pricing \<Rightarrow> int \<Rightarrow> real option" where
  "cost_usd input out p cached_input =
     (case (pr_input p, pr_output p) of
        (Some ri, Some ro) \<Rightarrow>
          let cached = min (max 0 cached_input) (max 0 input)
          in Some ((input_cost input cached ri (pr_cached_input p) + real_of_int out * ro) / 1000000)
      | _ \<Rightarrow> None)"

definition update_usage_cost :: "(real \<Rightarrow> real) \<Rightarrow> pricing \<Rightarrow> usage \<Rightarrow> usage" where
  "update_usage_cost round10 p u =
     (let cost = cost_usd (u_input_tokens u) (u_output_tokens u) p (u_cached_input_tokens u)
      in u\<lparr>u_estimated_cost_usd := map_option round10 cost, u_cost_estimated := (cost \<noteq> None)\<rparr>)"

section \<open>Bounds\<close>

lemma header_retry_after_bounds:
  "header_retry_after parse hs = Some r \<Longrightarrow> 0 \<le> r \<and> r \<le> 86400"
  by (induction parse hs rule: header_retry_after.induct)
    (auto simp: Let_def split: option.splits if_splits)

lemma exception_retry_after_bounds:
  "exception_retry_after_s parse x = Some r \<Longrightarrow> 0 \<le> r \<and> r \<le> 86400"
  using header_retry_after_bounds [of parse "px_headers x" r]
  by (auto simp: exception_retry_after_s_def split: option.splits if_splits)

lemma provider_retry_delay_bounds:
  assumes "valid_retry c" "1 - rt_jitter_ratio c \<le> u" "u \<le> 1 + rt_jitter_ratio c"
  shows "0 \<le> provider_retry_delay c n u" "provider_retry_delay c n u \<le> 240"
proof -
  define base where "base = min (rt_max_delay_s c) (rt_base_delay_s c * 2 ^ (n - 1))"
  from assms(1) have b: "0 \<le> base" "base \<le> 120" "rt_jitter_ratio c \<le> 1" by (auto simp: valid_retry_def base_def)
  with assms(2,3) have u: "0 \<le> u" "u \<le> 2" by simp_all
  from b u have "0 \<le> base * u" by simp
  moreover from b u have "base * u \<le> 120 * 2" by (intro mult_mono) simp_all
  moreover have "provider_retry_delay c n u = (if base \<le> 0 \<or> rt_jitter_ratio c \<le> 0 then base else max 0 (base * u))"
    by (simp add: provider_retry_delay_def base_def)
  ultimately show "0 \<le> provider_retry_delay c n u" "provider_retry_delay c n u \<le> 240"
    using b by auto
qed

lemma input_cost_nonneg:
  "0 \<le> k \<Longrightarrow> k \<le> i \<Longrightarrow> 0 \<le> r \<Longrightarrow> (\<And>x. c = Some x \<Longrightarrow> 0 \<le> x) \<Longrightarrow> 0 \<le> input_cost i k r c"
  by (auto simp: input_cost_def split: option.splits)

lemma cost_usd_nonneg:
  assumes "valid_pricing p" "0 \<le> i" "0 \<le> out" "cost_usd i out p cached = Some c"
  shows "0 \<le> c"
proof -
  obtain ri ro where r: "pr_input p = Some ri" "pr_output p = Some ro"
    using assms(4) by (auto simp: cost_usd_def split: option.splits)
  with assms(1) have "0 \<le> ri" "0 \<le> ro" "\<And>x. pr_cached_input p = Some x \<Longrightarrow> 0 \<le> x"
    by (auto simp: valid_pricing_def)
  with assms(2,3) have "0 \<le> input_cost i (min (max 0 cached) i) ri (pr_cached_input p) + real_of_int out * ro"
    by (intro add_nonneg_nonneg input_cost_nonneg) auto
  with assms r show ?thesis by (auto simp: cost_usd_def Let_def)
qed

text \<open>A discount on cached input never makes a turn dearer than the full rate.\<close>

lemma cost_usd_discount:
  assumes "cost_usd i out p cached = Some c" "pr_cached_input p = Some rc" "pr_input p = Some ri" "rc \<le> ri"
  shows "c \<le> the (cost_usd i out (p\<lparr>pr_cached_input := None\<rparr>) cached)"
proof -
  define k where "k = min (max 0 cached) (max 0 i)"
  obtain ro where ro: "pr_output p = Some ro" using assms by (auto simp: cost_usd_def split: option.splits)
  have "real_of_int k * rc \<le> real_of_int k * ri" using assms(4) by (simp add: k_def mult_left_mono)
  then have "input_cost i k ri (Some rc) \<le> input_cost i k ri None" by (simp add: input_cost_def algebra_simps)
  with assms ro show ?thesis by (auto simp: cost_usd_def k_def Let_def)
qed

end
