(* ===== verification/Run_Stream.thy ===== *)
theory Run_Stream
  imports Run_Cost Tool_Run Verification Lease_Heartbeat Compaction
begin

text \<open>
  The consumption of one provider stream in \<open>RunEngine._loop\<close>
  (\<open>src/src/agentharness/engine/runtime.py\<close>): what an item does to the turn is a pure step
  (\<open>item_step\<close>), the events it causes are its effect. The engine's collaborators are the fields
  of the record \<open>engine\<close>.
\<close>

section \<open>The engine\<close>

text \<open>How a stream stops: exhausted, by an exception, or because the task was cancelled.\<close>

datatype stream_stop = StreamClosed | StreamFailed provider_exc | StreamTaskCancelled

record provider =
  pv_id :: nat
  pv_stream :: "model_request \<Rightarrow> nat \<Rightarrow> model_stream_item list \<times> stream_stop"

text \<open>
  \<open>eg_loads\<close> is \<open>json.loads\<close> on a text that holds an object (\<open>None\<close>: no JSON), \<open>eg_float\<close> is
  \<open>float(str(raw).strip())\<close>, \<open>eg_round\<close> is \<open>round\<close>, \<open>eg_random\<close> the draws of \<open>random.uniform\<close>,
  \<open>eg_deadline\<close> whether the wall-clock deadline around the run has passed at a tick,
  \<open>eg_summary\<close> and \<open>eg_judge\<close> what a provider streams as summariser (\<open>None\<close>: a timeout) and as
  evaluator. \<open>eg_dump_*\<close> and \<open>eg_load_*\<close> are pydantic's.
\<close>

record engine =
  eg_env :: engine_env
  eg_lower :: "utext \<Rightarrow> utext"
  eg_loads :: "utext \<Rightarrow> pydict option"
  eg_float :: "utext \<Rightarrow> real option"
  eg_round :: "nat \<Rightarrow> real \<Rightarrow> real"
  eg_random :: "nat \<Rightarrow> real"
  eg_deadline :: "nat \<Rightarrow> bool"
  eg_tools :: "(string \<times> tool) list"
  eg_providers :: "string \<Rightarrow> provider option"
  eg_summary :: "provider \<Rightarrow> string option \<Rightarrow> utext \<Rightarrow> nat \<Rightarrow> stream_item list option"
  eg_planner :: planner
  eg_fs :: file_system
  eg_str_dict :: "pydict \<Rightarrow> utext"
  eg_str :: "pyval \<Rightarrow> utext"
  eg_dump_manifest :: "context_manifest \<Rightarrow> pyval"
  eg_dump_request :: "run_request \<Rightarrow> pydict"
  eg_load_request :: "run_row \<Rightarrow> py_error + run_request"
  eg_load_policy :: "pydict \<Rightarrow> py_error + verification_policy"
  eg_int :: "pyval \<Rightarrow> py_error + int"
  eg_judge :: "provider \<Rightarrow> string option \<Rightarrow> utext \<Rightarrow> judge_item list"
  eg_verifier :: verifier
  eg_lease :: lease_manager
  eg_roots :: "path list"

text \<open>An exception an operation raises is caught; the loss of the process is not.\<close>

definition try_op :: "'a wop \<Rightarrow> (py_error + 'a) wop" where
  "try_op m = (\<lambda>w. case m w of
       (Inl e, w') \<Rightarrow> if e = crashed then (Inl e, w') else (Inr (Inl e), w')
     | (Inr a, w') \<Rightarrow> (Inr (Inr a), w'))"

fun error_class :: "py_error \<Rightarrow> string" where
  "error_class (ValueError t) = ''ValueError''"
| "error_class (RuntimeError t) = ''RuntimeError''"
| "error_class (KeyError k) = ''KeyError''"
| "error_class IntegrityError = ''IntegrityError''"
| "error_class (PermissionError t) = ''PermissionError''"
| "error_class (FileNotFoundError t) = ''FileNotFoundError''"
| "error_class ZeroDivisionError = ''ZeroDivisionError''"
| "error_class (OSError t) = ''OSError''"
| "error_class (TypeError t) = ''TypeError''"
| "error_class AssertionError = ''AssertionError''"
| "error_class OverflowError = ''OverflowError''"
| "error_class CancelledError = ''CancelledError''"

definition exc_of_error :: "py_error \<Rightarrow> provider_exc" where
  "exc_of_error e = \<lparr>px_status = None, px_code = None, px_text = err_text e, px_class = lit (error_class e),
     px_retry_after = None, px_headers = [None, None]\<rparr>"

section \<open>The turn being streamed\<close>

text \<open>
  \<open>ta_order\<close> lists the keys of \<open>tool_acc\<close>. An error is the pair \<open>error_msg\<close>, \<open>error_kind\<close>: the
  message may be empty, which the code tells from \<open>None\<close> in some places and not in others.
\<close>

record turn_acc =
  ta_text :: "utext list"
  ta_calls :: "string \<rightharpoonup> tool_call"
  ta_order :: "string list"
  ta_ended :: "string list"
  ta_ignored :: "string list"
  ta_usage :: usage
  ta_error :: "(utext \<times> string) option"
  ta_retry_after :: "real option"
  ta_streamed :: int
  ta_had_output :: bool

definition new_turn :: turn_acc where
  "new_turn = \<lparr>ta_text = [], ta_calls = Map.empty, ta_order = [], ta_ended = [], ta_ignored = [],
     ta_usage = default_usage, ta_error = None, ta_retry_after = None, ta_streamed = 0, ta_had_output = False\<rparr>"

record turn_env =
  te_run_id :: string
  te_session_id :: string
  te_request :: run_request
  te_view :: run_view
  te_span :: string
  te_bundle :: context_bundle
  te_output_length :: int

definition te_budget :: "turn_env \<Rightarrow> budget_config" where
  "te_budget te = rq_budget (te_request te)"

definition te_truncates :: "turn_env \<Rightarrow> bool" where
  "te_truncates te = truthy (dict_get ''truncate_excess_tool_calls_per_turn'' (rq_metadata (te_request te)))"

text \<open>\<open>item.tool_call_id or new_id()\<close>.\<close>

definition id_or :: "string option \<Rightarrow> string \<Rightarrow> string" where
  "id_or i fresh = (case i of None \<Rightarrow> fresh | Some x \<Rightarrow> if x = '''' then fresh else x)"

definition nonempty_text :: "utext option \<Rightarrow> utext option" where
  "nonempty_text t = (case t of Some x \<Rightarrow> if x = [] then None else Some x | None \<Rightarrow> None)"

datatype item_effect = NoEffect | BufferText utext | AnnounceCall tool_call

datatype flow = Continue | Break

text \<open>What an item leaves: the turn, the tool calls counted in the run, the effect, the flow.\<close>

type_synonym item_result = "turn_acc \<times> nat \<times> item_effect \<times> flow"

definition fail_turn :: "utext \<Rightarrow> string \<Rightarrow> turn_acc \<Rightarrow> turn_acc" where
  "fail_turn msg kind a = a\<lparr>ta_error := Some (msg, kind)\<rparr>"

definition stopped :: "utext \<Rightarrow> string \<Rightarrow> turn_acc \<Rightarrow> nat \<Rightarrow> item_result" where
  "stopped msg kind a n = (fail_turn msg kind a, n, NoEffect, Break)"

definition text_step :: "turn_env \<Rightarrow> utext \<Rightarrow> turn_acc \<Rightarrow> nat \<Rightarrow> item_result" where
  "text_step te t a n =
     (let available = b_max_output_length (te_budget te) - te_output_length te - ta_streamed a
      in if available \<le> 0 then stopped (lit ''max_output_length exceeded'') ''budget'' a n
         else let chunk = take (nat available) t;
                  a' = a\<lparr>ta_text := ta_text a @ [chunk], ta_streamed := ta_streamed a + int (length chunk)\<rparr>
              in if available < int (length t)
                 then (fail_turn (lit ''max_output_length exceeded'') ''budget'' a', n, BufferText chunk, Break)
                 else (a', n, BufferText chunk, Continue))"

text \<open>A new call, unless a budget is used up: what an unopened end and a start share.\<close>

datatype admission = Ignore | Refuse utext | Admit

definition admit_new_call :: "turn_env \<Rightarrow> turn_acc \<Rightarrow> nat \<Rightarrow> admission" where
  "admit_new_call te a n =
     (if b_max_tool_calls_per_turn (te_budget te) \<le> length (ta_order a)
      then if te_truncates te then Ignore else Refuse (lit ''max_tool_calls_per_turn exceeded'')
      else if b_max_tool_calls (te_budget te) \<le> n then Refuse (lit ''max_tool_calls exceeded'')
      else Admit)"

definition opened_call :: "string \<Rightarrow> string \<Rightarrow> model_stream_item \<Rightarrow> turn_acc \<Rightarrow> tool_call" where
  "opened_call i iv item a =
     \<lparr>tc_id = i, tc_invocation_id = iv, tc_name = (case si_tool_name item of None \<Rightarrow> '''' | Some x \<Rightarrow> x),
      tc_arguments = [], tc_arguments_raw = [], tc_ordinal = length (ta_order a), tc_status = CS_pending\<rparr>"

definition open_call :: "tool_call \<Rightarrow> turn_acc \<Rightarrow> turn_acc" where
  "open_call tc a = a\<lparr>ta_calls := (ta_calls a)(tc_id tc \<mapsto> tc), ta_order := ta_order a @ [tc_id tc]\<rparr>"

definition start_step ::
  "turn_env \<Rightarrow> string \<Rightarrow> string \<Rightarrow> model_stream_item \<Rightarrow> turn_acc \<Rightarrow> nat \<Rightarrow> item_result" where
  "start_step te i iv item a n =
     (if i \<in> set (ta_ignored a) then (a, n, NoEffect, Continue)
      else if ta_calls a i \<noteq> None then stopped (lit ''duplicate tool call id: '' @ lit i) ''provider_protocol'' a n
      else case admit_new_call te a n of
          Ignore \<Rightarrow> (a\<lparr>ta_ignored := ta_ignored a @ [i]\<rparr>, n, NoEffect, Continue)
        | Refuse msg \<Rightarrow> stopped msg ''budget'' a n
        | Admit \<Rightarrow> (open_call (opened_call i iv item a) a, Suc n, AnnounceCall (opened_call i iv item a), Continue))"

definition named :: "string option \<Rightarrow> tool_call \<Rightarrow> tool_call" where
  "named nm tc = (case nm of None \<Rightarrow> tc | Some x \<Rightarrow> if x = '''' then tc else tc\<lparr>tc_name := x\<rparr>)"

definition arguments_step :: "turn_env \<Rightarrow> model_stream_item \<Rightarrow> turn_acc \<Rightarrow> nat \<Rightarrow> item_result" where
  "arguments_step te item a n =
     (let i = id_or (si_tool_call_id item) ''''
      in if i \<in> set (ta_ignored a) then (a, n, NoEffect, Continue)
         else case (ta_calls a i, nonempty_text (si_arguments_delta item)) of
             (Some tc, Some d) \<Rightarrow>
               if b_max_tool_argument_bytes (te_budget te) <
                    length (utf8_encode (tc_arguments_raw tc)) + length (utf8_encode d)
               then stopped (lit ''max_tool_argument_bytes exceeded'') ''budget'' a n
               else (a\<lparr>ta_calls := (ta_calls a)(i \<mapsto>
                       named (si_tool_name item) (tc\<lparr>tc_arguments_raw := tc_arguments_raw tc @ d\<rparr>))\<rparr>,
                     n, NoEffect, Continue)
           | _ \<Rightarrow> (a, n, NoEffect, Continue))"

text \<open>The arguments of an ended call; \<open>None\<close> is the exceeded budget.\<close>

definition ended_call :: "engine \<Rightarrow> turn_env \<Rightarrow> model_stream_item \<Rightarrow> tool_call \<Rightarrow> tool_call option" where
  "ended_call eg te item tc =
     (let tc' = named (si_tool_name item) tc
      in case si_arguments item of
           Some args \<Rightarrow>
             if b_max_tool_argument_bytes (te_budget te) <
                  length (utf8_encode (canonical_arguments (en_json (eg_env eg)) args))
             then None else Some (tc'\<lparr>tc_arguments := args\<rparr>)
         | None \<Rightarrow>
             Some (if tc_arguments_raw tc' = [] then tc'
                   else tc'\<lparr>tc_arguments := (case eg_loads eg (tc_arguments_raw tc') of
                          Some d \<Rightarrow> d | None \<Rightarrow> [(lit ''_raw'', VStr (tc_arguments_raw tc'))])\<rparr>))"

definition close_call :: "engine \<Rightarrow> turn_env \<Rightarrow> model_stream_item \<Rightarrow> string \<Rightarrow> tool_call \<Rightarrow> turn_acc \<Rightarrow> nat \<Rightarrow> item_result" where
  "close_call eg te item i tc a n =
     (case ended_call eg te item tc of
        None \<Rightarrow> stopped (lit ''max_tool_argument_bytes exceeded'') ''budget''
                  (a\<lparr>ta_calls := (ta_calls a)(i \<mapsto> named (si_tool_name item) tc)\<rparr>) n
      | Some tc' \<Rightarrow> (a\<lparr>ta_calls := (ta_calls a)(i \<mapsto> tc'), ta_ended := ta_ended a @ [i]\<rparr>, n, NoEffect, Continue))"

definition end_step ::
  "engine \<Rightarrow> turn_env \<Rightarrow> string \<Rightarrow> string \<Rightarrow> model_stream_item \<Rightarrow> turn_acc \<Rightarrow> nat \<Rightarrow> item_result" where
  "end_step eg te i iv item a n =
     (if i \<in> set (ta_ignored a) then (a, n, NoEffect, Continue)
      else if i \<in> set (ta_ended a) then stopped (lit ''duplicate tool call end: '' @ lit i) ''provider_protocol'' a n
      else case ta_calls a i of
          Some tc \<Rightarrow> close_call eg te item i tc a n
        | None \<Rightarrow>
            (case admit_new_call te a n of
               Ignore \<Rightarrow> (a\<lparr>ta_ignored := ta_ignored a @ [i]\<rparr>, n, NoEffect, Continue)
             | Refuse msg \<Rightarrow> stopped msg ''budget'' a n
             | Admit \<Rightarrow> close_call eg te item i (opened_call i iv item a)
                          (open_call (opened_call i iv item a) a) (Suc n)))"

definition add_turn_usage :: "usage \<Rightarrow> usage \<Rightarrow> usage" where
  "add_turn_usage v u =
     (let i = u_input_tokens u + u_input_tokens v; j = u_output_tokens u + u_output_tokens v
      in u\<lparr>u_input_tokens := i, u_output_tokens := j,
           u_cached_input_tokens := u_cached_input_tokens u + u_cached_input_tokens v,
           u_total_tokens := i + j, u_estimated := u_estimated v\<rparr>)"

text \<open>\<open>i\<close> and \<open>iv\<close> are fresh ids for a call without one and for its invocation.\<close>

definition item_step ::
  "engine \<Rightarrow> turn_env \<Rightarrow> string \<Rightarrow> string \<Rightarrow> model_stream_item \<Rightarrow> turn_acc \<Rightarrow> nat \<Rightarrow> item_result" where
  "item_step eg te i iv item a n =
     (let b = a\<lparr>ta_had_output := True\<rparr>
      in case si_type item of
        ST_text_delta \<Rightarrow> (case nonempty_text (si_text item) of
            None \<Rightarrow> (a, n, NoEffect, Continue) | Some t \<Rightarrow> text_step te t b n)
      | ST_tool_call_start \<Rightarrow> start_step te (id_or (si_tool_call_id item) i) iv item b n
      | ST_tool_call_delta \<Rightarrow> arguments_step te item b n
      | ST_tool_call_end \<Rightarrow> end_step eg te (id_or (si_tool_call_id item) i) iv item b n
      | ST_usage \<Rightarrow> (case si_usage item of
            None \<Rightarrow> (a, n, NoEffect, Continue)
          | Some v \<Rightarrow> (a\<lparr>ta_usage := add_turn_usage v (ta_usage a)\<rparr>, n, NoEffect, Continue))
      | ST_error \<Rightarrow> ((fail_turn (text_or (si_error item) (lit ''provider error'')) (str_or (si_error_kind item) ''provider'') a)
            \<lparr>ta_retry_after := si_retry_after_s item\<rparr>, n, NoEffect, Break)
      | ST_done \<Rightarrow> (a, n, NoEffect, Break))"

section \<open>The stream\<close>

definition run_stop_status :: "string \<Rightarrow> run_status wop" where
  "run_stop_status rid = get_with (\<lambda>w.
     case w_runs w rid of
       None \<Rightarrow> RS_cancelled
     | Some c \<Rightarrow> if rc_stop_mode c = Some ''interrupt'' then RS_interrupted else RS_cancelled)"

definition stop_turn :: "string \<Rightarrow> turn_acc \<Rightarrow> turn_acc wop" where
  "stop_turn rid a = bind (run_stop_status rid) (\<lambda>s. ret
     (fail_turn (lit (run_status_value s)) (if s = RS_cancelled then ''cancelled'' else ''interrupted'') a))"

definition perform_effect :: "engine \<Rightarrow> turn_env \<Rightarrow> nat \<Rightarrow> item_effect \<Rightarrow> unit wop" where
  "perform_effect eg te n ef =
     andthen (set_ctx (te_run_id te) (\<lambda>c. c\<lparr>rc_tool_call_count := n\<rparr>))
       (case ef of
          NoEffect \<Rightarrow> ret ()
        | BufferText t \<Rightarrow> buffer_delta (eg_env eg) (te_run_id te) (te_view te) t (Some (te_span te))
        | AnnounceCall tc \<Rightarrow>
            bind (new_id (eg_env eg)) (\<lambda>sp.
            bind (make_event (eg_env eg) (te_view te) ET_tool_call_start
                    [(lit ''tool_call_id'', VStr (lit (tc_id tc))), (lit ''invocation_id'', VStr (lit (tc_invocation_id tc))),
                     (lit ''name'', VStr (lit (tc_name tc))), (lit ''ordinal'', VInt (int (tc_ordinal tc)))] (Some sp)) (\<lambda>ev.
            bind (emit_and_update (eg_env eg) (te_run_id te) no_update [ev\<lparr>ev_parent_span_id := Some (te_span te)\<rparr>]) (\<lambda>_.
            ret ()))))"

text \<open>An exception ends the stream; the turn keeps what it had.\<close>

definition turn_failed :: "engine \<Rightarrow> provider_exc \<Rightarrow> turn_acc \<Rightarrow> turn_acc" where
  "turn_failed eg x a =
     (fail_turn (px_text x) (provider_exception_kind (eg_lower eg) x) a)
       \<lparr>ta_retry_after := exception_retry_after_s (eg_float eg) x\<rparr>"

definition task_cancelled :: "engine \<Rightarrow> turn_env \<Rightarrow> turn_acc \<Rightarrow> turn_acc wop" where
  "task_cancelled eg te a =
     bind (is_cancelled (eg_env eg)) (\<lambda>c. if c then stop_turn (te_run_id te) a else raise CancelledError)"

fun consume_stream :: "engine \<Rightarrow> turn_env \<Rightarrow> model_stream_item list \<Rightarrow> stream_stop \<Rightarrow> turn_acc \<Rightarrow> turn_acc wop" where
  "consume_stream eg te [] en a =
     (case en of
        StreamClosed \<Rightarrow> ret a
      | StreamFailed x \<Rightarrow> ret (turn_failed eg x a)
      | StreamTaskCancelled \<Rightarrow> task_cancelled eg te a)"
| "consume_stream eg te (item # items) en a =
     bind (is_cancelled (eg_env eg)) (\<lambda>c.
     if c then stop_turn (te_run_id te) a
     else
       bind (new_id (eg_env eg)) (\<lambda>i. bind (new_id (eg_env eg)) (\<lambda>iv.
       bind (get_with (\<lambda>w. rc_tool_call_count (context_of (te_run_id te) w))) (\<lambda>n.
       case item_step eg te i iv item a n of (a', n', ef, fl) \<Rightarrow>
         bind (try_op (perform_effect eg te n' ef)) (\<lambda>r.
         case r of
           Inl e \<Rightarrow> if e = CancelledError then task_cancelled eg te a' else ret (turn_failed eg (exc_of_error e) a')
         | Inr _ \<Rightarrow> if fl = Break then ret a' else consume_stream eg te items en a')))))"

end
