(* ===== verification/Turn_Budget.thy ===== *)
theory Turn_Budget
  imports Run_Stream Tool_Frames
begin

text \<open>
  What bounds a streamed turn: the invariant \<open>turn_ok\<close> of the accumulator, kept by every item,
  and its lifting over the effects to the whole stream.
\<close>

section \<open>The invariant\<close>

definition call_ok :: "turn_env \<Rightarrow> nat \<Rightarrow> string \<Rightarrow> tool_call \<Rightarrow> bool" where
  "call_ok te k i tc \<longleftrightarrow> tc_id tc = i \<and> tc_ordinal tc = k \<and>
     length (utf8_encode (tc_arguments_raw tc)) \<le> b_max_tool_argument_bytes (te_budget te)"

definition calls_ok :: "turn_env \<Rightarrow> turn_acc \<Rightarrow> bool" where
  "calls_ok te a \<longleftrightarrow> distinct (ta_order a) \<and> dom (ta_calls a) = set (ta_order a) \<and>
     (\<forall>k < length (ta_order a). \<forall>tc. ta_calls a (ta_order a ! k) = Some tc \<longrightarrow> call_ok te k (ta_order a ! k) tc) \<and>
     distinct (ta_ended a) \<and> set (ta_ended a) \<subseteq> set (ta_order a)"

definition counts_ok :: "turn_env \<Rightarrow> nat \<Rightarrow> turn_acc \<Rightarrow> nat \<Rightarrow> bool" where
  "counts_ok te n0 a n \<longleftrightarrow> n = n0 + length (ta_order a) \<and> n \<le> max n0 (b_max_tool_calls (te_budget te)) \<and>
     length (ta_order a) \<le> b_max_tool_calls_per_turn (te_budget te)"

definition text_ok :: "turn_env \<Rightarrow> turn_acc \<Rightarrow> bool" where
  "text_ok te a \<longleftrightarrow> ta_streamed a = int (length (concat (ta_text a))) \<and>
     (ta_text a = [] \<or> te_output_length te + ta_streamed a \<le> b_max_output_length (te_budget te)) \<and>
     u_total_tokens (ta_usage a) = u_input_tokens (ta_usage a) + u_output_tokens (ta_usage a)"

definition turn_ok :: "turn_env \<Rightarrow> nat \<Rightarrow> turn_acc \<Rightarrow> nat \<Rightarrow> bool" where
  "turn_ok te n0 a n \<longleftrightarrow> calls_ok te a \<and> counts_ok te n0 a n \<and> text_ok te a"

lemmas turn_ok_defs = turn_ok_def calls_ok_def counts_ok_def text_ok_def

lemma turn_ok_new: "turn_ok te n new_turn n"
  by (simp add: turn_ok_defs new_turn_def default_usage_def)

lemma utf8_encode_append [simp]: "utf8_encode (s @ t) = utf8_encode s @ utf8_encode t"
  by (simp add: utf8_encode_def)

lemma calls_ok_fields:
  "ta_calls a' = ta_calls a \<Longrightarrow> ta_order a' = ta_order a \<Longrightarrow> ta_ended a' = ta_ended a \<Longrightarrow>
   calls_ok te a \<Longrightarrow> calls_ok te a'"
  by (simp add: calls_ok_def)

text \<open>An accumulator that differs in the error, the delay, the output flag or the ignored ids only.\<close>

definition same_turn :: "turn_acc \<Rightarrow> turn_acc \<Rightarrow> bool" where
  "same_turn a a' \<longleftrightarrow> ta_calls a' = ta_calls a \<and> ta_order a' = ta_order a \<and> ta_ended a' = ta_ended a \<and>
     ta_text a' = ta_text a \<and> ta_streamed a' = ta_streamed a \<and> ta_usage a' = ta_usage a"

lemma turn_ok_same: "same_turn a a' \<Longrightarrow> turn_ok te n0 a n \<Longrightarrow> turn_ok te n0 a' n"
  by (auto simp: turn_ok_defs same_turn_def)

lemma same_turn_fields [simp]:
  "same_turn a (a\<lparr>ta_error := e\<rparr>)" "same_turn a (a\<lparr>ta_error := e, ta_retry_after := r\<rparr>)"
  "same_turn a (a\<lparr>ta_had_output := h\<rparr>)" "same_turn a (a\<lparr>ta_ignored := g\<rparr>)" "same_turn a a"
  "same_turn a (fail_turn m k a)"
  by (simp_all add: same_turn_def fail_turn_def)

section \<open>Replacing and adding a call\<close>

lemma calls_ok_replace:
  assumes ok: "calls_ok te a" and old: "ta_calls a i = Some tc"
    and new: "tc_id tc' = tc_id tc" "tc_ordinal tc' = tc_ordinal tc"
      "length (utf8_encode (tc_arguments_raw tc')) \<le> b_max_tool_argument_bytes (te_budget te)"
    and same: "ta_calls a' = (ta_calls a)(i \<mapsto> tc')" "ta_order a' = ta_order a" "ta_ended a' = ta_ended a"
  shows "calls_ok te a'"
proof -
  have "call_ok te k (ta_order a ! k) c" if "k < length (ta_order a)" "ta_calls a' (ta_order a ! k) = Some c" for k c
  proof (cases "ta_order a ! k = i")
    case True
    with ok old that(1) have "call_ok te k i tc" by (fastforce simp: calls_ok_def)
    moreover from that(2) True same have "c = tc'" by simp
    ultimately show ?thesis using True new by (simp add: call_ok_def)
  next
    case False
    with ok that same show ?thesis by (auto simp: calls_ok_def)
  qed
  moreover from ok old have "i \<in> set (ta_order a)" by (auto simp: calls_ok_def)
  ultimately show ?thesis using ok same by (auto simp: calls_ok_def)
qed

lemma calls_ok_end:
  "calls_ok te a \<Longrightarrow> i \<in> set (ta_order a) \<Longrightarrow> i \<notin> set (ta_ended a) \<Longrightarrow>
   calls_ok te (a\<lparr>ta_ended := ta_ended a @ [i]\<rparr>)"
  by (simp add: calls_ok_def)

lemma calls_ok_open:
  assumes ok: "calls_ok te a" and new: "ta_calls a (tc_id tc) = None" "tc_ordinal tc = length (ta_order a)"
    "tc_arguments_raw tc = []"
  shows "calls_ok te (open_call tc a)"
proof -
  from ok new have fresh: "tc_id tc \<notin> set (ta_order a)" by (auto simp: calls_ok_def)
  have "call_ok te k (ta_order (open_call tc a) ! k) c"
    if "k < length (ta_order (open_call tc a))" "ta_calls (open_call tc a) (ta_order (open_call tc a) ! k) = Some c" for k c
  proof (cases "k = length (ta_order a)")
    case True
    with new that show ?thesis by (auto simp: open_call_def call_ok_def utf8_encode_def)
  next
    case False
    with that(1) have k: "k < length (ta_order a)" by (simp add: open_call_def)
    with fresh have "ta_order a ! k \<noteq> tc_id tc" by (metis nth_mem)
    with ok k that show ?thesis by (auto simp: calls_ok_def open_call_def nth_append)
  qed
  with ok fresh show ?thesis by (auto simp: calls_ok_def open_call_def)
qed

lemma counts_ok_open:
  assumes "counts_ok te n0 a n" "admit_new_call te a n = Admit"
  shows "counts_ok te n0 (open_call tc a) (Suc n)"
  using assms by (auto simp: counts_ok_def admit_new_call_def open_call_def split: if_splits)

lemma opened_call_sel [simp]:
  "tc_id (opened_call i v item a) = i" "tc_ordinal (opened_call i v item a) = length (ta_order a)"
  "tc_arguments_raw (opened_call i v item a) = []"
  by (simp_all add: opened_call_def)

lemma turn_ok_open:
  assumes "turn_ok te n0 a n" "ta_calls a i = None" "admit_new_call te a n = Admit"
  shows "turn_ok te n0 (open_call (opened_call i v item a) a) (Suc n)"
  using assms calls_ok_open [of te a "opened_call i v item a"] counts_ok_open [of te n0 a n "opened_call i v item a"]
  by (auto simp: turn_ok_def text_ok_def open_call_def)

section \<open>Every item keeps it\<close>

definition result_ok :: "turn_env \<Rightarrow> nat \<Rightarrow> item_result \<Rightarrow> bool" where
  "result_ok te n0 r = (case r of (a, n, _, _) \<Rightarrow> turn_ok te n0 a n)"

lemma stopped_ok: "turn_ok te n0 a n \<Longrightarrow> result_ok te n0 (stopped m k a n)"
  by (simp add: result_ok_def stopped_def turn_ok_same [of a "fail_turn m k a"])

lemma text_step_ok:
  assumes "turn_ok te n0 a n"
  shows "result_ok te n0 (text_step te t a n)"
  using assms stopped_ok [OF assms]
  by (auto simp: text_step_def Let_def result_ok_def turn_ok_defs fail_turn_def min_def)

lemma start_step_ok:
  assumes "turn_ok te n0 a n"
  shows "result_ok te n0 (start_step te i v item a n)"
proof (cases "ta_calls a i")
  case None
  with assms turn_ok_open [OF assms None] stopped_ok [OF assms]
  show ?thesis
    by (auto simp: start_step_def result_ok_def intro: turn_ok_same [of a] split: admission.splits)
next
  case (Some tc)
  with assms stopped_ok [OF assms] show ?thesis by (auto simp: start_step_def result_ok_def)
qed

lemma named_sel [simp]:
  "tc_id (named nm tc) = tc_id tc" "tc_ordinal (named nm tc) = tc_ordinal tc"
  "tc_arguments_raw (named nm tc) = tc_arguments_raw tc"
  by (simp_all add: named_def split: option.splits)

lemma calls_ok_raw:
  assumes "calls_ok te a" "ta_calls a i = Some tc"
  shows "length (utf8_encode (tc_arguments_raw tc)) \<le> b_max_tool_argument_bytes (te_budget te)"
proof -
  from assms have "i \<in> set (ta_order a)" by (auto simp: calls_ok_def)
  then obtain k where "k < length (ta_order a)" "ta_order a ! k = i" by (auto simp: in_set_conv_nth)
  with assms have "call_ok te k i tc" by (auto simp: calls_ok_def)
  then show ?thesis by (simp add: call_ok_def)
qed

lemma turn_ok_replace:
  assumes "turn_ok te n0 a n" "ta_calls a i = Some tc" "tc_id tc' = tc_id tc" "tc_ordinal tc' = tc_ordinal tc"
    "length (utf8_encode (tc_arguments_raw tc')) \<le> b_max_tool_argument_bytes (te_budget te)"
  shows "turn_ok te n0 (a\<lparr>ta_calls := (ta_calls a)(i \<mapsto> tc')\<rparr>) n"
  using assms calls_ok_replace [of te a i tc tc' "a\<lparr>ta_calls := (ta_calls a)(i \<mapsto> tc')\<rparr>"]
  by (auto simp: turn_ok_def counts_ok_def text_ok_def)

lemma arguments_step_ok:
  assumes ok: "turn_ok te n0 a n"
  shows "result_ok te n0 (arguments_step te item a n)"
proof -
  define i where "i = id_or (si_tool_call_id item) ''''"
  show ?thesis
  proof (cases "i \<in> set (ta_ignored a)")
    case True
    with ok show ?thesis by (simp add: arguments_step_def result_ok_def flip: i_def)
  next
    case fresh: False
    show ?thesis
    proof (cases "ta_calls a i")
      case None
      with ok fresh show ?thesis by (simp add: arguments_step_def result_ok_def flip: i_def)
    next
      case (Some tc)
      with ok fresh stopped_ok [OF ok] show ?thesis
        by (cases "nonempty_text (si_arguments_delta item)")
          (auto simp: arguments_step_def result_ok_def simp flip: i_def intro!: turn_ok_replace)
    qed
  qed
qed

lemma ended_call_sel:
  "ended_call eg te item tc = Some tc' \<Longrightarrow>
   tc_id tc' = tc_id tc \<and> tc_ordinal tc' = tc_ordinal tc \<and> tc_arguments_raw tc' = tc_arguments_raw tc"
  by (auto simp: ended_call_def Let_def split: option.splits if_splits)

lemma close_call_ok:
  assumes ok: "turn_ok te n0 a n" and tc: "ta_calls a i = Some tc" and fresh: "i \<notin> set (ta_ended a)"
  shows "result_ok te n0 (close_call eg te item i tc a n)"
proof (cases "ended_call eg te item tc")
  case None
  have raw: "length (utf8_encode (tc_arguments_raw tc)) \<le> b_max_tool_argument_bytes (te_budget te)"
    using ok tc by (auto simp: turn_ok_def intro: calls_ok_raw)
  have "turn_ok te n0 (a\<lparr>ta_calls := (ta_calls a)(i \<mapsto> named (si_tool_name item) tc)\<rparr>) n"
    by (rule turn_ok_replace [OF ok tc]) (simp_all add: raw)
  from stopped_ok [OF this] None show ?thesis by (simp add: close_call_def)
next
  case (Some tc')
  have raw: "length (utf8_encode (tc_arguments_raw tc)) \<le> b_max_tool_argument_bytes (te_budget te)"
    using ok tc by (auto simp: turn_ok_def intro: calls_ok_raw)
  have "turn_ok te n0 (a\<lparr>ta_calls := (ta_calls a)(i \<mapsto> tc')\<rparr>) n"
    by (rule turn_ok_replace [OF ok tc]) (use ended_call_sel [OF Some] raw in simp_all)
  moreover have "i \<in> set (ta_order a)" using ok tc by (auto simp: turn_ok_def calls_ok_def)
  ultimately show ?thesis
    using Some fresh calls_ok_end [of te "a\<lparr>ta_calls := (ta_calls a)(i \<mapsto> tc')\<rparr>" i]
    by (auto simp: close_call_def result_ok_def turn_ok_def counts_ok_def text_ok_def)
qed

lemma end_step_ok:
  assumes ok: "turn_ok te n0 a n"
  shows "result_ok te n0 (end_step eg te i v item a n)"
proof (cases "ta_calls a i")
  case (Some tc)
  with ok stopped_ok [OF ok] close_call_ok [OF ok Some] show ?thesis
    by (auto simp: end_step_def result_ok_def)
next
  case None
  have "i \<notin> set (ta_ended a)" using ok None unfolding turn_ok_def calls_ok_def by (metis domIff subsetD)
  then have close: "admit_new_call te a n = Admit \<Longrightarrow> result_ok te n0 (close_call eg te item i (opened_call i v item a)
      (open_call (opened_call i v item a) a) (Suc n))"
    by (intro close_call_ok turn_ok_open [OF ok None]) (simp_all add: open_call_def)
  from ok None stopped_ok [OF ok] close show ?thesis
    by (auto simp: end_step_def result_ok_def intro: turn_ok_same [of a] split: admission.splits)
qed

lemma item_step_ok:
  assumes ok: "turn_ok te n0 a n"
  shows "result_ok te n0 (item_step eg te i v item a n)"
proof -
  have b: "turn_ok te n0 (a\<lparr>ta_had_output := True\<rparr>) n" by (rule turn_ok_same [OF _ ok]) simp
  show ?thesis
  proof (cases "si_type item")
    case ST_usage
    with ok show ?thesis
      by (cases "si_usage item") (auto simp: item_step_def result_ok_def turn_ok_defs add_turn_usage_def Let_def)
  next
    case ST_error
    with ok show ?thesis
      by (auto simp: item_step_def result_ok_def same_turn_def fail_turn_def intro!: turn_ok_same [OF _ ok])
  qed (use ok text_step_ok [OF b] start_step_ok [OF b] arguments_step_ok [OF b] end_step_ok [OF b]
      in \<open>auto simp: item_step_def result_ok_def Let_def split: option.splits\<close>)
qed

section \<open>Lifting over the effects\<close>

definition ctx_view :: "(run_context \<Rightarrow> 'v) \<Rightarrow> string \<Rightarrow> world \<Rightarrow> 'v" where
  "ctx_view p rid w = p (context_of rid w)"

lemma frames_runs_storage: "frames w_runs (storage env f)"
  by (auto simp: frames_def storage_def Let_def split: sum.splits)

lemma frames_runs_tick: "frames w_runs tick"
  by (simp add: frames_def tick_def)

lemma frames_runs_ops:
  "frames w_runs (read_clock env)" "frames w_runs (read_mono env)" "frames w_runs (new_id env)"
  "frames w_runs (is_cancelled env)" "frames w_runs (query env f)" "frames w_runs (write_db env g)"
  unfolding read_clock_def read_mono_def new_id_def is_cancelled_def query_def write_db_def
  by (intro frames_intros frames_runs_tick frames_runs_storage)+

lemma frames_runs_make_event: "frames w_runs (make_event env run ty p sp)"
  unfolding make_event_def by (intro frames_intros frames_runs_ops)

lemma frames_runs_emit_and_update: "frames w_runs (emit_and_update env rid u evs)"
  unfolding emit_and_update_def by (intro frames_intros frames_runs_ops frames_runs_storage)

lemma frames_runs_make_events: "frames w_runs (make_events env run sp evs)"
  by (induction env run sp evs rule: make_events.induct)
    (simp_all only: make_events.simps, (intro frames_intros frames_runs_make_event; assumption?)+)

lemma frames_runs_emit: "frames w_runs (emit env run sp evs)"
  unfolding emit_def by (intro frames_intros frames_runs_make_events frames_runs_emit_and_update)

lemmas runs_leaves = frames_runs_storage frames_runs_tick frames_runs_ops frames_runs_make_event
  frames_runs_make_events frames_runs_emit_and_update frames_runs_emit

lemma frames_ctx_of_runs: "frames w_runs m \<Longrightarrow> frames (ctx_view p rid) m"
  by (erule frames_mono) (simp add: ctx_view_def context_of_def)

lemmas ctx_leaves = runs_leaves [THEN frames_ctx_of_runs]

lemma frames_ctx_set: "(\<And>c. p (f c) = p c) \<Longrightarrow> frames (ctx_view p rid) (set_ctx r f)"
  by (auto simp: frames_def set_ctx_def modify_def ctx_view_def context_of_def)

lemma frames_ctx_ensure: "frames (ctx_view p rid) (ensure_ctx r)"
  by (auto simp: frames_def ensure_ctx_def ctx_view_def context_of_def)

abbreviation calls_count :: "string \<Rightarrow> world \<Rightarrow> nat" where
  "calls_count \<equiv> ctx_view rc_tool_call_count"

lemma frames_count_flush: "frames (calls_count rid) (flush_delta env r run sp)"
  unfolding flush_delta_def andthen_def
  by (intro frames_intros ctx_leaves frames_ctx_set) (simp add: clear_delta_def)

lemma frames_count_buffer: "frames (calls_count rid) (buffer_delta env r run t sp)"
  unfolding buffer_delta_def andthen_def
  by (intro frames_intros ctx_leaves frames_ctx_set frames_ctx_ensure frames_count_flush) (simp add: push_delta_def)

lemma frames_try: "frames f m \<Longrightarrow> frames f (try_op m)"
  unfolding frames_def try_op_def by (auto split: prod.splits sum.splits) (metis snd_conv)+

text \<open>Performing an effect stores the count, whatever else happens.\<close>

lemma perform_effect_count:
  "calls_count (te_run_id te) (snd (perform_effect eg te n ef w)) = n"
proof -
  define w1 where "w1 = snd (set_ctx (te_run_id te) (\<lambda>c. c\<lparr>rc_tool_call_count := n\<rparr>) w)"
  define m where "m = (case ef of NoEffect \<Rightarrow> ret ()
    | BufferText t \<Rightarrow> buffer_delta (eg_env eg) (te_run_id te) (te_view te) t (Some (te_span te))
    | AnnounceCall tc \<Rightarrow>
        bind (new_id (eg_env eg)) (\<lambda>sp.
        bind (make_event (eg_env eg) (te_view te) ET_tool_call_start
                [(lit ''tool_call_id'', VStr (lit (tc_id tc))), (lit ''invocation_id'', VStr (lit (tc_invocation_id tc))),
                 (lit ''name'', VStr (lit (tc_name tc))), (lit ''ordinal'', VInt (int (tc_ordinal tc)))] (Some sp)) (\<lambda>ev.
        bind (emit_and_update (eg_env eg) (te_run_id te) no_update [ev\<lparr>ev_parent_span_id := Some (te_span te)\<rparr>]) (\<lambda>_.
        ret ()))))"
  have "calls_count (te_run_id te) w1 = n"
    by (simp add: w1_def set_ctx_def modify_def ctx_view_def context_of_def)
  moreover have "frames (calls_count (te_run_id te)) m"
    unfolding m_def by (cases ef) (simp_all, (intro frames_intros ctx_leaves frames_count_buffer)+)
  moreover have "snd (perform_effect eg te n ef w) = snd (m w1)"
    by (simp add: perform_effect_def andthen_def bind_def w1_def m_def set_ctx_def modify_def)
  ultimately show ?thesis by (simp add: frames_def)
qed

lemma try_op_cases:
  assumes "try_op m w = (r, w')"
  obtains "fst (m w) = Inl crashed" "r = Inl crashed" "w' = snd (m w)"
  | x where "r = Inr x" "w' = snd (m w)" "x = fst (m w)"
  using assms by (auto simp: try_op_def split: prod.splits sum.splits if_splits)

lemma frames_stop_turn: "frames f (stop_turn rid a)"
  unfolding stop_turn_def run_stop_status_def by (intro frames_intros)

text \<open>Stopping a turn changes its error only.\<close>

lemma stop_turn_same: "returns (same_turn a) (stop_turn rid a)"
  unfolding stop_turn_def run_stop_status_def by (intro returns_intros) simp

lemma task_cancelled_same: "returns (same_turn a) (task_cancelled eg te a)"
  unfolding task_cancelled_def by (intro returns_intros stop_turn_same)

lemma frames_count_task_cancelled: "frames (calls_count rid) (task_cancelled eg te a)"
  unfolding task_cancelled_def by (intro frames_intros ctx_leaves frames_stop_turn)

definition within_calls :: "turn_env \<Rightarrow> nat \<Rightarrow> world \<Rightarrow> bool" where
  "within_calls te n0 w \<longleftrightarrow> calls_count (te_run_id te) w \<le> max n0 (b_max_tool_calls (te_budget te))"

abbreviation turn_in :: "turn_env \<Rightarrow> nat \<Rightarrow> turn_acc \<Rightarrow> world \<Rightarrow> bool" where
  "turn_in te n0 a w \<equiv> turn_ok te n0 a (calls_count (te_run_id te) w)"

lemma turn_in_within: "turn_in te n0 a w \<Longrightarrow> within_calls te n0 w"
  by (simp add: turn_ok_def counts_ok_def within_calls_def)

lemma triple_same_turn:
  assumes "returns (same_turn a) m" "frames (calls_count (te_run_id te)) m"
  shows "triple (within_calls te n0) (turn_in te n0 a) m (turn_in te n0)"
proof (rule tripleI)
  fix w e w' assume "turn_in te n0 a w" "m w = (Inl e, w')"
  with framesD [OF assms(2)] show "within_calls te n0 w'" by (metis turn_in_within)
next
  fix w b w' assume "turn_in te n0 a w" "m w = (Inr b, w')"
  with framesD [OF assms(2)] returnsD [OF assms(1)] show "turn_in te n0 b w'" by (metis turn_ok_same)
qed

lemma triple_turn_step:
  assumes "frames (calls_count (te_run_id te)) m" "\<And>x. triple (within_calls te n0) (turn_in te n0 a) (f x) Q"
  shows "triple (within_calls te n0) (turn_in te n0 a) (bind m f) Q"
  using assms by (intro triple_step [where f = "calls_count (te_run_id te)" and P = "turn_ok te n0 a"])
    (auto simp: turn_in_within)

lemma effect_triple:
  assumes "turn_ok te n0 a n"
  shows "triple (within_calls te n0) (\<lambda>_. True) (try_op (perform_effect eg te n ef)) (\<lambda>_. turn_in te n0 a)"
proof (rule tripleI)
  fix w e w' assume "try_op (perform_effect eg te n ef) w = (Inl e, w')"
  then have "w' = snd (perform_effect eg te n ef w)" by (auto elim: try_op_cases)
  with assms show "within_calls te n0 w'"
    by (simp add: within_calls_def perform_effect_count turn_ok_def counts_ok_def)
next
  fix w r w' assume "try_op (perform_effect eg te n ef) w = (Inr r, w')"
  then have "w' = snd (perform_effect eg te n ef w)" by (auto elim: try_op_cases)
  with assms show "turn_in te n0 a w'" by (simp add: perform_effect_count)
qed

lemma triple_failed: "triple (within_calls te n0) (turn_in te n0 a) (ret (turn_failed eg x a)) (turn_in te n0)"
  by (rule triple_ret) (rule turn_ok_same [of a], simp_all add: turn_failed_def same_turn_def fail_turn_def)

lemma triple_count:
  assumes "\<And>n. turn_ok te n0 a n \<Longrightarrow> triple I (\<lambda>_. True) (g n) Q"
  shows "triple I (turn_in te n0 a) (bind (get_with (\<lambda>w. rc_tool_call_count (context_of (te_run_id te) w))) g) Q"
  using assms unfolding triple_def by (simp add: bind_def get_with_def ctx_view_def)

lemma consume_stream_ok:
  "triple (within_calls te n0) (turn_in te n0 a) (consume_stream eg te items en a) (turn_in te n0)"
proof (induction items arbitrary: a)
  case Nil
  show ?case
    by (cases en) (simp_all add: triple_same_turn task_cancelled_same frames_count_task_cancelled triple_ret triple_failed)
next
  case (Cons item items)
  have item: "triple (within_calls te n0) (\<lambda>_. True)
     (case item_step eg te i iv item a n of (a', n', ef, fl) \<Rightarrow>
         bind (try_op (perform_effect eg te n' ef)) (\<lambda>r.
         case r of
           Inl e \<Rightarrow> if e = CancelledError then task_cancelled eg te a' else ret (turn_failed eg (exc_of_error e) a')
         | Inr _ \<Rightarrow> if fl = Break then ret a' else consume_stream eg te items en a')) (turn_in te n0)"
    if "turn_ok te n0 a n" for i iv n
  proof -
    obtain a' n' ef fl where r: "item_step eg te i iv item a n = (a', n', ef, fl)" by (metis prod_cases4)
    with item_step_ok [OF that, of eg i iv item] have "turn_ok te n0 a' n'" by (simp add: result_ok_def)
    then have "triple (within_calls te n0) (\<lambda>_. True)
       (bind (try_op (perform_effect eg te n' ef)) (\<lambda>r.
         case r of
           Inl e \<Rightarrow> if e = CancelledError then task_cancelled eg te a' else ret (turn_failed eg (exc_of_error e) a')
         | Inr _ \<Rightarrow> if fl = Break then ret a' else consume_stream eg te items en a')) (turn_in te n0)"
      by (rule triple_bind [OF effect_triple])
        (auto split: sum.splits intro: triple_same_turn task_cancelled_same frames_count_task_cancelled
          triple_failed triple_ret Cons.IH)
    with r show ?thesis by simp
  qed
  show ?case
    unfolding consume_stream.simps
    by (rule triple_turn_step, intro ctx_leaves)
      (auto intro!: triple_same_turn stop_turn_same frames_stop_turn triple_turn_step ctx_leaves triple_count item)
qed

end
