(* ===== verification/Run_Turn.thy ===== *)
theory Run_Turn
  imports Turn_Budget
begin

text \<open>
  One model turn of \<open>RunEngine._loop\<close>: planning the context and announcing the turn, the
  provider attempts with their retries, and what the turn is charged.
\<close>

definition lift_err :: "py_error + 'a \<Rightarrow> ('s, 'a) op" where
  "lift_err r = (case r of Inl e \<Rightarrow> raise e | Inr a \<Rightarrow> ret a)"

section \<open>Planning the turn\<close>

text \<open>The planner writes artifacts and rows; the ids it draws are the next ones.\<close>

definition planner_op :: "engine \<Rightarrow> (ext_state \<Rightarrow> 'a \<times> ext_state) \<Rightarrow> 'a wop" where
  "planner_op eg f = (\<lambda>w.
     let w' = w\<lparr>w_tick := Suc (w_tick w)\<rparr>
     in if en_crash (eg_env eg) (w_tick w) then (Inl crashed, w')
        else case f \<lparr>xs_files = w_files w, xs_db = w_db w, xs_fresh = (\<lambda>k. en_id (eg_env eg) (w_tick w' + k)),
                     xs_drawn = 0, xs_now = en_clock (eg_env eg) (w_tick w)\<rparr> of
          (a, s) \<Rightarrow> (Inr a, w'\<lparr>w_files := xs_files s, w_db := xs_db s, w_tick := w_tick w' + xs_drawn s\<rparr>))"

definition tool_specs :: "engine \<Rightarrow> run_request \<Rightarrow> tool_spec list" where
  "tool_specs eg rq = map (tl_spec \<circ> snd)
     (filter (\<lambda>(n, t). case rq_tools rq of None \<Rightarrow> True | Some ns \<Rightarrow> n \<in> set ns) (eg_tools eg))"

definition plan_context :: "engine \<Rightarrow> string \<Rightarrow> run_request \<Rightarrow> message list \<Rightarrow> nat \<Rightarrow> context_bundle wop" where
  "plan_context eg rid rq ms step =
     bind (ensure_ctx rid) (\<lambda>c.
     bind (planner_op eg (plan (eg_planner eg) rid step ms (tool_specs eg rq)
             (coerce_or_select_state (eg_planner eg) (eg_fs eg) (rc_context_state c) (rq_cwd rq) (rq_extra_dirs rq) (rq_system rq) None)
             (Some (b_max_context_tokens (rq_budget rq))) (rq_budget rq))) (\<lambda>r.
     bind (lift_err r) (\<lambda>bundle.
     bind (set_ctx rid (\<lambda>x. x\<lparr>rc_context_state := Some (cb_state bundle)\<rparr>)) (\<lambda>_.
     ret bundle))))"

text \<open>\<open>artifacts.put_json\<close> and its registration; the id of the row is returned.\<close>

definition store_manifest :: "engine \<Rightarrow> nat \<Rightarrow> pyval \<Rightarrow> string wop" where
  "store_manifest eg step payload =
     bind (read_clock (eg_env eg)) (\<lambda>now. bind (new_id (eg_env eg)) (\<lambda>i. bind tick (\<lambda>_. (\<lambda>w.
       case artifact_put_json (en_codec (eg_env eg)) (en_redactor (eg_env eg)) now i payload
              (Some (lit ''Context manifest for model turn '' @ str_nat step)) (w_files w) of
         (files, meta) \<Rightarrow>
           (case register_artifact (en_redactor (eg_env eg))
                  \<lparr>af_id = am_id meta, af_sha256 = am_sha256 meta, af_content_type = Some ''application/json'',
                   af_size_bytes = Some (am_size_bytes meta), af_summary = Some (am_summary meta),
                   af_path = en_path (eg_env eg) (am_sha256 meta), af_created_at = am_created_at meta\<rparr> (w_db w) of
              (db, aid) \<Rightarrow> (Inr aid, w\<lparr>w_files := files, w_db := db\<rparr>))))))"

definition opt_string_val :: "string option \<Rightarrow> pyval" where
  "opt_string_val x = (case x of None \<Rightarrow> VNone | Some s \<Rightarrow> VStr (lit s))"

definition announce_turn :: "engine \<Rightarrow> run_view \<Rightarrow> run_request \<Rightarrow> nat \<Rightarrow> context_bundle \<Rightarrow> string wop" where
  "announce_turn eg view rq step bundle =
     (let m = cb_manifest bundle; payload = eg_dump_manifest eg m
      in bind (store_manifest eg step payload) (\<lambda>aid.
         bind (new_id (eg_env eg)) (\<lambda>sp.
         bind (emit (eg_env eg) view (Some sp)
           [(ET_context_manifest, [(lit ''step'', VInt (int step)), (lit ''artifact_id'', VStr (lit aid)), (lit ''manifest'', payload)]),
            (ET_model_turn_start, [(lit ''step'', VInt (int step)),
               (lit ''context'', VDict [(lit ''token_estimate'', VInt (cm_total_tokens m)),
                  (lit ''token_method'', VStr (lit ''estimate'')), (lit ''compacted'', VBool (cm_compacted m)),
                  (lit ''budget_tokens'', VInt (cm_budget_tokens m)),
                  (lit ''prefix_fingerprint'', VStr (lit (cm_prefix_fingerprint m))),
                  (lit ''manifest_artifact_id'', VStr (lit aid))]),
               (lit ''provider'', VStr (lit (rq_provider rq))), (lit ''model'', opt_string_val (rq_model rq))]),
            (ET_span_start, [(lit ''kind'', VStr (lit ''model'')), (lit ''step'', VInt (int step))])]) (\<lambda>_.
         ret sp))))"

section \<open>The provider attempts\<close>

definition manifest_tokens :: "turn_env \<Rightarrow> int" where
  "manifest_tokens te = cm_total_tokens (cb_manifest (te_bundle te))"

text \<open>What is left to spend on an attempt: tokens, or the message of the exhausted budget.\<close>

definition attempt_allowance :: "turn_env \<Rightarrow> usage \<Rightarrow> py_error + (utext + int)" where
  "attempt_allowance te u =
     (let b = te_budget te; p = rq_pricing (te_request te); remaining = b_max_tokens b - u_total_tokens u
      in if remaining \<le> 0 then Inr (Inl (lit ''max_tokens exceeded during provider retry''))
         else case b_max_cost_usd b of
             None \<Rightarrow> Inr (Inr remaining)
           | Some limit \<Rightarrow>
               (case (u_estimated_cost_usd u, pr_input p, pr_output p) of
                  (Some spent, Some ri, Some ro) \<Rightarrow>
                    let left = limit - spent - real_of_int (manifest_tokens te) * ri / 1000000
                    in if left \<le> 0 then Inr (Inl (lit ''max_cost_usd exceeded before provider call''))
                       else if 0 < ro
                       then let affordable = min remaining (py_trunc (left * 1000000 / ro))
                            in if affordable \<le> 0 then Inr (Inl (lit ''max_cost_usd output allowance exhausted''))
                               else Inr (Inr affordable)
                       else Inr (Inr remaining)
                | _ \<Rightarrow> Inl AssertionError))"

definition turn_request :: "turn_env \<Rightarrow> int \<Rightarrow> model_request" where
  "turn_request te remaining =
     (let rq = te_request te; b = te_budget te;
          output_limit = max 1 ((b_max_output_length b - te_output_length te + 3) div 4)
      in \<lparr>mq_messages = cb_messages (te_bundle te), mq_tools = cb_tools (te_bundle te), mq_model = rq_model rq,
          mq_reasoning_effort = rq_reasoning_effort rq, mq_max_tokens = Some (max 1 (min remaining output_limit)),
          mq_parallel_tool_calls = (if b_max_tool_calls_per_turn b = 1 then Some False else None),
          mq_system = cb_system (te_bundle te), mq_metadata = rq_metadata rq\<rparr>)"

record attempt_state =
  at_usage :: usage
  at_acc :: turn_acc
  at_charged :: bool
  at_attempt :: nat

text \<open>The tokens an attempt is booked with.\<close>

definition attempt_tokens :: "turn_env \<Rightarrow> turn_acc \<Rightarrow> int \<times> int \<times> int" where
  "attempt_tokens te a =
     (let i = (if u_input_tokens (ta_usage a) = 0 then manifest_tokens te else u_input_tokens (ta_usage a));
          j = (if u_output_tokens (ta_usage a) = 0 then int (estimate_tokens (concat (ta_text a)))
               else u_output_tokens (ta_usage a))
      in (i, j, min (u_cached_input_tokens (ta_usage a)) i))"

definition attempt_record :: "engine \<Rightarrow> turn_env \<Rightarrow> nat \<Rightarrow> turn_acc \<Rightarrow> provider_attempt" where
  "attempt_record eg te n a =
     (case attempt_tokens te a of (i, j, c) \<Rightarrow>
       \<lparr>pa_provider = redact_text (en_redactor (eg_env eg)) (lit (rq_provider (te_request te))),
        pa_model = (case rq_model (te_request te) of None \<Rightarrow> None
                    | Some m \<Rightarrow> if m = '''' then None else Some (redact_text (en_redactor (eg_env eg)) (lit m))),
        pa_attempt = int n, pa_completed = (case ta_error a of None \<Rightarrow> True | Some (msg, _) \<Rightarrow> msg = []),
        pa_error_kind = map_option snd (ta_error a), pa_input_tokens = i, pa_output_tokens = j,
        pa_cached_input_tokens = c, pa_had_output = ta_had_output a, pa_fallback = False,
        pa_estimated_cost_usd = cost_usd i j (rq_pricing (te_request te)) c\<rparr>)"

definition can_replay :: "turn_env \<Rightarrow> nat \<Rightarrow> turn_acc \<Rightarrow> bool" where
  "can_replay te n a \<longleftrightarrow> \<not> ta_had_output a \<and>
     (case ta_error a of None \<Rightarrow> False | Some (_, kind) \<Rightarrow> kind \<in> retryable_provider_errors) \<and>
     n \<le> rt_max_retries (rq_retry (te_request te))"

definition charge_attempt :: "engine \<Rightarrow> turn_env \<Rightarrow> turn_acc \<Rightarrow> usage \<Rightarrow> usage" where
  "charge_attempt eg te a u =
     (case attempt_tokens te a of (i, j, c) \<Rightarrow>
       update_usage_cost (eg_round eg 10) (rq_pricing (te_request te))
         (u\<lparr>u_input_tokens := u_input_tokens u + i, u_output_tokens := u_output_tokens u + j,
            u_total_tokens := u_total_tokens u + (i + j), u_cached_input_tokens := u_cached_input_tokens u + c,
            u_estimated := (u_estimated u \<or> u_total_tokens (ta_usage a) = 0)\<rparr>))"

definition open_stream :: "engine \<Rightarrow> turn_env \<Rightarrow> provider \<Rightarrow> int \<Rightarrow> turn_acc wop" where
  "open_stream eg te p remaining =
     bind tick (\<lambda>n. case pv_stream p (turn_request te remaining) n of
       (items, en) \<Rightarrow> consume_stream eg te items en new_turn)"

definition announce_retry :: "engine \<Rightarrow> turn_env \<Rightarrow> nat \<Rightarrow> string \<Rightarrow> real \<Rightarrow> real option \<Rightarrow> unit wop" where
  "announce_retry eg te n kind delay after =
     emit (eg_env eg) (te_view te) (Some (te_span te)) [(ET_provider_retry,
       [(lit ''provider'', VStr (lit (rq_provider (te_request te)))), (lit ''model'', opt_string_val (rq_model (te_request te))),
        (lit ''attempt'', VInt (int n)), (lit ''next_attempt'', VInt (int n + 1)), (lit ''error_kind'', VStr (lit kind)),
        (lit ''delay_s'', VFloat (eg_round eg 3 delay)),
        (lit ''retry_after_s'', case after of None \<Rightarrow> VNone | Some r \<Rightarrow> VFloat r)])]"

text \<open>An attempt that is over, and one that is tried again after a delay.\<close>

definition after_attempt :: "engine \<Rightarrow> turn_env \<Rightarrow> attempt_state \<Rightarrow> turn_acc \<Rightarrow> attempt_state" where
  "after_attempt eg te st a = st
     \<lparr>at_usage := (at_usage st)\<lparr>u_provider_attempts := u_provider_attempts (at_usage st) @ [attempt_record eg te (at_attempt st) a]\<rparr>,
      at_acc := a, at_charged := False\<rparr>"

definition retry_attempt :: "engine \<Rightarrow> turn_env \<Rightarrow> attempt_state \<Rightarrow> attempt_state wop" where
  "retry_attempt eg te st =
     (let a = at_acc st; n = at_attempt st in
      bind tick (\<lambda>t.
      let delay = max (provider_retry_delay (rq_retry (te_request te)) n (eg_random eg t)) (case ta_retry_after a of None \<Rightarrow> 0 | Some r \<Rightarrow> r)
      in bind (announce_retry eg te n (case ta_error a of None \<Rightarrow> '''' | Some (_, k) \<Rightarrow> k) delay (ta_retry_after a)) (\<lambda>_.
         ret (st\<lparr>at_usage := charge_attempt eg te a (at_usage st), at_charged := True, at_attempt := Suc n\<rparr>))))"

text \<open>The \<open>while True\<close> over the attempts; \<open>None\<close> is the end of the fuel.\<close>

primrec provider_loop :: "nat \<Rightarrow> engine \<Rightarrow> turn_env \<Rightarrow> attempt_state \<Rightarrow> attempt_state option wop" where
  "provider_loop 0 eg te st = ret None"
| "provider_loop (Suc fuel) eg te st =
     (case eg_providers eg (rq_provider (te_request te)) of
        None \<Rightarrow> raise (KeyError (rq_provider (te_request te)))
      | Some p \<Rightarrow>
          bind (lift_err (attempt_allowance te (at_usage st))) (\<lambda>allowed.
          case allowed of
            Inl msg \<Rightarrow> ret (Some (st\<lparr>at_acc := fail_turn msg ''budget'' (at_acc st)\<rparr>))
          | Inr remaining \<Rightarrow>
              bind (open_stream eg te p remaining) (\<lambda>a.
              if \<not> can_replay te (at_attempt st) a then ret (Some (after_attempt eg te st a))
              else bind (retry_attempt eg te (after_attempt eg te st a)) (provider_loop fuel eg te))))"

definition first_attempt :: "usage \<Rightarrow> attempt_state" where
  "first_attempt u = \<lparr>at_usage = u, at_acc = new_turn, at_charged = False, at_attempt = 1\<rparr>"

section \<open>Closing the turn\<close>

definition unfinished_ids :: "turn_acc \<Rightarrow> string list" where
  "unfinished_ids a = filter (\<lambda>i. i \<notin> set (ta_ended a)) (ta_order a)"

definition close_stream :: "turn_acc \<Rightarrow> turn_acc" where
  "close_stream a =
     (if unfinished_ids a \<noteq> [] \<and> ta_error a = None
      then fail_turn (lit ''provider ended before tool arguments completed: '' @
             join (lit '', '') (map lit (take 4 (unfinished_ids a)))) ''provider_protocol'' a
      else a)"

text \<open>The usage shown for the turn, and the usage of the run after it.\<close>

definition shown_usage :: "turn_env \<Rightarrow> attempt_state \<Rightarrow> usage" where
  "shown_usage te st =
     (if u_total_tokens (ta_usage (at_acc st)) = 0 \<and> \<not> at_charged st
      then let j = int (estimate_tokens (concat (ta_text (at_acc st))))
           in default_usage\<lparr>u_input_tokens := manifest_tokens te, u_output_tokens := j,
                u_total_tokens := manifest_tokens te + j, u_estimated := True\<rparr>
      else ta_usage (at_acc st))"

definition charge_turn :: "engine \<Rightarrow> turn_env \<Rightarrow> nat \<Rightarrow> attempt_state \<Rightarrow> usage" where
  "charge_turn eg te step st =
     (let u = at_usage st; t = shown_usage te st;
          b = billable_turn_usage t (manifest_tokens te) (concat (ta_text (at_acc st))) 8;
          u' = (if at_charged st then u
                else update_usage_cost (eg_round eg 10) (rq_pricing (te_request te))
                  (u\<lparr>u_input_tokens := u_input_tokens u + u_input_tokens b,
                     u_output_tokens := u_output_tokens u + u_output_tokens b,
                     u_total_tokens := u_total_tokens u + u_total_tokens b,
                     u_cached_input_tokens := u_cached_input_tokens u + min (u_cached_input_tokens t) (u_input_tokens b),
                     u_estimated := (u_estimated u \<or> u_estimated b),
                     u_last_input_tokens := u_input_tokens t, u_last_output_tokens := u_output_tokens t,
                     u_last_cached_input_tokens := u_cached_input_tokens t,
                     u_last_local_estimate := manifest_tokens te\<rparr>))
      in u'\<lparr>u_model_turns := int step + 1\<rparr>)"

definition within_budget :: "budget_config \<Rightarrow> usage \<Rightarrow> turn_acc \<Rightarrow> turn_acc" where
  "within_budget b u a =
     (if ta_error a \<noteq> None then a
      else if b_max_tokens b < u_total_tokens u then fail_turn (lit ''max_tokens exceeded'') ''budget'' a
      else case (b_max_cost_usd b, u_estimated_cost_usd u) of
          (Some limit, Some spent) \<Rightarrow> if limit < spent then fail_turn (lit ''max_cost_usd exceeded'') ''budget'' a else a
        | _ \<Rightarrow> a)"

definition turn_calls :: "turn_acc \<Rightarrow> tool_call list" where
  "turn_calls a = map (the \<circ> ta_calls a) (filter (\<lambda>i. ta_calls a i \<noteq> None) (ta_order a))"

end
