(* ===== verification/Run_Verify.thy ===== *)
theory Run_Verify
  imports Run_Turn Verification_Loop
begin

text \<open>
  How \<open>RunEngine\<close> verifies a candidate (\<open>_verification_policy\<close>, \<open>_evaluate_candidate\<close> with its
  governed command runner, \<open>_charge_verification_usage\<close> of \<open>src/src/agentharness/engine/runtime.py\<close>),
  and that this refines \<open>VerificationLoop.evaluate\<close> as modelled in \<open>Verification\<close>.
\<close>

section \<open>The policy\<close>

definition output_validator :: "pydict \<Rightarrow> verification_check" where
  "output_validator assertions = \<lparr>vc_kind = VK_output, vc_assertions = assertions, vc_path = None, vc_exists = True,
     vc_contains = [], vc_command = None, vc_min_score = 8 / 10\<rparr>"

definition meta_dict :: "string \<Rightarrow> run_request \<Rightarrow> pydict option" where
  "meta_dict k rq = (case dict_get k (rq_metadata rq) of VDict d \<Rightarrow> Some d | _ \<Rightarrow> None)"

definition verification_policy_of :: "engine \<Rightarrow> run_request \<Rightarrow> py_error + verification_policy option" where
  "verification_policy_of eg rq =
     err_bind (case rq_verification rq of
         Some p \<Rightarrow> Inr (Some p)
       | None \<Rightarrow> (case meta_dict ''verification'' rq of
             None \<Rightarrow> Inr None | Some d \<Rightarrow> map_sum id Some (eg_load_policy eg d)))
     (\<lambda>po. Inr (case po of
         None \<Rightarrow> None
       | Some p \<Rightarrow> Some (case meta_dict ''verification_assertions'' rq of
             None \<Rightarrow> p
           | Some d \<Rightarrow> if list_ex (\<lambda>k. vc_kind k = VK_output) (vp_validators p) then p
                       else p\<lparr>vp_validators := output_validator d # vp_validators p\<rparr>)))"

section \<open>The governed command runner\<close>

record ids =
  id_run :: string
  id_session :: string
  id_root :: string
  id_parent :: "string option"

text \<open>What the runner changes: the transcript, the commands of this evaluation, the next ordinal.\<close>

record command_state =
  co_messages :: "message list"
  co_commands :: nat
  co_ordinal :: nat

definition shell_refusal :: "utext \<Rightarrow> string \<Rightarrow> string \<Rightarrow> nat \<Rightarrow> utext \<Rightarrow> tool_result" where
  "shell_refusal content code category attempts hint =
     (new_tool_result '''' ''shell'' content)
       \<lparr>tr_is_error := True, tr_error_code := Some code, tr_error_category := Some category, tr_attempts := attempts,
        tr_recovery_hint := Some hint\<rparr>"

definition command_call :: "engine \<Rightarrow> string \<Rightarrow> string \<Rightarrow> utext \<Rightarrow> nat \<Rightarrow> tool_call" where
  "command_call eg i iv cmd k =
     (let args = [(lit ''command'', VStr cmd)]
      in \<lparr>tc_id = i, tc_invocation_id = iv, tc_name = ''shell'', tc_arguments = args,
          tc_arguments_raw = json_dumps ((en_json (eg_env eg))\<lparr>js_item_sep := lit '', '', js_key_sep := lit '': ''\<rparr>) (VDict args),
          tc_ordinal = k, tc_status = CS_pending\<rparr>)"

definition command_marker :: utext where
  "command_marker = lit ''[verification command validator]''"

definition assistant_message :: "string \<Rightarrow> time \<Rightarrow> utext \<Rightarrow> tool_call list \<Rightarrow> message" where
  "assistant_message i now content calls =
     \<lparr>m_id = i, m_role = MR_assistant, m_content = content, m_tool_call_id = None, m_name = None,
      m_tool_calls = (if calls = [] then None else Some calls), m_tool_result = None, m_created_at = now\<rparr>"

definition store_message :: "engine \<Rightarrow> ids \<Rightarrow> message \<Rightarrow> nat \<Rightarrow> unit wop" where
  "store_message eg d m seq =
     write_db (eg_env eg) (save_message (en_redactor (eg_env eg)) (en_dump_call (eg_env eg)) (en_dump_result (eg_env eg))
       (id_run d) (id_session d) m seq)"

definition call_batch :: "engine \<Rightarrow> ids \<Rightarrow> run_request \<Rightarrow> nat \<Rightarrow> usage \<Rightarrow> message list \<Rightarrow> tool_call list \<Rightarrow> string list \<Rightarrow> batch_outcome wop" where
  "call_batch eg d rq step u ms calls completed =
     execute_batch (eg_env eg) (eg_lower eg)
       \<lparr>ba_run_id = id_run d, ba_session_id = id_session d, ba_request = rq, ba_tools = map_of (eg_tools eg),
        ba_step = step, ba_usage = u\<rparr> ms calls completed"

definition cancelled_command :: "string \<Rightarrow> tool_result" where
  "cancelled_command i =
     (shell_refusal (lit ''Verification command was cancelled'') ''cancelled'' ''cancellation'' 1
        (lit ''Resume the run and retry verification.''))\<lparr>tr_tool_call_id := i, tr_retryable := True\<rparr>"

text \<open>A command that passed the budgets: a call of its own, through the executor.\<close>

definition execute_command ::
  "engine \<Rightarrow> ids \<Rightarrow> run_request \<Rightarrow> nat \<Rightarrow> usage \<Rightarrow> utext \<Rightarrow> command_state \<Rightarrow> (tool_result \<times> command_state) wop" where
  "execute_command eg d rq step u cmd st =
     bind (set_ctx (id_run d) (\<lambda>c. c\<lparr>rc_tool_call_count := Suc (rc_tool_call_count c)\<rparr>)) (\<lambda>_.
     bind (new_id (eg_env eg)) (\<lambda>i. bind (new_id (eg_env eg)) (\<lambda>iv.
     bind (new_id (eg_env eg)) (\<lambda>mid. bind (read_clock (eg_env eg)) (\<lambda>now.
     let tc = command_call eg i iv cmd (co_ordinal st);
         m = assistant_message mid now command_marker [tc];
         ms = co_messages st @ [m]
     in bind (store_message eg d m (length ms)) (\<lambda>_.
        bind (ensure_ctx (id_run d)) (\<lambda>c.
        bind (call_batch eg d rq step u ms [tc] (rc_completed c)) (\<lambda>(rs, ms', _).
        ret (case rs of r # _ \<Rightarrow> r | [] \<Rightarrow> cancelled_command i,
             \<lparr>co_messages = ms', co_commands = Suc (co_commands st), co_ordinal = Suc (co_ordinal st)\<rparr>)))))))))"

definition governed_command ::
  "engine \<Rightarrow> ids \<Rightarrow> run_request \<Rightarrow> nat \<Rightarrow> usage \<Rightarrow> utext \<Rightarrow> command_state \<Rightarrow> (tool_result \<times> command_state) wop" where
  "governed_command eg d rq step u cmd st =
     (if (case rq_tools rq of None \<Rightarrow> False | Some ns \<Rightarrow> ''shell'' \<notin> set ns)
      then ret (shell_refusal (lit ''Shell tool is disabled for this run'') ''tool_disabled'' ''configuration'' 1
                  (lit ''Enable shell explicitly or use file/deterministic validation.''), st)
      else bind (ensure_ctx (id_run d)) (\<lambda>c.
        if b_max_tool_calls_per_turn (rq_budget rq) \<le> co_commands st
        then ret (shell_refusal (lit ''Verification command budget for this turn was exceeded'') ''max_tool_calls_per_turn''
                    ''budget'' 0 (lit ''Reduce command validators or split verification across runs.''), st)
        else if b_max_tool_calls (rq_budget rq) \<le> rc_tool_call_count c
        then ret (shell_refusal (lit ''Run tool-call budget was exceeded during verification'') ''max_tool_calls''
                    ''budget'' 0 (lit ''Start a new run with a smaller verification policy.''), st)
        else execute_command eg d rq step u cmd st))"

section \<open>The evaluation\<close>

definition goal_of :: "engine \<Rightarrow> run_request \<Rightarrow> utext" where
  "goal_of eg rq =
     (case dict_get ''_agentharness_original_goal'' (rq_metadata rq) of
        VStr t \<Rightarrow> if t = [] then rq_message rq else t
      | v \<Rightarrow> if truthy v then eg_str eg v else rq_message rq)"

definition ordered_tools :: "message list \<Rightarrow> utext list" where
  "ordered_tools ms = concat (map (\<lambda>m. if m_content m = command_marker then []
     else map (\<lambda>tc. lit (tc_name tc)) (case m_tool_calls m of None \<Rightarrow> [] | Some tcs \<Rightarrow> tcs)) ms)"

definition succeeded_tools :: "message list \<Rightarrow> utext list" where
  "succeeded_tools ms = concat (map (\<lambda>m.
     case (m_name m, m_tool_result m) of
       (Some n, Some r) \<Rightarrow> if m_role m = MR_tool \<and> n \<noteq> '''' \<and> \<not> tr_is_error r then [lit n] else []
     | _ \<Rightarrow> []) ms)"

definition candidate_of :: "engine \<Rightarrow> run_request \<Rightarrow> utext \<Rightarrow> nat \<Rightarrow> message list \<Rightarrow> candidate" where
  "candidate_of eg rq out step ms =
     \<lparr>vn_goal = goal_of eg rq, vn_output = out, vn_cwd = text_or (rq_cwd rq) (lit ''.''), vn_extra_dirs = rq_extra_dirs rq,
      vn_steps = int step, vn_tools_ordered = ordered_tools ms, vn_tools_succeeded = succeeded_tools ms,
      vn_output_assertions = meta_dict ''verification_assertions'' rq, vn_executor_provider = Some (rq_provider rq),
      vn_executor_adapter = (case eg_providers eg (rq_provider rq) of None \<Rightarrow> 0 | Some p \<Rightarrow> pv_id p),
      vn_cancelled = (\<lambda>_. False)\<rparr>"

definition engine_verifier :: "engine \<Rightarrow> (utext \<Rightarrow> tool_result) \<Rightarrow> verifier" where
  "engine_verifier eg runner = (eg_verifier eg)
     \<lparr>ve_redactor := en_redactor (eg_env eg), ve_runner := Some runner,
      ve_resolver := Some (\<lambda>n. map_option (\<lambda>p. \<lparr>ad_id = pv_id p, ad_stream = eg_judge eg p\<rparr>) (eg_providers eg n))\<rparr>"

text \<open>One validator; a command is run first, and its result is what the check looks at.\<close>

definition check_op ::
  "engine \<Rightarrow> ids \<Rightarrow> run_request \<Rightarrow> nat \<Rightarrow> usage \<Rightarrow> candidate \<Rightarrow> verification_policy \<Rightarrow> verification_check \<Rightarrow> command_state \<Rightarrow>
   (check_outcome \<times> command_state) wop" where
  "check_op eg d rq step u c pol k st =
     (let cmd = text_or (vc_command k) []
      in bind (if vc_kind k = VK_command \<and> cmd \<noteq> [] then governed_command eg d rq step u cmd st
               else ret (new_tool_result '''' '''' [], st)) (\<lambda>(r, st').
         bind (lift_err (run_check (engine_verifier eg (\<lambda>_. r)) c pol k)) (\<lambda>out.
         ret (out, st'))))"

fun checks_op ::
  "engine \<Rightarrow> ids \<Rightarrow> run_request \<Rightarrow> nat \<Rightarrow> usage \<Rightarrow> candidate \<Rightarrow> verification_policy \<Rightarrow> nat \<Rightarrow> verification_check list \<Rightarrow>
   command_state \<Rightarrow> (verification_failure list \<times> pydict \<times> command_state) wop" where
  "checks_op eg d rq step u c pol i [] st = ret ([], [], st)"
| "checks_op eg d rq step u c pol i (k # ks) st =
     bind (is_cancelled (eg_env eg)) (\<lambda>stop.
     if stop then ret ([cancelled_failure], [], st)
     else
       bind (check_op eg d rq step u c pol k st) (\<lambda>((f, ev), st').
       bind (checks_op eg d rq step u c pol (Suc i) ks st') (\<lambda>(fs, evs, st'').
       ret ((case f of None \<Rightarrow> [] | Some x \<Rightarrow> [x]) @ fs,
            (evidence_key i k, redact_obj (en_redactor (eg_env eg)) (VDict ev)) # evs, st''))))"

text \<open>The end of \<open>VerificationLoop.evaluate\<close>: what the failures lead to.\<close>

definition decision_of ::
  "verifier \<Rightarrow> string \<Rightarrow> time \<Rightarrow> candidate \<Rightarrow> verification_policy \<Rightarrow> nat \<Rightarrow> verification_failure list \<Rightarrow> pydict \<Rightarrow> verification_decision" where
  "decision_of ve fresh now c pol attempt failures evidence =
     (let ev = redact_dict (ve_redactor ve) evidence; action = decide_action pol attempt failures
      in if failures = []
         then \<lparr>vd_action = VA_pass, vd_feedback = None, vd_feedback_message = None, vd_failures = [],
               vd_attempt = attempt, vd_evidence = ev\<rparr>
         else let t = feedback_text ve c failures attempt action
              in \<lparr>vd_action = action, vd_feedback = Some t,
                  vd_feedback_message = (if action = VA_retry then Some (feedback_message_of fresh now t) else None),
                  vd_failures = failures, vd_attempt = attempt, vd_evidence = ev\<rparr>)"

definition evaluate_op ::
  "engine \<Rightarrow> ids \<Rightarrow> run_request \<Rightarrow> nat \<Rightarrow> usage \<Rightarrow> candidate \<Rightarrow> verification_policy \<Rightarrow> nat \<Rightarrow> command_state \<Rightarrow>
   (verification_decision \<times> command_state) wop" where
  "evaluate_op eg d rq step u c pol attempt st =
     bind (is_cancelled (eg_env eg)) (\<lambda>stop.
     if stop then ret (\<lparr>vd_action = VA_stop, vd_feedback = None, vd_feedback_message = None,
                        vd_failures = [cancelled_failure], vd_attempt = attempt, vd_evidence = []\<rparr>, st)
     else
       bind (checks_op eg d rq step u c pol 0 (vp_validators pol) st) (\<lambda>(failures, evidence, st').
       bind (new_id (eg_env eg)) (\<lambda>i. bind (read_clock (eg_env eg)) (\<lambda>now.
       ret (decision_of (engine_verifier eg (\<lambda>_. new_tool_result '''' '''' [])) i now c pol attempt failures evidence, st')))))"

definition announce_result :: "engine \<Rightarrow> run_view \<Rightarrow> string \<Rightarrow> string \<Rightarrow> nat \<Rightarrow> nat \<Rightarrow> verification_decision \<Rightarrow> unit wop" where
  "announce_result eg view sp parent attempt step dec =
     (let rd = en_redactor (eg_env eg)
      in bind (make_events (eg_env eg) view (Some sp)
           ([(ET_verification_result, [(lit ''attempt'', VInt (int attempt)), (lit ''step'', VInt (int step)),
                (lit ''action'', VStr (lit (action_value (vd_action dec)))), (lit ''passed'', VBool (vd_action dec = VA_pass)),
                (lit ''failures'', redact_obj rd (VList (map (ve_dump_failure (eg_verifier eg)) (vd_failures dec)))),
                (lit ''evidence'', redact_obj rd (VDict (vd_evidence dec)))])] @
            (case nonempty_text (vd_feedback dec) of
               None \<Rightarrow> []
             | Some t \<Rightarrow> [(ET_verification_feedback, [(lit ''attempt'', VInt (int attempt)),
                 (lit ''action'', VStr (lit (action_value (vd_action dec)))), (lit ''feedback'', VStr (redact_text rd t))])]))) (\<lambda>evs.
         bind (emit_and_update (eg_env eg) (rn_id (rv_row view)) no_update (map (\<lambda>e. e\<lparr>ev_parent_span_id := Some parent\<rparr>) evs)) (\<lambda>_.
         ret ())))"

definition evaluate_candidate ::
  "engine \<Rightarrow> ids \<Rightarrow> run_request \<Rightarrow> message list \<Rightarrow> utext \<Rightarrow> usage \<Rightarrow> nat \<Rightarrow> string \<Rightarrow> verification_policy \<Rightarrow>
   (verification_decision \<times> message list) wop" where
  "evaluate_candidate eg d rq ms out u step span_id pol =
     bind (query (eg_env eg) (\<lambda>db. Inr (get_run (id_run d) db))) (\<lambda>run.
     case run of
       None \<Rightarrow> raise AssertionError
     | Some view \<Rightarrow>
         bind (ensure_ctx (id_run d)) (\<lambda>c.
         let attempt = rc_verification_attempt c in
         bind (new_id (eg_env eg)) (\<lambda>sp.
         bind (make_event (eg_env eg) view ET_verification_started
                 [(lit ''attempt'', VInt (int attempt)), (lit ''step'', VInt (int step)),
                  (lit ''validators'', VList (map (\<lambda>k. VStr (lit (kind_value (vc_kind k)))) (vp_validators pol))),
                  (lit ''max_retries'', VInt (int (vp_max_retries pol)))] (Some sp)) (\<lambda>ev.
         bind (emit_and_update (eg_env eg) (id_run d) no_update [ev\<lparr>ev_parent_span_id := Some span_id\<rparr>]) (\<lambda>_.
         bind (query (eg_env eg) (list_tool_invocations (en_load_result (eg_env eg)) (id_run d))) (\<lambda>invs.
         let ordinals = map ti_ordinal (filter (\<lambda>ti. ti_step ti = step) invs) in
         bind (evaluate_op eg d rq step u (candidate_of eg rq out step ms) pol attempt
                 \<lparr>co_messages = ms, co_commands = 0, co_ordinal = (if ordinals = [] then 0 else Suc (Max (set ordinals)))\<rparr>) (\<lambda>(dec, st).
         bind (announce_result eg view sp span_id attempt step dec) (\<lambda>_.
         ret (dec, co_messages st)))))))))"

section \<open>Charging the evaluators\<close>

text \<open>Every \<open>usage\<close> dict found in the evidence, outermost first.\<close>

fun visit_usage :: "pyval \<Rightarrow> pydict list" where
  "visit_usage (VDict d) =
     (case dict_get ''usage'' d of VDict u \<Rightarrow> [u] | _ \<Rightarrow> []) @ concat (map (\<lambda>(k, v). visit_usage v) d)"
| "visit_usage (VList vs) = concat (map visit_usage vs)"
| "visit_usage v = []"

text \<open>\<open>int(raw.get(key) or dflt)\<close> of a number; \<open>pyint\<close> of anything else may raise.\<close>

definition int_field :: "(pyval \<Rightarrow> py_error + int) \<Rightarrow> string \<Rightarrow> int \<Rightarrow> pydict \<Rightarrow> py_error + int" where
  "int_field pyint k dflt d =
     (case dict_get k d of
        VInt i \<Rightarrow> Inr (if i = 0 then dflt else i)
      | v \<Rightarrow> if truthy v then pyint v else Inr dflt)"

definition charge_one :: "(pyval \<Rightarrow> py_error + int) \<Rightarrow> pydict \<Rightarrow> usage \<Rightarrow> py_error + usage" where
  "charge_one pyint raw u =
     err_bind (int_field pyint ''input_tokens'' 0 raw) (\<lambda>i.
     err_bind (int_field pyint ''output_tokens'' 0 raw) (\<lambda>j.
     err_bind (int_field pyint ''total_tokens'' (i + j) raw) (\<lambda>t.
     err_bind (int_field pyint ''cached_input_tokens'' 0 raw) (\<lambda>c.
     Inr (u\<lparr>u_input_tokens := u_input_tokens u + i, u_output_tokens := u_output_tokens u + j,
            u_total_tokens := u_total_tokens u + t, u_cached_input_tokens := u_cached_input_tokens u + min c i\<rparr>)))))"

fun charge_all :: "(pyval \<Rightarrow> py_error + int) \<Rightarrow> pydict list \<Rightarrow> usage \<Rightarrow> py_error + usage" where
  "charge_all pyint [] u = Inr u"
| "charge_all pyint (d # ds) u = err_bind (charge_one pyint d u) (charge_all pyint ds)"

definition charge_verification_usage :: "(pyval \<Rightarrow> py_error + int) \<Rightarrow> verification_decision \<Rightarrow> usage \<Rightarrow> py_error + usage" where
  "charge_verification_usage pyint dec u = charge_all pyint (visit_usage (VDict (vd_evidence dec))) u"

end
