(* ===== verification/Run_Loop.thy ===== *)
theory Run_Loop
  imports Run_Verify
begin

text \<open>
  \<open>RunEngine._loop\<close> of \<open>src/src/agentharness/engine/runtime.py\<close>: guards, compaction, the model
  turn, the tools, verification and the ways a run ends. One pass of the \<open>while True\<close> is
  \<open>loop_pass\<close>, which ends the run or goes on with a new state; \<open>run_loop\<close> iterates it with fuel.
\<close>

section \<open>Compaction\<close>

definition emit_compaction :: "engine \<Rightarrow> run_view \<Rightarrow> nat \<Rightarrow> compaction_plan \<Rightarrow> pydict \<Rightarrow> unit wop" where
  "emit_compaction eg view step p payload =
     emit (eg_env eg) view None [(ET_context_compacted, dict_update
       [(lit ''step'', VInt (int step)), (lit ''tokens_before'', VInt (int (cp_live_tokens_before p))),
        (lit ''threshold_tokens'', VInt (cp_threshold_tokens p)), (lit ''messages_covered'', VInt (int (length (cp_cover_ids p)))),
        (lit ''groups_covered'', VInt (int (cp_groups_covered p)))] payload)]"

definition charge_summary :: "engine \<Rightarrow> run_request \<Rightarrow> utext \<Rightarrow> utext \<Rightarrow> usage \<Rightarrow> usage \<Rightarrow> usage" where
  "charge_summary eg rq transcript summary su u =
     (let b = billable_turn_usage su (int (estimate_tokens transcript)) summary 8
      in update_usage_cost (eg_round eg 10) (rq_pricing rq)
           (u\<lparr>u_input_tokens := u_input_tokens u + u_input_tokens b, u_output_tokens := u_output_tokens u + u_output_tokens b,
              u_total_tokens := u_total_tokens u + u_total_tokens b,
              u_cached_input_tokens := u_cached_input_tokens u + min (u_cached_input_tokens su) (u_input_tokens b),
              u_estimated := (u_estimated u \<or> u_estimated b)\<rparr>))"

text \<open>A summary that was obtained: the covered messages become an artifact and one pinned item.\<close>

definition apply_summary ::
  "engine \<Rightarrow> ids \<Rightarrow> run_request \<Rightarrow> run_view \<Rightarrow> nat \<Rightarrow> message list \<Rightarrow> string list \<Rightarrow> compaction_plan \<Rightarrow> context_state \<Rightarrow>
   utext \<Rightarrow> utext \<Rightarrow> usage \<Rightarrow> usage \<Rightarrow> usage wop" where
  "apply_summary eg d rq view step ms completed p state transcript summary su u =
     (let u' = charge_summary eg rq transcript summary su u
      in bind (planner_op eg (externalize_messages (eg_planner eg) (cp_cover_messages p))) (\<lambda>aid.
         let state' = apply_compaction (eg_planner eg) state summary (cp_cover_ids p) aid None in
         bind (set_ctx (id_run d) (\<lambda>c. c\<lparr>rc_context_state := Some state'\<rparr>)) (\<lambda>_.
         bind (emit_compaction eg view step p
           [(lit ''status'', VStr (lit ''applied'')), (lit ''summary_tokens'', VInt (int (estimate_tokens summary))),
            (lit ''artifact_id'', opt_string_val aid), (lit ''compaction_count'', VInt (int (cs_compaction_count state'))),
            (lit ''usage'', en_dump_usage (eg_env eg) (billable_turn_usage su (int (estimate_tokens transcript)) summary 8))]) (\<lambda>_.
         bind (write_checkpoint (eg_env eg) (id_run d) CP_model_turn step ms [] completed u' RS_running None) (\<lambda>_.
         ret u')))))"

definition skip_compaction :: "engine \<Rightarrow> run_view \<Rightarrow> nat \<Rightarrow> compaction_plan \<Rightarrow> utext \<Rightarrow> unit wop" where
  "skip_compaction eg view step p reason =
     emit_compaction eg view step p [(lit ''status'', VStr (lit ''skipped'')), (lit ''reason'', VStr reason)]"

definition compact_history ::
  "engine \<Rightarrow> ids \<Rightarrow> run_request \<Rightarrow> run_view \<Rightarrow> provider \<Rightarrow> nat \<Rightarrow> message list \<Rightarrow> string list \<Rightarrow> compaction_plan \<Rightarrow>
   context_state \<Rightarrow> usage \<Rightarrow> usage wop" where
  "compact_history eg d rq view pv step ms completed p state u =
     (let transcript = render_transcript (en_json (eg_env eg)) (eg_str_dict eg) (cp_cover_messages p)
            (summary_text (Some state)) (goal_of eg rq)
      in if b_max_tokens (rq_budget rq) \<le> u_total_tokens u + int (estimate_tokens transcript + 2048)
         then andthen (skip_compaction eg view step p (lit ''insufficient token budget'')) (ret u)
         else bind tick (\<lambda>n.
           case summarize_history (eg_summary eg pv (rq_model rq) transcript n) transcript of
             Inl e \<Rightarrow> andthen (skip_compaction eg view step p (err_text e)) (ret u)
           | Inr (summary, su) \<Rightarrow>
               bind (is_cancelled (eg_env eg)) (\<lambda>stop.
               if stop then ret u
               else apply_summary eg d rq view step ms completed p state transcript summary su u)))"

definition maybe_compact ::
  "engine \<Rightarrow> ids \<Rightarrow> run_request \<Rightarrow> message list \<Rightarrow> usage \<Rightarrow> nat \<Rightarrow> string list \<Rightarrow> usage wop" where
  "maybe_compact eg d rq ms u step completed =
     bind (is_cancelled (eg_env eg)) (\<lambda>stop.
     if stop then ret u
     else
       bind (ensure_ctx (id_run d)) (\<lambda>c.
       case plan_compaction (en_json (eg_env eg)) ms (rc_context_state c) (rq_budget rq) of
         None \<Rightarrow> ret u
       | Some p \<Rightarrow>
           bind (query (eg_env eg) (\<lambda>db. Inr (get_run (id_run d) db))) (\<lambda>run.
           case (run, eg_providers eg (rq_provider rq)) of
             (Some view, Some pv) \<Rightarrow>
               compact_history eg d rq view pv step ms completed p
                 (case rc_context_state c of Some s \<Rightarrow> s
                  | None \<Rightarrow> select_state (eg_planner eg) (eg_fs eg) (rq_cwd rq) (rq_extra_dirs rq) (rq_system rq) (rq_system rq)) u
           | _ \<Rightarrow> ret u)))"

section \<open>State of the loop\<close>

record loop_state =
  lp_messages :: "message list"
  lp_step :: nat
  lp_usage :: usage
  lp_completed :: "string list"
  lp_output :: "utext list"
  lp_length :: int

datatype turn_end = Ended run_result | Again loop_state

definition finish_run :: "engine \<Rightarrow> ids \<Rightarrow> run_status \<Rightarrow> loop_state \<Rightarrow> nat \<Rightarrow> utext option \<Rightarrow> turn_end wop" where
  "finish_run eg d status st steps err =
     bind (finish (eg_env eg) (id_run d) (id_session d) (id_root d) (id_parent d) status (concat (lp_output st))
             (lp_usage st) steps err (Some (lp_messages st))) (\<lambda>r. ret (Ended r))"

text \<open>The context holds the loop's own list of messages, so every append shows there.\<close>

definition sync_messages :: "ids \<Rightarrow> message list \<Rightarrow> unit wop" where
  "sync_messages d ms = set_ctx (id_run d) (\<lambda>c. c\<lparr>rc_messages := ms\<rparr>)"

definition cost_error :: "budget_config \<Rightarrow> usage \<Rightarrow> utext option" where
  "cost_error b u =
     (case b_max_cost_usd b of
        None \<Rightarrow> None
      | Some limit \<Rightarrow>
          (case u_estimated_cost_usd u of
             None \<Rightarrow> Some (lit ''max_cost_usd requires known input/output pricing'')
           | Some c \<Rightarrow> if limit \<le> c then Some (lit ''max_cost_usd exceeded'') else None))"

text \<open>The budget a pass stops at before it does anything.\<close>

definition guard_error :: "budget_config \<Rightarrow> loop_state \<Rightarrow> real \<Rightarrow> utext option" where
  "guard_error b st elapsed =
     (if b_max_steps b \<le> int (lp_step st) then Some (lit ''max_steps exceeded'')
      else if b_max_wall_time_s b < elapsed then Some (lit ''max_wall_time exceeded'')
      else if b_max_tokens b \<le> u_total_tokens (lp_usage st) then Some (lit ''max_tokens exceeded'')
      else case cost_error b (lp_usage st) of
          Some e \<Rightarrow> Some e
        | None \<Rightarrow> if b_max_output_length b \<le> lp_length st then Some (lit ''max_output_length exceeded'') else None)"

section \<open>Pauses\<close>

definition paused_result ::
  "engine \<Rightarrow> ids \<Rightarrow> run_status \<Rightarrow> loop_state \<Rightarrow> utext \<Rightarrow> run_result" where
  "paused_result eg d status st err =
     \<lparr>rr_run_id = id_run d, rr_session_id = id_session d, rr_status = status,
      rr_output = redact_text (en_redactor (eg_env eg)) (concat (lp_output st)), rr_error = Some err, rr_usage = lp_usage st,
      rr_steps = int (lp_step st), rr_parent_run_id = id_parent d, rr_root_run_id = Some (id_root d), rr_finished_at = None\<rparr>"

text \<open>The checkpoint and the stored status of a pause.\<close>

definition store_pause ::
  "engine \<Rightarrow> ids \<Rightarrow> checkpoint_phase \<Rightarrow> run_status \<Rightarrow> loop_state \<Rightarrow> utext \<Rightarrow> pydict \<Rightarrow> unit wop" where
  "store_pause eg d phase status st reason extra =
     bind (ensure_ctx (id_run d)) (\<lambda>c.
     bind (write_checkpoint (eg_env eg) (id_run d) phase (lp_step st) (lp_messages st) [] (rc_completed c) (lp_usage st) status None) (\<lambda>_.
     bind (query (eg_env eg) (\<lambda>db. Inr (get_run (id_run d) db))) (\<lambda>run.
     case run of
       None \<Rightarrow> ret ()
     | Some view \<Rightarrow>
         bind (make_event (eg_env eg) view ET_run_status
           ([(lit ''status'', VStr (lit (run_status_value status))), (lit ''reason'', VStr reason)] @ extra) None) (\<lambda>ev.
         bind (emit_and_update (eg_env eg) (id_run d) (no_update\<lparr>ru_status := Some status, ru_error := Some reason,
                 ru_output_summary := Some (take 2000 (concat (lp_output st))), ru_usage := Some (lp_usage st),
                 ru_steps := Some (int (lp_step st))\<rparr>) [ev]) (\<lambda>_.
         ret ())))))"

definition pause_status_of :: "tool_result \<Rightarrow> run_status" where
  "pause_status_of r = (case tr_pause_status r of Some PS_waiting_approval \<Rightarrow> RS_waiting_approval | _ \<Rightarrow> RS_require_human)"

definition pause_for_tool_result :: "engine \<Rightarrow> ids \<Rightarrow> loop_state \<Rightarrow> tool_result \<Rightarrow> turn_end wop" where
  "pause_for_tool_result eg d st r =
     (let status = pause_status_of r;
          reason = redact_text (en_redactor (eg_env eg)) (text_or (tr_pause_reason r) (tr_content r))
      in bind (store_pause eg d (if status = RS_waiting_approval then CP_waiting_approval else CP_model_turn) status st reason
                 [(lit ''source'', VStr (lit (tr_name r)))]) (\<lambda>_.
         ret (Ended (paused_result eg d status st reason))))"

definition failure_texts :: "verification_decision \<Rightarrow> utext" where
  "failure_texts dec = (if vd_failures dec = [] then [] else lit '': '' @ join (lit ''; '') (map vf_message (vd_failures dec)))"

definition pause_for_verification_human :: "engine \<Rightarrow> ids \<Rightarrow> loop_state \<Rightarrow> verification_decision \<Rightarrow> turn_end wop" where
  "pause_for_verification_human eg d st dec =
     (let reason = lit ''verification requires human review'' @ failure_texts dec
      in bind (store_pause eg d CP_model_turn RS_require_human st reason []) (\<lambda>_.
         ret (Ended (paused_result eg d RS_require_human st (redact_text (en_redactor (eg_env eg)) reason)))))"

section \<open>A candidate\<close>

definition over_after_verification :: "budget_config \<Rightarrow> usage \<Rightarrow> utext option" where
  "over_after_verification b u =
     (if b_max_tokens b < u_total_tokens u then Some (lit ''max_tokens exceeded during verification'')
      else case b_max_cost_usd b of
          None \<Rightarrow> None
        | Some limit \<Rightarrow>
            (case u_estimated_cost_usd u of
               None \<Rightarrow> Some (lit ''max_cost_usd exceeded during verification'')
             | Some c \<Rightarrow> if limit < c then Some (lit ''max_cost_usd exceeded during verification'') else None))"

definition retry_with_feedback :: "engine \<Rightarrow> ids \<Rightarrow> loop_state \<Rightarrow> message \<Rightarrow> turn_end wop" where
  "retry_with_feedback eg d st fb =
     (let ms = lp_messages st @ [fb]
      in bind (sync_messages d ms) (\<lambda>_.
         bind (store_message eg d fb (length ms)) (\<lambda>_.
         bind (set_ctx (id_run d) (\<lambda>c. c\<lparr>rc_verification_attempt := Suc (rc_verification_attempt c)\<rparr>)) (\<lambda>_.
         bind (write_checkpoint (eg_env eg) (id_run d) CP_model_turn (lp_step st) ms [] (lp_completed st) (lp_usage st) RS_running None) (\<lambda>_.
         ret (Again (st\<lparr>lp_messages := ms, lp_output := [], lp_length := 0\<rparr>)))))))"

text \<open>What a decision does to the run; \<open>lp_step st\<close> counts the turn that made the candidate.\<close>

definition act_on_decision :: "engine \<Rightarrow> ids \<Rightarrow> run_request \<Rightarrow> loop_state \<Rightarrow> verification_decision \<Rightarrow> turn_end wop" where
  "act_on_decision eg d rq st dec =
     (case over_after_verification (rq_budget rq) (lp_usage st) of
        Some e \<Rightarrow> finish_run eg d RS_failed st (lp_step st) (Some e)
      | None \<Rightarrow>
          (case (vd_action dec, vd_feedback_message dec) of
             (VA_retry, Some fb) \<Rightarrow> retry_with_feedback eg d st fb
           | (VA_require_human, _) \<Rightarrow> pause_for_verification_human eg d st dec
           | (VA_stop, _) \<Rightarrow> finish_run eg d RS_failed st (lp_step st) (Some (lit ''verification failed'' @ failure_texts dec))
           | _ \<Rightarrow> finish_run eg d RS_completed st (lp_step st) None))"

definition settle_candidate :: "engine \<Rightarrow> ids \<Rightarrow> run_request \<Rightarrow> string \<Rightarrow> loop_state \<Rightarrow> turn_end wop" where
  "settle_candidate eg d rq span_id st =
     bind (lift_err (verification_policy_of eg rq)) (\<lambda>po.
     case po of
       None \<Rightarrow> finish_run eg d RS_completed st (lp_step st) None
     | Some pol \<Rightarrow>
         bind (evaluate_candidate eg d rq (lp_messages st) (concat (lp_output st)) (lp_usage st) (lp_step st) span_id pol) (\<lambda>(dec, ms).
         bind (sync_messages d ms) (\<lambda>_.
         bind (lift_err (charge_verification_usage (eg_int eg) dec (lp_usage st))) (\<lambda>u.
         act_on_decision eg d rq
           (st\<lparr>lp_messages := ms, lp_usage := update_usage_cost (eg_round eg 10) (rq_pricing rq) u\<rparr>) dec))))"

section \<open>The model turn\<close>

definition announce_turn_end :: "engine \<Rightarrow> turn_env \<Rightarrow> nat \<Rightarrow> attempt_state \<Rightarrow> tool_call list \<Rightarrow> unit wop" where
  "announce_turn_end eg te step st calls =
     (let t = concat (ta_text (at_acc st))
      in emit (eg_env eg) (te_view te) (Some (te_span te))
        [(ET_model_turn_end, [(lit ''step'', VInt (int step)), (lit ''text_len'', VInt (int (length t))),
            (lit ''text'', VStr (take 4000 t)), (lit ''tool_calls'', VList (map (\<lambda>c. VStr (lit (tc_name c))) calls)),
            (lit ''usage'', en_dump_usage (eg_env eg) (shown_usage te st)),
            (lit ''provider'', VStr (lit (rq_provider (te_request te)))), (lit ''model'', opt_string_val (rq_model (te_request te))),
            (lit ''provider_attempts'', VInt (int (at_attempt st)))]),
         (ET_span_end, [(lit ''kind'', VStr (lit ''model'')), (lit ''step'', VInt (int step))])])"

text \<open>After the last attempt: the answer becomes a message, an output part, events and a checkpoint.\<close>

definition record_turn :: "engine \<Rightarrow> ids \<Rightarrow> turn_env \<Rightarrow> loop_state \<Rightarrow> attempt_state \<Rightarrow> (loop_state \<times> turn_acc) wop" where
  "record_turn eg d te st fin =
     bind (flush_delta (eg_env eg) (id_run d) (te_view te) (Some (te_span te))) (\<lambda>_.
     bind (new_id (eg_env eg)) (\<lambda>i. bind (read_clock (eg_env eg)) (\<lambda>now.
     let t = concat (ta_text (at_acc fin)); u = charge_turn eg te (lp_step st) fin;
         acc = within_budget (te_budget te) u (close_stream (at_acc fin)); calls = turn_calls acc;
         m = assistant_message i now t calls; ms = lp_messages st @ [m];
         st' = st\<lparr>lp_messages := ms, lp_usage := u, lp_output := lp_output st @ (if t = [] then [] else [t]),
                  lp_length := lp_length st + int (length t)\<rparr>
     in bind (sync_messages d ms) (\<lambda>_.
        bind (store_message eg d m (length ms)) (\<lambda>_.
        bind (announce_turn_end eg te (lp_step st) fin calls) (\<lambda>_.
        bind (write_checkpoint (eg_env eg) (id_run d) CP_model_turn (lp_step st) ms calls (lp_completed st) u RS_running None) (\<lambda>_.
        ret (st', acc))))))))"

text \<open>\<open>None\<close>: the attempts did not end within the fuel.\<close>

definition model_turn :: "engine \<Rightarrow> ids \<Rightarrow> run_request \<Rightarrow> loop_state \<Rightarrow> (loop_state \<times> turn_acc \<times> string) option wop" where
  "model_turn eg d rq st =
     bind (maybe_compact eg d rq (lp_messages st) (lp_usage st) (lp_step st) (lp_completed st)) (\<lambda>u.
     bind (query (eg_env eg) (\<lambda>db. Inr (get_run (id_run d) db))) (\<lambda>run.
     case run of
       None \<Rightarrow> raise AssertionError
     | Some view \<Rightarrow>
         bind (plan_context eg (id_run d) rq (lp_messages st) (lp_step st)) (\<lambda>bundle.
         bind (announce_turn eg view rq (lp_step st) bundle) (\<lambda>sp.
         let te = \<lparr>te_run_id = id_run d, te_session_id = id_session d, te_request = rq, te_view = view, te_span = sp,
                   te_bundle = bundle, te_output_length = lp_length st\<rparr>
         in bind (provider_loop (Suc (rt_max_retries (rq_retry rq))) eg te (first_attempt u)) (\<lambda>res.
            case res of
              None \<Rightarrow> ret None
            | Some fin \<Rightarrow> bind (record_turn eg d te st fin) (\<lambda>(st', acc). ret (Some (st', acc, sp))))))))"

definition error_status :: "string \<Rightarrow> string \<Rightarrow> run_status wop" where
  "error_status rid kind =
     (if kind \<in> {''cancelled'', ''interrupted''} then run_stop_status rid
      else ret (if kind = ''timeout'' then RS_interrupted else RS_failed))"

section \<open>The tools of a turn\<close>

definition final_outputs :: "tool_result list \<Rightarrow> utext list" where
  "final_outputs rs = concat (map (\<lambda>r. if tr_is_error r then [] else case nonempty_text (tr_final_output r) of None \<Rightarrow> [] | Some t \<Rightarrow> [t]) rs)"

definition pauses_of :: "tool_result list \<Rightarrow> tool_result list" where
  "pauses_of rs = filter (\<lambda>r. \<not> tr_is_error r \<and> tr_pause_status r \<noteq> None) rs"

definition settle_final_output :: "engine \<Rightarrow> ids \<Rightarrow> run_request \<Rightarrow> string \<Rightarrow> loop_state \<Rightarrow> utext \<Rightarrow> turn_end wop" where
  "settle_final_output eg d rq sp st raw =
     (let out = redact_text (en_redactor (eg_env eg)) raw; available = b_max_output_length (rq_budget rq) - lp_length st
      in if available < int (length out)
         then finish_run eg d RS_failed (st\<lparr>lp_output := lp_output st @ [take (nat available) out]\<rparr>) (lp_step st)
                (Some (lit ''max_output_length exceeded''))
         else settle_candidate eg d rq sp
                (st\<lparr>lp_output := lp_output st @ [out], lp_length := lp_length st + int (length out)\<rparr>))"

text \<open>What the results of a batch lead to; \<open>lp_step st\<close> counts the turn.\<close>

definition after_tools :: "engine \<Rightarrow> ids \<Rightarrow> run_request \<Rightarrow> string \<Rightarrow> loop_state \<Rightarrow> tool_result list \<Rightarrow> turn_end wop" where
  "after_tools eg d rq sp st rs =
     (let fail = (\<lambda>msg. finish_run eg d RS_failed st (lp_step st) (Some (lit msg)))
      in case pauses_of rs of
           r # others \<Rightarrow>
             if others \<noteq> [] \<or> length rs \<noteq> 1
             then fail ''a pause-requesting tool must be the only successful tool in its batch''
             else pause_for_tool_result eg d st r
         | [] \<Rightarrow>
             (case final_outputs rs of
                [] \<Rightarrow> if b_max_output_length (rq_budget rq) < lp_length st then fail ''max_output_length exceeded'' else ret (Again st)
              | out # others \<Rightarrow>
                  if list_ex tr_is_error rs
                  then if b_max_output_length (rq_budget rq) < lp_length st then fail ''max_output_length exceeded'' else ret (Again st)
                  else if others \<noteq> [] then fail ''multiple tools returned final output in one batch''
                  else settle_final_output eg d rq sp st out))"

definition run_tools :: "engine \<Rightarrow> ids \<Rightarrow> run_request \<Rightarrow> string \<Rightarrow> loop_state \<Rightarrow> tool_call list \<Rightarrow> turn_end wop" where
  "run_tools eg d rq sp st calls =
     bind (call_batch eg d rq (lp_step st) (lp_usage st) (lp_messages st) calls (lp_completed st)) (\<lambda>(rs, ms, completed).
     bind (sync_messages d ms) (\<lambda>_.
     bind (ensure_ctx (id_run d)) (\<lambda>c.
     let st' = st\<lparr>lp_messages := ms, lp_completed := completed, lp_step := Suc (lp_step st)\<rparr>
     in case nonempty_text (rc_indeterminate_reason c) of
          Some reason \<Rightarrow> finish_run eg d RS_require_human st' (lp_step st') (Some reason)
        | None \<Rightarrow> after_tools eg d rq sp st' rs)))"

section \<open>The loop\<close>

text \<open>A recorded turn: an error ends the run (an empty message is none), calls are run, text is settled.\<close>

definition after_turn :: "engine \<Rightarrow> ids \<Rightarrow> run_request \<Rightarrow> string \<Rightarrow> loop_state \<Rightarrow> turn_acc \<Rightarrow> turn_end wop" where
  "after_turn eg d rq sp st acc =
     (case ta_error acc of
        Some (c # msg, kind) \<Rightarrow>
          bind (error_status (id_run d) kind) (\<lambda>s. finish_run eg d s st (lp_step st) (Some (c # msg)))
      | _ \<Rightarrow>
          if turn_calls acc = [] then settle_candidate eg d rq sp (st\<lparr>lp_step := Suc (lp_step st)\<rparr>)
          else run_tools eg d rq sp st (turn_calls acc))"

definition loop_pass :: "engine \<Rightarrow> ids \<Rightarrow> run_request \<Rightarrow> real \<Rightarrow> loop_state \<Rightarrow> turn_end option wop" where
  "loop_pass eg d rq since st =
     bind (is_cancelled (eg_env eg)) (\<lambda>stop.
     if stop
     then bind (run_stop_status (id_run d)) (\<lambda>s.
            bind (finish_run eg d s st (lp_step st) (Some (lit (run_status_value s)))) (\<lambda>r. ret (Some r)))
     else
       bind (read_mono (eg_env eg)) (\<lambda>now.
       case guard_error (rq_budget rq) st (now - since) of
         Some e \<Rightarrow> bind (finish_run eg d RS_failed st (lp_step st) (Some e)) (\<lambda>r. ret (Some r))
       | None \<Rightarrow>
           bind (model_turn eg d rq st) (\<lambda>t.
           case t of
             None \<Rightarrow> ret None
           | Some (st', acc, sp) \<Rightarrow>
               bind (after_turn eg d rq sp st' acc) (\<lambda>r. ret (Some r)))))"

primrec run_loop :: "nat \<Rightarrow> engine \<Rightarrow> ids \<Rightarrow> run_request \<Rightarrow> real \<Rightarrow> loop_state \<Rightarrow> run_result option wop" where
  "run_loop 0 eg d rq since st = ret None"
| "run_loop (Suc fuel) eg d rq since st =
     bind (loop_pass eg d rq since st) (\<lambda>t.
     case t of
       None \<Rightarrow> ret None
     | Some (Ended r) \<Rightarrow> ret (Some r)
     | Some (Again st') \<Rightarrow> run_loop fuel eg d rq since st')"

text \<open>Passes that can happen before \<open>max_steps\<close> stops the run, and the one that stops it.\<close>

definition loop_fuel :: "run_request \<Rightarrow> nat \<Rightarrow> nat" where
  "loop_fuel rq step = Suc (nat (b_max_steps (rq_budget rq)) - step)"

definition engine_loop ::
  "engine \<Rightarrow> ids \<Rightarrow> run_request \<Rightarrow> message list \<Rightarrow> nat \<Rightarrow> usage \<Rightarrow> string list \<Rightarrow> run_result option wop" where
  "engine_loop eg d rq ms step u completed =
     bind (read_mono (eg_env eg)) (\<lambda>since.
     if eg_providers eg (rq_provider rq) = None
     then raise (RuntimeError (lit ''unknown provider: '' @ lit (rq_provider rq)))
     else bind (sync_messages d ms) (\<lambda>_.
       run_loop (loop_fuel rq step) eg d rq since
         \<lparr>lp_messages = ms, lp_step = step, lp_usage = update_usage_cost (eg_round eg 10) (rq_pricing rq) u,
          lp_completed = completed, lp_output = [], lp_length = 0\<rparr>))"

section \<open>A concrete engine\<close>

definition plain_item :: "stream_item_type \<Rightarrow> model_stream_item" where
  "plain_item ty = \<lparr>si_type = ty, si_text = None, si_tool_call_id = None, si_tool_name = None, si_arguments_delta = None,
     si_arguments = None, si_usage = None, si_error = None, si_error_kind = None, si_retry_after_s = None\<rparr>"

definition scripted :: "model_stream_item list \<Rightarrow> stream_stop \<Rightarrow> provider" where
  "scripted items en = \<lparr>pv_id = 1, pv_stream = (\<lambda>_ _. (items, en))\<rparr>"

text \<open>An engine whose one provider is \<open>p\<close>.\<close>

definition demo_engine :: "provider \<Rightarrow> engine" where
  "demo_engine p = \<lparr>eg_env = demo_env, eg_lower = id, eg_loads = (\<lambda>_. None), eg_float = (\<lambda>_. None), eg_round = (\<lambda>_ x. x),
     eg_random = (\<lambda>_. 1), eg_deadline = (\<lambda>_. False), eg_tools = [], eg_providers = (\<lambda>n. if n = ''p'' then Some p else None),
     eg_summary = (\<lambda>_ _ _ _. None), eg_planner = demo_planner, eg_fs = demo_fs, eg_str_dict = (\<lambda>_. []), eg_str = (\<lambda>_. []),
     eg_dump_manifest = (\<lambda>_. VNone), eg_dump_request = (\<lambda>_. []), eg_load_request = (\<lambda>_. Inr demo_request),
     eg_load_policy = (\<lambda>_. Inl AssertionError), eg_int = (\<lambda>_. Inr 0), eg_judge = (\<lambda>_ _ _. []), eg_verifier = demo_verifier,
     eg_lease = new_manager ''o'' 60 10, eg_roots = []\<rparr>"

definition demo_ids :: ids where
  "demo_ids = \<lparr>id_run = ''r'', id_session = ''s'', id_root = ''r'', id_parent = None\<rparr>"

end
