(* ===== verification/Run_Bounds.thy ===== *)
theory Run_Bounds
  imports Run_Loop
begin

text \<open>
  What bounds a run: the provider attempts of a turn, the passes of the loop, the steps and the
  output of the result. The fuel of the two loops is never used up.
\<close>

section \<open>The attempts of a turn\<close>

lemma open_stream_ok: "returns (\<lambda>a. text_ok te a \<and> calls_ok te a) (open_stream eg te p left)"
proof -
  have "text_ok te a \<and> calls_ok te a" if "consume_stream eg te items en new_turn w = (Inr a, w')" for items en w a w'
  proof -
    let ?n = "calls_count (te_run_id te) w"
    from triple_Inr [OF consume_stream_ok [of te ?n new_turn eg items en] turn_ok_new that]
    show ?thesis by (simp add: turn_ok_def)
  qed
  then show ?thesis
    unfolding open_stream_def by (intro returns_intros) (auto simp: returns_def split: prod.splits)
qed

text \<open>The attempts a loop adds: all but the last were silent and failed in a way worth retrying.\<close>

definition new_attempts :: "turn_env \<Rightarrow> nat \<Rightarrow> usage \<Rightarrow> usage \<Rightarrow> bool" where
  "new_attempts te n u u' \<longleftrightarrow> (\<exists>new. u_provider_attempts u' = u_provider_attempts u @ new \<and>
     length new + n \<le> Suc (Suc (rt_max_retries (rq_retry (te_request te)))) \<and>
     (\<forall>a \<in> set (butlast new). \<not> pa_had_output a \<and>
        (\<exists>k \<in> retryable_provider_errors. pa_error_kind a = Some k)))"

definition attempts_ok :: "turn_env \<Rightarrow> nat \<Rightarrow> usage \<Rightarrow> attempt_state option \<Rightarrow> bool" where
  "attempts_ok te n u r \<longleftrightarrow> (\<exists>st. r = Some st \<and> new_attempts te n u (at_usage st) \<and>
     text_ok te (at_acc st) \<and> calls_ok te (at_acc st))"

lemma attempt_record_replay:
  assumes "can_replay te n a"
  shows "\<not> pa_had_output (attempt_record eg te n a)"
    "\<exists>k \<in> retryable_provider_errors. pa_error_kind (attempt_record eg te n a) = Some k"
  using assms by (auto simp: can_replay_def attempt_record_def split: option.splits prod.splits)

lemma charge_attempt_attempts [simp]:
  "u_provider_attempts (charge_attempt eg te a u) = u_provider_attempts u"
  by (simp add: charge_attempt_def update_usage_cost_def Let_def split: prod.splits)

lemma new_attempts_none: "n \<le> Suc (Suc (rt_max_retries (rq_retry (te_request te)))) \<Longrightarrow> new_attempts te n u u"
  by (auto simp: new_attempts_def)

lemma after_attempt_sel [simp]:
  "at_acc (after_attempt eg te st a) = a" "at_attempt (after_attempt eg te st a) = at_attempt st"
  "u_provider_attempts (at_usage (after_attempt eg te st a)) =
     u_provider_attempts (at_usage st) @ [attempt_record eg te (at_attempt st) a]"
  by (simp_all add: after_attempt_def)

lemma new_attempts_one:
  "at_attempt st \<le> Suc (rt_max_retries (rq_retry (te_request te))) \<Longrightarrow>
   new_attempts te (at_attempt st) (at_usage st) (at_usage (after_attempt eg te st a))"
  by (auto simp: new_attempts_def intro!: exI [of _ "[attempt_record eg te (at_attempt st) a]"])

lemma retry_attempt_ok:
  "returns (\<lambda>st'. at_attempt st' = Suc (at_attempt st) \<and> at_acc st' = at_acc st \<and>
     u_provider_attempts (at_usage st') = u_provider_attempts (at_usage st)) (retry_attempt eg te st)"
  unfolding retry_attempt_def Let_def by (intro returns_intros) simp

lemma new_attempts_more:
  assumes "can_replay te n a" "new_attempts te (Suc n) u' u''"
    and "u_provider_attempts u' = u_provider_attempts u @ [attempt_record eg te n a]"
  shows "new_attempts te n u u''"
proof -
  from assms(2) obtain new where new: "u_provider_attempts u'' = u_provider_attempts u' @ new"
    "length new + Suc n \<le> Suc (Suc (rt_max_retries (rq_retry (te_request te))))"
    "\<forall>a \<in> set (butlast new). \<not> pa_had_output a \<and> (\<exists>k \<in> retryable_provider_errors. pa_error_kind a = Some k)"
    by (auto simp: new_attempts_def)
  with assms(3) attempt_record_replay [OF assms(1), of eg] show ?thesis
    unfolding new_attempts_def
    by (intro exI [of _ "attempt_record eg te n a # new"]) auto
qed

lemma text_ok_fail: "text_ok te a \<Longrightarrow> text_ok te (fail_turn m k a)"
  by (auto simp: text_ok_def fail_turn_def)

lemma calls_ok_fail: "calls_ok te a \<Longrightarrow> calls_ok te (fail_turn m k a)"
  by (simp add: calls_ok_def fail_turn_def)

text \<open>Enough fuel for the attempts that are left always gives a result.\<close>

lemma provider_loop_ok:
  assumes "Suc (rt_max_retries (rq_retry (te_request te))) < fuel + at_attempt st"
    and "at_attempt st \<le> Suc (rt_max_retries (rq_retry (te_request te)))"
    and "text_ok te (at_acc st)" "calls_ok te (at_acc st)"
  shows "returns (attempts_ok te (at_attempt st) (at_usage st)) (provider_loop fuel eg te st)"
  using assms
proof (induction fuel arbitrary: st)
  case (Suc fuel)
  let ?n = "at_attempt st"
  have again: "returns (attempts_ok te ?n (at_usage st)) (provider_loop fuel eg te st')"
    if "can_replay te ?n a" "at_attempt st' = Suc ?n" "text_ok te (at_acc st')" "calls_ok te (at_acc st')"
      "u_provider_attempts (at_usage st') = u_provider_attempts (at_usage st) @ [attempt_record eg te ?n a]" for a st'
  proof -
    from that(1) have "?n \<le> rt_max_retries (rq_retry (te_request te))" by (simp add: can_replay_def)
    with that Suc.prems(1) have "returns (attempts_ok te (at_attempt st') (at_usage st')) (provider_loop fuel eg te st')"
      by (intro Suc.IH) simp_all
    moreover have "attempts_ok te ?n (at_usage st) r" if "attempts_ok te (at_attempt st') (at_usage st') r" for r
      using that new_attempts_more [OF \<open>can_replay te ?n a\<close>, of "at_usage st'"] \<open>at_attempt st' = Suc ?n\<close>
        \<open>u_provider_attempts (at_usage st') = _\<close> by (auto simp: attempts_ok_def)
    ultimately show ?thesis by (auto simp: returns_def)
  qed
  have tried: "returns (attempts_ok te ?n (at_usage st))
      (if \<not> can_replay te ?n a then ret (Some (after_attempt eg te st a))
       else bind (retry_attempt eg te (after_attempt eg te st a)) (provider_loop fuel eg te))"
    if a: "text_ok te a \<and> calls_ok te a" for a
  proof (cases "can_replay te ?n a")
    case True
    with a show ?thesis
      by (auto intro!: returns_bind_returns [OF retry_attempt_ok] again [OF True])
  next
    case False
    with a Suc.prems(2) show ?thesis by (auto simp: attempts_ok_def new_attempts_one intro!: returns_ret)
  qed
  have early: "attempts_ok te ?n (at_usage st) (Some (st\<lparr>at_acc := fail_turn m k (at_acc st)\<rparr>))" for m k
    using Suc.prems by (simp add: attempts_ok_def new_attempts_none text_ok_fail calls_ok_fail)
  show ?case
    unfolding provider_loop.simps
    by (intro returns_option returns_raise returns_bind)
      (auto simp: early split: sum.splits intro!: returns_ret returns_bind_returns [OF open_stream_ok] tried)
qed simp

lemma first_attempt_ok:
  "returns (attempts_ok te 1 u) (provider_loop (Suc (rt_max_retries (rq_retry (te_request te)))) eg te (first_attempt u))"
  using provider_loop_ok [of te "Suc (rt_max_retries (rq_retry (te_request te)))" "first_attempt u" eg] turn_ok_new [of te 0]
  by (simp add: first_attempt_def turn_ok_def)

section \<open>One pass of the loop\<close>

definition out_ok :: "run_request \<Rightarrow> utext list \<Rightarrow> bool" where
  "out_ok rq parts \<longleftrightarrow> int (length (concat parts)) \<le> max 0 (b_max_output_length (rq_budget rq))"

definition state_ok :: "run_request \<Rightarrow> nat \<Rightarrow> nat \<Rightarrow> loop_state \<Rightarrow> bool" where
  "state_ok rq k n st \<longleftrightarrow> lp_step st = k \<and> length (u_provider_attempts (lp_usage st)) \<le> n \<and>
     lp_length st = int (length (concat (lp_output st))) \<and> out_ok rq (lp_output st)"

definition result_within :: "engine \<Rightarrow> run_request \<Rightarrow> nat \<Rightarrow> nat \<Rightarrow> run_result \<Rightarrow> bool" where
  "result_within eg rq k n r \<longleftrightarrow> rr_steps r \<le> int k \<and> length (u_provider_attempts (rr_usage r)) \<le> n \<and>
     (\<exists>parts. rr_output r = redact_text (en_redactor (eg_env eg)) (concat parts) \<and> out_ok rq parts)"

fun ends_within :: "engine \<Rightarrow> run_request \<Rightarrow> nat \<Rightarrow> nat \<Rightarrow> turn_end \<Rightarrow> bool" where
  "ends_within eg rq k n (Ended r) = result_within eg rq k n r"
| "ends_within eg rq k n (Again st) = state_ok rq k n st"

lemma finish_result:
  "returns (\<lambda>r. rr_status r = status \<and> rr_output r = redact_text (en_redactor env) out \<and> rr_usage r = u \<and>
     rr_steps r = int steps \<and> rr_error r = err) (finish env rid sid rt parent status out u steps err ms)"
  unfolding finish_def by (intro returns_intros) simp

lemma finish_run_within:
  assumes "steps \<le> k" "length (u_provider_attempts (lp_usage st)) \<le> n" "out_ok rq (lp_output st)"
  shows "returns (ends_within eg rq k n) (finish_run eg d status st steps err)"
  unfolding finish_run_def
  using assms by (intro returns_bind_returns [OF finish_result] returns_ret) (auto simp: result_within_def)

lemma finish_state_within:
  "state_ok rq k n st \<Longrightarrow> returns (ends_within eg rq k n) (finish_run eg d status st (lp_step st) err)"
  by (rule finish_run_within) (simp_all add: state_ok_def)

lemma paused_within:
  "state_ok rq k n st \<Longrightarrow> result_within eg rq k n (paused_result eg d status st err)"
  by (auto simp: state_ok_def result_within_def paused_result_def)

lemma attempts_update_cost [simp]: "u_provider_attempts (update_usage_cost r p u) = u_provider_attempts u"
  by (simp add: update_usage_cost_def Let_def)

lemma charge_one_attempts: "charge_one f raw u = Inr u' \<Longrightarrow> u_provider_attempts u' = u_provider_attempts u"
  by (auto simp: charge_one_def err_bind_eq_Inr)

lemma charge_all_attempts: "charge_all f raws u = Inr u' \<Longrightarrow> u_provider_attempts u' = u_provider_attempts u"
  by (induction raws arbitrary: u) (auto simp: err_bind_eq_Inr dest: charge_one_attempts)

lemma lift_err_returns: "(\<And>a. r = Inr a \<Longrightarrow> V a) \<Longrightarrow> returns V (lift_err r)"
  by (cases r) (simp_all add: lift_err_def returns_ret returns_raise)

lemma state_ok_messages [simp]: "state_ok rq k n (st\<lparr>lp_messages := ms\<rparr>) = state_ok rq k n st"
  "state_ok rq k n (st\<lparr>lp_completed := c\<rparr>) = state_ok rq k n st"
  by (simp_all add: state_ok_def)

lemma decision_within:
  assumes "state_ok rq k n st"
  shows "returns (ends_within eg rq k n) (act_on_decision eg d rq st dec)"
proof -
  have "returns (ends_within eg rq k n) (retry_with_feedback eg d st fb)" for fb
    unfolding retry_with_feedback_def Let_def
    by (intro returns_intros) (use assms in \<open>simp add: state_ok_def out_ok_def\<close>)
  moreover have "returns (ends_within eg rq k n) (pause_for_verification_human eg d st dec)"
    unfolding pause_for_verification_human_def Let_def
    by (intro returns_intros) (simp add: paused_within assms)
  ultimately show ?thesis
    unfolding act_on_decision_def
    by (auto intro: finish_state_within [OF assms] split: option.splits verification_action.splits)
qed

lemma settle_within:
  assumes "state_ok rq k n st"
  shows "returns (ends_within eg rq k n) (settle_candidate eg d rq sp st)"
proof -
  have "state_ok rq k n (st\<lparr>lp_messages := ms, lp_usage := update_usage_cost r p u\<rparr>)"
    if "charge_verification_usage f dec (lp_usage st) = Inr u" for f dec u ms r p
    using assms charge_all_attempts [OF that [unfolded charge_verification_usage_def]] by (simp add: state_ok_def)
  then show ?thesis
    unfolding settle_candidate_def
    by (intro returns_bind returns_option finish_state_within [OF assms] returns_prod
        returns_bind_returns [OF lift_err_returns [where V = "\<lambda>u. charge_verification_usage (eg_int eg) _ (lp_usage st) = Inr u"]])
      (auto intro: decision_within)
qed

section \<open>The model turn within its budgets\<close>

lemma maybe_compact_attempts:
  "returns (\<lambda>u'. u_provider_attempts u' = u_provider_attempts u) (maybe_compact eg d rq ms u step completed)"
proof -
  have "returns (\<lambda>u'. u_provider_attempts u' = u_provider_attempts u)
      (apply_summary eg d rq view step ms completed p state t s su u)" for view p state t s su
    unfolding apply_summary_def Let_def by (intro returns_intros) (simp add: charge_summary_def Let_def)
  then have "returns (\<lambda>u'. u_provider_attempts u' = u_provider_attempts u)
      (compact_history eg d rq view pv step ms completed p state u)" for view pv p state
    unfolding compact_history_def Let_def andthen_def
    by (auto split: sum.splits intro!: returns_intros)
  then show ?thesis
    unfolding maybe_compact_def by (auto split: option.splits intro!: returns_intros)
qed

lemma charge_turn_attempts [simp]:
  "u_provider_attempts (charge_turn eg te step st) = u_provider_attempts (at_usage st)"
  by (simp add: charge_turn_def Let_def)

lemma close_stream_text [simp]: "ta_text (within_budget b u (close_stream a)) = ta_text a"
  by (auto simp: within_budget_def close_stream_def fail_turn_def split: option.splits)

lemma record_turn_within:
  assumes st: "state_ok rq k n st" and fin: "text_ok te (at_acc fin)" "te_output_length te = lp_length st"
    "te_request te = rq" "length (u_provider_attempts (at_usage fin)) \<le> n'"
  shows "returns (\<lambda>(st', acc). state_ok rq k n' st') (record_turn eg d te st fin)"
proof -
  let ?t = "concat (ta_text (at_acc fin))"
  have "int (length (concat (lp_output st)) + length ?t) \<le> max 0 (b_max_output_length (rq_budget rq))"
  proof (cases "ta_text (at_acc fin) = []")
    case True
    with st show ?thesis by (simp add: state_ok_def out_ok_def)
  next
    case False
    with st fin show ?thesis by (simp add: state_ok_def text_ok_def te_budget_def)
  qed
  moreover have "concat (lp_output st @ (if ?t = [] then [] else [?t])) = concat (lp_output st) @ ?t" by simp
  ultimately show ?thesis
    unfolding record_turn_def Let_def
    by (intro returns_intros) (use st fin in \<open>auto simp: state_ok_def out_ok_def\<close>)
qed

lemma model_turn_within:
  assumes "state_ok rq k n st"
  shows "returns (\<lambda>t. \<exists>st' acc sp. t = Some (st', acc, sp) \<and> state_ok rq k (n + Suc (rt_max_retries (rq_retry rq))) st')
     (model_turn eg d rq st)"
proof -
  have step: "returns (\<lambda>t. \<exists>st' acc sp. t = Some (st', acc, sp) \<and> state_ok rq k (n + Suc (rt_max_retries (rq_retry rq))) st')
     (case res of None \<Rightarrow> ret None | Some fin \<Rightarrow> bind (record_turn eg d te st fin) (\<lambda>(st', acc). ret (Some (st', acc, sp))))"
    if "attempts_ok te 1 u res" "u_provider_attempts u = u_provider_attempts (lp_usage st)" "te_request te = rq"
      "te_output_length te = lp_length st" for u res te sp
  proof -
    from that(1) obtain fin where fin: "res = Some fin" "text_ok te (at_acc fin)" "new_attempts te 1 u (at_usage fin)"
      by (auto simp: attempts_ok_def)
    with that assms have "length (u_provider_attempts (at_usage fin)) \<le> n + Suc (rt_max_retries (rq_retry rq))"
      by (auto simp: new_attempts_def state_ok_def)
    from record_turn_within [OF assms fin(2) that(4,3) this] fin(1) show ?thesis
      by (auto intro!: returns_bind_returns returns_ret)
  qed
  have close: "returns (\<lambda>t. \<exists>st' acc sp. t = Some (st', acc, sp) \<and> state_ok rq k (n + Suc (rt_max_retries (rq_retry rq))) st')
      (bind (provider_loop (Suc (rt_max_retries (rq_retry rq))) eg te (first_attempt u))
        (\<lambda>res. case res of None \<Rightarrow> ret None
          | Some fin \<Rightarrow> bind (record_turn eg d te st fin) (\<lambda>(st', acc). ret (Some (st', acc, sp)))))"
    if "u_provider_attempts u = u_provider_attempts (lp_usage st)" "te_request te = rq" "te_output_length te = lp_length st"
    for u te sp
  proof -
    from that(2) have "returns (attempts_ok te 1 u) (provider_loop (Suc (rt_max_retries (rq_retry rq))) eg te (first_attempt u))"
      using first_attempt_ok [of te u eg] by simp
    then show ?thesis by (rule returns_bind_returns) (rule step [OF _ that])
  qed
  show ?thesis
    unfolding model_turn_def Let_def
    by (rule returns_bind_returns [OF maybe_compact_attempts], rule returns_bind, rule returns_option, rule returns_raise,
        rule returns_bind, rule returns_bind, rule close) simp_all
qed

section \<open>The whole loop\<close>

lemma run_tools_within:
  assumes st: "state_ok rq k n st"
  shows "returns (ends_within eg rq (Suc k) n) (run_tools eg d rq sp st calls)"
proof -
  have after: "returns (ends_within eg rq (Suc k) n) (after_tools eg d rq sp st' rs)" if st': "state_ok rq (Suc k) n st'" for st' rs
  proof -
    let ?out = "\<lambda>raw. redact_text (en_redactor (eg_env eg)) raw"
    have "returns (ends_within eg rq (Suc k) n) (settle_final_output eg d rq sp st' raw)" for raw
    proof -
      have "out_ok rq (lp_output st' @ [take (nat (b_max_output_length (rq_budget rq) - lp_length st')) (?out raw)])"
        using st' by (auto simp: state_ok_def out_ok_def min_def)
      then have "returns (ends_within eg rq (Suc k) n) (finish_run eg d RS_failed
          (st'\<lparr>lp_output := lp_output st' @ [take (nat (b_max_output_length (rq_budget rq) - lp_length st')) (?out raw)]\<rparr>) (lp_step st') err)" for err
        using st' by (intro finish_run_within) (simp_all add: state_ok_def)
      moreover have "state_ok rq (Suc k) n (st'\<lparr>lp_output := lp_output st' @ [?out raw], lp_length := lp_length st' + int (length (?out raw))\<rparr>)"
        if "\<not> b_max_output_length (rq_budget rq) - lp_length st' < int (length (?out raw))"
        using st' that by (auto simp: state_ok_def out_ok_def)
      ultimately show ?thesis
        unfolding settle_final_output_def Let_def by (intro returns_if settle_within)
    qed
    moreover have "returns (ends_within eg rq (Suc k) n) (pause_for_tool_result eg d st' r)" for r
      unfolding pause_for_tool_result_def Let_def by (intro returns_intros) (simp add: paused_within st')
    ultimately show ?thesis
      unfolding after_tools_def Let_def
      by (auto intro: finish_state_within [OF st'] simp: st' intro!: returns_ret split: list.splits)
  qed
  have st': "state_ok rq (Suc k) n (st\<lparr>lp_messages := ms, lp_completed := c, lp_step := Suc (lp_step st)\<rparr>)" for ms c
    using st by (simp add: state_ok_def)
  show ?thesis
    unfolding run_tools_def Let_def
    by (intro returns_bind returns_prod returns_option after st' finish_run_within)
      (use st in \<open>simp_all add: state_ok_def\<close>)
qed

lemma result_within_mono:
  assumes "result_within eg rq k n r" "k \<le> k'" "n \<le> n'"
  shows "result_within eg rq k' n' r"
proof -
  from assms(2) have "int k \<le> int k'" by simp
  with assms show ?thesis unfolding result_within_def by (meson order_trans)
qed

text \<open>A pass that goes on has used a step below the limit.\<close>

definition pass_ok :: "engine \<Rightarrow> run_request \<Rightarrow> nat \<Rightarrow> nat \<Rightarrow> turn_end option \<Rightarrow> bool" where
  "pass_ok eg rq k n t \<longleftrightarrow> (\<exists>e. t = Some e \<and>
     (if int k < b_max_steps (rq_budget rq) then ends_within eg rq (Suc k) (n + Suc (rt_max_retries (rq_retry rq))) e
      else \<exists>r. e = Ended r \<and> result_within eg rq k n r))"

lemma guard_max_steps: "guard_error b st x = None \<Longrightarrow> int (lp_step st) < b_max_steps b"
  by (auto simp: guard_error_def split: if_splits)

lemma finish_ended:
  "state_ok rq k n st \<Longrightarrow> returns (\<lambda>e. \<exists>r. e = Ended r \<and> result_within eg rq k n r) (finish_run eg d s st (lp_step st) err)"
  unfolding finish_run_def
  by (intro returns_bind_returns [OF finish_result] returns_ret) (auto simp: result_within_def state_ok_def)

lemma pass_ended: "result_within eg rq k n r \<Longrightarrow> pass_ok eg rq k n (Some (Ended r))"
  by (auto simp: pass_ok_def result_within_def)

lemma after_turn_within:
  assumes st: "state_ok rq k n st"
  shows "returns (ends_within eg rq (Suc k) n) (after_turn eg d rq sp st acc)"
proof -
  have "returns (ends_within eg rq (Suc k) n) (finish_run eg d s st (lp_step st) err)" for s err
    using st by (intro finish_run_within) (simp_all add: state_ok_def)
  moreover have "returns (ends_within eg rq (Suc k) n) (settle_candidate eg d rq sp (st\<lparr>lp_step := Suc (lp_step st)\<rparr>))"
    using st by (intro settle_within) (simp add: state_ok_def)
  moreover note run_tools_within [OF st, of eg d sp]
  ultimately show ?thesis
    unfolding after_turn_def by (auto split: option.splits list.splits intro: returns_bind)
qed

lemma loop_pass_ok:
  assumes st: "state_ok rq k n st"
  shows "returns (pass_ok eg rq k n) (loop_pass eg d rq since st)"
proof -
  let ?n = "n + Suc (rt_max_retries (rq_retry rq))"
  have stop: "returns (pass_ok eg rq k n) (bind (finish_run eg d s st (lp_step st) err) (\<lambda>r. ret (Some r)))" for s err
    by (rule returns_bind_returns [OF finish_ended [OF st]]) (auto intro: returns_ret pass_ended)
  have body: "returns (pass_ok eg rq k n) (case t of None \<Rightarrow> ret None
      | Some (st', acc, sp) \<Rightarrow> bind (after_turn eg d rq sp st' acc) (\<lambda>r. ret (Some r)))"
    if t: "\<exists>st' acc sp. t = Some (st', acc, sp) \<and> state_ok rq k ?n st'" and lim: "int k < b_max_steps (rq_budget rq)" for t
  proof -
    from t obtain st' acc sp where e: "t = Some (st', acc, sp)" "state_ok rq k ?n st'" by blast
    have "returns (pass_ok eg rq k n) (bind (after_turn eg d rq sp st' acc) (\<lambda>r. ret (Some r)))"
      by (rule returns_bind_returns [OF after_turn_within [OF e(2)]]) (use lim in \<open>auto intro!: returns_ret simp: pass_ok_def\<close>)
    with e(1) show ?thesis by simp
  qed
  have lim: "int k < b_max_steps (rq_budget rq)" if "guard_error (rq_budget rq) st x = None" for x
    using guard_max_steps [OF that] st by (simp add: state_ok_def)
  show ?thesis
    unfolding loop_pass_def
    by (rule returns_bind, rule returns_if, rule returns_bind, rule stop, rule returns_bind, rule returns_option,
        rule returns_bind_returns [OF model_turn_within [OF st]], rule body, assumption, erule lim, rule stop)
qed

lemma run_loop_ok:
  assumes "state_ok rq k n st" "nat (b_max_steps (rq_budget rq)) - k < fuel"
  shows "returns (\<lambda>r. \<exists>res. r = Some res \<and> result_within eg rq (max k (nat (b_max_steps (rq_budget rq))))
    (n + (nat (b_max_steps (rq_budget rq)) - k) * Suc (rt_max_retries (rq_retry rq))) res) (run_loop fuel eg d rq since st)"
  using assms
proof (induction fuel arbitrary: k n st)
  case (Suc fuel)
  let ?m = "nat (b_max_steps (rq_budget rq))" and ?a = "Suc (rt_max_retries (rq_retry rq))"
  have step: "returns (\<lambda>r. \<exists>res. r = Some res \<and> result_within eg rq (max k ?m) (n + (?m - k) * ?a) res)
     (case t of None \<Rightarrow> ret None | Some (Ended r) \<Rightarrow> ret (Some r) | Some (Again st') \<Rightarrow> run_loop fuel eg d rq since st')"
    if t: "pass_ok eg rq k n t" for t
  proof (cases "int k < b_max_steps (rq_budget rq)")
    case False
    with t obtain r where "t = Some (Ended r)" "result_within eg rq k n r" by (auto simp: pass_ok_def)
    moreover from this(2) have "result_within eg rq (max k ?m) (n + (?m - k) * ?a) r"
      by (rule result_within_mono) simp_all
    ultimately show ?thesis by (simp add: returns_ret)
  next
    case True
    then have m: "?m - k = Suc (?m - Suc k)" "max k ?m = ?m" "max (Suc k) ?m = ?m" by auto
    from t True obtain e where e: "t = Some e" "ends_within eg rq (Suc k) (n + ?a) e" by (auto simp: pass_ok_def)
    show ?thesis
    proof (cases e)
      case (Ended r)
      with e have "result_within eg rq (Suc k) (n + ?a) r" by simp
      then have "result_within eg rq (max k ?m) (n + (?m - k) * ?a) r"
        by (rule result_within_mono) (use True in simp, simp add: m(1))
      with e Ended show ?thesis by (simp add: returns_ret)
    next
      case (Again st')
      with e have "state_ok rq (Suc k) (n + ?a) st'" by simp
      moreover from Suc.prems(2) True have "?m - Suc k < fuel" by linarith
      ultimately have "returns (\<lambda>r. \<exists>res. r = Some res \<and> result_within eg rq (max (Suc k) ?m)
          (n + ?a + (?m - Suc k) * ?a) res) (run_loop fuel eg d rq since st')"
        by (rule Suc.IH)
      moreover have "n + ?a + (?m - Suc k) * ?a = n + (?m - k) * ?a" unfolding m(1) by simp
      ultimately show ?thesis by (simp only: m(2,3) e(1) Again option.case turn_end.case)
    qed
  qed
  show ?case
    unfolding run_loop.simps by (rule returns_bind_returns [OF loop_pass_ok [OF Suc.prems(1)]]) (rule step)
qed simp

end
