(* ===== verification/Run_Verified.thy ===== *)
theory Run_Verified
  imports Run_Bounds
begin

text \<open>
  The engine's evaluation refines \<open>VerificationLoop.evaluate\<close>, with the results its governed
  commands had as the command runner; so a run that completes under a verification policy met
  the condition of every validator.
\<close>

section \<open>Refinement\<close>

abbreviation candidate_cancelled :: "candidate \<Rightarrow> (nat \<Rightarrow> bool) \<Rightarrow> candidate" where
  "candidate_cancelled c flags \<equiv> c\<lparr>vn_cancelled := flags\<rparr>"

text \<open>What the evaluator check takes from the verifier does not depend on the command runner.\<close>

lemma evaluator_runner:
  fixes run run' eg c flags
  shows "read_verdict (engine_verifier eg run) = read_verdict (engine_verifier eg run')"
  "improvement_texts (engine_verifier eg run) = improvement_texts (engine_verifier eg run')"
  "judge_prompt (engine_verifier eg run) (candidate_cancelled c flags) = judge_prompt (engine_verifier eg run') c"
  "ve_resolver (engine_verifier eg run) = ve_resolver (engine_verifier eg run')"
  "ve_redactor (engine_verifier eg run) = ve_redactor (engine_verifier eg run')"
  "ve_str (engine_verifier eg run) = ve_str (engine_verifier eg run')"
  "ve_fmt3 (engine_verifier eg run) = ve_fmt3 (engine_verifier eg run')"
proof -
  have "ve_no_get (engine_verifier eg run) = ve_no_get (engine_verifier eg run')" by (simp add: engine_verifier_def)
  then have "py_get (engine_verifier eg run) = py_get (engine_verifier eg run')"
    by (simp add: fun_eq_iff py_get_def split: pyval.splits)
  moreover from this have "dimension_score (engine_verifier eg run) = dimension_score (engine_verifier eg run')"
    by (simp add: fun_eq_iff dimension_score_def)
  moreover have "ve_loads (engine_verifier eg run) = ve_loads (engine_verifier eg run')" by (simp add: engine_verifier_def)
  ultimately show "read_verdict (engine_verifier eg run) = read_verdict (engine_verifier eg run')"
    by (simp add: fun_eq_iff read_verdict_def)
qed (simp_all add: fun_eq_iff improvement_texts_def engine_verifier_def judge_prompt_def split: pyval.splits)

lemma run_check_runner:
  assumes "vc_kind k = VK_command \<Longrightarrow> text_or (vc_command k) [] \<noteq> [] \<Longrightarrow>
    run (text_or (vc_command k) []) = run' (text_or (vc_command k) [])"
  shows "run_check (engine_verifier eg run) (candidate_cancelled c flags) pol k = run_check (engine_verifier eg run') c pol k"
proof (cases "vc_kind k")
  case VK_command
  with assms show ?thesis
    by (cases "text_or (vc_command k) [] = []"; cases "tr_duration_ms (run' (text_or (vc_command k) []))")
      (simp_all add: run_check_def command_check_def engine_verifier_def Let_def)
next
  case VK_output
  have "output_reasons (engine_verifier eg run) (candidate_cancelled c flags) ls b = output_reasons (engine_verifier eg run') c ls b" for ls b
    by (cases ls rule: prod_cases4; cases b) (simp_all add: output_reasons_def engine_verifier_def Let_def)
  moreover have "raw_assertions (candidate_cancelled c flags) k = raw_assertions c k"
    "ve_redactor (engine_verifier eg run) = ve_redactor (engine_verifier eg run')"
    by (simp_all add: raw_assertions_def engine_verifier_def)
  ultimately have "output_check (engine_verifier eg run) (candidate_cancelled c flags) k = output_check (engine_verifier eg run') c k"
    by (cases "assertion_lists (raw_assertions c k)") (auto simp: output_check_def Let_def)
  with VK_output show ?thesis by (simp add: run_check_def)
next
  case VK_file
  then show ?thesis by (simp add: run_check_def file_check_def engine_verifier_def Let_def
        cong: option.case_cong sum.case_cong if_cong)
next
  case VK_ai
  moreover note evaluator_runner(1,2,4-7) [where eg = eg and run = run and run' = run']
    evaluator_runner(3) [where eg = eg and run = run and run' = run' and c = c and flags = flags]
  moreover have "vn_executor_provider (candidate_cancelled c flags) = vn_executor_provider c"
    "vn_executor_adapter (candidate_cancelled c flags) = vn_executor_adapter c" by simp_all
  ultimately have "ai_check (engine_verifier eg run) (candidate_cancelled c flags) pol k = ai_check (engine_verifier eg run') c pol k"
    unfolding ai_check_def by (simp only:)
  with VK_ai show ?thesis by (simp add: run_check_def)
qed

text \<open>The commands of the validators; a policy that repeats one may see two results for it.\<close>

definition command_texts :: "verification_check list \<Rightarrow> utext list" where
  "command_texts ks = map (\<lambda>k. text_or (vc_command k) [])
     (filter (\<lambda>k. vc_kind k = VK_command \<and> text_or (vc_command k) [] \<noteq> []) ks)"

lemma run_checks_cong:
  assumes "\<And>t. t \<in> set (command_texts ks) \<Longrightarrow> run t = run' t"
  shows "run_checks (engine_verifier eg run) c pol i ks = run_checks (engine_verifier eg run') c pol i ks"
  using assms
proof (induction ks arbitrary: i)
  case (Cons k ks)
  have "run_check (engine_verifier eg run) c pol k = run_check (engine_verifier eg run') c pol k"
    using run_check_runner [of k run run' eg "vn_cancelled c" c pol] Cons.prems by (auto simp: command_texts_def)
  moreover have "run_checks (engine_verifier eg run) c pol j ks = run_checks (engine_verifier eg run') c pol j ks" for j
    using Cons by (auto simp: command_texts_def)
  moreover have "ve_redactor (engine_verifier eg run) = ve_redactor (engine_verifier eg run')" by (simp add: engine_verifier_def)
  ultimately show ?case by simp
qed simp

lemma lift_err_Inr: "lift_err r w = (Inr a, w') \<longleftrightarrow> r = Inr a \<and> w' = w"
  by (cases r) (auto simp: lift_err_def ret_def raise_def)

text \<open>The result \<open>run\<close> has for a command is one a governed command returned.\<close>

definition governed_result ::
  "engine \<Rightarrow> ids \<Rightarrow> run_request \<Rightarrow> nat \<Rightarrow> usage \<Rightarrow> (utext \<Rightarrow> tool_result) \<Rightarrow> utext \<Rightarrow> bool" where
  "governed_result eg d rq step u run t \<longleftrightarrow>
     (\<exists>st w st' w'. governed_command eg d rq step u t st w = (Inr (run t, st'), w'))"

text \<open>Unless the cancellation was seen, every command was run.\<close>

definition runner_ok ::
  "engine \<Rightarrow> ids \<Rightarrow> run_request \<Rightarrow> nat \<Rightarrow> usage \<Rightarrow> nat \<Rightarrow> verification_check list \<Rightarrow> (utext \<Rightarrow> tool_result) \<Rightarrow>
   (nat \<Rightarrow> bool) \<Rightarrow> bool" where
  "runner_ok eg d rq step u i ks run flags \<longleftrightarrow> (\<forall>j \<le> i. \<not> flags j) \<and>
     ((\<exists>j \<le> i + length ks. flags j) \<or> (\<forall>t \<in> set (command_texts ks). governed_result eg d rq step u run t))"

lemma checks_op_refines:
  assumes "checks_op eg d rq step u c pol i ks st w = (Inr (fs, evs, st'), w')" "distinct (command_texts ks)"
  shows "\<exists>run flags. runner_ok eg d rq step u i ks run flags \<and>
    run_checks (engine_verifier eg run) (candidate_cancelled c flags) pol i ks = Inr (fs, evs)"
  using assms
proof (induction ks arbitrary: i st w fs evs w')
  case Nil
  then show ?case by (auto simp: ret_def runner_ok_def command_texts_def intro!: exI [of _ "\<lambda>_. False"])
next
  case (Cons k ks)
  let ?cmd = "text_or (vc_command k) []"
  from Cons.prems(1) obtain stop w1 where w1: "is_cancelled (eg_env eg) w = (Inr stop, w1)"
    by (auto simp: bind_Inr)
  show ?case
  proof (cases stop)
    case True
    with Cons.prems(1) w1 have "fs = [cancelled_failure]" "evs = []" by (auto simp: bind_def ret_def)
    then show ?thesis by (auto simp: runner_ok_def intro!: exI [of _ "\<lambda>j. j = Suc i"])
  next
    case False
    with Cons.prems(1) w1 obtain f ev st1 w2 gs evs1 w3 where
      chk: "check_op eg d rq step u c pol k st w1 = (Inr ((f, ev), st1), w2)" and
      rest: "checks_op eg d rq step u c pol (Suc i) ks st1 w2 = (Inr (gs, evs1, st'), w3)" and
      out: "fs = (case f of None \<Rightarrow> [] | Some x \<Rightarrow> [x]) @ gs"
        "evs = (evidence_key i k, redact_obj (en_redactor (eg_env eg)) (VDict ev)) # evs1"
      by (auto simp: bind_Inr ret_def split: prod.splits)
    from Cons.prems(2) have "distinct (command_texts ks)" by (auto simp: command_texts_def split: if_splits)
    from Cons.IH [OF rest this] obtain run flags where
      ih: "runner_ok eg d rq step u (Suc i) ks run flags" "run_checks (engine_verifier eg run) (candidate_cancelled c flags) pol (Suc i) ks = Inr (gs, evs1)"
      by blast
    from chk obtain r where r: "run_check (engine_verifier eg (\<lambda>_. r)) c pol k = Inr (f, ev)"
      "vc_kind k = VK_command \<and> ?cmd \<noteq> [] \<Longrightarrow> governed_result eg d rq step u (\<lambda>_. r) ?cmd"
      by (fastforce simp: check_op_def governed_result_def Let_def bind_Inr lift_err_Inr ret_def split: prod.splits)
    have fresh: "vc_kind k = VK_command \<and> ?cmd \<noteq> [] \<Longrightarrow> ?cmd \<notin> set (command_texts ks)"
      using Cons.prems(2) by (simp add: command_texts_def)
    define run' where "run' = (if vc_kind k = VK_command \<and> ?cmd \<noteq> [] then run(?cmd := r) else run)"
    have "run_check (engine_verifier eg run') (candidate_cancelled c flags) pol k = Inr (f, ev)"
      using run_check_runner [of k run' "\<lambda>_. r" eg flags c pol] r by (simp add: run'_def)
    moreover have "run_checks (engine_verifier eg run') (candidate_cancelled c flags) pol (Suc i) ks = Inr (gs, evs1)"
      unfolding ih(2) [symmetric] by (rule run_checks_cong) (use fresh in \<open>auto simp: run'_def\<close>)
    moreover have "ve_redactor (engine_verifier eg run') = en_redactor (eg_env eg)" by (simp add: engine_verifier_def)
    ultimately have "run_checks (engine_verifier eg run') (candidate_cancelled c flags) pol i (k # ks) = Inr (fs, evs)"
      using ih(1) out by (simp add: runner_ok_def)
    moreover have "runner_ok eg d rq step u i (k # ks) run' flags"
      using ih(1) r(2) fresh by (auto simp: runner_ok_def run'_def governed_result_def command_texts_def)
    ultimately show ?thesis by blast
  qed
qed

lemma decision_of_evaluate:
  assumes "\<not> vn_cancelled c 0" "run_checks ve c pol 0 (vp_validators pol) = Inr (fs, ev)"
  shows "evaluate ve fresh now c pol attempt = Inr (decision_of ve fresh now c pol attempt fs ev)"
  using assms by (simp add: evaluate_def decision_of_def Let_def)

lemma decision_of_runner:
  "decision_of (engine_verifier eg run) fresh now (candidate_cancelled c flags) pol attempt fs ev =
   decision_of (engine_verifier eg run') fresh now c pol attempt fs ev"
  by (simp add: decision_of_def engine_verifier_def feedback_text_def Let_def)

lemma evaluate_op_runner:
  assumes "evaluate_op eg d rq step u c pol attempt st w = (Inr (dec, st'), w')"
    and "distinct (command_texts (vp_validators pol))"
  shows "\<exists>run flags fresh now.
    evaluate (engine_verifier eg run) fresh now (candidate_cancelled c flags) pol attempt = Inr dec \<and>
    ((\<exists>j \<le> length (vp_validators pol). flags j) \<or>
     (\<forall>t \<in> set (command_texts (vp_validators pol)). governed_result eg d rq step u run t))"
proof -
  from assms(1) obtain stop w1 where w1: "is_cancelled (eg_env eg) w = (Inr stop, w1)"
    by (auto simp: evaluate_op_def bind_Inr)
  show ?thesis
  proof (cases stop)
    case True
    with assms(1) w1 have "dec = \<lparr>vd_action = VA_stop, vd_feedback = None, vd_feedback_message = None,
        vd_failures = [cancelled_failure], vd_attempt = attempt, vd_evidence = []\<rparr>"
      by (auto simp: evaluate_op_def bind_def ret_def)
    then show ?thesis by (auto simp: evaluate_def intro!: exI [of _ "\<lambda>_. True"])
  next
    case False
    with assms(1) w1 obtain fs ev st1 w2 fresh now where
      chk: "checks_op eg d rq step u c pol 0 (vp_validators pol) st w1 = (Inr (fs, ev, st1), w2)" and
      dec: "dec = decision_of (engine_verifier eg (\<lambda>_. new_tool_result '''' '''' [])) fresh now c pol attempt fs ev"
      by (auto simp: evaluate_op_def bind_Inr ret_def split: prod.splits)
    from checks_op_refines [OF chk assms(2)] obtain run flags where
      r: "runner_ok eg d rq step u 0 (vp_validators pol) run flags"
        "run_checks (engine_verifier eg run) (candidate_cancelled c flags) pol 0 (vp_validators pol) = Inr (fs, ev)"
      by blast
    have "evaluate (engine_verifier eg run) fresh now (candidate_cancelled c flags) pol attempt = Inr dec"
      using decision_of_evaluate [OF _ r(2), of fresh now attempt] r(1) decision_of_runner [of eg run] dec
      by (simp add: runner_ok_def)
    with r(1) show ?thesis by (auto simp: runner_ok_def)
  qed
qed

section \<open>Completion is verified\<close>

text \<open>Some candidate with the given output meets the condition of every validator of \<open>pol\<close>.\<close>

definition meets_policy :: "engine \<Rightarrow> ids \<Rightarrow> run_request \<Rightarrow> verification_policy \<Rightarrow> utext \<Rightarrow> bool" where
  "meets_policy eg d rq pol out \<longleftrightarrow> (\<exists>step ms u flags run.
     (\<forall>t \<in> set (command_texts (vp_validators pol)). governed_result eg d rq step u run t) \<and>
     (\<forall>k \<in> set (vp_validators pol).
        check_holds (engine_verifier eg run) (candidate_cancelled (candidate_of eg rq out step ms) flags) pol k))"

definition decision_sound :: "engine \<Rightarrow> ids \<Rightarrow> run_request \<Rightarrow> verification_policy \<Rightarrow> utext \<Rightarrow> verification_decision \<Rightarrow> bool" where
  "decision_sound eg d rq pol out dec \<longleftrightarrow> (vd_action dec = VA_retry \<longrightarrow> vd_feedback_message dec \<noteq> None) \<and>
     (vd_action dec = VA_pass \<longrightarrow> meets_policy eg d rq pol out)"

lemma evaluate_pass_or_retry:
  assumes "evaluate ve fresh now c pol attempt = Inr d"
  shows "vd_action d = VA_retry \<Longrightarrow> vd_feedback_message d \<noteq> None"
    "vd_action d = VA_pass \<Longrightarrow> (\<forall>i \<le> length (vp_validators pol). \<not> vn_cancelled c i) \<and>
       (\<forall>k \<in> set (vp_validators pol). check_holds ve c pol k)"
proof -
  show "vd_feedback_message d \<noteq> None" if "vd_action d = VA_retry"
    using assms that by (auto simp: evaluate_def err_bind_eq_Inr Let_def decide_action_def split: if_splits)
  show "(\<forall>i \<le> length (vp_validators pol). \<not> vn_cancelled c i) \<and> (\<forall>k \<in> set (vp_validators pol). check_holds ve c pol k)"
    if pass: "vd_action d = VA_pass"
  proof (cases "vn_cancelled c 0")
    case True
    with assms pass show ?thesis by (auto simp: evaluate_def)
  next
    case False
    from evaluate_cases [OF assms False] obtain fs ev where
      r: "run_checks ve c pol 0 (vp_validators pol) = Inr (fs, ev)" "vd_action d = decide_action pol attempt fs" .
    with pass have "fs = []" by (auto simp: decide_action_def split: if_splits)
    moreover have "\<not> vn_cancelled c i" if "\<forall>j < n. \<not> vn_cancelled c (Suc j)" "i \<le> n" for i n
      using that False by (cases i) auto
    ultimately show ?thesis using run_checks_decides [OF r(1)] by (auto simp: all_set_conv_all_nth)
  qed
qed

lemma evaluate_op_sound:
  assumes "distinct (command_texts (vp_validators pol))"
  shows "returns (\<lambda>(dec, st'). decision_sound eg d rq pol out dec)
    (evaluate_op eg d rq step u (candidate_of eg rq out step ms) pol attempt st)"
  unfolding returns_def
proof (intro allI impI)
  fix w r w'
  assume e: "evaluate_op eg d rq step u (candidate_of eg rq out step ms) pol attempt st w = (Inr r, w')"
  obtain dec st' where r: "r = (dec, st')" by fastforce
  from evaluate_op_runner [OF e [unfolded r] assms] obtain run flags fresh now where
    ev: "evaluate (engine_verifier eg run) fresh now (candidate_cancelled (candidate_of eg rq out step ms) flags) pol attempt = Inr dec"
    and ran: "(\<exists>j \<le> length (vp_validators pol). flags j) \<or>
      (\<forall>t \<in> set (command_texts (vp_validators pol)). governed_result eg d rq step u run t)"
    by blast
  from evaluate_pass_or_retry(2) [OF ev] ran have "vd_action dec = VA_pass \<Longrightarrow> meets_policy eg d rq pol out"
    unfolding meets_policy_def by (simp, blast)
  with evaluate_pass_or_retry(1) [OF ev] have "decision_sound eg d rq pol out dec"
    unfolding decision_sound_def by blast
  then show "case r of (dec, st') \<Rightarrow> decision_sound eg d rq pol out dec" by (simp add: r)
qed

lemma evaluate_candidate_sound:
  assumes "distinct (command_texts (vp_validators pol))"
  shows "returns (\<lambda>(dec, ms'). decision_sound eg d rq pol out dec) (evaluate_candidate eg d rq ms out u step sp pol)"
  unfolding evaluate_candidate_def Let_def
  by (intro returns_intros returns_bind_returns [OF evaluate_op_sound [OF assms]]) auto

text \<open>What is to be shown of every way a pass ends.\<close>

fun completes_verified :: "engine \<Rightarrow> ids \<Rightarrow> run_request \<Rightarrow> verification_policy \<Rightarrow> turn_end \<Rightarrow> bool" where
  "completes_verified eg d rq pol (Ended r) \<longleftrightarrow> (rr_status r = RS_completed \<longrightarrow>
     (\<exists>out. rr_output r = redact_text (en_redactor (eg_env eg)) out \<and> meets_policy eg d rq pol out))"
| "completes_verified eg d rq pol (Again st) \<longleftrightarrow> True"

lemma finish_run_verified:
  assumes "status = RS_completed \<Longrightarrow> meets_policy eg d rq pol (concat (lp_output st))"
  shows "returns (completes_verified eg d rq pol) (finish_run eg d status st steps err)"
  unfolding finish_run_def
  using assms by (intro returns_bind_returns [OF finish_result] returns_ret) auto

lemma act_on_decision_verified:
  assumes "decision_sound eg d rq pol (concat (lp_output st)) dec"
  shows "returns (completes_verified eg d rq pol) (act_on_decision eg d rq st dec)"
proof -
  have "returns (completes_verified eg d rq pol) (retry_with_feedback eg d st fb)" for fb
    unfolding retry_with_feedback_def Let_def by (intro returns_intros) simp
  moreover have "returns (completes_verified eg d rq pol) (pause_for_verification_human eg d st dec)"
    unfolding pause_for_verification_human_def Let_def
    by (intro returns_intros) (simp add: paused_result_def)
  ultimately show ?thesis
    using assms unfolding act_on_decision_def decision_sound_def
    by (auto intro: finish_run_verified split: option.splits verification_action.splits)
qed

lemma lift_err_simps [simp]: "lift_err (Inr a) = ret a" "lift_err (Inl e) = raise e"
  by (simp_all add: lift_err_def)

lemma settle_verified:
  assumes pol: "verification_policy_of eg rq = Inr (Some pol)" "distinct (command_texts (vp_validators pol))"
  shows "returns (completes_verified eg d rq pol) (settle_candidate eg d rq sp st)"
proof -
  have act: "returns (completes_verified eg d rq pol) (act_on_decision eg d rq (st\<lparr>lp_messages := ms, lp_usage := u\<rparr>) dec)"
    if "decision_sound eg d rq pol (concat (lp_output st)) dec" for ms u dec
    by (rule act_on_decision_verified) (simp add: that)
  show ?thesis
    unfolding settle_candidate_def pol(1)
    by (simp, rule returns_bind_returns [OF evaluate_candidate_sound [OF pol(2)]]) (auto intro!: returns_bind act)
qed

lemma run_tools_verified:
  assumes pol: "verification_policy_of eg rq = Inr (Some pol)" "distinct (command_texts (vp_validators pol))"
  shows "returns (completes_verified eg d rq pol) (run_tools eg d rq sp st calls)"
proof -
  have fail: "returns (completes_verified eg d rq pol) (finish_run eg d RS_failed st' steps err)"
    "returns (completes_verified eg d rq pol) (finish_run eg d RS_require_human st' steps err)" for st' steps err
    by (auto intro: finish_run_verified)
  have "returns (completes_verified eg d rq pol) (settle_final_output eg d rq sp st' raw)" for st' raw
    unfolding settle_final_output_def Let_def by (intro returns_if fail settle_verified pol)
  moreover have "returns (completes_verified eg d rq pol) (pause_for_tool_result eg d st' r)" for st' r
    unfolding pause_for_tool_result_def Let_def
    by (intro returns_intros) (simp add: paused_result_def pause_status_of_def split: option.splits pause_status.splits)
  moreover have "returns (completes_verified eg d rq pol) (ret (Again st'))" for st' by (rule returns_ret) simp
  ultimately have "returns (completes_verified eg d rq pol) (after_tools eg d rq sp st' rs)" for st' rs
    unfolding after_tools_def Let_def by (auto intro: fail split: list.splits)
  with fail show ?thesis
    unfolding run_tools_def Let_def by (auto intro!: returns_bind returns_prod returns_option)
qed

lemma stop_status_not_completed: "returns (\<lambda>s. s \<noteq> RS_completed) (run_stop_status rid)"
  unfolding run_stop_status_def returns_def by (auto simp: get_with_def split: option.splits)

lemma after_turn_verified:
  assumes pol: "verification_policy_of eg rq = Inr (Some pol)" "distinct (command_texts (vp_validators pol))"
  shows "returns (completes_verified eg d rq pol) (after_turn eg d rq sp st acc)"
proof -
  have status: "returns (\<lambda>s. s \<noteq> RS_completed) (error_status rid kind)" for rid kind
    unfolding error_status_def by (auto intro!: stop_status_not_completed returns_ret)
  have "returns (completes_verified eg d rq pol) (finish_run eg d s st' steps err)" if "s \<noteq> RS_completed" for s st' steps err
    using that by (intro finish_run_verified) simp
  then show ?thesis
    using settle_verified [OF pol, of d sp] run_tools_verified [OF pol, of d sp]
    unfolding after_turn_def
    by (auto split: option.splits list.splits intro!: returns_bind_returns [OF status])
qed

lemma loop_pass_verified:
  assumes pol: "verification_policy_of eg rq = Inr (Some pol)" "distinct (command_texts (vp_validators pol))"
  shows "returns (\<lambda>t. \<forall>e. t = Some e \<longrightarrow> completes_verified eg d rq pol e) (loop_pass eg d rq since st)"
proof -
  have wrap: "returns (\<lambda>t. \<forall>e. t = Some e \<longrightarrow> completes_verified eg d rq pol e) (bind m (\<lambda>r. ret (Some r)))"
    if "returns (completes_verified eg d rq pol) m" for m :: "turn_end wop"
    by (rule returns_bind_returns [OF that]) (simp add: returns_ret)
  have stop: "returns (completes_verified eg d rq pol) (finish_run eg d s st (lp_step st) err)" if "s \<noteq> RS_completed" for s err
    using that by (intro finish_run_verified) simp
  show ?thesis
    unfolding loop_pass_def
    by (intro returns_bind returns_if returns_option returns_prod returns_bind_returns [OF stop_status_not_completed] wrap
        stop after_turn_verified pol returns_ret) simp_all
qed

lemma run_loop_verified:
  assumes pol: "verification_policy_of eg rq = Inr (Some pol)" "distinct (command_texts (vp_validators pol))"
  shows "returns (\<lambda>r. \<forall>res. r = Some res \<longrightarrow> completes_verified eg d rq pol (Ended res)) (run_loop fuel eg d rq since st)"
proof (induction fuel arbitrary: st)
  case (Suc fuel)
  then show ?case
    unfolding run_loop.simps
    by (intro returns_bind_returns [OF loop_pass_verified [OF pol]])
      (auto split: option.splits turn_end.splits intro!: returns_ret)
qed (simp add: returns_ret)

end
