(* ===== verification/Run_Calm.thy ===== *)
theory Run_Calm
  imports Run_Verified
begin

text \<open>
  Total triples: an operation returns, and what holds then. In an environment without crashes and
  cancellation the operations on the store, the events and the contexts all return.
\<close>

section \<open>Operations that return\<close>

definition succeeds :: "(world \<Rightarrow> bool) \<Rightarrow> 'a wop \<Rightarrow> ('a \<Rightarrow> world \<Rightarrow> bool) \<Rightarrow> bool" where
  "succeeds P m Q \<longleftrightarrow> (\<forall>w. P w \<longrightarrow> (\<exists>a w'. m w = (Inr a, w') \<and> Q a w'))"

lemma succeedsI: "(\<And>w. P w \<Longrightarrow> \<exists>a w'. m w = (Inr a, w') \<and> Q a w') \<Longrightarrow> succeeds P m Q"
  by (simp add: succeeds_def)

lemma succeedsE:
  assumes "succeeds P m Q" "P w"
  obtains a w' where "m w = (Inr a, w')" "Q a w'"
  using assms by (auto simp: succeeds_def)

lemma succeeds_bind: "succeeds P m R \<Longrightarrow> (\<And>a. succeeds (R a) (f a) Q) \<Longrightarrow> succeeds P (bind m f) Q"
  unfolding succeeds_def bind_def by fastforce

lemma succeeds_post: "succeeds P m Q \<Longrightarrow> (\<And>a w. Q a w \<Longrightarrow> Q' a w) \<Longrightarrow> succeeds P m Q'"
  unfolding succeeds_def by blast

lemma succeeds_pre: "succeeds P m Q \<Longrightarrow> (\<And>w. P' w \<Longrightarrow> P w) \<Longrightarrow> succeeds P' m Q"
  unfolding succeeds_def by blast

lemma succeeds_ret: "(\<And>w. P w \<Longrightarrow> Q a w) \<Longrightarrow> succeeds P (ret a) Q"
  by (simp add: succeeds_def ret_def)

lemma succeeds_mapped:
  assumes "succeeds P (bind m (\<lambda>a. ret (f a))) Q"
  shows "succeeds P m (\<lambda>a. Q (f a))"
proof (rule succeedsI)
  fix w assume "P w"
  with assms obtain b w' where "bind m (\<lambda>a. ret (f a)) w = (Inr b, w')" "Q b w'" by (rule succeedsE)
  then show "\<exists>a w'. m w = (Inr a, w') \<and> Q (f a) w'" by (auto simp: bind_Inr ret_def)
qed

text \<open>What an operation does to the value it returns and to the invariant \<open>R\<close>, as one step.\<close>

lemma succeeds_step:
  assumes "succeeds P m (\<lambda>a w. V a \<and> R w)" "\<And>a. V a \<Longrightarrow> succeeds R (f a) Q"
  shows "succeeds P (bind m f) Q"
  using assms(1) by (rule succeeds_bind) (use assms(2) in \<open>auto simp: succeeds_def\<close>)

lemma succeeds_then: "succeeds R m (\<lambda>_. R) \<Longrightarrow> (\<And>a. succeeds R (f a) Q) \<Longrightarrow> succeeds R (bind m f) Q"
  by (rule succeeds_bind)

lemma succeeds_try: "succeeds P m Q \<Longrightarrow> succeeds P (try_op m) (\<lambda>r w. \<exists>a. r = Inr a \<and> Q a w)"
  unfolding succeeds_def try_op_def by fastforce

section \<open>A calm environment\<close>

text \<open>
  No crash, no cancellation, ids never repeat, and what the store holds can be read back.
  \<open>running\<close>: the run has its row, and the events stored so far have ids that were drawn.
\<close>

definition calm :: "engine_env \<Rightarrow> bool" where
  "calm env \<longleftrightarrow> (\<forall>n. \<not> en_crash env n \<and> \<not> en_cancelled env n) \<and> inj (en_id env) \<and>
     (\<forall>rid db. \<exists>cp. en_load_checkpoint env rid db = Inr cp) \<and> (\<forall>rid db. \<exists>ms. en_load_messages env rid db = Some ms) \<and>
     (\<forall>v. \<exists>r. en_load_result env v = Inr r)"

definition running :: "engine_env \<Rightarrow> string \<Rightarrow> world \<Rightarrow> bool" where
  "running env rid w \<longleftrightarrow> has_run (w_db w) rid \<and>
     (\<forall>e \<in> set (d_events (w_db w)). ev_event_id e \<in> en_id env ` {..<w_tick w})"

lemma running_later: "running env rid w \<Longrightarrow> w_db w' = w_db w \<Longrightarrow> w_tick w \<le> w_tick w' \<Longrightarrow> running env rid w'"
  unfolding running_def by fastforce

lemma s_tick: "succeeds (running env rid) tick (\<lambda>_. running env rid)"
  by (rule succeedsI) (auto simp: tick_def intro: running_later)

lemma s_clock: "succeeds (running env rid) (read_clock env') (\<lambda>_. running env rid)"
  unfolding read_clock_def by (intro succeeds_then [OF s_tick] succeeds_ret)

lemma s_mono: "succeeds (running env rid) (read_mono env') (\<lambda>x w. x \<in> range (en_mono env') \<and> running env rid w)"
  unfolding read_mono_def by (intro succeeds_then [OF s_tick] succeeds_ret) simp

lemma s_id: "succeeds (running env rid) (new_id env') (\<lambda>_. running env rid)"
  unfolding new_id_def by (intro succeeds_then [OF s_tick] succeeds_ret)

lemma s_cancelled: "calm env \<Longrightarrow> succeeds (running env rid) (is_cancelled env) (\<lambda>c w. \<not> c \<and> running env rid w)"
  unfolding is_cancelled_def by (intro succeeds_then [OF s_tick] succeeds_ret) (simp add: calm_def)

lemma s_set_ctx: "succeeds (running env rid) (set_ctx r f) (\<lambda>_. running env rid)"
  by (rule succeedsI) (auto simp: set_ctx_def modify_def intro: running_later)

lemma s_ensure: "succeeds (running env rid) (ensure_ctx r) (\<lambda>_. running env rid)"
  by (rule succeedsI) (auto simp: ensure_ctx_def intro: running_later)

lemma s_get: "succeeds (running env rid) (get_with f) (\<lambda>_. running env rid)"
  by (rule succeedsI) (simp add: get_with_def)

lemma s_query:
  assumes "calm env" "\<And>db. has_run db rid \<Longrightarrow> \<exists>a. f db = Inr a \<and> V a"
  shows "succeeds (running env rid) (query env f) (\<lambda>a w. V a \<and> running env rid w)"
proof (rule succeedsI)
  fix w assume w: "running env rid w"
  with assms(2) obtain a where "f (w_db w) = Inr a" "V a" unfolding running_def by blast
  with w assms(1) show "\<exists>a w'. query env f w = (Inr a, w') \<and> V a \<and> running env rid w'"
    by (auto simp: query_def storage_def calm_def Let_def intro: running_later)
qed

lemma s_write:
  assumes "calm env"
    and "\<And>db. has_run db rid \<Longrightarrow> \<exists>db'. f db = Inr db' \<and> map rn_id (d_runs db') = map rn_id (d_runs db) \<and> d_events db' = d_events db"
  shows "succeeds (running env rid) (write_db env f) (\<lambda>_. running env rid)"
proof (rule succeedsI)
  fix w assume w: "running env rid w"
  with assms(2) obtain db' where db': "f (w_db w) = Inr db'" "map rn_id (d_runs db') = map rn_id (d_runs (w_db w))"
    "d_events db' = d_events (w_db w)" unfolding running_def by blast
  from db'(2) have "rn_id ` set (d_runs db') = rn_id ` set (d_runs (w_db w))" by (metis set_map)
  with w db' have "running env rid (w\<lparr>w_tick := Suc (w_tick w), w_db := db'\<rparr>)"
    by (auto simp: running_def sql_has_image less_Suc_eq)
  with db'(1) assms(1) show "\<exists>a w'. write_db env f w = (Inr a, w') \<and> running env rid w'"
    by (simp add: write_db_def storage_def calm_def Let_def)
qed

section \<open>Events\<close>

definition fresh_events :: "engine_env \<Rightarrow> world \<Rightarrow> event_envelope list \<Rightarrow> bool" where
  "fresh_events env w es \<longleftrightarrow> (\<exists>ns. map ev_event_id es = map (en_id env) ns \<and> distinct ns \<and> set ns \<subseteq> {..<w_tick w} \<and>
     (\<forall>e \<in> set (d_events (w_db w)). ev_event_id e \<notin> en_id env ` set ns))"

lemma make_events_ids:
  "\<exists>es w' ns. make_events env run sp evs w = (Inr es, w') \<and> w_db w' = w_db w \<and> w_tick w \<le> w_tick w' \<and>
     map ev_event_id es = map (en_id env) ns \<and> distinct ns \<and> set ns \<subseteq> {w_tick w..<w_tick w'}"
proof (induction env run sp evs arbitrary: w rule: make_events.induct)
  case (1 env run sp)
  show ?case by (auto simp: ret_def intro!: exI [of _ "[]"])
next
  case (2 env run sp ty payload evs)
  let ?w = "w\<lparr>w_tick := Suc (Suc (w_tick w))\<rparr>"
  obtain ev where ev: "make_event env run ty payload sp w = (Inr ev, ?w)" "ev_event_id ev = en_id env (w_tick w)"
    by (simp add: make_event_def new_id_def read_clock_def tick_def bind_def ret_def)
  obtain es w' ns where es: "make_events env run sp evs ?w = (Inr es, w')" "w_db w' = w_db ?w" "w_tick ?w \<le> w_tick w'"
    "map ev_event_id es = map (en_id env) ns" "distinct ns" "set ns \<subseteq> {w_tick ?w..<w_tick w'}"
    using 2 [of ?w] by (elim exE conjE) (rule that)
  have "make_events env run sp ((ty, payload) # evs) w = (Inr (ev # es), w')"
    using ev(1) es(1) by (simp add: bind_def ret_def)
  moreover have "map ev_event_id (ev # es) = map (en_id env) (w_tick w # ns)" using ev(2) es(4) by simp
  moreover have "distinct (w_tick w # ns)" "set (w_tick w # ns) \<subseteq> {w_tick w..<w_tick w'}" "w_db w' = w_db w"
    "w_tick w \<le> w_tick w'" using es by auto
  ultimately show ?case by (intro exI conjI)
qed

lemma s_make_events:
  assumes "calm env"
  shows "succeeds (running env rid) (make_events env run sp evs) (\<lambda>es w. fresh_events env w es \<and> running env rid w)"
proof (rule succeedsI)
  fix w assume w: "running env rid w"
  obtain es w' ns where e: "make_events env run sp evs w = (Inr es, w')" "w_db w' = w_db w" "w_tick w \<le> w_tick w'"
    "map ev_event_id es = map (en_id env) ns" "distinct ns" "set ns \<subseteq> {w_tick w..<w_tick w'}"
    using make_events_ids by blast
  have "ev_event_id x \<notin> en_id env ` set ns" if x: "x \<in> set (d_events (w_db w'))" for x
  proof -
    from w x e(2) obtain m where m: "m < w_tick w" "ev_event_id x = en_id env m" by (auto simp: running_def)
    from assms have "inj (en_id env)" by (simp add: calm_def)
    with m e(6) show ?thesis by (auto simp: inj_eq)
  qed
  with e have "fresh_events env w' es" unfolding fresh_events_def by (intro exI [of _ ns]) auto
  with e(1) running_later [OF w e(2,3)]
  show "\<exists>es w'. make_events env run sp evs w = (Inr es, w') \<and> fresh_events env w' es \<and> running env rid w'" by blast
qed

lemma append_rows_succeeds:
  assumes "distinct (map ev_event_id evs)" "\<forall>e \<in> set (d_events db). ev_event_id e \<notin> set (map ev_event_id evs)"
  shows "\<exists>r. append_rows rd evs db = Inr r"
  using assms
proof (induction rd evs db rule: append_rows.induct)
  case (2 rd ev evs db)
  then have no: "\<not> sql_has ev_event_id (ev_event_id ev) (d_events db)" by (auto simp: sql_has_image)
  from 2(2,3) have "\<exists>r. append_rows rd evs (db\<lparr>d_events := d_events db @ [ev\<lparr>ev_global_seq := Suc (d_event_seq db),
        ev_run_seq := Suc (max_run_seq (ev_run_id ev) (d_events db)), ev_payload := redact_dict rd (ev_payload ev)\<rparr>],
      d_event_seq := Suc (d_event_seq db)\<rparr>) = Inr r"
    by (intro "2.IH" [OF no refl refl]) auto
  with no show ?case by (auto simp: Let_def)
qed simp

definition stored_status :: "string \<Rightarrow> run_status \<Rightarrow> world \<Rightarrow> bool" where
  "stored_status rid s w \<longleftrightarrow> (\<forall>r \<in> set (d_runs (w_db w)). rn_id r = rid \<longrightarrow> rn_status r = s)"

lemma update_status:
  assumes "x \<in> set (sql_update (\<lambda>y. rn_id y = r) (set_run_fields rd now u) rows)" "rn_id x = r" "ru_status u = Some s"
  shows "rn_status x = s"
proof -
  from assms(1,2) obtain y where "x = set_run_fields rd now u y" by (auto simp: set_sql_update)
  with assms(3) show ?thesis by (simp add: set_run_fields_def)
qed

lemma s_emit_and_update:
  assumes "calm env"
  shows "succeeds (\<lambda>w. fresh_events env w es \<and> running env rid w) (emit_and_update env r u es)
    (\<lambda>_ w. running env rid w \<and> (r = rid \<longrightarrow> ru_status u \<noteq> None \<longrightarrow> stored_status rid (the (ru_status u)) w))"
proof (rule succeedsI)
  fix w assume w: "fresh_events env w es \<and> running env rid w"
  then obtain ns where ns: "map ev_event_id es = map (en_id env) ns" "distinct ns" "set ns \<subseteq> {..<w_tick w}"
    "\<forall>e \<in> set (d_events (w_db w)). ev_event_id e \<notin> en_id env ` set ns" by (auto simp: fresh_events_def)
  define now where "now = en_clock env (w_tick w)"
  define db where "db = w_db w\<lparr>d_runs := sql_update (\<lambda>x. rn_id x = r) (set_run_fields (en_redactor env) now u) (d_runs (w_db w))\<rparr>"
  from assms have inj: "inj (en_id env)" by (simp add: calm_def)
  then have "distinct (map ev_event_id es)"
    unfolding ns(1) distinct_map using ns(2) inj_on_subset [OF inj subset_UNIV] by blast
  moreover from ns have "\<forall>e \<in> set (d_events db). ev_event_id e \<notin> set (map ev_event_id es)" by (simp add: db_def)
  ultimately obtain p where p: "append_rows (en_redactor env) es db = Inr p" using append_rows_succeeds by blast
  then obtain db' outs where app: "append_unlocked (en_redactor env) es db = Inr (db', outs)"
    by (cases p) (simp add: append_unlocked_def)
  from append_keeps_tables [OF app] obtain c where db': "d_events db' = d_events db @ outs" "d_runs db' = d_runs db" by auto
  from p app append_rows_effect [of _ es db] have ids: "map ev_event_id outs = map ev_event_id es"
    by (cases p) (auto simp: append_unlocked_def)
  have e1: "update_run (en_redactor env) now r u es (w_db w) = Inr (if es = [] then (db, []) else (db', outs))"
    using app by (simp add: update_run_def db_def Let_def)
  define w' where "w' = w\<lparr>w_tick := Suc (Suc (w_tick w)), w_db := if es = [] then db else db'\<rparr>"
  have "emit_and_update env r u es w = (Inr (if es = [] then [] else outs), w')"
    using e1 assms by (simp add: emit_and_update_def read_clock_def tick_def bind_def ret_def storage_def Let_def now_def calm_def w'_def)
  moreover have runs: "d_runs (w_db w') = d_runs db" by (simp add: w'_def db'(2))
  have "running env rid w'"
  proof -
    have "map rn_id (d_runs db) = map rn_id (d_runs (w_db w))" by (simp add: db_def map_sql_update)
    then have "rn_id ` set (d_runs db) = rn_id ` set (d_runs (w_db w))" by (metis set_map)
    with runs have "rn_id ` set (d_runs (w_db w')) = rn_id ` set (d_runs (w_db w))" by simp
    moreover have "ev_event_id e \<in> en_id env ` {..<w_tick w'}" if e: "e \<in> set (d_events (w_db w'))" for e
    proof -
      from e have "e \<in> set (d_events (w_db w)) \<or> e \<in> set outs"
        by (auto simp: w'_def db'(1) db_def split: if_splits)
      moreover have "ev_event_id ` set outs = en_id env ` set ns" using ids ns(1) by (metis set_map)
      with ns(3) have "ev_event_id ` set outs \<subseteq> en_id env ` {..<w_tick w}" by blast
      ultimately have "ev_event_id e \<in> en_id env ` {..<w_tick w}"
        using w unfolding running_def by blast
      then show ?thesis by (auto simp: w'_def less_Suc_eq)
    qed
    ultimately show ?thesis using w by (simp add: running_def sql_has_image)
  qed
  moreover have "ru_status u \<noteq> None \<Longrightarrow> stored_status r (the (ru_status u)) w'"
    unfolding stored_status_def runs by (auto simp: db_def intro: update_status)
  ultimately show "\<exists>a w'. emit_and_update env r u es w = (Inr a, w') \<and> running env rid w' \<and>
      (r = rid \<longrightarrow> ru_status u \<noteq> None \<longrightarrow> stored_status rid (the (ru_status u)) w')"
    by blast
qed

lemma s_emit: "calm env \<Longrightarrow> succeeds (running env rid) (emit env run sp evs) (\<lambda>_. running env rid)"
  unfolding emit_def
  by (rule succeeds_bind [OF s_make_events], assumption, rule succeeds_bind [OF s_emit_and_update], assumption)
    (rule succeeds_ret, simp)

lemma s_make_event:
  assumes "calm env"
  shows "succeeds (running env rid) (make_event env run ty p sp) (\<lambda>e w. fresh_events env w [e] \<and> running env rid w)"
proof -
  have "make_events env run sp [(ty, p)] = bind (make_event env run ty p sp) (\<lambda>e. ret [e])" by simp
  with s_make_events [OF assms, of rid run sp "[(ty, p)]"]
  have "succeeds (running env rid) (bind (make_event env run ty p sp) (\<lambda>e. ret [e])) (\<lambda>es w. fresh_events env w es \<and> running env rid w)"
    by simp
  then have "succeeds (running env rid) (make_event env run ty p sp) (\<lambda>e w. fresh_events env w [e] \<and> running env rid w)"
    by (rule succeeds_mapped)
  then show ?thesis .
qed

end
