(* ===== verification/Run_Answer.thy ===== *)
theory Run_Answer
  imports Run_Calm
begin

text \<open>
  A run from end to end: in a calm environment, a provider that answers with text alone leads to a
  result, whose output is that text.
\<close>

section \<open>The operations of a turn\<close>

lemma s_run:
  assumes "calm env"
  shows "succeeds (running env rid) (query env (\<lambda>db. Inr (get_run rid db)))
    (\<lambda>r w. (\<exists>view. r = Some view \<and> rn_id (rv_row view) = rid) \<and> running env rid w)"
proof (rule s_query [OF assms])
  fix db assume "has_run db rid"
  then obtain r where "sql_find rn_id rid (d_runs db) = Some r" by (metis not_None_eq sql_find_None_iff sql_has_image)
  moreover from this have "rn_id r = rid" by (auto dest: sql_find_SomeD)
  ultimately show "\<exists>a. (Inr (get_run rid db) :: py_error + _) = Inr a \<and> (\<exists>view. a = Some view \<and> rn_id (rv_row view) = rid)"
    by (simp add: get_run_def decorate_run_def)
qed

lemma s_checkpoint:
  assumes "calm env"
  shows "succeeds (running env rid) (write_checkpoint env rid phase step ms pending completed u status token) (\<lambda>_. running env rid)"
proof -
  have load: "succeeds (running env rid) (query env (en_load_checkpoint env rid)) (\<lambda>cp w. True \<and> running env rid w)"
    using assms by (intro s_query) (auto simp: calm_def)
  have store: "succeeds (running env rid) (store_checkpoint env (next_checkpoint env rid phase step ms pending completed u status token cp c now))
      (\<lambda>_. running env rid)" for cp c now
    unfolding store_checkpoint_def
    by (intro succeeds_then [OF s_clock] s_write [OF assms]) (auto simp: save_checkpoint_def next_checkpoint_def)
  show ?thesis
    unfolding write_checkpoint_def
    by (rule succeeds_step [OF load], rule succeeds_then [OF s_ensure], rule succeeds_then [OF s_clock],
        rule succeeds_then [OF store], rule succeeds_step [OF s_run [OF assms]])
      (auto intro: s_emit [OF assms])
qed

lemma s_store_message:
  assumes "calm (eg_env eg)"
  shows "succeeds (running (eg_env eg) (id_run d)) (store_message eg d m n) (\<lambda>_. running (eg_env eg) (id_run d))"
  unfolding store_message_def by (rule s_write [OF assms]) (simp add: save_message_def)

lemma s_flush: "calm env \<Longrightarrow> succeeds (running env rid) (flush_delta env r run sp) (\<lambda>_. running env rid)"
  unfolding flush_delta_def andthen_def
  by (rule succeeds_then [OF s_get])
    (auto split: option.splits intro!: succeeds_ret succeeds_step [OF s_mono] succeeds_then [OF s_set_ctx] s_emit)

lemma s_buffer: "calm env \<Longrightarrow> succeeds (running env rid) (buffer_delta env r run t sp) (\<lambda>_. running env rid)"
  unfolding buffer_delta_def andthen_def when_op_def
  by (rule succeeds_then [OF s_set_ctx], rule succeeds_step [OF s_mono], rule succeeds_then [OF s_ensure])
    (auto intro: s_flush succeeds_ret)

lemma s_announce:
  assumes "calm (eg_env eg)"
  shows "succeeds (running (eg_env eg) rid) (announce_turn eg view rq step bundle) (\<lambda>_. running (eg_env eg) rid)"
proof -
  have "succeeds (running (eg_env eg) rid) (store_manifest eg step p) (\<lambda>_. running (eg_env eg) rid)" for p
  proof -
    have "succeeds (running (eg_env eg) rid) (\<lambda>w. case artifact_put_json co rd now i p s (w_files w) of
        (files, meta) \<Rightarrow> (case register_artifact rd (row meta) (w_db w) of (db, aid) \<Rightarrow> (Inr aid, w\<lparr>w_files := files, w_db := db\<rparr>)))
      (\<lambda>_. running (eg_env eg) rid)" for co rd now i s row
      by (rule succeedsI)
        (auto simp: register_artifact_def running_def split: prod.splits option.splits)
    then show ?thesis
      unfolding store_manifest_def
      by (intro succeeds_then [OF s_clock] succeeds_then [OF s_id] succeeds_then [OF s_tick])
  qed
  then show ?thesis
    unfolding announce_turn_def Let_def
    by (rule succeeds_then) (intro succeeds_then [OF s_id] succeeds_then [OF s_emit [OF assms]] succeeds_ret)
qed

section \<open>A stream of text\<close>

definition text_item :: "utext \<Rightarrow> model_stream_item" where
  "text_item t = (plain_item ST_text_delta)\<lparr>si_text := Some t\<rparr>"

fun streamed_text :: "utext list \<Rightarrow> turn_acc \<Rightarrow> turn_acc" where
  "streamed_text [] a = a"
| "streamed_text (t # ts) a = streamed_text ts
     (if t = [] then a
      else a\<lparr>ta_text := ta_text a @ [t], ta_streamed := ta_streamed a + int (length t), ta_had_output := True\<rparr>)"

lemma streamed_text_sel [simp]:
  "concat (ta_text (streamed_text ts a)) = concat (ta_text a) @ concat ts"
  "ta_calls (streamed_text ts a) = ta_calls a" "ta_order (streamed_text ts a) = ta_order a"
  "ta_ended (streamed_text ts a) = ta_ended a" "ta_usage (streamed_text ts a) = ta_usage a"
  "ta_error (streamed_text ts a) = ta_error a"
  "ta_had_output (streamed_text ts a) \<longleftrightarrow> ta_had_output a \<or> concat ts \<noteq> []"
  by (induction ts a rule: streamed_text.induct) auto

definition stream_ended :: "engine \<Rightarrow> stream_stop \<Rightarrow> turn_acc \<Rightarrow> turn_acc" where
  "stream_ended eg en a = (case en of StreamFailed x \<Rightarrow> turn_failed eg x a | _ \<Rightarrow> a)"

lemma text_item_step:
  assumes "te_output_length te + ta_streamed a + int (length t) \<le> b_max_output_length (te_budget te)"
  shows "item_step eg te i iv (text_item t) a n =
    (streamed_text [t] a, n, if t = [] then NoEffect else BufferText t, Continue)"
  using assms
  by (cases t) (simp_all add: item_step_def text_item_def plain_item_def nonempty_text_def text_step_def Let_def)

lemma s_effect:
  assumes "calm (eg_env eg)" "\<And>tc. ef \<noteq> AnnounceCall tc"
  shows "succeeds (running (eg_env eg) rid) (perform_effect eg te n ef) (\<lambda>_. running (eg_env eg) rid)"
  unfolding perform_effect_def andthen_def
  by (rule succeeds_then [OF s_set_ctx]) (use assms in \<open>auto split: item_effect.splits intro: succeeds_ret s_buffer\<close>)

lemma s_consume:
  assumes "calm (eg_env eg)" "en \<noteq> StreamTaskCancelled"
    and "te_output_length te + ta_streamed a + int (length (concat ts)) \<le> b_max_output_length (te_budget te)"
  shows "succeeds (running (eg_env eg) rid) (consume_stream eg te (map text_item ts) en a)
    (\<lambda>a' w. a' = stream_ended eg en (streamed_text ts a) \<and> running (eg_env eg) rid w)"
  using assms(3)
proof (induction ts arbitrary: a)
  case Nil
  with assms(2) show ?case by (cases en) (auto simp: stream_ended_def intro!: succeeds_ret)
next
  case (Cons t ts)
  define a' where "a' = streamed_text [t] a"
  define ef where "ef = (if t = [] then NoEffect else BufferText t)"
  have step: "item_step eg te i iv (text_item t) a n = (a', n, ef, Continue)" for i iv n
    unfolding a'_def ef_def by (rule text_item_step) (use Cons.prems in simp)
  have "te_output_length te + ta_streamed a' + int (length (concat ts)) \<le> b_max_output_length (te_budget te)"
    using Cons.prems by (simp add: a'_def)
  note rest = Cons.IH [OF this]
  have eff: "succeeds (running (eg_env eg) rid) (try_op (perform_effect eg te n ef))
      (\<lambda>r w. (\<exists>u. r = Inr u) \<and> running (eg_env eg) rid w)" for n
    by (rule succeeds_post [OF succeeds_try [OF s_effect [OF assms(1)]]]) (auto simp: ef_def)
  have last: "streamed_text (t # ts) a = streamed_text ts a'" by (simp add: a'_def)
  show ?case
    unfolding list.map consume_stream.simps last
    by (rule succeeds_step [OF s_cancelled [OF assms(1)]], simp, rule succeeds_then [OF s_id], rule succeeds_then [OF s_id],
        rule succeeds_then [OF s_get], simp add: step, rule succeeds_step [OF eff]) (auto intro: rest)
qed

section \<open>The attempt\<close>

definition text_provider :: "engine \<Rightarrow> run_request \<Rightarrow> utext list \<Rightarrow> stream_stop \<Rightarrow> bool" where
  "text_provider eg rq ts en \<longleftrightarrow> en \<noteq> StreamTaskCancelled \<and>
     (\<exists>p. eg_providers eg (rq_provider rq) = Some p \<and> (\<forall>q n. pv_stream p q n = (map text_item ts, en)))"

text \<open>The stream closed, or failed with an empty message that is not worth or not open to a retry.\<close>

definition silent_end :: "engine \<Rightarrow> utext list \<Rightarrow> stream_stop \<Rightarrow> bool" where
  "silent_end eg ts en \<longleftrightarrow> (case en of
     StreamClosed \<Rightarrow> True
   | StreamFailed x \<Rightarrow> px_text x = [] \<and>
       (concat ts \<noteq> [] \<or> provider_exception_kind (eg_lower eg) x \<notin> retryable_provider_errors)
   | StreamTaskCancelled \<Rightarrow> False)"

definition answered_turn :: "engine \<Rightarrow> utext list \<Rightarrow> stream_stop \<Rightarrow> turn_acc" where
  "answered_turn eg ts en = stream_ended eg en (streamed_text ts new_turn)"

lemma answered_turn_sel [simp]:
  "concat (ta_text (answered_turn eg ts en)) = concat ts"
  "ta_calls (answered_turn eg ts en) = Map.empty" "ta_order (answered_turn eg ts en) = []"
  "ta_ended (answered_turn eg ts en) = []" "ta_usage (answered_turn eg ts en) = default_usage"
  "ta_had_output (answered_turn eg ts en) \<longleftrightarrow> concat ts \<noteq> []"
  by (cases en; simp add: answered_turn_def stream_ended_def turn_failed_def fail_turn_def new_turn_def)+

lemma answered_turn_error:
  assumes "silent_end eg ts en"
  shows "ta_error (answered_turn eg ts en) = None \<or> (\<exists>k. ta_error (answered_turn eg ts en) = Some ([], k))"
    "\<not> can_replay te n (answered_turn eg ts en)"
  using assms
  by (cases en; auto simp: silent_end_def answered_turn_def stream_ended_def turn_failed_def fail_turn_def new_turn_def can_replay_def)+

lemma s_provider:
  assumes "calm (eg_env eg)" "text_provider eg rq ts en" "silent_end eg ts en" "te_request te = rq"
    and "u_total_tokens u < b_max_tokens (rq_budget rq)" "b_max_cost_usd (rq_budget rq) = None"
    and "te_output_length te + int (length (concat ts)) \<le> b_max_output_length (rq_budget rq)"
  shows "succeeds (running (eg_env eg) rid) (provider_loop (Suc n) eg te (first_attempt u))
    (\<lambda>r w. r = Some (after_attempt eg te (first_attempt u) (answered_turn eg ts en)) \<and> running (eg_env eg) rid w)"
proof -
  from assms(2) obtain p where p: "eg_providers eg (rq_provider rq) = Some p"
    "\<And>q n. pv_stream p q n = (map text_item ts, en)" "en \<noteq> StreamTaskCancelled" by (auto simp: text_provider_def)
  have allow: "attempt_allowance te (at_usage (first_attempt u)) = Inr (Inr (b_max_tokens (rq_budget rq) - u_total_tokens u))"
    using assms(4,5,6) by (simp add: attempt_allowance_def te_budget_def first_attempt_def Let_def)
  have stream: "succeeds (running (eg_env eg) rid) (open_stream eg te p left)
      (\<lambda>a w. a = answered_turn eg ts en \<and> running (eg_env eg) rid w)" for left
    unfolding open_stream_def p(2) answered_turn_def
    by (rule succeeds_then [OF s_tick])
      (simp, rule s_consume, use assms p(3) in \<open>simp_all add: te_budget_def new_turn_def\<close>)
  show ?thesis
    unfolding provider_loop.simps assms(4) p(1) option.case allow
    by (simp, rule succeeds_step [OF stream])
      (simp add: answered_turn_error(2) [OF assms(3)] first_attempt_def, rule succeeds_ret, simp)
qed

section \<open>The turn\<close>

definition answer_tokens :: "int \<Rightarrow> utext list \<Rightarrow> int" where
  "answer_tokens k ts = k + int (estimate_tokens (concat ts))"

lemma charge_answer:
  assumes "manifest_tokens te = k" "0 \<le> k"
  shows "u_total_tokens (charge_turn eg te step (after_attempt eg te (first_attempt u) (answered_turn eg ts en))) =
    u_total_tokens u + answer_tokens k ts"
  using assms
  by (simp add: charge_turn_def after_attempt_def first_attempt_def shown_usage_def billable_turn_usage_def bill_side_def
      update_usage_cost_def default_usage_def answer_tokens_def Let_def)

text \<open>What the loop knows after the turn of a plain answer.\<close>

definition answered_state :: "loop_state \<Rightarrow> int \<Rightarrow> utext list \<Rightarrow> loop_state \<Rightarrow> bool" where
  "answered_state st k ts st' \<longleftrightarrow> lp_step st' = lp_step st \<and> concat (lp_output st') = concat (lp_output st) @ concat ts \<and>
     u_total_tokens (lp_usage st') = u_total_tokens (lp_usage st) + answer_tokens k ts \<and>
     (\<exists>m. m_role m = MR_assistant \<and> m_content m = concat ts \<and> m_tool_calls m = None \<and> lp_messages st' = lp_messages st @ [m])"

lemma s_record:
  assumes "calm (eg_env eg)" "silent_end eg ts en" "te_request te = rq" "manifest_tokens te = k" "0 \<le> k"
    and "u_total_tokens u = u_total_tokens (lp_usage st)"
    and "u_total_tokens u + answer_tokens k ts \<le> b_max_tokens (rq_budget rq)" "b_max_cost_usd (rq_budget rq) = None"
  shows "succeeds (running (eg_env eg) (id_run d))
    (record_turn eg d te st (after_attempt eg te (first_attempt u) (answered_turn eg ts en)))
    (\<lambda>(st', acc) w. answered_state st k ts st' \<and> ta_error acc = ta_error (answered_turn eg ts en) \<and> turn_calls acc = [] \<and>
       running (eg_env eg) (id_run d) w)"
proof -
  let ?fin = "after_attempt eg te (first_attempt u) (answered_turn eg ts en)"
  have usage: "u_total_tokens (charge_turn eg te (lp_step st) ?fin) = u_total_tokens (lp_usage st) + answer_tokens k ts"
    using charge_answer [OF assms(4,5)] assms(6) by simp
  have acc: "within_budget (te_budget te) (charge_turn eg te (lp_step st) ?fin) (close_stream (at_acc ?fin)) = answered_turn eg ts en"
    using usage assms(3,6,7,8)
    by (simp add: within_budget_def close_stream_def unfinished_ids_def te_budget_def)
  have calls: "turn_calls (answered_turn eg ts en) = []" by (simp add: turn_calls_def)
  note R = assms(1)
  show ?thesis
    unfolding record_turn_def announce_turn_end_def sync_messages_def Let_def acc calls
    by (rule succeeds_then [OF s_flush [OF R]], rule succeeds_then [OF s_id], rule succeeds_then [OF s_clock],
        rule succeeds_then [OF s_set_ctx], rule succeeds_then [OF s_store_message [OF R]], rule succeeds_then [OF s_emit [OF R]],
        rule succeeds_then [OF s_checkpoint [OF R]], rule succeeds_ret)
      (simp add: answered_state_def usage calls assistant_message_def)
qed

section \<open>The end of the run\<close>

lemma s_finish:
  assumes "calm env"
  shows "succeeds (running env rid) (finish env rid sid rt parent status out u steps err ms)
    (\<lambda>r w. rr_status r = status \<and> rr_output r = redact_text (en_redactor env) out \<and> rr_usage r = u \<and>
       rr_steps r = int steps \<and> rr_error r = err \<and> running env rid w \<and> stored_status rid status w)"
proof -
  note R = assms
  have load: "succeeds (running env rid) (query env (en_load_checkpoint env rid)) (\<lambda>cp w. True \<and> running env rid w)"
    using R by (intro s_query) (auto simp: calm_def)
  have stored: "succeeds (running env rid) (query env (\<lambda>db. case en_load_messages env rid db of
      Some ms \<Rightarrow> Inr ms | None \<Rightarrow> Inl (ValueError (lit ''ValidationError'')))) (\<lambda>cp w. True \<and> running env rid w)"
    using R by (intro s_query) (auto simp: calm_def split: option.splits)
  have best: "succeeds (running env rid) (checkpoint_messages env rid) (\<lambda>_. running env rid)"
    unfolding checkpoint_messages_def
    by (rule succeeds_then [OF s_get], rule succeeds_step [OF load], rule succeeds_step [OF stored], rule succeeds_ret)
  have clear: "succeeds (\<lambda>w. running env rid w \<and> stored_status rid status w) (write_db env (\<lambda>db. Inr (clear_stop_request rid db)))
      (\<lambda>_ w. running env rid w \<and> stored_status rid status w)"
    using R by (intro succeedsI) (auto simp: write_db_def storage_def calm_def running_def stored_status_def
        clear_stop_request_def Let_def)
  have upd: "succeeds (\<lambda>w. fresh_events env w es \<and> running env rid w)
      (emit_and_update env rid (no_update\<lparr>ru_status := Some status, ru_finished := True, ru_error := err,
         ru_output_summary := Some o2, ru_usage := Some u, ru_steps := Some (int steps)\<rparr>) es)
      (\<lambda>_ w. running env rid w \<and> stored_status rid status w)" for es o2
    by (rule succeeds_post [OF s_emit_and_update [OF R]]) (simp add: no_update_def)
  have keep: "succeeds (running env rid) (case ms of None \<Rightarrow> ret () | Some l \<Rightarrow> set_ctx rid (\<lambda>x. x\<lparr>rc_messages := l\<rparr>))
      (\<lambda>_. running env rid)"
    by (cases ms) (simp_all add: s_set_ctx succeeds_ret)
  have fs: "succeeds (running env rid) (finish_stored env rid view status out u steps err ms)
      (\<lambda>_ w. running env rid w \<and> stored_status rid status w)" for view
    unfolding finish_stored_def
    by (rule succeeds_then [OF s_get], rule succeeds_step [OF load], rule succeeds_then [OF keep], rule succeeds_then [OF best],
        rule succeeds_then [OF s_checkpoint [OF R]], rule succeeds_bind [OF s_make_event [OF R]],
        rule succeeds_bind [OF upd], rule clear)
  have clock: "succeeds (\<lambda>w. running env rid w \<and> stored_status rid status w) (read_clock env)
      (\<lambda>_ w. running env rid w \<and> stored_status rid status w)"
    by (rule succeedsI) (auto simp: read_clock_def tick_def bind_def ret_def stored_status_def intro: running_later)
  have run: "succeeds (running env rid) (query env (\<lambda>db. Inr (get_run rid db))) (\<lambda>r w. r \<noteq> None \<and> running env rid w)"
    by (rule succeeds_post [OF s_run [OF R]]) auto
  show ?thesis
    unfolding finish_def
    by (rule succeeds_step [OF run]) (auto intro!: succeeds_bind [OF fs] succeeds_bind [OF clock] succeeds_ret)
qed

text \<open>How a run that was to be settled ends.\<close>

definition ends_completed :: "engine \<Rightarrow> ids \<Rightarrow> utext list \<Rightarrow> nat \<Rightarrow> int \<Rightarrow> run_result \<Rightarrow> world \<Rightarrow> bool" where
  "ends_completed eg d ts steps tokens r w \<longleftrightarrow> rr_status r = RS_completed \<and> rr_error r = None \<and>
     rr_output r = redact_text (en_redactor (eg_env eg)) (concat ts) \<and> rr_steps r = int steps \<and>
     u_total_tokens (rr_usage r) = tokens \<and> has_run (w_db w) (id_run d) \<and> stored_status (id_run d) RS_completed w"

lemma s_finish_run:
  assumes "calm (eg_env eg)" "concat (lp_output st) = concat ts"
  shows "succeeds (running (eg_env eg) (id_run d)) (finish_run eg d RS_completed st steps None)
    (\<lambda>e w. \<exists>r. e = Ended r \<and> ends_completed eg d ts steps (u_total_tokens (lp_usage st)) r w)"
  unfolding finish_run_def
  by (rule succeeds_bind [OF s_finish [OF assms(1)]], rule succeeds_ret)
    (auto simp: ends_completed_def running_def assms(2))

lemma s_settle:
  assumes "calm (eg_env eg)" "verification_policy_of eg rq = Inr None" "concat (lp_output st) = concat ts"
  shows "succeeds (running (eg_env eg) (id_run d)) (settle_candidate eg d rq sp st)
    (\<lambda>e w. \<exists>r. e = Ended r \<and> ends_completed eg d ts (lp_step st) (u_total_tokens (lp_usage st)) r w)"
  unfolding settle_candidate_def assms(2) by simp (rule s_finish_run [OF assms(1,3)])

section \<open>The run\<close>

text \<open>The budgets leave room for one plain answer; \<open>k\<close> tokens go to the context.\<close>

definition affordable :: "engine \<Rightarrow> run_request \<Rightarrow> usage \<Rightarrow> nat \<Rightarrow> int \<Rightarrow> utext list \<Rightarrow> bool" where
  "affordable eg rq u step k ts \<longleftrightarrow> (let b = rq_budget rq in
     int step < b_max_steps b \<and> 0 \<le> k \<and> u_total_tokens u < b_max_tokens b \<and>
     u_total_tokens u + answer_tokens k ts \<le> b_max_tokens b \<and> b_max_cost_usd b = None \<and>
     0 < b_max_output_length b \<and> int (length (concat ts)) \<le> b_max_output_length b \<and> \<not> b_context_compact_enabled b \<and>
     (\<forall>m n. en_mono (eg_env eg) n - en_mono (eg_env eg) m \<le> b_max_wall_time_s b))"

text \<open>Before the context is planned, its state is the one the run was given.\<close>

definition waiting :: "engine_env \<Rightarrow> string \<Rightarrow> context_state option \<Rightarrow> world \<Rightarrow> bool" where
  "waiting env rid cs w \<longleftrightarrow> running env rid w \<and> ctx_view rc_context_state rid w = cs"

lemma s_waiting:
  assumes "succeeds (running env rid) m (\<lambda>a w. V a \<and> running env rid w)" "frames (ctx_view rc_context_state rid) m"
  shows "succeeds (waiting env rid cs) m (\<lambda>a w. V a \<and> waiting env rid cs w)"
proof (rule succeedsI)
  fix w assume w: "waiting env rid cs w"
  with assms(1) obtain a w' where "m w = (Inr a, w')" "V a" "running env rid w'"
    unfolding waiting_def by (blast elim: succeedsE)
  with w framesD [OF assms(2)] show "\<exists>a w'. m w = (Inr a, w') \<and> V a \<and> waiting env rid cs w'"
    by (fastforce simp: waiting_def)
qed

lemma s_first_steps:
  assumes "calm (eg_env eg)"
  shows "succeeds (waiting (eg_env eg) rid cs) (is_cancelled (eg_env eg)) (\<lambda>c w. \<not> c \<and> waiting (eg_env eg) rid cs w)"
    "succeeds (waiting (eg_env eg) rid cs) (read_mono (eg_env eg)) (\<lambda>x w. x \<in> range (en_mono (eg_env eg)) \<and> waiting (eg_env eg) rid cs w)"
    "succeeds (waiting (eg_env eg) rid cs) (query (eg_env eg) (\<lambda>db. Inr (get_run rid db)))
       (\<lambda>r w. (\<exists>view. r = Some view \<and> rn_id (rv_row view) = rid) \<and> waiting (eg_env eg) rid cs w)"
  by (rule s_waiting, rule s_cancelled [OF assms] s_mono s_run [OF assms], rule ctx_leaves)+

lemma s_sync:
  assumes "id_run d = rid"
  shows "succeeds (waiting env rid cs) (sync_messages d ms) (\<lambda>_ w. True \<and> waiting env rid cs w)"
proof (rule s_waiting)
  show "succeeds (running env rid) (sync_messages d ms) (\<lambda>_ w. True \<and> running env rid w)"
    unfolding sync_messages_def by (rule succeeds_post [OF s_set_ctx]) simp
  show "frames (ctx_view rc_context_state rid) (sync_messages d ms)"
    unfolding sync_messages_def by (rule frames_ctx_set) simp
qed

lemma s_no_compaction:
  assumes "calm (eg_env eg)" "\<not> b_context_compact_enabled (rq_budget rq)" "id_run d = rid"
  shows "succeeds (waiting (eg_env eg) rid cs) (maybe_compact eg d rq ms u step completed)
    (\<lambda>u' w. u' = u \<and> waiting (eg_env eg) rid cs w)"
proof -
  have en: "succeeds (waiting (eg_env eg) rid cs) (ensure_ctx rid) (\<lambda>_ w. True \<and> waiting (eg_env eg) rid cs w)"
    by (rule s_waiting) (rule succeeds_post [OF s_ensure], simp, rule frames_ctx_ensure)
  show ?thesis
    unfolding maybe_compact_def assms(3)
    by (rule succeeds_step [OF s_first_steps(1) [OF assms(1)]])
      (simp add: plan_compaction_def assms(2), rule succeeds_step [OF en], rule succeeds_ret, simp)
qed

lemma s_model_turn:
  assumes R: "calm (eg_env eg)" and prov: "text_provider eg rq ts en" "silent_end eg ts en" "affordable eg rq (lp_usage st) (lp_step st) k ts"
    and plan: "succeeds (waiting (eg_env eg) (id_run d) cs) (plan_context eg (id_run d) rq (lp_messages st) (lp_step st))
      (\<lambda>b w. cm_total_tokens (cb_manifest b) = k \<and> running (eg_env eg) (id_run d) w)"
    and st: "lp_length st = 0"
  shows "succeeds (waiting (eg_env eg) (id_run d) cs) (model_turn eg d rq st)
    (\<lambda>t w. (\<exists>st' acc sp. t = Some (st', acc, sp) \<and> answered_state st k ts st' \<and>
        ta_error acc = ta_error (answered_turn eg ts en) \<and> turn_calls acc = []) \<and> running (eg_env eg) (id_run d) w)"
proof -
  let ?R = "running (eg_env eg) (id_run d)"
  have bud: "\<not> b_context_compact_enabled (rq_budget rq)" "u_total_tokens (lp_usage st) < b_max_tokens (rq_budget rq)" "0 \<le> k"
    "b_max_cost_usd (rq_budget rq) = None" "u_total_tokens (lp_usage st) + answer_tokens k ts \<le> b_max_tokens (rq_budget rq)"
    "int (length (concat ts)) \<le> b_max_output_length (rq_budget rq)"
    using prov(3) by (simp_all add: affordable_def Let_def)
  have turn: "succeeds ?R (bind (provider_loop (Suc (rt_max_retries (rq_retry rq))) eg te (first_attempt (lp_usage st)))
      (\<lambda>res. case res of None \<Rightarrow> ret None
        | Some fin \<Rightarrow> bind (record_turn eg d te st fin) (\<lambda>(st', acc). ret (Some (st', acc, sp)))))
      (\<lambda>t w. (\<exists>st' acc sp. t = Some (st', acc, sp) \<and> answered_state st k ts st' \<and>
        ta_error acc = ta_error (answered_turn eg ts en) \<and> turn_calls acc = []) \<and> ?R w)"
    if te: "te_request te = rq" "manifest_tokens te = k" "te_output_length te = 0" for te sp
  proof (rule succeeds_step)
    show "succeeds ?R (provider_loop (Suc (rt_max_retries (rq_retry rq))) eg te (first_attempt (lp_usage st)))
      (\<lambda>r w. r = Some (after_attempt eg te (first_attempt (lp_usage st)) (answered_turn eg ts en)) \<and> ?R w)"
      by (rule s_provider [OF R prov(1,2) te(1)]) (simp_all add: bud te(3))
  next
    fix res assume "res = Some (after_attempt eg te (first_attempt (lp_usage st)) (answered_turn eg ts en))"
    then show "succeeds ?R (case res of None \<Rightarrow> ret None
        | Some fin \<Rightarrow> bind (record_turn eg d te st fin) (\<lambda>(st', acc). ret (Some (st', acc, sp))))
      (\<lambda>t w. (\<exists>st' acc sp. t = Some (st', acc, sp) \<and> answered_state st k ts st' \<and>
        ta_error acc = ta_error (answered_turn eg ts en) \<and> turn_calls acc = []) \<and> ?R w)"
      by (simp, intro succeeds_bind [OF s_record [OF R prov(2) te(1,2) bud(3) refl bud(5,4)]])
        (auto split: prod.splits intro!: succeeds_ret)
  qed
  show ?thesis
    unfolding model_turn_def Let_def
    by (rule succeeds_step [OF s_no_compaction [OF R bud(1) refl]], rule succeeds_step [OF s_first_steps(3) [OF R]], elim exE conjE)
      (simp only: option.case, rule succeeds_step [OF plan], rule succeeds_bind [OF s_announce [OF R]], rule turn,
        simp_all add: manifest_tokens_def st)
qed

text \<open>A turn without calls whose error, if any, has an empty message goes to be settled.\<close>

lemma after_quiet_turn:
  assumes "ta_error acc = None \<or> (\<exists>k. ta_error acc = Some ([], k))" "turn_calls acc = []"
  shows "after_turn eg d rq sp st acc = settle_candidate eg d rq sp (st\<lparr>lp_step := Suc (lp_step st)\<rparr>)"
  using assms by (auto simp: after_turn_def)

lemma s_answer:
  assumes R: "calm (eg_env eg)" and prov: "text_provider eg rq ts en" "silent_end eg ts en"
    and aff: "affordable eg rq u step k ts"
    and plan: "succeeds (waiting (eg_env eg) (id_run d) cs) (plan_context eg (id_run d) rq ms step)
      (\<lambda>b w. cm_total_tokens (cb_manifest b) = k \<and> running (eg_env eg) (id_run d) w)"
    and settle: "\<And>sp st'. lp_step st' = Suc step \<Longrightarrow> concat (lp_output st') = concat ts \<Longrightarrow>
      u_total_tokens (lp_usage st') = u_total_tokens u + answer_tokens k ts \<Longrightarrow>
      (\<exists>m. m_role m = MR_assistant \<and> m_content m = concat ts \<and> m_tool_calls m = None \<and> lp_messages st' = ms @ [m]) \<Longrightarrow>
      succeeds (running (eg_env eg) (id_run d)) (settle_candidate eg d rq sp st') (\<lambda>e w. \<exists>r. e = Ended r \<and> V r w)"
  shows "succeeds (waiting (eg_env eg) (id_run d) cs) (engine_loop eg d rq ms step u completed)
    (\<lambda>r w. \<exists>res. r = Some res \<and> V res w)"
proof -
  let ?st = "\<lparr>lp_messages = ms, lp_step = step, lp_usage = update_usage_cost (eg_round eg 10) (rq_pricing rq) u,
    lp_completed = completed, lp_output = [], lp_length = 0\<rparr>"
  let ?R = "running (eg_env eg) (id_run d)" and ?W = "waiting (eg_env eg) (id_run d) cs"
  have tokens: "u_total_tokens (lp_usage ?st) = u_total_tokens u" by (simp add: update_usage_cost_def Let_def)
  have aff': "affordable eg rq (lp_usage ?st) (lp_step ?st) k ts"
    using aff unfolding affordable_def tokens by simp
  have guard: "guard_error (rq_budget rq) ?st (y - x) = None" if xy: "x \<in> range (en_mono (eg_env eg))" "y \<in> range (en_mono (eg_env eg))" for x y
  proof -
    from xy obtain m n where "x = en_mono (eg_env eg) m" "y = en_mono (eg_env eg) n" by blast
    with aff have "y - x \<le> b_max_wall_time_s (rq_budget rq)" by (simp add: affordable_def Let_def)
    with aff show ?thesis unfolding guard_error_def tokens cost_error_def by (simp add: affordable_def Let_def)
  qed
  have after: "succeeds ?R (bind (after_turn eg d rq sp st' acc) (\<lambda>r. ret (Some r))) (\<lambda>t w. \<exists>r. t = Some (Ended r) \<and> V r w)"
    if "answered_state ?st k ts st'" "ta_error acc = ta_error (answered_turn eg ts en)" "turn_calls acc = []" for sp st' acc
  proof -
    have e: "after_turn eg d rq sp st' acc = settle_candidate eg d rq sp (st'\<lparr>lp_step := Suc (lp_step st')\<rparr>)"
      using after_quiet_turn that(2,3) answered_turn_error(1) [OF prov(2)] by metis
    show ?thesis
      unfolding e
      by (rule succeeds_bind [OF settle]) (use that(1) tokens in \<open>auto simp: answered_state_def intro!: succeeds_ret\<close>)
  qed
  have pass: "succeeds ?W (loop_pass eg d rq since ?st) (\<lambda>t w. \<exists>r. t = Some (Ended r) \<and> V r w)"
    if "since \<in> range (en_mono (eg_env eg))" for since
  proof -
    have turn: "succeeds ?W (bind (model_turn eg d rq ?st) (\<lambda>t. case t of None \<Rightarrow> ret None
        | Some (st', acc, sp) \<Rightarrow> bind (after_turn eg d rq sp st' acc) (\<lambda>r. ret (Some r)))) (\<lambda>t w. \<exists>r. t = Some (Ended r) \<and> V r w)"
    proof (rule succeeds_step)
      show "succeeds ?W (model_turn eg d rq ?st)
        (\<lambda>t w. (\<exists>st' acc sp. t = Some (st', acc, sp) \<and> answered_state ?st k ts st' \<and>
          ta_error acc = ta_error (answered_turn eg ts en) \<and> turn_calls acc = []) \<and> ?R w)"
        by (rule s_model_turn [OF R prov aff']) (use plan in simp_all)
    qed (auto intro: after)
    show ?thesis
      unfolding loop_pass_def
      by (rule succeeds_step [OF s_first_steps(1) [OF R]], simp only: if_False, rule succeeds_step [OF s_first_steps(2) [OF R]])
        (simp only: guard [OF that] option.case turn)
  qed
  from prov(1) have p: "eg_providers eg (rq_provider rq) \<noteq> None" by (auto simp: text_provider_def)
  show ?thesis
    unfolding engine_loop_def loop_fuel_def run_loop.simps
    by (rule succeeds_step [OF s_first_steps(2) [OF R]], simp only: p if_False, rule succeeds_step [OF s_sync [OF refl]],
        rule succeeds_bind [OF pass], assumption)
      (auto simp: succeeds_def ret_def)
qed

text \<open>What a plain answer leads to when nothing is to be verified.\<close>

lemma plain_answer:
  assumes "calm (eg_env eg)" "text_provider eg rq ts en" "silent_end eg ts en" "affordable eg rq u step k ts"
    and "succeeds (waiting (eg_env eg) (id_run d) cs) (plan_context eg (id_run d) rq ms step)
      (\<lambda>b w. cm_total_tokens (cb_manifest b) = k \<and> running (eg_env eg) (id_run d) w)"
    and "verification_policy_of eg rq = Inr None" "waiting (eg_env eg) (id_run d) cs w"
  shows "\<exists>res w'. engine_loop eg d rq ms step u completed w = (Inr (Some res), w') \<and>
    ends_completed eg d ts (Suc step) (u_total_tokens u + answer_tokens k ts) res w'"
proof -
  have "succeeds (waiting (eg_env eg) (id_run d) cs) (engine_loop eg d rq ms step u completed)
    (\<lambda>r w. \<exists>res. r = Some res \<and> ends_completed eg d ts (Suc step) (u_total_tokens u + answer_tokens k ts) res w)"
  proof (rule s_answer [OF assms(1-5)])
    fix sp and st' :: loop_state assume st: "lp_step st' = Suc step" "concat (lp_output st') = concat ts"
      "u_total_tokens (lp_usage st') = u_total_tokens u + answer_tokens k ts"
    from s_settle [OF assms(1,6) st(2)] st
    show "succeeds (running (eg_env eg) (id_run d)) (settle_candidate eg d rq sp st')
      (\<lambda>e w. \<exists>r. e = Ended r \<and> ends_completed eg d ts (Suc step) (u_total_tokens u + answer_tokens k ts) r w)"
      by simp
  qed
  with assms(7) show ?thesis by (auto elim: succeedsE)
qed

end
