(* ===== verification/Run_Accepted.thy ===== *)
theory Run_Accepted
  imports Run_Answer
begin

text \<open>
  A plain answer under a verification policy without commands: when every validator accepts it,
  the run completes.
\<close>

section \<open>The evaluation\<close>

lemma s_checks:
  assumes "calm (eg_env eg)" "\<And>j. \<not> vn_cancelled c j" "\<forall>k \<in> set ks. vc_kind k \<noteq> VK_command"
    and "run_checks (engine_verifier eg run) c pol i ks = Inr (fs, evs)"
  shows "succeeds (running (eg_env eg) rid) (checks_op eg d rq step u c pol i ks st)
    (\<lambda>r w. r = (fs, evs, st) \<and> running (eg_env eg) rid w)"
  using assms(3,4)
proof (induction ks arbitrary: i fs evs)
  case Nil
  then show ?case by (auto intro!: succeeds_ret)
next
  case (Cons k ks)
  from Cons.prems(1) have kind: "vc_kind k \<noteq> VK_command" by simp
  from Cons.prems(2) assms(2) obtain f ev gs evs' where r: "run_check (engine_verifier eg run) c pol k = Inr (f, ev)"
    "run_checks (engine_verifier eg run) c pol (Suc i) ks = Inr (gs, evs')"
    "fs = (case f of None \<Rightarrow> [] | Some x \<Rightarrow> [x]) @ gs"
    "evs = (evidence_key i k, redact_obj (en_redactor (eg_env eg)) (VDict ev)) # evs'"
    by (auto simp: err_bind_eq_Inr engine_verifier_def)
  have any: "run_check (engine_verifier eg (\<lambda>_. x)) c pol k = Inr (f, ev)" for x
    using run_check_runner [of k "\<lambda>_. x" run eg "vn_cancelled c" c pol] kind r(1) by simp
  have check: "succeeds (running (eg_env eg) rid) (check_op eg d rq step u c pol k st)
      (\<lambda>r w. r = ((f, ev), st) \<and> running (eg_env eg) rid w)"
    by (simp add: check_op_def kind any lift_err_simps) (rule succeeds_ret, simp)
  from Cons.prems(1) have "\<forall>k \<in> set ks. vc_kind k \<noteq> VK_command" by simp
  note rest = Cons.IH [OF this r(2)]
  show ?case
    unfolding checks_op.simps
    by (rule succeeds_step [OF s_cancelled [OF assms(1)]], simp, rule succeeds_step [OF check], simp,
        rule succeeds_step [OF rest], simp, rule succeeds_ret) (simp add: r(3,4))
qed

lemma s_evaluate:
  assumes "calm (eg_env eg)" "\<And>j. \<not> vn_cancelled c j" "\<forall>k \<in> set (vp_validators pol). vc_kind k \<noteq> VK_command"
    and "run_checks (engine_verifier eg run) c pol 0 (vp_validators pol) = Inr ([], evs)"
  shows "succeeds (running (eg_env eg) rid) (evaluate_op eg d rq step u c pol attempt st)
    (\<lambda>r w. r = (\<lparr>vd_action = VA_pass, vd_feedback = None, vd_feedback_message = None, vd_failures = [],
        vd_attempt = attempt, vd_evidence = redact_dict (en_redactor (eg_env eg)) evs\<rparr>, st) \<and> running (eg_env eg) rid w)"
  unfolding evaluate_op_def
  by (rule succeeds_step [OF s_cancelled [OF assms(1)]], simp, rule succeeds_step [OF s_checks [OF assms]], simp,
      rule succeeds_then [OF s_id], rule succeeds_then [OF s_clock], rule succeeds_ret)
    (simp add: decision_of_def decide_action_def engine_verifier_def)

lemma fresh_events_parent:
  "fresh_events env w (map (\<lambda>e. e\<lparr>ev_parent_span_id := p\<rparr>) es) = fresh_events env w es"
  by (simp add: fresh_events_def comp_def)

lemma s_announce_result:
  assumes "calm (eg_env eg)"
  shows "succeeds (running (eg_env eg) rid) (announce_result eg view sp parent attempt step dec) (\<lambda>_. running (eg_env eg) rid)"
  unfolding announce_result_def Let_def
  by (rule succeeds_bind [OF s_make_events [OF assms]],
      rule succeeds_bind [OF succeeds_pre [OF s_emit_and_update [OF assms, where rid = rid]]])
    (auto simp: fresh_events_parent intro: succeeds_ret)

lemma err_map_total: "(\<And>x. \<exists>y. f x = Inr y) \<Longrightarrow> \<exists>ys. err_map f xs = Inr ys"
proof (induction xs)
  case (Cons x xs)
  then obtain y ys where "f x = Inr y" "err_map f xs = Inr ys" by blast
  then show ?case by simp
qed simp

lemma s_list_invocations:
  assumes "calm env"
  shows "succeeds (running env rid) (query env (list_tool_invocations (en_load_result env) r)) (\<lambda>_ w. True \<and> running env rid w)"
proof (rule s_query [OF assms])
  fix db
  have "\<exists>y. tool_invocation_from_row (en_load_result env) x = Inr y" for x
  proof (cases "ir_result x")
    case (Some v)
    moreover from assms obtain r where "en_load_result env v = Inr r" unfolding calm_def by blast
    ultimately show ?thesis by (simp add: tool_invocation_from_row_def)
  qed (simp add: tool_invocation_from_row_def)
  then show "\<exists>a. list_tool_invocations (en_load_result env) r db = Inr a \<and> True"
    unfolding list_tool_invocations_def using err_map_total by blast
qed

lemma s_evaluate_candidate:
  assumes "calm (eg_env eg)" "\<forall>k \<in> set (vp_validators pol). vc_kind k \<noteq> VK_command"
    and "run_checks (engine_verifier eg run) (candidate_of eg rq out step ms) pol 0 (vp_validators pol) = Inr ([], evs)"
  shows "succeeds (running (eg_env eg) (id_run d)) (evaluate_candidate eg d rq ms out u step sp pol)
    (\<lambda>r w. (\<exists>dec. r = (dec, ms) \<and> vd_action dec = VA_pass \<and> vd_evidence dec = redact_dict (en_redactor (eg_env eg)) evs) \<and>
       running (eg_env eg) (id_run d) w)"
proof -
  note R = assms(1)
  have c: "\<not> vn_cancelled (candidate_of eg rq out step ms) j" for j by (simp add: candidate_of_def)
  have run: "succeeds (running (eg_env eg) (id_run d)) (query (eg_env eg) (\<lambda>db. Inr (get_run (id_run d) db)))
      (\<lambda>r w. r \<noteq> None \<and> running (eg_env eg) (id_run d) w)"
    by (rule succeeds_post [OF s_run [OF R]]) auto
  have emit: "succeeds (\<lambda>w. fresh_events (eg_env eg) w [ev] \<and> running (eg_env eg) (id_run d) w)
      (emit_and_update (eg_env eg) r no_update [ev\<lparr>ev_parent_span_id := p\<rparr>]) (\<lambda>_. running (eg_env eg) (id_run d))" for ev p r
    using fresh_events_parent [where es = "[ev]"]
    by (intro succeeds_post [OF succeeds_pre [OF s_emit_and_update [OF R, where rid = "id_run d"]]]) simp_all
  show ?thesis
    unfolding evaluate_candidate_def Let_def
    by (rule succeeds_step [OF run], clarify, simp only: option.case, rule succeeds_then [OF s_ensure], rule succeeds_then [OF s_id],
        rule succeeds_bind [OF s_make_event [OF R]], rule succeeds_bind [OF emit],
        rule succeeds_step [OF s_list_invocations [OF R]], rule succeeds_step [OF s_evaluate [OF R c assms(2,3)]],
        simp only: prod.case, rule succeeds_then [OF s_announce_result [OF R]], rule succeeds_ret)
      auto
qed

section \<open>The run\<close>

text \<open>Nothing is to be verified, or every validator, none of them a command, accepts the answer.\<close>

definition accepts :: "engine \<Rightarrow> run_request \<Rightarrow> message list \<Rightarrow> utext \<Rightarrow> nat \<Rightarrow> bool" where
  "accepts eg rq ms out steps \<longleftrightarrow> (case verification_policy_of eg rq of
     Inl e \<Rightarrow> False
   | Inr None \<Rightarrow> True
   | Inr (Some pol) \<Rightarrow> (\<forall>k \<in> set (vp_validators pol). vc_kind k \<noteq> VK_command) \<and>
       (\<exists>run evs. run_checks (engine_verifier eg run) (candidate_of eg rq out steps ms) pol 0 (vp_validators pol) = Inr ([], evs) \<and>
          visit_usage (VDict (redact_dict (en_redactor (eg_env eg)) evs)) = []))"

lemma candidate_of_answer:
  assumes "m_role m = MR_assistant" "m_tool_calls m = None"
  shows "candidate_of eg rq out step (ms @ [m]) = candidate_of eg rq out step ms"
  using assms by (simp add: candidate_of_def ordered_tools_def succeeded_tools_def split: option.splits)

lemma s_accepted:
  assumes R: "calm (eg_env eg)" and acc: "accepts eg rq ms (concat ts) (lp_step st)"
    and st: "concat (lp_output st) = concat ts" "lp_messages st = ms @ [m]" "m_role m = MR_assistant" "m_tool_calls m = None"
    and bud: "u_total_tokens (lp_usage st) \<le> b_max_tokens (rq_budget rq)" "b_max_cost_usd (rq_budget rq) = None"
  shows "succeeds (running (eg_env eg) (id_run d)) (settle_candidate eg d rq sp st)
    (\<lambda>e w. \<exists>r. e = Ended r \<and> ends_completed eg d ts (lp_step st) (u_total_tokens (lp_usage st)) r w)"
proof (cases "\<exists>pol. verification_policy_of eg rq = Inr (Some pol)")
  case False
  with acc have "verification_policy_of eg rq = Inr None" by (auto simp: accepts_def split: sum.splits option.splits)
  from s_settle [OF R this st(1)] show ?thesis .
next
  case True
  then obtain pol where pol: "verification_policy_of eg rq = Inr (Some pol)" by blast
  with acc obtain run evs where v: "\<forall>k \<in> set (vp_validators pol). vc_kind k \<noteq> VK_command"
    "run_checks (engine_verifier eg run) (candidate_of eg rq (concat ts) (lp_step st) ms) pol 0 (vp_validators pol) = Inr ([], evs)"
    "visit_usage (VDict (redact_dict (en_redactor (eg_env eg)) evs)) = []" by (auto simp: accepts_def)
  from v(2) have checks: "run_checks (engine_verifier eg run) (candidate_of eg rq (concat (lp_output st)) (lp_step st) (lp_messages st))
      pol 0 (vp_validators pol) = Inr ([], evs)"
    using candidate_of_answer [OF st(3,4)] st(1,2) by simp
  let ?st = "st\<lparr>lp_usage := update_usage_cost (eg_round eg 10) (rq_pricing rq) (lp_usage st)\<rparr>"
  have tokens: "u_total_tokens (lp_usage ?st) = u_total_tokens (lp_usage st)" by (simp add: update_usage_cost_def Let_def)
  have over: "over_after_verification (rq_budget rq) (lp_usage ?st) = None"
    using bud tokens by (simp add: over_after_verification_def)
  have act: "succeeds (running (eg_env eg) (id_run d)) (act_on_decision eg d rq ?st dec)
      (\<lambda>e w. \<exists>r. e = Ended r \<and> ends_completed eg d ts (lp_step st) (u_total_tokens (lp_usage st)) r w)"
    if "vd_action dec = VA_pass" for dec
    unfolding act_on_decision_def over using that s_finish_run [OF R, of ?st ts d "lp_step st"] st(1) tokens by simp
  have charge: "charge_verification_usage (eg_int eg) dec (lp_usage st) = Inr (lp_usage st)"
    if "vd_evidence dec = redact_dict (en_redactor (eg_env eg)) evs" for dec
    by (simp only: charge_verification_usage_def that v(3) charge_all.simps)
  have same: "st\<lparr>lp_messages := lp_messages st, lp_usage := x\<rparr> = st\<lparr>lp_usage := x\<rparr>" for x by simp
  show ?thesis
    unfolding settle_candidate_def pol lift_err_simps bind_ret option.case
  proof (rule succeeds_step [OF s_evaluate_candidate [OF R v(1) checks]], elim exE conjE)
    fix p and dec :: verification_decision assume p: "p = (dec, lp_messages st)" "vd_action dec = VA_pass"
      "vd_evidence dec = redact_dict (en_redactor (eg_env eg)) evs"
    show "succeeds (running (eg_env eg) (id_run d)) (case p of (dec, ms) \<Rightarrow> bind (sync_messages d ms) (\<lambda>_.
        bind (lift_err (charge_verification_usage (eg_int eg) dec (lp_usage st))) (\<lambda>u. act_on_decision eg d rq
          (st\<lparr>lp_messages := ms, lp_usage := update_usage_cost (eg_round eg 10) (rq_pricing rq) u\<rparr>) dec)))
      (\<lambda>e w. \<exists>r. e = Ended r \<and> ends_completed eg d ts (lp_step st) (u_total_tokens (lp_usage st)) r w)"
      unfolding p(1) prod.case charge [OF p(3)] lift_err_simps bind_ret sync_messages_def same
      by (rule succeeds_then [OF s_set_ctx]) (rule act [OF p(2)])
  qed
qed

text \<open>The context fits its budget without anything being moved out of it.\<close>

definition plan_fits :: "engine \<Rightarrow> ids \<Rightarrow> run_request \<Rightarrow> message list \<Rightarrow> nat \<Rightarrow> context_state option \<Rightarrow> int \<Rightarrow> bool" where
  "plan_fits eg d rq ms step cs k \<longleftrightarrow> (\<exists>bundle. cm_total_tokens (cb_manifest bundle) = k \<and>
     (\<forall>s. plan (eg_planner eg) (id_run d) step ms (tool_specs eg rq)
        (coerce_or_select_state (eg_planner eg) (eg_fs eg) cs (rq_cwd rq) (rq_extra_dirs rq) (rq_system rq) None)
        (Some (b_max_context_tokens (rq_budget rq))) (rq_budget rq) s = (Inr bundle, s)))"

lemma s_plan:
  assumes "calm (eg_env eg)" "plan_fits eg d rq ms step cs k"
  shows "succeeds (waiting (eg_env eg) (id_run d) cs) (plan_context eg (id_run d) rq ms step)
    (\<lambda>b w. cm_total_tokens (cb_manifest b) = k \<and> running (eg_env eg) (id_run d) w)"
proof (rule succeedsI)
  fix w assume w: "waiting (eg_env eg) (id_run d) cs w"
  from assms(2) obtain b where b: "cm_total_tokens (cb_manifest b) = k"
    "\<And>s. plan (eg_planner eg) (id_run d) step ms (tool_specs eg rq)
        (coerce_or_select_state (eg_planner eg) (eg_fs eg) cs (rq_cwd rq) (rq_extra_dirs rq) (rq_system rq) None)
        (Some (b_max_context_tokens (rq_budget rq))) (rq_budget rq) s = (Inr b, s)" by (auto simp: plan_fits_def)
  from w have cs: "rc_context_state (context_of (id_run d) w) = cs" by (simp add: waiting_def ctx_view_def)
  from assms(1) have "\<not> en_crash (eg_env eg) n" for n by (simp add: calm_def)
  then obtain w' where "plan_context eg (id_run d) rq ms step w = (Inr b, w')" "w_db w' = w_db w" "w_tick w \<le> w_tick w'"
    by (simp add: plan_context_def ensure_ctx_def planner_op_def bind_def b(2) cs lift_err_simps set_ctx_def modify_def ret_def Let_def)
  with w b(1) running_later show "\<exists>a w'. plan_context eg (id_run d) rq ms step w = (Inr a, w') \<and>
      cm_total_tokens (cb_manifest a) = k \<and> running (eg_env eg) (id_run d) w'"
    by (auto simp: waiting_def)
qed

lemma accepted_answer:
  assumes "calm (eg_env eg)" "text_provider eg rq ts en" "silent_end eg ts en" "affordable eg rq u step k ts"
    and "plan_fits eg d rq ms step cs k" "accepts eg rq ms (concat ts) (Suc step)" "waiting (eg_env eg) (id_run d) cs w"
  shows "\<exists>res w'. engine_loop eg d rq ms step u completed w = (Inr (Some res), w') \<and>
    ends_completed eg d ts (Suc step) (u_total_tokens u + answer_tokens k ts) res w'"
proof -
  have "succeeds (waiting (eg_env eg) (id_run d) cs) (engine_loop eg d rq ms step u completed)
    (\<lambda>r w. \<exists>res. r = Some res \<and> ends_completed eg d ts (Suc step) (u_total_tokens u + answer_tokens k ts) res w)"
  proof (rule s_answer [OF assms(1-4) s_plan [OF assms(1,5)]])
    fix sp and st' :: loop_state
    assume st: "lp_step st' = Suc step" "concat (lp_output st') = concat ts"
      "u_total_tokens (lp_usage st') = u_total_tokens u + answer_tokens k ts"
      "\<exists>m. m_role m = MR_assistant \<and> m_content m = concat ts \<and> m_tool_calls m = None \<and> lp_messages st' = ms @ [m]"
    then obtain m where m: "m_role m = MR_assistant" "m_tool_calls m = None" "lp_messages st' = ms @ [m]" by blast
    have "u_total_tokens (lp_usage st') \<le> b_max_tokens (rq_budget rq)" "b_max_cost_usd (rq_budget rq) = None"
      using assms(4) st(3) by (simp_all add: affordable_def Let_def)
    from s_accepted [OF assms(1) _ st(2) m(3,1,2) this] assms(6) st(1,3)
    show "succeeds (running (eg_env eg) (id_run d)) (settle_candidate eg d rq sp st')
      (\<lambda>e w. \<exists>r. e = Ended r \<and> ends_completed eg d ts (Suc step) (u_total_tokens u + answer_tokens k ts) r w)"
      by simp
  qed
  with assms(7) show ?thesis by (auto elim: succeedsE)
qed

lemma ends_completed_stored:
  assumes "ends_completed eg d ts steps tokens r w"
  shows "map_option (\<lambda>v. rn_status (rv_row v)) (get_run (id_run d) (w_db w)) = Some RS_completed"
proof -
  from assms have run: "has_run (w_db w) (id_run d)" and st: "stored_status (id_run d) RS_completed w"
    by (simp_all add: ends_completed_def)
  from run obtain x where x: "sql_find rn_id (id_run d) (d_runs (w_db w)) = Some x"
    by (metis not_None_eq sql_find_None_iff sql_has_image)
  with st have "rn_status x = RS_completed" by (auto simp: stored_status_def dest: sql_find_SomeD)
  with x show ?thesis by (simp add: get_run_def decorate_run_def)
qed

section \<open>A concrete run\<close>

text \<open>A calm engine whose provider answers with two letters.\<close>

definition answer_engine :: "stream_stop \<Rightarrow> engine" where
  "answer_engine en = (demo_engine (scripted (map text_item [[65, 66]]) en))\<lparr>eg_env := demo_env\<lparr>en_mono := (\<lambda>_. 0)\<rparr>\<rparr>"

definition answer_request :: "verification_policy option \<Rightarrow> run_request" where
  "answer_request pol = demo_request\<lparr>rq_budget := demo_budget\<lparr>b_context_compact_enabled := False\<rparr>, rq_verification := pol\<rparr>"

definition answer_world :: world where
  "answer_world = demo_world\<lparr>w_runs := [''r'' \<mapsto> new_context\<lparr>rc_context_state := Some demo_state\<rparr>]\<rparr>"

definition letter_policy :: verification_policy where
  "letter_policy = demo_policy [demo_check VK_output [66]]"

lemma inj_replicate: "inj (\<lambda>n. replicate n x)"
  by (rule injI) (metis length_replicate)

lemma answer_calm: "calm (eg_env (answer_engine en))"
  by (simp add: calm_def answer_engine_def demo_env_def inj_replicate)

lemma answer_provider:
  "en \<noteq> StreamTaskCancelled \<Longrightarrow> text_provider (answer_engine en) (answer_request pol) [[65, 66]] en"
  by (simp add: text_provider_def answer_engine_def demo_engine_def scripted_def answer_request_def demo_request_def)

lemma answer_affordable: "affordable (answer_engine en) (answer_request pol) default_usage 0 1 [[65, 66]]"
  by (simp add: affordable_def answer_engine_def answer_request_def demo_budget_def default_usage_def answer_tokens_def
      estimate_tokens_def)

lemma answer_plan: "plan_fits (answer_engine en) demo_ids (answer_request pol) [demo_user] 0 (Some demo_state) 1"
  unfolding plan_fits_def
  by (simp add: plan_def coerce_or_select_state_def render_stable_prefix_def section_part_def text_or_def estimate_tokens_def
      tool_specs_def budget_messages_def demo_groups demo_tokens last_user_def bg_final_def state_manifest_items_def
      answer_engine_def answer_request_def demo_engine_def demo_request_def demo_budget_def demo_planner_def demo_state_def Let_def)

lemma answer_waiting: "waiting (eg_env (answer_engine en)) (id_run demo_ids) (Some demo_state) answer_world"
  by (simp add: waiting_def running_def answer_world_def demo_world_def demo_eval ctx_view_def context_of_def demo_ids_def)

lemma answer_accepts:
  "accepts (answer_engine en) (answer_request None) [demo_user] [65, 66] 1"
  by (simp add: accepts_def verification_policy_of_def answer_request_def demo_request_def meta_dict_def dict_get_def)

lemma letter_policy_of: "verification_policy_of (answer_engine en) (answer_request (Some letter_policy)) = Inr (Some letter_policy)"
  by (simp add: verification_policy_of_def answer_request_def demo_request_def meta_dict_def dict_get_def)

lemma redact_text_demo: "redact_text demo_redactor t = t"
  by (simp add: redact_text_def demo_redactor_def)

lemma letter_keys:
  "\<not> sensitive_key (lit ''passed'')" "\<not> sensitive_key (lit ''reasons'')" "\<not> sensitive_key (lit ''contains'')"
  "\<not> sensitive_key (lit ''not_contains'')" "\<not> sensitive_key (lit ''tools_ordered'')"
  "\<not> sensitive_key (lit ''tools_succeeded'')" "\<not> sensitive_key (lit ''steps'')"
  "\<not> sensitive_key (evidence_key 0 (demo_check VK_output t))" "\<not> sensitive_key [66]"
  "lit ''usage'' \<noteq> [66]" "lit ''usage'' \<noteq> evidence_key 0 (demo_check VK_output t)"
  by (code_simp; fail)+

lemma letter_redactor: "en_redactor (eg_env (answer_engine en)) = demo_redactor"
  by (simp add: answer_engine_def demo_env_def)

lemma letter_accepts:
  "accepts (answer_engine en) (answer_request (Some letter_policy)) [demo_user] [65, 66] 1"
proof -
  let ?ev = "[(evidence_key 0 (demo_check VK_output [66]), redact_obj demo_redactor (VDict
     [(lit ''passed'', VBool True), (lit ''reasons'', strs []), (lit ''contains'', found_dict (\<lambda>n. text_in n [65, 66]) [[66]]),
      (lit ''not_contains'', found_dict (\<lambda>n. \<not> text_in n [65, 66]) []), (lit ''tools_ordered'', strs []),
      (lit ''tools_succeeded'', strs []), (lit ''steps'', VInt 1)]))]"
  have "ordered_tools [demo_user] = []" "succeeded_tools [demo_user] = []"
    by (simp_all add: ordered_tools_def succeeded_tools_def demo_user_def)
  then have "run_checks (engine_verifier (answer_engine en) run) (candidate_of (answer_engine en) (answer_request (Some letter_policy))
      [65, 66] 1 [demo_user]) letter_policy 0 (vp_validators letter_policy) = Inr ([], ?ev)" for run
    by (simp add: letter_policy_def demo_policy_def demo_check_def run_check_def output_check_def raw_assertions_def Let_def
      assertion_lists_def string_list_def max_steps_of_def output_reasons_def candidate_of_def meta_dict_def dict_get_def
      answer_request_def demo_request_def engine_verifier_def letter_redactor)
  moreover have "visit_usage (VDict (redact_dict demo_redactor ?ev)) = []"
    by (simp add: redact_dict_def redact_obj_def redact_text_demo letter_keys strs_def found_dict_def dict_get_def)
  ultimately show ?thesis
    unfolding accepts_def letter_policy_of
    by (auto simp: letter_policy_def demo_policy_def demo_check_def letter_redactor)
qed

end
