(* ===== verification/Run_Guarantees.thy ===== *)
theory Run_Guarantees
  imports Run_Accepted
begin

text \<open>
  What the agent loop guarantees: it ends, a provider is asked again only while nothing was
  streamed, a turn stays within its budgets, the engine's evaluation is the verification loop's,
  and a run completes only if its policy was met.
\<close>

section \<open>The loop ends\<close>

text \<open>
  C5. The agent loop ends: with the fuel the definition gives it, it either raises or returns a
  result, never running out; the result counts no more steps than \<open>max_steps\<close> (or the steps it was
  started with), the provider was attempted at most \<open>max_retries + 1\<close> times for each turn left, and
  the output is the redacted form of at most \<open>max_output_length\<close> characters.
\<close>

theorem engine_loop_terminates:
  "case fst (engine_loop eg d rq ms step u completed w) of
     Inl e \<Rightarrow> True
   | Inr r \<Rightarrow> \<exists>res parts. r = Some res \<and>
       rr_steps res \<le> max (int step) (b_max_steps (rq_budget rq)) \<and>
       length (u_provider_attempts (rr_usage res)) \<le> length (u_provider_attempts u) +
         (nat (b_max_steps (rq_budget rq)) - step) * Suc (rt_max_retries (rq_retry rq)) \<and>
       rr_output res = redact_text (en_redactor (eg_env eg)) (concat parts) \<and>
       int (length (concat parts)) \<le> max 0 (b_max_output_length (rq_budget rq))"
proof (cases "fst (engine_loop eg d rq ms step u completed w)")
  case (Inr r)
  let ?a = "nat (b_max_steps (rq_budget rq)) - step" and ?n = "length (u_provider_attempts u)"
  have "returns (\<lambda>r. \<exists>res. r = Some res \<and> result_within eg rq (max step (nat (b_max_steps (rq_budget rq))))
      (?n + ?a * Suc (rt_max_retries (rq_retry rq))) res) (engine_loop eg d rq ms step u completed)"
    unfolding engine_loop_def loop_fuel_def
    by (intro returns_bind returns_if returns_raise run_loop_ok) (simp_all add: state_ok_def out_ok_def)
  with Inr obtain res where res: "r = Some res"
    "result_within eg rq (max step (nat (b_max_steps (rq_budget rq)))) (?n + ?a * Suc (rt_max_retries (rq_retry rq))) res"
    unfolding returns_def by (metis prod.collapse)
  from res(2) obtain parts where "rr_output res = redact_text (en_redactor (eg_env eg)) (concat parts)" "out_ok rq parts"
    by (auto simp: result_within_def)
  moreover have "int (max step (nat m)) = max (int step) m" if "0 \<le> m" for m using that by simp
  moreover have "rr_steps res \<le> int (max step (nat (b_max_steps (rq_budget rq))))"
    "length (u_provider_attempts (rr_usage res)) \<le> ?n + ?a * Suc (rt_max_retries (rq_retry rq))"
    using res(2) by (simp_all add: result_within_def)
  ultimately show ?thesis using Inr res(1) by (auto simp: out_ok_def)
qed simp

section \<open>Retries are silent\<close>

text \<open>
  C14. A provider is asked again for a turn only while nothing was streamed: the attempts a turn adds
  to the usage number at most \<open>max_retries + 1\<close>, and all but the last of them had no output and
  failed with a retryable kind; the loop over the attempts always ends within that many.
\<close>

theorem provider_retries_silent:
  "case fst (provider_loop (Suc (rt_max_retries (rq_retry (te_request te)))) eg te (first_attempt u) w) of
     Inl e \<Rightarrow> True
   | Inr r \<Rightarrow> \<exists>st new. r = Some st \<and>
       u_provider_attempts (at_usage st) = u_provider_attempts u @ new \<and>
       length new \<le> Suc (rt_max_retries (rq_retry (te_request te))) \<and>
       list_all (\<lambda>a. \<not> pa_had_output a \<and> pa_error_kind a \<in> Some ` retryable_provider_errors) (butlast new)"
proof (cases "fst (provider_loop (Suc (rt_max_retries (rq_retry (te_request te)))) eg te (first_attempt u) w)")
  case (Inr r)
  with first_attempt_ok [of te u eg] have "attempts_ok te 1 u r"
    unfolding returns_def by (metis prod.collapse)
  then obtain st where st: "r = Some st" "new_attempts te 1 u (at_usage st)" by (auto simp: attempts_ok_def)
  then show ?thesis
    unfolding Inr new_attempts_def by (auto simp: list_all_iff image_iff)
qed simp

section \<open>A turn within its budgets\<close>

text \<open>
  C13. However the items of a stream interleave and wherever it breaks off, the turn it leaves has
  distinct call ids whose ordinals are their positions, at most \<open>max_tool_calls_per_turn\<close> of them,
  raw arguments and text within their limits, and the run's counter of tool calls has grown by
  exactly the calls of the turn and never past \<open>max_tool_calls\<close>; the counter bound holds even when
  the operation raises.
\<close>

theorem turn_within_budgets:
  "case consume_stream eg te items en new_turn w of
     (Inl e, w') \<Rightarrow> calls_count (te_run_id te) w' \<le> max (calls_count (te_run_id te) w) (b_max_tool_calls (te_budget te))
   | (Inr a, w') \<Rightarrow> turn_ok te (calls_count (te_run_id te) w) a (calls_count (te_run_id te) w')"
proof -
  let ?n = "calls_count (te_run_id te) w"
  obtain r w' where r: "consume_stream eg te items en new_turn w = (r, w')" by fastforce
  show ?thesis
  proof (cases r)
    case (Inl e)
    with triple_Inl [OF consume_stream_ok turn_ok_new, of eg te items en w e w'] r show ?thesis
      by (simp add: within_calls_def)
  next
    case (Inr a)
    with triple_Inr [OF consume_stream_ok turn_ok_new, of eg te items en w a w'] r show ?thesis by simp
  qed
qed

section \<open>Verification inside the engine\<close>



text \<open>
  C4. A run under a verification policy is reported completed only if some candidate with the
  reported output met the condition of every validator of the policy, where the commands of the
  policy had the results that governed commands returned (for policies that do not list one
  command twice).
\<close>

theorem completion_verified:
  assumes "engine_loop eg d rq ms step u completed w = (Inr (Some res), w')" and "rr_status res = RS_completed"
    and "verification_policy_of eg rq = Inr (Some pol)" and "distinct (command_texts (vp_validators pol))"
  shows "\<exists>out steps msgs u' flags run. rr_output res = redact_text (en_redactor (eg_env eg)) out \<and>
    (\<forall>t \<in> set (command_texts (vp_validators pol)). governed_result eg d rq steps u' run t) \<and>
    (\<forall>k \<in> set (vp_validators pol).
       check_holds (engine_verifier eg run) ((candidate_of eg rq out steps msgs)\<lparr>vn_cancelled := flags\<rparr>) pol k)"
proof -
  have "returns (\<lambda>r. \<forall>res. r = Some res \<longrightarrow> completes_verified eg d rq pol (Ended res)) (engine_loop eg d rq ms step u completed)"
    unfolding engine_loop_def
    by (intro returns_bind returns_if returns_raise run_loop_verified assms)
  with assms(1,2) show ?thesis unfolding returns_def by (fastforce simp: meets_policy_def)
qed

theorem completion_verified_witness:
  "\<exists>res :: run_result. rr_status res = RS_completed \<and>
    (\<exists>out steps msgs u' flags run. rr_output res = redact_text (en_redactor (eg_env (answer_engine StreamClosed))) out \<and>
      (\<forall>t \<in> set (command_texts (vp_validators letter_policy)).
         governed_result (answer_engine StreamClosed) demo_ids (answer_request (Some letter_policy)) steps u' run t) \<and>
      (\<forall>k \<in> set (vp_validators letter_policy). check_holds (engine_verifier (answer_engine StreamClosed) run)
         ((candidate_of (answer_engine StreamClosed) (answer_request (Some letter_policy)) out steps msgs)\<lparr>vn_cancelled := flags\<rparr>)
         letter_policy k))"
proof -
  have end_ok: "silent_end (answer_engine StreamClosed) [[65, 66]] StreamClosed" by (simp add: silent_end_def)
  have accepted: "accepts (answer_engine StreamClosed) (answer_request (Some letter_policy)) [demo_user] (concat [[65, 66]]) (Suc 0)"
    using letter_accepts [of StreamClosed] by simp
  from accepted_answer [OF answer_calm answer_provider end_ok answer_affordable answer_plan accepted answer_waiting, of "[]"]
  obtain res w' where r: "engine_loop (answer_engine StreamClosed) demo_ids (answer_request (Some letter_policy)) [demo_user] 0
      default_usage [] answer_world = (Inr (Some res), w')" "rr_status res = RS_completed"
    unfolding ends_completed_def by blast
  have cmds: "distinct (command_texts (vp_validators letter_policy))"
    by (simp add: command_texts_def letter_policy_def demo_policy_def demo_check_def)
  from completion_verified [OF r letter_policy_of cmds] r(2) show ?thesis by blast
qed

section \<open>An answer becomes the output\<close>

text \<open>
  C3. An answer becomes the output: in an environment without crashes and cancellation, when the
  provider answers with text and no tool call, the context fits, the budgets have room and every
  validator (none of them a command) accepts the answer, the agent loop returns a completed run
  after one step, its output is the redacted text of the whole stream, the usage has grown by the
  tokens of the context and the text, and the store says completed.
\<close>

theorem plain_run_completes:
  assumes "calm (eg_env eg)" "text_provider eg rq ts StreamClosed" "affordable eg rq u step k ts"
    and "plan_fits eg d rq ms step cs k" "accepts eg rq ms (concat ts) (Suc step)" "waiting (eg_env eg) (id_run d) cs w"
  shows "\<exists>res w'. engine_loop eg d rq ms step u completed w = (Inr (Some res), w') \<and>
    rr_status res = RS_completed \<and> rr_error res = None \<and> rr_steps res = int step + 1 \<and>
    rr_output res = redact_text (en_redactor (eg_env eg)) (concat ts) \<and>
    u_total_tokens (rr_usage res) = u_total_tokens u + (k + int (estimate_tokens (concat ts))) \<and>
    map_option (\<lambda>v. rn_status (rv_row v)) (get_run (id_run d) (w_db w')) = Some RS_completed"
proof -
  have "silent_end eg ts StreamClosed" by (simp add: silent_end_def)
  from accepted_answer [OF assms(1,2) this assms(3-6)] obtain res w' where
    r: "engine_loop eg d rq ms step u completed w = (Inr (Some res), w')"
    "ends_completed eg d ts (Suc step) (u_total_tokens u + answer_tokens k ts) res w'" by blast
  from r(2) have "map_option (\<lambda>v. rn_status (rv_row v)) (get_run (id_run d) (w_db w')) = Some RS_completed"
    by (intro ends_completed_stored)
  with r show ?thesis by (auto simp: ends_completed_def answer_tokens_def)
qed

theorem plain_run_completes_witness:
  "\<exists>res w'. engine_loop (answer_engine StreamClosed) demo_ids (answer_request (Some letter_policy)) [demo_user] 0
      default_usage [] answer_world = (Inr (Some res), w') \<and> rr_status res = RS_completed"
proof -
  have accepted: "accepts (answer_engine StreamClosed) (answer_request (Some letter_policy)) [demo_user] (concat [[65, 66]]) (Suc 0)"
    using letter_accepts [of StreamClosed] by simp
  from plain_run_completes [OF answer_calm answer_provider answer_affordable answer_plan accepted answer_waiting, of "[]"]
  show ?thesis by blast
qed

text \<open>
  C16. A silent failure completes: when the provider's stream fails with an exception whose text is
  empty (as of a timeout or a broken connection), and something was streamed before or the kind of
  the failure is not worth a retry, the run is reported completed, without an error, with whatever
  was streamed so far as its output, possibly nothing: the loop tests the message of the error, not
  whether there was one.
\<close>

theorem silent_failure_completes:
  assumes "calm (eg_env eg)" "text_provider eg rq ts (StreamFailed x)" "px_text x = []"
    and "concat ts \<noteq> [] \<or> provider_exception_kind (eg_lower eg) x \<notin> retryable_provider_errors"
    and "affordable eg rq u step k ts" "plan_fits eg d rq ms step cs k"
    and "verification_policy_of eg rq = Inr None" "waiting (eg_env eg) (id_run d) cs w"
  shows "\<exists>res w'. engine_loop eg d rq ms step u completed w = (Inr (Some res), w') \<and>
    rr_status res = RS_completed \<and> rr_error res = None \<and>
    rr_output res = redact_text (en_redactor (eg_env eg)) (concat ts) \<and>
    map_option (\<lambda>v. rn_status (rv_row v)) (get_run (id_run d) (w_db w')) = Some RS_completed"
proof -
  have "silent_end eg ts (StreamFailed x)" using assms(3,4) by (simp add: silent_end_def)
  moreover have "accepts eg rq ms (concat ts) (Suc step)" using assms(7) by (simp add: accepts_def)
  ultimately obtain res w' where
    r: "engine_loop eg d rq ms step u completed w = (Inr (Some res), w')"
    "ends_completed eg d ts (Suc step) (u_total_tokens u + answer_tokens k ts) res w'"
    using accepted_answer [OF assms(1,2) _ assms(5,6) _ assms(8)] by blast
  from r(2) have "map_option (\<lambda>v. rn_status (rv_row v)) (get_run (id_run d) (w_db w')) = Some RS_completed"
    by (intro ends_completed_stored)
  with r show ?thesis by (auto simp: ends_completed_def)
qed

theorem silent_failure_completes_witness:
  "\<exists>x res w'. engine_loop (answer_engine (StreamFailed x)) demo_ids (answer_request None) [demo_user] 0
      default_usage [] answer_world = (Inr (Some res), w') \<and> px_text x = [] \<and> rr_status res = RS_completed"
proof -
  let ?x = "exc_of_error (RuntimeError [])"
  have e: "px_text ?x = []" by (simp add: exc_of_error_def err_text_def)
  have pol: "verification_policy_of (answer_engine (StreamFailed ?x)) (answer_request None) = Inr None"
    by (simp add: verification_policy_of_def answer_request_def demo_request_def meta_dict_def dict_get_def)
  from silent_failure_completes [OF answer_calm answer_provider e _ answer_affordable answer_plan pol answer_waiting]
  show ?thesis using e by (simp, blast)
qed

end
