(* ===== verification/Spec2Isabelle.thy ===== *)
theory Spec2Isabelle
  imports Approval_Policy Tool_Store Event_Log Storage_Internal Storage_Maintenance Artifact_Store Gateway_Safety Storage_Runs Result_Bounds Scheduler Compaction Verification_Loop Sandbox Lease_Heartbeat Recovery_Gap Run_Guarantees
begin

text \<open>Verification development of agentharness.\<close>

end
